(* ===== verification/Axv_Prelude.thy ===== *)
theory Axv_Prelude
  imports Main "HOL-Library.Word" "HOL-Library.Sublist"
    "HOL-Library.Char_ord" "HOL-Library.List_Lexorder" "HOL-Library.Product_Lexorder"
begin

text \<open>
  Shared vocabulary of the development: the names of the machine integer types,
  the error values of the \<^verbatim>\<open>axerrno\<close> crate that the sources construct, the outcome of
  code that may panic, and the part of Rust's string and slice library that the
  sources use, with the lemmas about it that several components need.

  A Rust \<^verbatim>\<open>String\<close> or \<^verbatim>\<open>&str\<close> is a list of characters. The model is exact for ASCII
  text, where a byte index and a character index are the same number; paths, device
  names, configuration keys and shell commands of the sources are ASCII.
\<close>

section \<open>Machine integers\<close>

type_synonym u8 = "8 word"
type_synonym u16 = "16 word"
type_synonym u32 = "32 word"
type_synonym u64 = "64 word"
type_synonym usize = "64 word"

section \<open>Errors and panics\<close>

text \<open>The variants of \<^verbatim>\<open>AxError\<close> that occur in the sources.\<close>

datatype ax_error =
    AlreadyExists | BadState | DirectoryNotEmpty | InvalidData | InvalidInput | Io
  | IsADirectory | NoMemory | NotADirectory | NotFound | PermissionDenied | StorageFull | UnexpectedEof
  | Unsupported | WriteZero

type_synonym 'a ax_result = "ax_error + 'a"

text \<open>
  Code that may reach an \<^verbatim>\<open>unwrap\<close>, \<^verbatim>\<open>expect\<close>, \<^verbatim>\<open>assert\<close> or \<^verbatim>\<open>unimplemented\<close> returns an
  outcome: it either finishes with a value or panics with a reason.
\<close>

datatype 'a outcome = Done 'a | Panic string

primrec outcome_bind :: "'a outcome \<Rightarrow> ('a \<Rightarrow> 'b outcome) \<Rightarrow> 'b outcome" where
  "outcome_bind (Done x) f = f x"
| "outcome_bind (Panic s) f = Panic s"

text \<open>\<^verbatim>\<open>Option::ok_or\<close>, and the early return of the \<^verbatim>\<open>?\<close> operator.\<close>

definition ok_or :: "'e \<Rightarrow> 'a option \<Rightarrow> 'e + 'a" where
  "ok_or e x = (case x of None \<Rightarrow> Inl e | Some v \<Rightarrow> Inr v)"

definition try_bind :: "('e + 'a) \<Rightarrow> ('a \<Rightarrow> 'e + 'b) \<Rightarrow> 'e + 'b" where
  "try_bind x f = (case x of Inl e \<Rightarrow> Inl e | Inr v \<Rightarrow> f v)"

lemma ok_or_simps [simp]:
  "ok_or e None = Inl e" "ok_or e (Some v) = Inr v"
  by (simp_all add: ok_or_def)

lemma ok_or_eq_Inr [simp]: "ok_or e x = Inr v \<longleftrightarrow> x = Some v"
  by (cases x) auto

lemma try_bind_simps [simp]:
  "try_bind (Inl e) f = Inl e" "try_bind (Inr v) f = f v"
  by (simp_all add: try_bind_def)

lemma try_bind_eq_Inr [simp]: "try_bind x f = Inr b \<longleftrightarrow> (\<exists>a. x = Inr a \<and> f a = Inr b)"
  by (cases x) auto

lemma outcome_bind_eq_Done [simp]:
  "outcome_bind x f = Done b \<longleftrightarrow> (\<exists>a. x = Done a \<and> f a = Done b)"
  by (cases x) auto

section \<open>Strings\<close>

text \<open>\<^verbatim>\<open>str::strip_prefix\<close>, \<^verbatim>\<open>starts_with\<close>, \<^verbatim>\<open>ends_with\<close>, \<^verbatim>\<open>contains\<close>.\<close>

fun strip_prefix_of :: "string \<Rightarrow> string \<Rightarrow> string option" where
  "strip_prefix_of [] s = Some s"
| "strip_prefix_of (c # p) [] = None"
| "strip_prefix_of (c # p) (d # s) = (if c = d then strip_prefix_of p s else None)"

definition starts_with :: "string \<Rightarrow> string \<Rightarrow> bool" where
  "starts_with s p = (strip_prefix_of p s \<noteq> None)"

definition ends_with :: "string \<Rightarrow> string \<Rightarrow> bool" where
  "ends_with s p = starts_with (rev s) (rev p)"

fun str_contains :: "string \<Rightarrow> string \<Rightarrow> bool" where
  "str_contains [] p = (p = [])"
| "str_contains (c # s) p = (starts_with (c # s) p \<or> str_contains s p)"

lemma strip_prefix_of_eq_Some [simp]: "strip_prefix_of p s = Some r \<longleftrightarrow> s = p @ r"
  by (induction p s rule: strip_prefix_of.induct) auto

lemma strip_prefix_of_eq_None: "strip_prefix_of p s = None \<longleftrightarrow> \<not> prefix p s"
  by (induction p s rule: strip_prefix_of.induct) auto

lemma starts_with_prefix: "starts_with s p \<longleftrightarrow> prefix p s"
  by (simp add: starts_with_def strip_prefix_of_eq_None)

lemma ends_with_suffix: "ends_with s p \<longleftrightarrow> suffix p s"
  by (simp add: ends_with_def starts_with_prefix suffix_to_prefix)

lemma str_contains_sublist: "str_contains s p \<longleftrightarrow> sublist p s"
  by (induction s p rule: str_contains.induct)
    (auto simp: starts_with_prefix sublist_Cons_right)

text \<open>\<^verbatim>\<open>str::trim_matches(c)\<close>, \<^verbatim>\<open>trim_end_matches(c)\<close> and \<^verbatim>\<open>trim\<close>.\<close>

definition trim_start_matches :: "(char \<Rightarrow> bool) \<Rightarrow> string \<Rightarrow> string" where
  "trim_start_matches P s = dropWhile P s"

definition trim_end_matches :: "(char \<Rightarrow> bool) \<Rightarrow> string \<Rightarrow> string" where
  "trim_end_matches P s = rev (dropWhile P (rev s))"

definition trim_matches :: "(char \<Rightarrow> bool) \<Rightarrow> string \<Rightarrow> string" where
  "trim_matches P s = trim_end_matches P (trim_start_matches P s)"

text \<open>\<^verbatim>\<open>char::is_whitespace\<close> on ASCII: tab, line feed, vertical tab, form feed, carriage
  return and space.\<close>

definition is_whitespace :: "char \<Rightarrow> bool" where
  "is_whitespace c = (let n = (of_char c :: nat) in n = 32 \<or> (9 \<le> n \<and> n \<le> 13))"

definition str_trim :: "string \<Rightarrow> string" where
  "str_trim s = trim_matches is_whitespace s"

text \<open>\<^verbatim>\<open>str::split_whitespace\<close> and \<^verbatim>\<open>[String]::join\<close>.\<close>

fun split_ws_acc :: "string \<Rightarrow> string \<Rightarrow> string list" where
  "split_ws_acc cur [] = (if cur = [] then [] else [rev cur])"
| "split_ws_acc cur (c # s) =
     (if is_whitespace c
      then (if cur = [] then split_ws_acc [] s else rev cur # split_ws_acc [] s)
      else split_ws_acc (c # cur) s)"

definition str_split_whitespace :: "string \<Rightarrow> string list" where
  "str_split_whitespace s = split_ws_acc [] s"

fun str_join :: "string \<Rightarrow> string list \<Rightarrow> string" where
  "str_join sep [] = []"
| "str_join sep [x] = x"
| "str_join sep (x # y # xs) = x @ sep @ str_join sep (y # xs)"

text \<open>The format \<^verbatim>\<open>{:<n}\<close> pads on the right.\<close>

definition pad_right :: "nat \<Rightarrow> string \<Rightarrow> string" where
  "pad_right n s = s @ replicate (n - length s) CHR '' ''"

text \<open>\<^verbatim>\<open>str::find(c)\<close>: the index of the first occurrence.\<close>

fun str_find :: "char \<Rightarrow> string \<Rightarrow> nat option" where
  "str_find c [] = None"
| "str_find c (d # s) = (if c = d then Some 0 else map_option Suc (str_find c s))"

lemma str_find_Some:
  "str_find c s = Some i \<Longrightarrow> i < length s \<and> s ! i = c \<and> c \<notin> set (take i s)"
  by (induction s arbitrary: i) (auto split: if_splits)

lemma str_find_None: "str_find c s = None \<longleftrightarrow> c \<notin> set s"
  by (induction s) auto

lemma str_find_append: "c \<notin> set u \<Longrightarrow> str_find c (u @ c # v) = Some (length u)"
  by (induction u) auto

text \<open>ASCII case conversion, as \<^verbatim>\<open>to_uppercase\<close> and \<^verbatim>\<open>to_lowercase\<close> do on ASCII text.\<close>

definition char_upper :: "char \<Rightarrow> char" where
  "char_upper c = (let n = (of_char c :: nat) in if 97 \<le> n \<and> n \<le> 122 then char_of (n - 32) else c)"

definition char_lower :: "char \<Rightarrow> char" where
  "char_lower c = (let n = (of_char c :: nat) in if 65 \<le> n \<and> n \<le> 90 then char_of (n + 32) else c)"

definition to_uppercase :: "string \<Rightarrow> string" where
  "to_uppercase s = map char_upper s"

definition to_lowercase :: "string \<Rightarrow> string" where
  "to_lowercase s = map char_lower s"

text \<open>
  \<^verbatim>\<open>str::parse::<usize>\<close>: an optional plus sign, then at least one decimal digit and
  nothing else; a value that does not fit in 64 bits is an error.
\<close>

definition digit_val :: "char \<Rightarrow> nat option" where
  "digit_val c = (let n = (of_char c :: nat) in if 48 \<le> n \<and> n \<le> 57 then Some (n - 48) else None)"

fun parse_digits :: "nat \<Rightarrow> string \<Rightarrow> nat option" where
  "parse_digits acc [] = Some acc"
| "parse_digits acc (c # s) =
     (case digit_val c of
        None \<Rightarrow> None
      | Some d \<Rightarrow> if acc * 10 + d < 2 ^ 64 then parse_digits (acc * 10 + d) s else None)"

definition parse_usize :: "string \<Rightarrow> usize option" where
  "parse_usize s =
     (let t = (case s of CHR ''+'' # r \<Rightarrow> r | _ \<Rightarrow> s)
      in if t = [] then None else map_option of_nat (parse_digits 0 t))"

text \<open>Decimal printing of a natural number, as \<^verbatim>\<open>{}\<close> formats an unsigned integer.\<close>

function show_nat :: "nat \<Rightarrow> string" where
  "show_nat n =
     (if n < 10 then [char_of (48 + n)] else show_nat (n div 10) @ [char_of (48 + n mod 10)])"
  by pat_completeness auto
termination
  by (relation "measure id") auto

declare show_nat.simps [simp del]

section \<open>Printing and parsing numbers, splitting words\<close>

lemma digit_val_char: "d < 10 \<Longrightarrow> digit_val (char_of (48 + d)) = Some d"
  by (simp add: digit_val_def of_char_of)

lemma parse_digits_append:
  "parse_digits acc (s @ t) = (case parse_digits acc s of Some v \<Rightarrow> parse_digits v t | None \<Rightarrow> None)"
  by (induction acc s rule: parse_digits.induct) (auto split: option.splits)

lemma parse_digits_show_nat: "n < 2 ^ 64 \<Longrightarrow> parse_digits 0 (show_nat n) = Some n"
proof (induction n rule: show_nat.induct)
  case (1 n)
  show ?case
  proof (cases "n < 10")
    case True
    then show ?thesis using digit_val_char[of n] 1(2) by (simp add: show_nat.simps)
  next
    case False
    then have "parse_digits 0 (show_nat (n div 10)) = Some (n div 10)" using 1 by simp
    then show ?thesis using False digit_val_char[of "n mod 10"] 1(2)
      by (subst show_nat.simps) (simp add: parse_digits_append)
  qed
qed

lemma show_nat_first: "\<exists>d s. d < (10 :: nat) \<and> show_nat n = char_of (48 + d) # s"
proof (induction n rule: show_nat.induct)
  case (1 n)
  show ?case
  proof (cases "n < 10")
    case True
    then show ?thesis by (subst show_nat.simps) auto
  next
    case False
    with 1 obtain d s where "d < (10 :: nat)" "show_nat (n div 10) = char_of (48 + d) # s" by auto
    then show ?thesis using False by (subst show_nat.simps) auto
  qed
qed

lemma parse_usize_Cons: "c \<noteq> CHR ''+'' \<Longrightarrow> parse_usize (c # s) = map_option of_nat (parse_digits 0 (c # s))"
  unfolding parse_usize_def by (cases c) (auto simp: Let_def split: bool.splits)

lemma parse_usize_show_nat: "n < 2 ^ 64 \<Longrightarrow> parse_usize (show_nat n) = Some (of_nat n)"
proof -
  assume n: "n < 2 ^ 64"
  obtain d s where d: "d < (10 :: nat)" "show_nat n = char_of (48 + d) # s" using show_nat_first by blast
  have "of_char (char_of (48 + d) :: char) = 48 + d" using d(1) by (simp add: of_char_of)
  then have "char_of (48 + d) \<noteq> CHR ''+''" by (auto dest: arg_cong[of _ _ "of_char :: char \<Rightarrow> nat"])
  then show ?thesis using parse_digits_show_nat[OF n] d(2) by (simp add: parse_usize_Cons del: parse_digits.simps)
qed

lemma split_ws_acc_word:
  "\<forall>c \<in> set w. \<not> is_whitespace c \<Longrightarrow> split_ws_acc cur (w @ s) = split_ws_acc (rev w @ cur) s"
  by (induction w arbitrary: cur) auto

lemma split_whitespace_join:
  "\<forall>w \<in> set ws. w \<noteq> [] \<and> (\<forall>c \<in> set w. \<not> is_whitespace c) \<Longrightarrow> str_split_whitespace (str_join '' '' ws) = ws"
  unfolding str_split_whitespace_def
proof (induction "'' ''" ws rule: str_join.induct)
  case (2 x)
  then show ?case using split_ws_acc_word[of x "[]" "[]"] by simp
next
  case (3 x y xs)
  then show ?case using split_ws_acc_word[of x "[]" "CHR '' '' # str_join '' '' (y # xs)"] by (simp add: is_whitespace_def)
qed simp

section \<open>Bytes\<close>

text \<open>\<^verbatim>\<open>from_le_bytes\<close> and \<^verbatim>\<open>from_be_bytes\<close> on a byte list.\<close>

fun le_bytes_nat :: "u8 list \<Rightarrow> nat" where
  "le_bytes_nat [] = 0"
| "le_bytes_nat (b # bs) = unat b + 256 * le_bytes_nat bs"

definition be_bytes_nat :: "u8 list \<Rightarrow> nat" where
  "be_bytes_nat bs = le_bytes_nat (rev bs)"

definition le_u16 :: "u8 list \<Rightarrow> u16" where "le_u16 bs = of_nat (le_bytes_nat bs)"
definition le_u32 :: "u8 list \<Rightarrow> u32" where "le_u32 bs = of_nat (le_bytes_nat bs)"
definition le_u64 :: "u8 list \<Rightarrow> u64" where "le_u64 bs = of_nat (le_bytes_nat bs)"
definition be_u32 :: "u8 list \<Rightarrow> u32" where "be_u32 bs = of_nat (be_bytes_nat bs)"

text \<open>The sub-slice \<^verbatim>\<open>&bs[i..j]\<close> of a slice that is long enough.\<close>

definition slice :: "nat \<Rightarrow> nat \<Rightarrow> 'a list \<Rightarrow> 'a list" where
  "slice i j xs = take (j - i) (drop i xs)"

lemma length_slice [simp]: "i \<le> j \<Longrightarrow> j \<le> length xs \<Longrightarrow> length (slice i j xs) = j - i"
  by (simp add: slice_def)

lemma nth_slice: "i + k < j \<Longrightarrow> j \<le> length xs \<Longrightarrow> slice i j xs ! k = xs ! (i + k)"
  by (simp add: slice_def)

lemma le_bytes_nat_bound: "le_bytes_nat bs < 256 ^ length bs"
proof (induction bs)
  case Nil
  show ?case by simp
next
  case (Cons b bs)
  have "unat b < 2 ^ LENGTH(8)" by (rule unsigned_less)
  then have "unat b < 256" by simp
  with Cons.IH show ?case by simp
qed

section \<open>Words\<close>

lemma unat_minus_le: "(b :: 'a::len word) \<le> a \<Longrightarrow> unat (a - b) = unat a - unat b"
  by (rule unat_sub)

lemma unat_plus_small:
  "unat a + unat b < 2 ^ LENGTH('a) \<Longrightarrow> unat ((a :: 'a::len word) + b) = unat a + unat b"
  by (simp add: unat_word_ariths)

lemma unat_times_small:
  "unat a * unat b < 2 ^ LENGTH('a) \<Longrightarrow> unat ((a :: 'a::len word) * b) = unat a * unat b"
  by (simp add: unat_word_ariths)

lemma unat_ucast_small:
  "unat w < 2 ^ LENGTH('b) \<Longrightarrow> unat (ucast (w :: 'a::len word) :: 'b::len word) = unat w"
  by (simp add: unsigned_ucast_eq take_bit_nat_eq_self)

lemma unat_ucast_up: "LENGTH('a) \<le> LENGTH('b) \<Longrightarrow> unat (ucast (w :: 'a::len word) :: 'b::len word) = unat w"
  by (rule unat_ucast_small) (rule less_le_trans[OF unsigned_less], simp)

end
