(* ===== verification/Axv_BTreeMap.thy ===== *)
theory Axv_BTreeMap
  imports Axv_Prelude "HOL-Library.Multiset"
begin

text \<open>
  Rust's \<^verbatim>\<open>BTreeMap\<close>, as the sources use it: a finite map that is iterated in key order.
  The model is an association list with strictly increasing keys. The contract that the
  components rely on is the locale \<open>ordered_map\<close>; the facts that follow from the contract
  alone are proved inside it, and the list model is its interpretation \<open>bt\<close>.

  The second locale, \<open>transition_system\<close>, is the shape of the safety arguments of the
  stateful components: an invariant that the initial state has and every step keeps.
\<close>

section \<open>The list model\<close>

type_synonym ('k, 'v) btree = "('k \<times> 'v) list"

definition bt_get :: "'k \<Rightarrow> ('k, 'v) btree \<Rightarrow> 'v option" where
  "bt_get k m = map_of m k"

fun bt_insert :: "'k::linorder \<Rightarrow> 'v \<Rightarrow> ('k, 'v) btree \<Rightarrow> ('k, 'v) btree" where
  "bt_insert k v [] = [(k, v)]"
| "bt_insert k v (p # m) =
     (if k < fst p then (k, v) # p # m
      else if k = fst p then (k, v) # m
      else p # bt_insert k v m)"

definition bt_remove :: "'k \<Rightarrow> ('k, 'v) btree \<Rightarrow> ('k, 'v) btree" where
  "bt_remove k m = filter (\<lambda>p. fst p \<noteq> k) m"

definition bt_contains_key :: "'k \<Rightarrow> ('k, 'v) btree \<Rightarrow> bool" where
  "bt_contains_key k m = (bt_get k m \<noteq> None)"

definition bt_inv :: "('k::linorder, 'v) btree \<Rightarrow> bool" where
  "bt_inv m = sorted_wrt (<) (map fst m)"

definition bt_entries :: "('k, 'v) btree \<Rightarrow> ('k \<times> 'v) list" where
  "bt_entries m = m"

lemma alist_by_keys:
  "distinct (map fst xs) \<Longrightarrow> map (\<lambda>k. (k, the (map_of xs k))) (map fst xs) = xs"
  by (simp add: o_def) (rule map_idI, auto)

section \<open>The contract\<close>

locale ordered_map =
  fixes empty :: "'m"
    and get :: "'k::linorder \<Rightarrow> 'm \<Rightarrow> 'v option"
    and ins :: "'k \<Rightarrow> 'v \<Rightarrow> 'm \<Rightarrow> 'm"
    and del :: "'k \<Rightarrow> 'm \<Rightarrow> 'm"
    and entries :: "'m \<Rightarrow> ('k \<times> 'v) list"
    and inv :: "'m \<Rightarrow> bool"
  assumes inv_empty: "inv empty"
    and inv_ins: "inv m \<Longrightarrow> inv (ins k v m)"
    and inv_del: "inv m \<Longrightarrow> inv (del k m)"
    and get_empty: "get k empty = None"
    and get_ins: "inv m \<Longrightarrow> get k' (ins k v m) = (if k' = k then Some v else get k' m)"
    and get_del: "inv m \<Longrightarrow> get k' (del k m) = (if k' = k then None else get k' m)"
    and entries_get: "inv m \<Longrightarrow> (k, v) \<in> set (entries m) \<longleftrightarrow> get k m = Some v"
    and entries_sorted: "inv m \<Longrightarrow> sorted_wrt (<) (map fst (entries m))"
begin

lemma entries_distinct: "inv m \<Longrightarrow> distinct (map fst (entries m))"
  by (drule entries_sorted) (simp add: strict_sorted_iff)

lemma entries_map_of:
  assumes "inv m"
  shows "map_of (entries m) k = get k m"
proof (cases "get k m")
  case None
  with entries_get [OF assms] have "k \<notin> fst ` set (entries m)" by force
  with None show ?thesis by (simp add: map_of_eq_None_iff)
next
  case (Some v)
  with entries_get [OF assms] have "(k, v) \<in> set (entries m)" by blast
  with Some entries_distinct [OF assms] show ?thesis by simp
qed

lemma keys_get:
  assumes "inv m"
  shows "fst ` set (entries m) = {k. get k m \<noteq> None}"
proof -
  have "fst ` set (entries m) = {k. \<exists>v. (k, v) \<in> set (entries m)}" by force
  then show ?thesis using assms by (simp add: entries_get)
qed

lemma keys_ins: "inv m \<Longrightarrow> fst ` set (entries (ins k v m)) = insert k (fst ` set (entries m))"
  by (auto simp: keys_get inv_ins get_ins split: if_splits)

lemma keys_del: "inv m \<Longrightarrow> fst ` set (entries (del k m)) = fst ` set (entries m) - {k}"
  by (auto simp: keys_get inv_del get_del split: if_splits)

text \<open>Two maps with the same lookups are iterated in the same order.\<close>

lemma entries_ext:
  assumes "inv m" "inv m'" and eq: "\<And>k. get k m = get k m'"
  shows "entries m = entries m'"
proof -
  have set_eq: "set (entries m) = set (entries m')"
    using entries_get [OF \<open>inv m\<close>] entries_get [OF \<open>inv m'\<close>] eq by auto
  then have keys: "map fst (entries m) = map fst (entries m')"
    by (intro strict_sorted_equal entries_sorted assms) simp
  have maps: "map_of (entries m) = map_of (entries m')"
    using eq entries_map_of [OF \<open>inv m\<close>] entries_map_of [OF \<open>inv m'\<close>] by (simp add: fun_eq_iff)
  have "entries m = map (\<lambda>k. (k, the (map_of (entries m) k))) (map fst (entries m))"
    using alist_by_keys [OF entries_distinct [OF \<open>inv m\<close>]] by (rule sym)
  also have "\<dots> = map (\<lambda>k. (k, the (map_of (entries m') k))) (map fst (entries m'))"
    by (simp only: keys maps)
  also have "\<dots> = entries m'"
    by (rule alist_by_keys [OF entries_distinct [OF \<open>inv m'\<close>]])
  finally show ?thesis .
qed

lemma length_entries: "inv m \<Longrightarrow> length (entries m) = card (fst ` set (entries m))"
  using distinct_card [OF entries_distinct, of m] by simp

lemma length_ins_fresh:
  assumes "inv m" "get k m = None"
  shows "length (entries (ins k v m)) = Suc (length (entries m))"
proof -
  have "k \<notin> fst ` set (entries m)"
    using assms by (auto simp: keys_get)
  then show ?thesis
    using assms by (simp add: length_entries keys_ins inv_ins)
qed

lemma length_del_present:
  assumes "inv m" "get k m = Some v"
  shows "length (entries m) = Suc (length (entries (del k m)))"
proof -
  have "k \<in> fst ` set (entries m)"
    using assms by (auto simp: keys_get)
  then have "card (fst ` set (entries m)) = Suc (card (fst ` set (entries m) - {k}))"
    by (intro card.remove) simp_all
  then show ?thesis
    using assms by (simp add: length_entries keys_del inv_del)
qed

text \<open>Removing a key that was just added, or adding a key twice.\<close>

lemma del_ins_fresh:
  "inv m \<Longrightarrow> get k m = None \<Longrightarrow> entries (del k (ins k v m)) = entries m"
  by (rule entries_ext) (auto simp: inv_ins inv_del get_ins get_del)

lemma ins_ins: "inv m \<Longrightarrow> entries (ins k v (ins k w m)) = entries (ins k v m)"
  by (rule entries_ext) (auto simp: inv_ins get_ins)

lemmas map_laws = inv_empty inv_ins inv_del get_empty get_ins get_del

end

section \<open>The list model meets the contract\<close>

lemma bt_insert_keys: "set (map fst (bt_insert k v m)) = insert k (set (map fst m))"
  by (induction k v m rule: bt_insert.induct) auto

lemma bt_inv_insert: "bt_inv m \<Longrightarrow> bt_inv (bt_insert k v m)"
proof (induction k v m rule: bt_insert.induct)
  case (1 k v)
  show ?case by (simp add: bt_inv_def)
next
  case (2 k v p m)
  then show ?case
    using bt_insert_keys [of k v m] by (auto simp: bt_inv_def)
qed

lemma bt_inv_remove: "bt_inv m \<Longrightarrow> bt_inv (bt_remove k m)"
  by (induction m) (auto simp: bt_inv_def bt_remove_def)

lemma bt_get_insert: "bt_get k' (bt_insert k v m) = (if k' = k then Some v else bt_get k' m)"
  by (induction k v m rule: bt_insert.induct) (auto simp: bt_get_def)

lemma bt_get_remove: "bt_get k' (bt_remove k m) = (if k' = k then None else bt_get k' m)"
  by (induction m) (auto simp: bt_get_def bt_remove_def)

lemma bt_entries_get: "bt_inv m \<Longrightarrow> (k, v) \<in> set m \<longleftrightarrow> bt_get k m = Some v"
  by (simp add: bt_get_def bt_inv_def strict_sorted_iff)

lemma bt_inv_Nil: "bt_inv []"
  by (simp add: bt_inv_def)

lemma bt_get_Nil [simp]: "bt_get k [] = None"
  by (simp add: bt_get_def)

lemma bt_entries_mem: "bt_inv m \<Longrightarrow> (k, v) \<in> set (bt_entries m) \<longleftrightarrow> bt_get k m = Some v"
  by (simp only: bt_entries_def bt_entries_get)

lemma bt_entries_sorted: "bt_inv m \<Longrightarrow> sorted_wrt (<) (map fst (bt_entries m))"
  by (simp add: bt_inv_def bt_entries_def)

interpretation bt: ordered_map "[]" bt_get bt_insert bt_remove bt_entries bt_inv
  by unfold_locales
    (rule bt_inv_Nil bt_inv_insert bt_inv_remove bt_get_Nil bt_get_insert bt_get_remove
       bt_entries_mem bt_entries_sorted; assumption)+

lemmas bt_simps [simp] = bt_get_insert bt_get_remove bt_inv_insert bt_inv_remove bt_inv_Nil

lemma bt_remove_absent: "bt_get k m = None \<Longrightarrow> bt_remove k m = m"
  by (induction m) (auto simp: bt_get_def bt_remove_def split: if_splits)

lemma bt_get_in_set: "bt_get k m = Some v \<Longrightarrow> (k, v) \<in> set m"
  by (simp add: bt_get_def map_of_SomeD)

lemma bt_mset_remove:
  "bt_inv m \<Longrightarrow> bt_get k m = Some v \<Longrightarrow> mset m = add_mset (k, v) (mset (bt_remove k m))"
proof (induction m)
  case Nil
  then show ?case by simp
next
  case (Cons p m)
  show ?case
  proof (cases "fst p = k")
    case True
    then have "bt_get k m = None"
      using Cons.prems(1) by (auto simp: bt_inv_def bt_get_def map_of_eq_None_iff)
    with True Cons.prems(2) show ?thesis
      using bt_remove_absent [of k m] by (cases p) (auto simp: bt_get_def bt_remove_def)
  next
    case False
    with Cons show ?thesis by (cases p) (auto simp: bt_inv_def bt_get_def bt_remove_def)
  qed
qed

lemma bt_insert_remove [simp]: "bt_inv m \<Longrightarrow> bt_insert k v (bt_remove k m) = bt_insert k v m"
  using bt.entries_ext [of "bt_insert k v (bt_remove k m)" "bt_insert k v m"]
  by (simp add: bt_entries_def)

lemma bt_remove_insert [simp]: "bt_inv m \<Longrightarrow> bt_remove k (bt_insert k v m) = bt_remove k m"
  using bt.entries_ext [of "bt_remove k (bt_insert k v m)" "bt_remove k m"]
  by (simp add: bt_entries_def)

lemma bt_mset_insert:
  "bt_inv m \<Longrightarrow> mset (bt_insert k v m) = add_mset (k, v) (mset (bt_remove k m))"
proof -
  assume inv: "bt_inv m"
  have "mset (bt_insert k v m) = add_mset (k, v) (mset (bt_remove k (bt_insert k v m)))"
    using inv by (intro bt_mset_remove) auto
  then show ?thesis using inv by simp
qed

lemma bt_insert_nonempty [simp]: "bt_insert k v m \<noteq> []"
  by (cases m) auto

lemma bt_set_insert: "bt_inv m \<Longrightarrow> set (bt_insert k v m) = insert (k, v) (set (bt_remove k m))"
  by (metis bt_mset_insert set_mset_add_mset_insert set_mset_mset)

lemma bt_set_remove: "set (bt_remove k m) = {p \<in> set m. fst p \<noteq> k}"
  by (auto simp: bt_remove_def)

section \<open>Invariants of transition systems\<close>

locale transition_system =
  fixes init :: "'s \<Rightarrow> bool"
    and step :: "'s \<Rightarrow> 's \<Rightarrow> bool"
    and inv :: "'s \<Rightarrow> bool"
  assumes init_inv: "init s \<Longrightarrow> inv s"
    and step_inv: "step s t \<Longrightarrow> inv s \<Longrightarrow> inv t"
begin

lemma run_inv: "step\<^sup>*\<^sup>* s t \<Longrightarrow> inv s \<Longrightarrow> inv t"
  by (induction rule: rtranclp_induct) (auto intro: step_inv)

lemma reachable_inv: "init s \<Longrightarrow> step\<^sup>*\<^sup>* s t \<Longrightarrow> inv t"
  by (auto intro: run_inv init_inv)

end

end
