(* ===== verification/VM_List.thy ===== *)
theory VM_List
  imports Axv_BTreeMap
begin

text \<open>
  The global table of virtual machines, \<^verbatim>\<open>kernel/src/vmm/vm_list.rs\<close>: a \<^verbatim>\<open>BTreeMap\<close> from VM
  identifiers to shared VM references behind one mutex. A VM reference is a value of the type
  variable \<open>'vm\<close>; its identifier, \<^verbatim>\<open>vm.id()\<close>, belongs to the \<^verbatim>\<open>axvm\<close> crate and is the parameter
  \<open>id_of\<close>. The abstract specification is a partial map in which the first VM pushed under an
  identifier stays until it is removed.
\<close>

section \<open>The table\<close>

record 'vm VMList =
  vm_list :: "(usize, 'vm) btree"

definition VMList_new :: "'vm VMList" where
  "VMList_new = \<lparr>vm_list = []\<rparr>"

definition VMList_push_vm :: "usize \<Rightarrow> 'vm \<Rightarrow> 'vm VMList \<Rightarrow> 'vm VMList" where
  "VMList_push_vm vm_id vm l =
     (if bt_contains_key vm_id (vm_list l) then l
      else l\<lparr>vm_list := bt_insert vm_id vm (vm_list l)\<rparr>)"

definition VMList_remove_vm :: "usize \<Rightarrow> 'vm VMList \<Rightarrow> 'vm option \<times> 'vm VMList" where
  "VMList_remove_vm vm_id l =
     (bt_get vm_id (vm_list l), l\<lparr>vm_list := bt_remove vm_id (vm_list l)\<rparr>)"

definition VMList_get_vm_by_id :: "usize \<Rightarrow> 'vm VMList \<Rightarrow> 'vm option" where
  "VMList_get_vm_by_id vm_id l = bt_get vm_id (vm_list l)"

section \<open>The operations on the global table\<close>

definition push_vm :: "('vm \<Rightarrow> usize) \<Rightarrow> 'vm \<Rightarrow> 'vm VMList \<Rightarrow> 'vm VMList" where
  "push_vm id_of vm g = VMList_push_vm (id_of vm) vm g"

definition remove_vm :: "usize \<Rightarrow> 'vm VMList \<Rightarrow> 'vm option \<times> 'vm VMList" where
  "remove_vm vm_id g = VMList_remove_vm vm_id g"

definition get_vm_by_id :: "usize \<Rightarrow> 'vm VMList \<Rightarrow> 'vm option" where
  "get_vm_by_id vm_id g = VMList_get_vm_by_id vm_id g"

definition get_vm_list :: "'vm VMList \<Rightarrow> 'vm list" where
  "get_vm_list g = map snd (bt_entries (vm_list g))"

text \<open>\<^verbatim>\<open>with_vm\<close> and \<^verbatim>\<open>with_vm_and_vcpu\<close> of \<^verbatim>\<open>kernel/src/vmm/mod.rs\<close>; \<^verbatim>\<open>vm.vcpu(i)\<close> is a parameter.\<close>

definition with_vm :: "usize \<Rightarrow> ('vm \<Rightarrow> 'a) \<Rightarrow> 'vm VMList \<Rightarrow> 'a option" where
  "with_vm vm_id f g = map_option f (get_vm_by_id vm_id g)"

definition with_vm_and_vcpu ::
    "('vm \<Rightarrow> usize \<Rightarrow> 'vcpu option) \<Rightarrow> usize \<Rightarrow> usize \<Rightarrow> ('vm \<Rightarrow> 'vcpu \<Rightarrow> 'a) \<Rightarrow>
     'vm VMList \<Rightarrow> 'a option" where
  "with_vm_and_vcpu vcpu_of vm_id vcpu_id f g =
     (case get_vm_by_id vm_id g of
        None \<Rightarrow> None
      | Some vm \<Rightarrow> (case vcpu_of vm vcpu_id of None \<Rightarrow> None | Some vcpu \<Rightarrow> Some (f vm vcpu)))"

section \<open>Histories of operations and their specification\<close>

datatype 'vm vm_list_op = PushVm 'vm | RemoveVm usize

fun vm_list_run :: "('vm \<Rightarrow> usize) \<Rightarrow> 'vm vm_list_op list \<Rightarrow> 'vm VMList \<Rightarrow> 'vm VMList" where
  "vm_list_run id_of [] g = g"
| "vm_list_run id_of (PushVm vm # ops) g = vm_list_run id_of ops (push_vm id_of vm g)"
| "vm_list_run id_of (RemoveVm i # ops) g = vm_list_run id_of ops (snd (remove_vm i g))"

fun vm_table_spec ::
    "('vm \<Rightarrow> usize) \<Rightarrow> 'vm vm_list_op list \<Rightarrow> (usize \<rightharpoonup> 'vm) \<Rightarrow> (usize \<rightharpoonup> 'vm)" where
  "vm_table_spec id_of [] t = t"
| "vm_table_spec id_of (PushVm vm # ops) t =
     vm_table_spec id_of ops (if t (id_of vm) = None then t(id_of vm \<mapsto> vm) else t)"
| "vm_table_spec id_of (RemoveVm i # ops) t = vm_table_spec id_of ops (t(i := None))"

text \<open>The well-formedness invariant: the map is ordered, and every VM is filed under its own id.\<close>

definition vm_list_inv :: "('vm \<Rightarrow> usize) \<Rightarrow> 'vm VMList \<Rightarrow> bool" where
  "vm_list_inv id_of g =
     (bt_inv (vm_list g) \<and> (\<forall>i vm. get_vm_by_id i g = Some vm \<longrightarrow> id_of vm = i))"

named_theorems vm_list_defs

declare VMList_new_def [vm_list_defs] VMList_push_vm_def [vm_list_defs]
  VMList_remove_vm_def [vm_list_defs] VMList_get_vm_by_id_def [vm_list_defs]
  push_vm_def [vm_list_defs] remove_vm_def [vm_list_defs] get_vm_by_id_def [vm_list_defs]
  bt_contains_key_def [vm_list_defs]

lemma vm_list_inv_new: "vm_list_inv id_of VMList_new"
  by (simp add: vm_list_inv_def vm_list_defs)

lemma vm_list_inv_push: "vm_list_inv id_of g \<Longrightarrow> vm_list_inv id_of (push_vm id_of vm g)"
  by (auto simp: vm_list_inv_def vm_list_defs)

lemma vm_list_inv_remove: "vm_list_inv id_of g \<Longrightarrow> vm_list_inv id_of (snd (remove_vm i g))"
  by (auto simp: vm_list_inv_def vm_list_defs)

lemma get_vm_by_id_push:
  "get_vm_by_id i (push_vm id_of vm g) =
     (if i = id_of vm \<and> get_vm_by_id i g = None then Some vm else get_vm_by_id i g)"
  by (auto simp: vm_list_defs)

lemma get_vm_by_id_remove:
  "get_vm_by_id i (snd (remove_vm j g)) = (if i = j then None else get_vm_by_id i g)"
  by (simp add: vm_list_defs)

lemma vm_list_run_inv: "vm_list_inv id_of g \<Longrightarrow> vm_list_inv id_of (vm_list_run id_of ops g)"
  by (induction id_of ops g rule: vm_list_run.induct)
    (auto simp: vm_list_inv_push vm_list_inv_remove)

lemma vm_list_run_spec:
  "(\<lambda>i. get_vm_by_id i (vm_list_run id_of ops g)) = vm_table_spec id_of ops (\<lambda>i. get_vm_by_id i g)"
proof (induction id_of ops g rule: vm_list_run.induct)
  case (1 id_of g)
  show ?case by simp
next
  case (2 id_of vm ops g)
  have "(\<lambda>i. get_vm_by_id i (push_vm id_of vm g)) =
      (if get_vm_by_id (id_of vm) g = None then (\<lambda>i. get_vm_by_id i g)(id_of vm \<mapsto> vm)
       else (\<lambda>i. get_vm_by_id i g))"
    by (auto simp: get_vm_by_id_push fun_eq_iff)
  with "2.IH" show ?case by simp
next
  case (3 id_of i ops g)
  have "(\<lambda>k. get_vm_by_id k (snd (remove_vm i g))) = (\<lambda>k. get_vm_by_id k g)(i := None)"
    by (simp add: get_vm_by_id_remove fun_eq_iff)
  with "3.IH" show ?case by simp
qed

lemma get_vm_list_ids:
  assumes "vm_list_inv id_of g"
  shows "map id_of (get_vm_list g) = map fst (vm_list g)"
proof -
  have "\<forall>p \<in> set (vm_list g). id_of (snd p) = fst p"
    using assms by (auto simp: vm_list_inv_def vm_list_defs bt_entries_get [symmetric])
  then show ?thesis by (simp add: get_vm_list_def bt_entries_def)
qed

lemma set_get_vm_list:
  assumes "vm_list_inv id_of g"
  shows "set (get_vm_list g) = {vm. get_vm_by_id (id_of vm) g = Some vm}"
proof (intro set_eqI iffI)
  fix vm assume "vm \<in> set (get_vm_list g)"
  then obtain i where "(i, vm) \<in> set (vm_list g)"
    by (auto simp: get_vm_list_def bt_entries_def)
  then show "vm \<in> {vm. get_vm_by_id (id_of vm) g = Some vm}"
    using assms by (auto simp: vm_list_inv_def vm_list_defs bt_entries_get)
next
  fix vm assume "vm \<in> {vm. get_vm_by_id (id_of vm) g = Some vm}"
  then have "(id_of vm, vm) \<in> set (vm_list g)"
    by (auto simp: vm_list_defs intro: bt_get_in_set)
  then show "vm \<in> set (get_vm_list g)"
    by (force simp: get_vm_list_def bt_entries_def)
qed

text \<open>
  \<^bold>\<open>C1\<close> (refinement). For every history of pushes and removals from the empty table, looking a VM up by id gives
  what the first-wins specification map holds; \<^verbatim>\<open>get_vm_list\<close> returns exactly the VMs of that map,
  each once, in increasing order of their identifiers.
\<close>

theorem vm_list_refines_spec:
  "let table = vm_list_run id_of ops VMList_new; spec = vm_table_spec id_of ops Map.empty
   in (\<lambda>i. get_vm_by_id i table) = spec \<and>
      set (get_vm_list table) = ran spec \<and>
      sorted_wrt (<) (map id_of (get_vm_list table))"
proof -
  let ?table = "vm_list_run id_of ops VMList_new" and ?spec = "vm_table_spec id_of ops Map.empty"
  have inv: "vm_list_inv id_of ?table"
    by (intro vm_list_run_inv vm_list_inv_new)
  have look: "(\<lambda>i. get_vm_by_id i ?table) = ?spec"
    by (subst vm_list_run_spec) (simp add: vm_list_defs)
  have "set (get_vm_list ?table) = ran ?spec"
    using inv unfolding set_get_vm_list [OF inv] ran_def look [symmetric]
    by (auto simp: vm_list_inv_def)
  moreover have "sorted_wrt (<) (map id_of (get_vm_list ?table))"
    using inv by (simp add: get_vm_list_ids [OF inv]) (simp add: vm_list_inv_def bt_inv_def)
  ultimately show ?thesis using look by (simp add: Let_def)
qed

end
