(* ===== verification/IVC.thy ===== *)
theory IVC
  imports Axv_BTreeMap
begin

text \<open>
  Inter-VM communication channels, \<^verbatim>\<open>kernel/src/vmm/ivc.rs\<close>. A channel owns one host frame that the
  publisher VM and its subscribers map into their guests; dropping the channel returns the frame
  to the host. The host's page-frame allocator (the \<^verbatim>\<open>PagingHandler\<close> of the \<^verbatim>\<open>axhal\<close> crate) is a
  parameter: a record of its two operations on an abstract allocator state \<open>'h\<close>, and, in the
  theorems, a set \<open>live\<close> of the frames that are handed out.

  \<^verbatim>\<open>drop\<close> is written out: wherever the Rust code lets a channel go out of scope, the model calls
  \<open>IVCChannel_drop\<close>.
\<close>

section \<open>Channels and the global map\<close>

record 'h paging_handler =
  alloc_frame :: "'h \<Rightarrow> (usize \<times> 'h) option"
  dealloc_frame :: "usize \<Rightarrow> 'h \<Rightarrow> 'h"

record IVCChannel =
  publisher_vm_id :: usize
  key :: usize
  subscriber_vms :: "(usize, usize) btree"
  shared_region_base :: usize
  shared_region_size :: usize
  base_gpa :: "usize option"

record IVCChannelHeader =
  header_publisher_id :: u64
  header_key :: u64

text \<open>
  The global map, the allocator, and the header words at the start of each frame (indexed by the
  frame's host physical address).
\<close>

record 'h ivc_state =
  IVC_CHANNELS :: "(usize \<times> usize, IVCChannel) btree"
  host :: 'h
  frame_header :: "usize \<Rightarrow> IVCChannelHeader"

section \<open>Methods of a channel\<close>

definition IVCChannel_drop :: "'h paging_handler \<Rightarrow> IVCChannel \<Rightarrow> 'h ivc_state \<Rightarrow> 'h ivc_state" where
  "IVCChannel_drop H c st = st\<lparr>host := dealloc_frame H (shared_region_base c) (host st)\<rparr>"

definition IVCChannel_alloc ::
    "'h paging_handler \<Rightarrow> usize \<Rightarrow> usize \<Rightarrow> usize \<Rightarrow> usize \<Rightarrow> 'h ivc_state \<Rightarrow>
     IVCChannel ax_result \<times> 'h ivc_state" where
  "IVCChannel_alloc H pub_id k region_size gpa st =
     (let region_size' = min region_size 4096
      in case alloc_frame H (host st) of
           None \<Rightarrow> (Inl NoMemory, st)
         | Some (base, h') \<Rightarrow>
             (Inr \<lparr>publisher_vm_id = pub_id, key = k, subscriber_vms = [],
                   shared_region_base = base, shared_region_size = region_size', base_gpa = Some gpa\<rparr>,
              st\<lparr>host := h',
                 frame_header := (frame_header st)
                   (base := \<lparr>header_publisher_id = pub_id, header_key = k\<rparr>)\<rparr>))"

definition base_hpa :: "IVCChannel \<Rightarrow> usize" where
  "base_hpa c = shared_region_base c"

definition base_gpa_in_publisher :: "IVCChannel \<Rightarrow> usize option" where
  "base_gpa_in_publisher c = base_gpa c"

definition IVCChannel_size :: "IVCChannel \<Rightarrow> usize" where
  "IVCChannel_size c = shared_region_size c"

definition add_subscriber :: "usize \<Rightarrow> usize \<Rightarrow> IVCChannel \<Rightarrow> IVCChannel" where
  "add_subscriber vm_id gpa c =
     (if bt_contains_key vm_id (subscriber_vms c) then c
      else c\<lparr>subscriber_vms := bt_insert vm_id gpa (subscriber_vms c)\<rparr>)"

definition remove_subscriber :: "usize \<Rightarrow> IVCChannel \<Rightarrow> usize option \<times> IVCChannel" where
  "remove_subscriber vm_id c =
     (bt_get vm_id (subscriber_vms c), c\<lparr>subscriber_vms := bt_remove vm_id (subscriber_vms c)\<rparr>)"

definition subscribers :: "IVCChannel \<Rightarrow> (usize \<times> usize) list" where
  "subscribers c = bt_entries (subscriber_vms c)"

section \<open>Operations on the global map\<close>

definition set_channels ::
    "(usize \<times> usize, IVCChannel) btree \<Rightarrow> 'h ivc_state \<Rightarrow> 'h ivc_state" where
  "set_channels m st = st\<lparr>IVC_CHANNELS := m\<rparr>"

definition insert_channel ::
    "'h paging_handler \<Rightarrow> usize \<Rightarrow> IVCChannel \<Rightarrow> 'h ivc_state \<Rightarrow> unit ax_result \<times> 'h ivc_state" where
  "insert_channel H pub_id c st =
     (let k = (pub_id, key c);
          st' = set_channels (bt_insert k c (IVC_CHANNELS st)) st
      in case bt_get k (IVC_CHANNELS st) of
           Some old \<Rightarrow> (Inl AlreadyExists, IVCChannel_drop H old st')
         | None \<Rightarrow> (Inr (), st'))"

definition unpublish_channel ::
    "'h paging_handler \<Rightarrow> usize \<Rightarrow> usize \<Rightarrow> 'h ivc_state \<Rightarrow>
     (usize \<times> usize) option ax_result \<times> 'h ivc_state" where
  "unpublish_channel H pub_id k st =
     (case bt_get (pub_id, k) (IVC_CHANNELS st) of
        None \<Rightarrow> (Inl NotFound, st)
      | Some c \<Rightarrow>
          (let st1 = set_channels (bt_remove (pub_id, k) (IVC_CHANNELS st)) st
           in case base_gpa_in_publisher c of
                None \<Rightarrow> (Inl NotFound, IVCChannel_drop H c st1)
              | Some gpa \<Rightarrow>
                  if subscribers c \<noteq> []
                  then (Inr (Some (gpa, IVCChannel_size c)),
                        set_channels (bt_insert (pub_id, k) (c\<lparr>base_gpa := None\<rparr>) (IVC_CHANNELS st1)) st1)
                  else (Inr (Some (gpa, IVCChannel_size c)), IVCChannel_drop H c st1)))"

definition get_channel_size :: "usize \<Rightarrow> usize \<Rightarrow> 'h ivc_state \<Rightarrow> usize ax_result" where
  "get_channel_size pub_id k st =
     (case bt_get (pub_id, k) (IVC_CHANNELS st) of
        Some c \<Rightarrow> Inr (IVCChannel_size c)
      | None \<Rightarrow> Inl NotFound)"

definition subscribe_to_channel_of_publisher ::
    "usize \<Rightarrow> usize \<Rightarrow> usize \<Rightarrow> usize \<Rightarrow> 'h ivc_state \<Rightarrow> (usize \<times> usize) ax_result \<times> 'h ivc_state" where
  "subscribe_to_channel_of_publisher pub_id k sub_id gpa st =
     (case bt_get (pub_id, k) (IVC_CHANNELS st) of
        Some c \<Rightarrow>
          (let c' = add_subscriber sub_id gpa c
           in (Inr (base_hpa c', IVCChannel_size c'),
               set_channels (bt_insert (pub_id, k) c' (IVC_CHANNELS st)) st))
      | None \<Rightarrow> (Inl NotFound, st))"

definition unsubscribe_from_channel_of_publisher ::
    "'h paging_handler \<Rightarrow> usize \<Rightarrow> usize \<Rightarrow> usize \<Rightarrow> 'h ivc_state \<Rightarrow>
     (usize \<times> usize) ax_result \<times> 'h ivc_state" where
  "unsubscribe_from_channel_of_publisher H pub_id k sub_id st =
     (case bt_get (pub_id, k) (IVC_CHANNELS st) of
        None \<Rightarrow> (Inl NotFound, st)
      | Some c \<Rightarrow>
          (case remove_subscriber sub_id c of
             (None, c') \<Rightarrow> (Inl NotFound, st)
           | (Some gpa, c') \<Rightarrow>
               (let st1 = set_channels (bt_insert (pub_id, k) c' (IVC_CHANNELS st)) st;
                    res = Inr (gpa, IVCChannel_size c')
                in case bt_get (pub_id, k) (IVC_CHANNELS st1) of
                     Some d \<Rightarrow>
                       if subscribers d = [] \<and> base_gpa d = None
                       then (res, IVCChannel_drop H d
                                    (set_channels (bt_remove (pub_id, k) (IVC_CHANNELS st1)) st1))
                       else (res, st1)
                   | None \<Rightarrow> (res, st1))))"

section \<open>Interleavings\<close>

text \<open>
  Each function above runs under the lock of \<^verbatim>\<open>IVC_CHANNELS\<close>, so a run of the hypervisor is a sequence
  of these steps. \<^verbatim>\<open>IVCChannel::alloc\<close> takes no lock: between it and \<^verbatim>\<open>insert_channel\<close> the channel is
  held by the vCPU task that handles the publish hypercall. The second component of the state is
  the list of channels so held; an early return of the hypercall drops the channel.
\<close>

datatype ivc_op =
    Alloc usize usize usize usize
  | DropHeld IVCChannel
  | Insert IVCChannel
  | Unpublish usize usize
  | Subscribe usize usize usize usize
  | Unsubscribe usize usize usize

inductive ivc_step ::
    "'h paging_handler \<Rightarrow> ivc_op \<Rightarrow> 'h ivc_state \<times> IVCChannel list \<Rightarrow>
     'h ivc_state \<times> IVCChannel list \<Rightarrow> bool"
  for H where
  step_alloc: "IVCChannel_alloc H p k sz gpa st = (Inr c, st') \<Longrightarrow>
     ivc_step H (Alloc p k sz gpa) (st, held) (st', c # held)"
| step_alloc_fail: "IVCChannel_alloc H p k sz gpa st = (Inl e, st') \<Longrightarrow>
     ivc_step H (Alloc p k sz gpa) (st, held) (st', held)"
| step_drop: "c \<in> set held \<Longrightarrow>
     ivc_step H (DropHeld c) (st, held) (IVCChannel_drop H c st, remove1 c held)"
| step_insert: "c \<in> set held \<Longrightarrow> insert_channel H (publisher_vm_id c) c st = (r, st') \<Longrightarrow>
     ivc_step H (Insert c) (st, held) (st', remove1 c held)"
| step_unpublish: "unpublish_channel H p k st = (ru, st') \<Longrightarrow>
     ivc_step H (Unpublish p k) (st, held) (st', held)"
| step_subscribe: "subscribe_to_channel_of_publisher p k s gpa st = (rs, st') \<Longrightarrow>
     ivc_step H (Subscribe p k s gpa) (st, held) (st', held)"
| step_unsubscribe: "unsubscribe_from_channel_of_publisher H p k s st = (rs, st') \<Longrightarrow>
     ivc_step H (Unsubscribe p k s) (st, held) (st', held)"

definition ivc_next ::
    "'h paging_handler \<Rightarrow> 'h ivc_state \<times> IVCChannel list \<Rightarrow> 'h ivc_state \<times> IVCChannel list \<Rightarrow> bool" where
  "ivc_next H s t = (\<exists>oper. ivc_step H oper s t)"

section \<open>Ownership of frames\<close>

text \<open>
  What the code relies on of the allocator: it hands out a frame that is not in use, and takes
  back a frame that is. Nothing is said of freeing a frame that is not in use.
\<close>

definition paging_laws :: "'h paging_handler \<Rightarrow> ('h \<Rightarrow> usize set) \<Rightarrow> bool" where
  "paging_laws H live =
     ((\<forall>h a h'. alloc_frame H h = Some (a, h') \<longrightarrow> a \<notin> live h \<and> live h' = insert a (live h)) \<and>
      (\<forall>h a. a \<in> live h \<longrightarrow> live (dealloc_frame H a h) = live h - {a}))"

definition channel_ok :: "usize \<times> usize \<Rightarrow> IVCChannel \<Rightarrow> bool" where
  "channel_ok pk c =
     (pk = (publisher_vm_id c, key c) \<and> bt_inv (subscriber_vms c) \<and> shared_region_size c \<le> 4096 \<and>
      (base_gpa c = None \<longrightarrow> subscriber_vms c \<noteq> []))"

definition held_ok :: "IVCChannel \<Rightarrow> bool" where
  "held_ok c = (subscriber_vms c = [] \<and> shared_region_size c \<le> 4096 \<and> base_gpa c \<noteq> None)"

text \<open>
  \<open>frames\<close> counts the channels on each frame: owned by exactly one channel or not owned.
  \<open>R\<close> are the frames in use by the rest of the hypervisor.
\<close>

definition frames :: "'h ivc_state \<times> IVCChannel list \<Rightarrow> usize multiset" where
  "frames s = image_mset shared_region_base (mset (map snd (IVC_CHANNELS (fst s))) + mset (snd s))"

definition owned :: "usize multiset \<Rightarrow> usize set \<Rightarrow> usize set \<Rightarrow> bool" where
  "owned F L R = (R \<subseteq> L \<and> (\<forall>a. count F a = (if a \<in> L \<and> a \<notin> R then 1 else 0)))"

definition ivc_inv ::
    "'h paging_handler \<Rightarrow> ('h \<Rightarrow> usize set) \<Rightarrow> usize set \<Rightarrow> 'h ivc_state \<times> IVCChannel list \<Rightarrow> bool" where
  "ivc_inv H live R s =
     (paging_laws H live \<and> bt_inv (IVC_CHANNELS (fst s)) \<and>
      (\<forall>(pk, c) \<in> set (IVC_CHANNELS (fst s)). channel_ok pk c) \<and>
      (\<forall>c \<in> set (snd s). held_ok c) \<and>
      owned (frames s) (live (host (fst s))) R)"

definition ivc_init ::
    "'h paging_handler \<Rightarrow> ('h \<Rightarrow> usize set) \<Rightarrow> usize set \<Rightarrow> 'h ivc_state \<times> IVCChannel list \<Rightarrow> bool" where
  "ivc_init H live R s =
     (paging_laws H live \<and> IVC_CHANNELS (fst s) = [] \<and> snd s = [] \<and> live (host (fst s)) = R)"


lemma owned_alloc: "owned F L R \<Longrightarrow> a \<notin> L \<Longrightarrow> owned (add_mset a F) (insert a L) R"
  by (auto simp: owned_def)

lemma owned_mem: "owned (add_mset a F) L R \<Longrightarrow> a \<in> L \<and> a \<notin> R \<and> a \<notin># F"
  by (auto simp: owned_def not_in_iff dest!: spec [of _ a] split: if_splits)

lemma owned_free:
  assumes "owned (add_mset a F) L R"
  shows "owned F (L - {a}) R"
  unfolding owned_def
proof (intro conjI allI)
  show "R \<subseteq> L - {a}" using owned_mem [OF assms] assms by (auto simp: owned_def)
  show "count F b = (if b \<in> L - {a} \<and> b \<notin> R then 1 else 0)" for b
    using owned_mem [OF assms] assms by (cases "b = a") (auto simp: owned_def not_in_iff split: if_splits)
qed

lemma owned_dealloc:
  "paging_laws H live \<Longrightarrow> owned (add_mset a F) (live h) R \<Longrightarrow>
   owned F (live (dealloc_frame H a h)) R"
  using owned_free [of a F "live h" R] owned_mem [of a F "live h" R] by (simp add: paging_laws_def)

lemmas ivc_defs = set_channels_def base_hpa_def base_gpa_in_publisher_def IVCChannel_size_def
  subscribers_def bt_entries_def

lemma set_channels_simps [simp]:
  "IVC_CHANNELS (set_channels m st) = m" "host (set_channels m st) = host st"
  "set_channels m (set_channels m' st) = set_channels m st"
  "set_channels m (IVCChannel_drop H c st) = IVCChannel_drop H c (set_channels m st)"
  "IVC_CHANNELS (IVCChannel_drop H c st) = IVC_CHANNELS st"
  "host (IVCChannel_drop H c st) = dealloc_frame H (shared_region_base c) (host st)"
  by (simp_all add: set_channels_def IVCChannel_drop_def)

lemma frames_insert:
  "bt_inv (IVC_CHANNELS st) \<Longrightarrow>
   frames (set_channels (bt_insert k c (IVC_CHANNELS st)) st, held) =
   add_mset (shared_region_base c) (frames (set_channels (bt_remove k (IVC_CHANNELS st)) st, held))"
  by (simp add: frames_def bt_mset_insert)

lemma frames_remove:
  "bt_inv (IVC_CHANNELS st) \<Longrightarrow> bt_get k (IVC_CHANNELS st) = Some c \<Longrightarrow>
   frames (st, held) =
   add_mset (shared_region_base c) (frames (set_channels (bt_remove k (IVC_CHANNELS st)) st, held))"
  by (simp add: frames_def bt_mset_remove)

lemma frames_held:
  "c \<in> set held \<Longrightarrow> frames (st, held) = add_mset (shared_region_base c) (frames (st, remove1 c held))"
  by (simp add: frames_def insert_DiffM flip: image_mset_add_mset)


text \<open>The four ways in which an operation moves the state.\<close>

lemma ivc_inv_remove:
  "ivc_inv H live R (st, held) \<Longrightarrow> bt_get pk (IVC_CHANNELS st) = Some c \<Longrightarrow>
   ivc_inv H live R (IVCChannel_drop H c (set_channels (bt_remove pk (IVC_CHANNELS st)) st), held)"
  using frames_remove [of st pk c held]
  by (auto simp: ivc_inv_def bt_set_remove frames_def dest: owned_dealloc)

lemma ivc_inv_replace:
  assumes "ivc_inv H live R (st, held)" "bt_get pk (IVC_CHANNELS st) = Some c"
    "channel_ok pk c'" "shared_region_base c' = shared_region_base c"
  shows "ivc_inv H live R (set_channels (bt_insert pk c' (IVC_CHANNELS st)) st, held)"
  using assms frames_remove [of st pk c held] frames_insert [of st pk c' held]
  by (auto simp: ivc_inv_def bt_set_insert bt_set_remove)

lemma ivc_inv_drop_held:
  "ivc_inv H live R (st, held) \<Longrightarrow> c \<in> set held \<Longrightarrow>
   ivc_inv H live R (IVCChannel_drop H c st, remove1 c held)"
  using frames_held [of c held st] set_remove1_subset [of c held]
  by (auto simp: ivc_inv_def frames_def dest: owned_dealloc)

lemma ivc_inv_insert:
  assumes "ivc_inv H live R (st, held)" "c \<in> set held" "bt_get pk (IVC_CHANNELS st) = None"
    "pk = (publisher_vm_id c, key c)"
  shows "ivc_inv H live R (set_channels (bt_insert pk c (IVC_CHANNELS st)) st, remove1 c held)"
proof -
  have "frames (set_channels (bt_insert pk c (IVC_CHANNELS st)) st, remove1 c held) = frames (st, held)"
    using assms frames_held [of c held st] frames_insert [of st pk c "remove1 c held"]
    by (simp add: ivc_inv_def bt_remove_absent) (simp add: frames_def)
  moreover have "channel_ok pk c"
    using assms by (auto simp: ivc_inv_def held_ok_def channel_ok_def)
  ultimately show ?thesis
    using assms set_remove1_subset [of c held]
    by (auto simp: ivc_inv_def bt_set_insert bt_remove_absent)
qed

lemma ivc_inv_channel:
  "ivc_inv H live R (st, held) \<Longrightarrow> bt_get pk (IVC_CHANNELS st) = Some c \<Longrightarrow> channel_ok pk c"
  by (auto simp: ivc_inv_def dest: bt_get_in_set)

section \<open>Every operation keeps the ownership invariant\<close>

lemma alloc_inv:
  assumes "ivc_inv H live R (st, held)" "IVCChannel_alloc H p k sz gpa st = (r, st')"
  shows "ivc_inv H live R (st', case r of Inr c \<Rightarrow> c # held | Inl _ \<Rightarrow> held)"
proof (cases "alloc_frame H (host st)")
  case None
  with assms show ?thesis by (auto simp: IVCChannel_alloc_def Let_def)
next
  case (Some ah)
  then have "fst ah \<notin> live (host st)" "live (snd ah) = insert (fst ah) (live (host st))"
    using assms(1) by (cases ah; simp add: ivc_inv_def paging_laws_def)+
  with Some assms show ?thesis
    by (auto simp: IVCChannel_alloc_def Let_def ivc_inv_def held_ok_def frames_def
        dest: owned_alloc split: prod.splits)
qed

lemma insert_channel_inv:
  assumes "ivc_inv H live R (st, held)" "c \<in> set held"
    "insert_channel H (publisher_vm_id c) c st = (r, st')"
  shows "ivc_inv H live R (st', remove1 c held)"
proof (cases "bt_get (publisher_vm_id c, key c) (IVC_CHANNELS st)")
  case None
  with assms show ?thesis
    by (auto simp: insert_channel_def Let_def intro!: ivc_inv_insert)
next
  case (Some old)
  let ?pk = "(publisher_vm_id c, key c)"
  let ?st1 = "IVCChannel_drop H old (set_channels (bt_remove ?pk (IVC_CHANNELS st)) st)"
  have "ivc_inv H live R (?st1, held)"
    using assms(1) Some by (rule ivc_inv_remove)
  then have "ivc_inv H live R (set_channels (bt_insert ?pk c (IVC_CHANNELS ?st1)) ?st1, remove1 c held)"
    by (rule ivc_inv_insert) (use assms(2) in simp_all)
  then show ?thesis
    using assms Some by (auto simp: insert_channel_def Let_def ivc_inv_def)
qed

lemma unpublish_channel_inv:
  assumes "ivc_inv H live R (st, held)" "unpublish_channel H p k st = (r, st')"
  shows "ivc_inv H live R (st', held)"
proof (cases "bt_get (p, k) (IVC_CHANNELS st)")
  case None
  with assms show ?thesis by (simp add: unpublish_channel_def)
next
  case (Some c)
  note ok = ivc_inv_channel [OF assms(1) Some]
  note drop = ivc_inv_remove [OF assms(1) Some]
  have "subscriber_vms c \<noteq> [] \<Longrightarrow>
      ivc_inv H live R (set_channels (bt_insert (p, k) (c\<lparr>base_gpa := None\<rparr>) (IVC_CHANNELS st)) st, held)"
    by (rule ivc_inv_replace [OF assms(1) Some]) (use ok in \<open>simp_all add: channel_ok_def\<close>)
  then show ?thesis
    using assms Some drop
    by (auto simp: ivc_inv_def unpublish_channel_def Let_def ivc_defs(2-) split: option.splits if_splits)
qed

lemma add_subscriber_ok:
  "channel_ok pk c \<Longrightarrow> channel_ok pk (add_subscriber s gpa c)"
  "shared_region_base (add_subscriber s gpa c) = shared_region_base c"
  by (auto simp: channel_ok_def add_subscriber_def bt_contains_key_def)

lemma subscribe_inv:
  assumes "ivc_inv H live R (st, held)"
    "subscribe_to_channel_of_publisher p k s gpa st = (r, st')"
  shows "ivc_inv H live R (st', held)"
proof (cases "bt_get (p, k) (IVC_CHANNELS st)")
  case None
  with assms show ?thesis by (simp add: subscribe_to_channel_of_publisher_def)
next
  case (Some c)
  with ivc_inv_replace [OF assms(1) Some] ivc_inv_channel [OF assms(1) Some] assms(2)
  show ?thesis by (auto simp: subscribe_to_channel_of_publisher_def Let_def add_subscriber_ok)
qed

text \<open>What unsubscribing does to a channel that has the subscriber.\<close>

lemma unsubscribe_present:
  assumes "bt_get (p, k) (IVC_CHANNELS st) = Some c" "bt_get s (subscriber_vms c) = Some gpa"
    "bt_inv (IVC_CHANNELS st)"
  defines "c' \<equiv> c\<lparr>subscriber_vms := bt_remove s (subscriber_vms c)\<rparr>"
  shows "unsubscribe_from_channel_of_publisher H p k s st =
    (Inr (gpa, shared_region_size c),
     if subscriber_vms c' = [] \<and> base_gpa c = None
     then IVCChannel_drop H c (set_channels (bt_remove (p, k) (IVC_CHANNELS st)) st)
     else set_channels (bt_insert (p, k) c' (IVC_CHANNELS st)) st)"
  using assms(1-3)
  by (simp add: unsubscribe_from_channel_of_publisher_def remove_subscriber_def Let_def ivc_defs(4-)
      c'_def IVCChannel_drop_def)

lemma unsubscribe_absent:
  "bt_get (p, k) (IVC_CHANNELS st) = None \<or>
   bt_get (p, k) (IVC_CHANNELS st) = Some c \<and> bt_get s (subscriber_vms c) = None \<Longrightarrow>
   unsubscribe_from_channel_of_publisher H p k s st = (Inl NotFound, st)"
  by (auto simp: unsubscribe_from_channel_of_publisher_def remove_subscriber_def)

lemma unsubscribe_inv:
  assumes "ivc_inv H live R (st, held)"
    "unsubscribe_from_channel_of_publisher H p k s st = (r, st')"
  shows "ivc_inv H live R (st', held)"
proof (cases "bt_get (p, k) (IVC_CHANNELS st)")
  case None
  with assms show ?thesis by (simp add: unsubscribe_absent)
next
  case (Some c)
  note ok = ivc_inv_channel [OF assms(1) Some]
  show ?thesis
  proof (cases "bt_get s (subscriber_vms c)")
    case None
    with assms Some show ?thesis by (simp add: unsubscribe_absent)
  next
    case (Some gpa)
    note eq = unsubscribe_present [OF \<open>bt_get (p, k) _ = Some c\<close> Some, of H]
    have inv: "bt_inv (IVC_CHANNELS st)" using assms(1) by (simp add: ivc_inv_def)
    let ?c' = "c\<lparr>subscriber_vms := bt_remove s (subscriber_vms c)\<rparr>"
    have "channel_ok (p, k) ?c' \<or> subscriber_vms ?c' = [] \<and> base_gpa c = None"
      using ok by (auto simp: channel_ok_def)
    then show ?thesis
      using assms(2) eq [OF inv] ivc_inv_remove [OF assms(1) \<open>bt_get (p, k) _ = Some c\<close>]
        ivc_inv_replace [OF assms(1) \<open>bt_get (p, k) _ = Some c\<close>, of ?c']
      by (auto split: if_splits)
  qed
qed

lemmas ivc_op_inv = alloc_inv insert_channel_inv unpublish_channel_inv subscribe_inv unsubscribe_inv
  ivc_inv_drop_held

lemma ivc_step_inv: "ivc_step H oper s t \<Longrightarrow> ivc_inv H live R s \<Longrightarrow> ivc_inv H live R t"
  by (induction rule: ivc_step.induct) (auto dest: ivc_op_inv)

lemma ivc_init_inv: "ivc_init H live R s \<Longrightarrow> ivc_inv H live R s"
  by (auto simp: ivc_init_def ivc_inv_def frames_def owned_def)

interpretation ivc: transition_system "ivc_init H live R" "ivc_next H" "ivc_inv H live R"
  by unfold_locales (auto simp: ivc_next_def intro: ivc_init_inv ivc_step_inv)

section \<open>What the invariant says of frames\<close>

lemma owned_distinct:
  assumes "owned (mset xs) L R"
  shows "distinct xs \<and> set xs = L - R"
proof -
  have cnt: "count (mset xs) a = (if a \<in> L - R then 1 else 0)" for a
    using assms by (simp add: owned_def)
  have "a \<in> set xs \<longleftrightarrow> a \<in> L - R" for a
    using cnt [of a] count_greater_zero_iff [of "mset xs" a]
    by (simp del: count_greater_zero_iff split: if_splits)
  then show ?thesis
    using cnt by (auto simp: distinct_count_atmost_1)
qed

lemma ivc_inv_frames:
  assumes "ivc_inv H live R (st, held)"
  defines "bases \<equiv> map shared_region_base (map snd (IVC_CHANNELS st) @ held)"
  shows "distinct bases" "live (host st) = R \<union> set bases" "R \<inter> set bases = {}"
proof -
  have eq: "frames (st, held) = mset bases"
    by (simp add: frames_def bases_def multiset.map_comp)
  have "owned (mset bases) (live (host st)) R"
    using assms(1) by (simp add: ivc_inv_def flip: eq)
  then have "distinct bases \<and> set bases = live (host st) - R" "R \<subseteq> live (host st)"
    by (rule owned_distinct) (simp add: \<open>owned _ _ R\<close> [unfolded owned_def])
  then show "distinct bases" "live (host st) = R \<union> set bases" "R \<inter> set bases = {}"
    by auto
qed

lemma ivc_inv_live:
  "ivc_inv H live R (st, held) \<Longrightarrow> bt_get pk (IVC_CHANNELS st) = Some c \<Longrightarrow>
   shared_region_base c \<in> live (host st)"
  using frames_remove [of st pk c held] by (auto simp: ivc_inv_def dest: owned_mem)

lemma ivc_inv_base_key:
  assumes "ivc_inv H live R (st, held)" "bt_get pk (IVC_CHANNELS st) = Some c"
    "bt_get pk' (IVC_CHANNELS st) = Some d"
  shows "shared_region_base c = shared_region_base d \<longleftrightarrow> pk = pk'"
proof
  assume eq: "shared_region_base c = shared_region_base d"
  have "distinct (map (shared_region_base \<circ> snd) (IVC_CHANNELS st))"
    using ivc_inv_frames(1) [OF assms(1)] by (simp add: comp_def)
  moreover have "(pk, c) \<in> set (IVC_CHANNELS st)" "(pk', d) \<in> set (IVC_CHANNELS st)"
    using assms by (auto intro: bt_get_in_set)
  ultimately have "(pk, c) = (pk', d)"
    using eq by (intro inj_onD [of "shared_region_base \<circ> snd" "set (IVC_CHANNELS st)"])
      (simp_all add: distinct_map)
  then show "pk = pk'" by simp
qed (use assms in auto)

lemma ivc_inv_held_base:
  assumes "ivc_inv H live R (st, held)" "bt_get pk (IVC_CHANNELS st) = Some c" "d \<in> set held"
  shows "shared_region_base c \<noteq> shared_region_base d"
proof -
  have "(pk, c) \<in> set (IVC_CHANNELS st)" using assms(2) by (rule bt_get_in_set)
  then show ?thesis
    using ivc_inv_frames(1) [OF assms(1)] assms(3) by (fastforce simp: comp_def)
qed

text \<open>Freeing a channel's frame frees that frame and no other.\<close>

lemma live_after_drop:
  "ivc_inv H live R (st, held) \<Longrightarrow> a \<in> live (host st) \<Longrightarrow>
   live (dealloc_frame H a (host st)) = live (host st) - {a}"
  by (simp add: ivc_inv_def paging_laws_def)

lemma host_after_insert:
  "insert_channel H (publisher_vm_id d) d st = (r, st') \<Longrightarrow>
   host st' = (case bt_get (publisher_vm_id d, key d) (IVC_CHANNELS st) of
                 None \<Rightarrow> host st
               | Some old \<Rightarrow> dealloc_frame H (shared_region_base old) (host st))"
  by (auto simp: insert_channel_def Let_def split: option.splits)

lemma host_after_unpublish:
  "unpublish_channel H p k st = (r, st') \<Longrightarrow>
   host st' = (case bt_get (p, k) (IVC_CHANNELS st) of
                 None \<Rightarrow> host st
               | Some d \<Rightarrow> if base_gpa d = None \<or> subscriber_vms d = []
                         then dealloc_frame H (shared_region_base d) (host st) else host st)"
  by (auto simp: unpublish_channel_def Let_def ivc_defs(2-) split: option.splits if_splits)

lemma host_after_subscribe:
  "subscribe_to_channel_of_publisher p k s gpa st = (r, st') \<Longrightarrow> host st' = host st"
  by (auto simp: subscribe_to_channel_of_publisher_def Let_def split: option.splits)

lemma bt_remove_Nil_iff:
  "bt_get s m = Some g \<Longrightarrow> bt_inv m \<Longrightarrow> bt_remove s m = [] \<longleftrightarrow> m = [(s, g)]"
  using bt_mset_remove [of m s g] by (cases "bt_remove s m = []") (auto simp: bt_remove_def [of s "[(s, g)]"])

lemma host_after_unsubscribe:
  assumes "ivc_inv H live R (st, held)" "unsubscribe_from_channel_of_publisher H p k s st = (r, st')"
  shows "host st' = (case bt_get (p, k) (IVC_CHANNELS st) of
                 None \<Rightarrow> host st
               | Some d \<Rightarrow> if base_gpa d = None \<and> (\<exists>g. subscriber_vms d = [(s, g)])
                         then dealloc_frame H (shared_region_base d) (host st) else host st)"
proof (cases "bt_get (p, k) (IVC_CHANNELS st)")
  case None
  with assms show ?thesis by (simp add: unsubscribe_absent)
next
  case (Some d)
  have inv: "bt_inv (IVC_CHANNELS st)" "bt_inv (subscriber_vms d)"
    using assms(1) ivc_inv_channel [OF assms(1) Some] by (simp_all add: ivc_inv_def channel_ok_def)
  show ?thesis
  proof (cases "bt_get s (subscriber_vms d)")
    case None
    then have "subscriber_vms d \<noteq> [(s, g)]" for g by (auto simp: bt_get_def)
    with assms Some None show ?thesis by (simp add: unsubscribe_absent)
  next
    case (Some g)
    have "subscriber_vms d = [(s, g)] \<longleftrightarrow> (\<exists>g. subscriber_vms d = [(s, g)])"
      using Some by (auto simp: bt_get_def)
    then show ?thesis
      using assms(2) \<open>bt_get (p, k) _ = Some d\<close> bt_remove_Nil_iff [OF Some inv(2)]
        unsubscribe_present [OF \<open>bt_get (p, k) _ = Some d\<close> Some inv(1), of H]
      by (auto split: if_splits)
  qed
qed

inductive_cases ivc_stepE: "ivc_step H oper (st, held) (st', held')"

lemma ivc_freed_drop:
  assumes "ivc_inv H live R (st, held)" "bt_get pk (IVC_CHANNELS st) = Some c"
    "bt_get pk' (IVC_CHANNELS st) = Some d"
  shows "shared_region_base c \<in> live (dealloc_frame H (shared_region_base d) (host st)) \<longleftrightarrow> pk \<noteq> pk'"
  using live_after_drop [OF assms(1) ivc_inv_live [OF assms(1,3)]] ivc_inv_base_key [OF assms]
    ivc_inv_live [OF assms(1,2)] by simp

lemma host_after_alloc:
  assumes "ivc_inv H live R (st, held)" "IVCChannel_alloc H p k sz gpa st = (r, st')"
  shows "live (host st) \<subseteq> live (host st')"
proof (cases "alloc_frame H (host st)")
  case None
  with assms(2) show ?thesis by (auto simp: IVCChannel_alloc_def Let_def)
next
  case (Some ah)
  then have "live (snd ah) = insert (fst ah) (live (host st))"
    using assms(1) by (cases ah) (simp add: ivc_inv_def paging_laws_def)
  with Some assms(2) show ?thesis by (cases ah) (auto simp: IVCChannel_alloc_def Let_def)
qed

text \<open>Unsubscribing a sequence of VMs, one after the other.\<close>

fun unsubscribe_all :: "'h paging_handler \<Rightarrow> usize \<Rightarrow> usize \<Rightarrow> usize list \<Rightarrow> 'h ivc_state \<Rightarrow> 'h ivc_state" where
  "unsubscribe_all H p k [] st = st"
| "unsubscribe_all H p k (s # ss) st =
     unsubscribe_all H p k ss (snd (unsubscribe_from_channel_of_publisher H p k s st))"

lemma bt_remove_ne_Nil:
  assumes "bt_inv m" "fst ` set m = set (s # ss)" "s \<notin> set ss"
  shows "bt_remove s m = [] \<longleftrightarrow> ss = []" "fst ` set (bt_remove s m) = set ss"
proof -
  show keys: "fst ` set (bt_remove s m) = set ss"
    using bt.keys_del [OF assms(1), of s] assms by (auto simp: bt_entries_def)
  show "bt_remove s m = [] \<longleftrightarrow> ss = []"
    using keys by (metis image_is_empty set_empty2)
qed

lemma bt_get_keys: "bt_inv m \<Longrightarrow> s \<in> fst ` set m \<Longrightarrow> \<exists>g. bt_get s m = Some g"
  using bt.keys_get [of m] by (auto simp: bt_entries_def)

lemma unsubscribe_all_frees:
  assumes "bt_inv (IVC_CHANNELS st)" "bt_get (p, k) (IVC_CHANNELS st) = Some c"
    "base_gpa c = None" "bt_inv (subscriber_vms c)"
    "fst ` set (subscriber_vms c) = set ids" "distinct ids" "ids \<noteq> []"
  shows "unsubscribe_all H p k ids st =
         IVCChannel_drop H c (set_channels (bt_remove (p, k) (IVC_CHANNELS st)) st)"
  using assms
proof (induction ids arbitrary: st c)
  case Nil
  then show ?case by simp
next
  case (Cons s ss)
  obtain g where g: "bt_get s (subscriber_vms c) = Some g"
    using bt_get_keys [of "subscriber_vms c" s] Cons.prems by auto
  let ?c' = "c\<lparr>subscriber_vms := bt_remove s (subscriber_vms c)\<rparr>"
  have rem: "bt_remove s (subscriber_vms c) = [] \<longleftrightarrow> ss = []"
    "fst ` set (bt_remove s (subscriber_vms c)) = set ss"
    using bt_remove_ne_Nil [of "subscriber_vms c" s ss] Cons.prems by auto
  show ?case
  proof (cases "ss = []")
    case True
    then show ?thesis
      using rem Cons.prems unsubscribe_present [OF Cons.prems(2) g Cons.prems(1), of H] by simp
  next
    case False
    let ?st' = "set_channels (bt_insert (p, k) ?c' (IVC_CHANNELS st)) st"
    have "unsubscribe_all H p k ss ?st' =
        IVCChannel_drop H ?c' (set_channels (bt_remove (p, k) (IVC_CHANNELS ?st')) ?st')"
      by (rule Cons.IH) (use False rem Cons.prems in auto)
    then show ?thesis
      using False rem Cons.prems unsubscribe_present [OF Cons.prems(2) g Cons.prems(1), of H]
      by (simp add: IVCChannel_drop_def)
  qed
qed

lemma unsubscribe_all_keeps:
  assumes "bt_inv (IVC_CHANNELS st)" "bt_get (p, k) (IVC_CHANNELS st) = Some c"
    "bt_inv (subscriber_vms c)" "\<exists>s g. (s, g) \<in> set (subscriber_vms c) \<and> s \<notin> set ids"
  shows "host (unsubscribe_all H p k ids st) = host st \<and>
         (\<exists>c'. bt_get (p, k) (IVC_CHANNELS (unsubscribe_all H p k ids st)) = Some c' \<and>
               shared_region_base c' = shared_region_base c)"
  using assms
proof (induction ids arbitrary: st c)
  case Nil
  then show ?case by simp
next
  case (Cons s ss)
  show ?case
  proof (cases "bt_get s (subscriber_vms c)")
    case None
    then show ?thesis
      using Cons.IH [OF Cons.prems(1-3)] Cons.prems unsubscribe_absent [of p k st c s H] by auto
  next
    case (Some g)
    let ?c' = "c\<lparr>subscriber_vms := bt_remove s (subscriber_vms c)\<rparr>"
    let ?st' = "set_channels (bt_insert (p, k) ?c' (IVC_CHANNELS st)) st"
    have mem: "\<exists>t g. (t, g) \<in> set (subscriber_vms ?c') \<and> t \<notin> set ss"
      using Cons.prems(4) by (auto simp: bt_set_remove)
    then have ne: "bt_remove s (subscriber_vms c) \<noteq> []" by auto
    show ?thesis
      using Cons.IH [of ?st' ?c'] mem ne Cons.prems
        unsubscribe_present [OF Cons.prems(2) Some Cons.prems(1), of H] by simp
  qed
qed

text \<open>An allocator of three frames, for concrete runs.\<close>

definition list_paging :: "usize list paging_handler" where
  "list_paging = \<lparr>
     alloc_frame = (\<lambda>h. map_option (\<lambda>a. (a, a # h)) (find (\<lambda>a. a \<notin> set h) [0x1000, 0x2000, 0x3000])),
     dealloc_frame = (\<lambda>a h. removeAll a h)\<rparr>"

lemma find_SomeD: "find P xs = Some x \<Longrightarrow> P x"
  by (auto simp: find_Some_iff)

lemma list_paging_laws: "paging_laws list_paging set"
  unfolding paging_laws_def
proof (intro conjI allI impI)
  fix h a h'
  assume "alloc_frame list_paging h = Some (a, h')"
  then have h': "h' = a # h" and a: "find (\<lambda>a. a \<notin> set h) [0x1000, 0x2000, 0x3000] = Some a"
    by (auto simp only: list_paging_def paging_handler.simps map_option_eq_Some prod.inject)
  show "a \<notin> set h" using a by (rule find_SomeD)
  show "set h' = insert a (set h)" by (simp only: h' list.set)
next
  show "set (dealloc_frame list_paging a h) = set h - {a}" for a h
    by (simp add: list_paging_def)
qed

section \<open>Main results\<close>

text \<open>
  \<^bold>\<open>C2\<close> (invariant). Start from an empty channel map while the rest of the hypervisor uses the
  frames \<open>R\<close>. After any interleaving of allocations, early returns, publishes, unpublishes,
  subscribes and unsubscribes by any VMs, successful or not: no two channels share a frame; the
  frames in use are exactly \<open>R\<close> and the frames of the existing channels, so that no frame leaks,
  none is freed twice and none of \<open>R\<close> is touched; every channel is stored under its own publisher
  and key with a size of at most one page; and a channel that is unpublished but still stored has
  a subscriber.
\<close>

theorem ivc_frame_ownership:
  assumes "ivc_init H live R s" "(ivc_next H)\<^sup>*\<^sup>* s (st, held)"
  shows "let channels = map snd (IVC_CHANNELS st) @ held
    in distinct (map shared_region_base channels) \<and>
       live (host st) = R \<union> shared_region_base ` set channels \<and>
       R \<inter> shared_region_base ` set channels = {} \<and>
       (\<forall>(pk, c) \<in> set (IVC_CHANNELS st). pk = (publisher_vm_id c, key c) \<and>
           shared_region_size c \<le> 4096 \<and> (base_gpa c = None \<longrightarrow> subscribers c \<noteq> []))"
proof -
  have inv: "ivc_inv H live R (st, held)"
    using assms by (rule ivc.reachable_inv)
  have "\<forall>(pk, c) \<in> set (IVC_CHANNELS st). pk = (publisher_vm_id c, key c) \<and>
           shared_region_size c \<le> 4096 \<and> (base_gpa c = None \<longrightarrow> subscribers c \<noteq> [])"
    using inv by (auto simp: ivc_inv_def channel_ok_def subscribers_def bt_entries_def)
  then show ?thesis
    using ivc_inv_frames [OF inv] by (simp add: Let_def image_Un image_image)
qed

definition ivc_empty :: "usize list ivc_state" where
  "ivc_empty = \<lparr>IVC_CHANNELS = [], host = [], frame_header = (\<lambda>_. \<lparr>header_publisher_id = 0, header_key = 0\<rparr>)\<rparr>"

definition chan_1_7 :: IVCChannel where
  "chan_1_7 = \<lparr>publisher_vm_id = 1, key = 7, subscriber_vms = [], shared_region_base = 0x1000,
               shared_region_size = 256, base_gpa = Some 0x80000000\<rparr>"

definition ivc_one :: "(usize, usize) btree \<Rightarrow> usize option \<Rightarrow> usize list ivc_state" where
  "ivc_one subs gpa = ivc_empty\<lparr>IVC_CHANNELS := [((1, 7), chan_1_7\<lparr>subscriber_vms := subs, base_gpa := gpa\<rparr>)],
     host := [0x1000],
     frame_header := (frame_header ivc_empty)(0x1000 := \<lparr>header_publisher_id = 1, header_key = 7\<rparr>)\<rparr>"

lemmas ivc_example_defs = ivc_empty_def chan_1_7_def ivc_one_def

lemma ivc_example_run: "(ivc_next list_paging)\<^sup>*\<^sup>* (ivc_empty, []) (ivc_one [] (Some 0x80000000), [])"
proof -
  let ?st = "snd (IVCChannel_alloc list_paging 1 7 256 0x80000000 ivc_empty)"
  have "ivc_step list_paging (Alloc 1 7 256 0x80000000) (ivc_empty, []) (?st, [chan_1_7])"
    by (rule step_alloc) (simp add: IVCChannel_alloc_def list_paging_def ivc_example_defs)
  moreover have "ivc_step list_paging (Insert chan_1_7) (?st, [chan_1_7])
      (ivc_one [] (Some 0x80000000), remove1 chan_1_7 [chan_1_7])"
    by (rule step_insert [where r = "Inr ()"])
      (simp_all add: IVCChannel_alloc_def insert_channel_def list_paging_def ivc_example_defs
        set_channels_def Let_def)
  ultimately show ?thesis
    by (intro rtranclp_trans [OF r_into_rtranclp r_into_rtranclp]) (auto simp: ivc_next_def)
qed

lemma ivc_example_init: "ivc_init list_paging set {} (ivc_empty, [])"
  by (simp add: ivc_init_def list_paging_laws ivc_empty_def)

theorem ivc_frame_ownership_witness:
  "ivc_init list_paging set {} (ivc_empty, []) \<and>
   (ivc_next list_paging)\<^sup>*\<^sup>* (ivc_empty, []) (ivc_one [] (Some 0x80000000), []) \<and>
   set (host (ivc_one [] (Some 0x80000000))) = {0x1000}"
proof (intro conjI ivc_example_init ivc_example_run)
  show "set (host (ivc_one [] (Some 0x80000000))) = {0x1000}"
    using ivc_frame_ownership [OF ivc_example_init ivc_example_run]
    by (simp add: Let_def ivc_one_def chan_1_7_def)
qed

text \<open>
  \<^bold>\<open>C3\<close> (safety). Which steps free the frame of a stored channel, in every reachable state: the
  unpublish of a channel without subscribers; the removal of the last subscriber of an unpublished
  channel; and two more. A second unpublish of a channel that still has subscribers frees its
  frame, and so does publishing the same key again while the channel is stored. In both cases the
  subscribers' guests keep the freed frame mapped.
\<close>

theorem ivc_frame_freed_iff:
  assumes "ivc_inv H live R (st, held)" "ivc_step H oper (st, held) (st', held')"
    and "bt_get (p, k) (IVC_CHANNELS st) = Some c"
  shows "shared_region_base c \<notin> live (host st') \<longleftrightarrow>
    oper = Unpublish p k \<and> (subscribers c = [] \<or> base_gpa c = None) \<or>
    (\<exists>s gpa. oper = Unsubscribe p k s \<and> subscribers c = [(s, gpa)] \<and> base_gpa c = None) \<or>
    (\<exists>d. oper = Insert d \<and> publisher_vm_id d = p \<and> key d = k)"
proof -
  note live = ivc_inv_live [OF assms(1,3)] and freed = ivc_freed_drop [OF assms(1,3)]
  from assms(2) show ?thesis
  proof (rule ivc_stepE, goal_cases)
    case 1
    then show ?case using live host_after_alloc [OF assms(1) 1(3)] by auto
  next
    case 2
    then show ?case using live host_after_alloc [OF assms(1) 2(3)] by auto
  next
    case (3 d)
    then have "shared_region_base d \<in> live (host st)"
      using assms(1) frames_held [of d held st] by (auto simp: ivc_inv_def dest: owned_mem)
    with 3 live ivc_inv_held_base [OF assms(1,3), of d] show ?case
      by (auto simp: live_after_drop [OF assms(1)])
  next
    case (4 d)
    note host = host_after_insert [OF 4(4)]
    show ?case
      using 4(1) live assms(3) unfolding host
      by (cases "bt_get (publisher_vm_id d, key d) (IVC_CHANNELS st)") (auto simp: freed)
  next
    case (5 p' k')
    note host = host_after_unpublish [OF 5(3)]
    show ?case
      using 5(1) live assms(3) unfolding host subscribers_def bt_entries_def
      by (cases "bt_get (p', k') (IVC_CHANNELS st)") (auto simp: freed)
  next
    case (6 p k s gpa)
    with live show ?case by (auto dest!: host_after_subscribe)
  next
    case (7 p' k' s)
    note host = host_after_unsubscribe [OF assms(1) 7(3)]
    show ?case
      using 7(1) live assms(3) unfolding host subscribers_def bt_entries_def
      by (cases "bt_get (p', k') (IVC_CHANNELS st)") (auto simp: freed)
  qed
qed

lemma ivc_example_inv: "ivc_inv list_paging set {} (ivc_one [(2, 0x90000000)] gpa, [])"
  by (simp add: ivc_inv_def list_paging_laws ivc_example_defs bt_inv_def channel_ok_def frames_def owned_def)

theorem ivc_frame_freed_iff_witness:
  "let st = ivc_one [(2, 0x90000000)] None; st' = snd (unpublish_channel list_paging 1 7 st)
   in ivc_inv list_paging set {} (st, []) \<and> ivc_step list_paging (Unpublish 1 7) (st, []) (st', []) \<and>
      bt_get (1, 7) (IVC_CHANNELS st) = Some (chan_1_7\<lparr>subscriber_vms := [(2, 0x90000000)], base_gpa := None\<rparr>) \<and>
      0x1000 \<notin> set (host st')"
proof -
  let ?st = "ivc_one [(2, 0x90000000)] None"
  let ?c = "chan_1_7\<lparr>subscriber_vms := [(2, 0x90000000)], base_gpa := None\<rparr>"
  let ?st' = "snd (unpublish_channel list_paging 1 7 ?st)"
  have step: "ivc_step list_paging (Unpublish 1 7) (?st, []) (?st', [])"
    by (rule step_unpublish [where ru = "fst (unpublish_channel list_paging 1 7 ?st)"]) simp
  have get: "bt_get (1, 7) (IVC_CHANNELS ?st) = Some ?c"
    by (simp add: ivc_one_def bt_get_def)
  from ivc_frame_freed_iff [OF ivc_example_inv step get] have "0x1000 \<notin> set (host ?st')"
    by (simp add: chan_1_7_def)
  with step get ivc_example_inv show ?thesis by (simp add: Let_def)
qed



end
