(* ===== verification/Hypercall.thy ===== *)
theory Hypercall
  imports IVC
begin

text \<open>
  The hypercall handler, \<^verbatim>\<open>kernel/src/vmm/hvc.rs\<close>. The VM object is of the \<^verbatim>\<open>axvm\<close> crate: its methods
  that the handler calls are the fields of the record \<open>vm_ops\<close>, acting on an abstract guest world
  \<open>'w\<close> (guest memory and stage-2 mappings). The decoding of hypercall numbers is of the \<^verbatim>\<open>axhvc\<close>
  crate and is the parameter \<open>code_try_from\<close>; codes that the handler does not name are \<open>OtherCode\<close>.

  A channel that is live when the handler returns early with \<^verbatim>\<open>?\<close> is dropped there.
\<close>

datatype HyperCallCode =
    HIVCPublishChannel
  | HIVCUnPublishChannel
  | HIVCSubscribChannel
  | HIVCUnSubscribChannel
  | OtherCode u32

datatype mapping_flag = READ | WRITE

record 'w vm_ops =
  vm_id :: usize
  read_from_guest_of :: "usize \<Rightarrow> 'w \<Rightarrow> usize ax_result"
  write_to_guest_of :: "usize \<Rightarrow> usize \<Rightarrow> 'w \<Rightarrow> unit ax_result \<times> 'w"
  alloc_ivc_channel :: "usize \<Rightarrow> 'w \<Rightarrow> (usize \<times> usize) ax_result \<times> 'w"
  map_region :: "usize \<Rightarrow> usize \<Rightarrow> usize \<Rightarrow> mapping_flag set \<Rightarrow> 'w \<Rightarrow> unit ax_result \<times> 'w"
  unmap_region :: "usize \<Rightarrow> usize \<Rightarrow> 'w \<Rightarrow> unit ax_result \<times> 'w"

record 'w HyperCall =
  hc_vm :: "'w vm_ops"
  hc_code :: HyperCallCode
  hc_args :: "u64 list"

definition HyperCall_new ::
    "(u32 \<Rightarrow> HyperCallCode option) \<Rightarrow> 'w vm_ops \<Rightarrow> u64 \<Rightarrow> u64 list \<Rightarrow> 'w HyperCall ax_result" where
  "HyperCall_new code_try_from vm code args =
     (case code_try_from (ucast code) of
        None \<Rightarrow> Inl InvalidInput
      | Some c \<Rightarrow> Inr \<lparr>hc_vm = vm, hc_code = c, hc_args = args\<rparr>)"

type_synonym ('h, 'w) hv_result = "usize ax_result outcome \<times> 'h ivc_state \<times> 'w"

definition write_back ::
    "'w vm_ops \<Rightarrow> usize \<Rightarrow> usize \<Rightarrow> usize \<Rightarrow> usize \<Rightarrow> 'w \<Rightarrow> unit ax_result \<times> 'w" where
  "write_back vm base_ptr gpa size_ptr sz w =
     (case write_to_guest_of vm base_ptr gpa w of
        (Inl e, w') \<Rightarrow> (Inl e, w')
      | (Inr _, w') \<Rightarrow> write_to_guest_of vm size_ptr sz w')"

definition execute_publish ::
    "'h paging_handler \<Rightarrow> 'w HyperCall \<Rightarrow> 'h ivc_state \<Rightarrow> 'w \<Rightarrow> ('h, 'w) hv_result" where
  "execute_publish H hc st w =
     (let vm = hc_vm hc; k = hc_args hc ! 0; base_ptr = hc_args hc ! 1; size_ptr = hc_args hc ! 2
      in case read_from_guest_of vm size_ptr w of
           Inl e \<Rightarrow> (Done (Inl e), st, w)
         | Inr want \<Rightarrow>
      (case alloc_ivc_channel vm want w of
           (Inl e, w1) \<Rightarrow> (Done (Inl e), st, w1)
         | (Inr (gpa, region_size), w1) \<Rightarrow>
      (case IVCChannel_alloc H (vm_id vm) k region_size gpa st of
           (Inl e, st1) \<Rightarrow> (Done (Inl e), st1, w1)
         | (Inr c, st1) \<Rightarrow>
      (let actual_size = IVCChannel_size c
       in case map_region vm gpa (base_hpa c) actual_size {READ, WRITE} w1 of
           (Inl e, w2) \<Rightarrow> (Done (Inl e), IVCChannel_drop H c st1, w2)
         | (Inr _, w2) \<Rightarrow>
      (case write_back vm base_ptr gpa size_ptr actual_size w2 of
           (Inl e, w3) \<Rightarrow> (Done (Inl e), IVCChannel_drop H c st1, w3)
         | (Inr _, w3) \<Rightarrow>
      (case insert_channel H (vm_id vm) c st1 of
           (Inl e, st2) \<Rightarrow> (Done (Inl e), st2, w3)
         | (Inr _, st2) \<Rightarrow> (Done (Inr 0), st2, w3)))))))"

definition execute_unpublish ::
    "'h paging_handler \<Rightarrow> 'w HyperCall \<Rightarrow> 'h ivc_state \<Rightarrow> 'w \<Rightarrow> ('h, 'w) hv_result" where
  "execute_unpublish H hc st w =
     (let vm = hc_vm hc; k = hc_args hc ! 0
      in case unpublish_channel H (vm_id vm) k st of
           (Inl e, st1) \<Rightarrow> (Done (Inl e), st1, w)
         | (Inr None, st1) \<Rightarrow> (Panic ''called `Option::unwrap()` on a `None` value'', st1, w)
         | (Inr (Some (gpa, sz)), st1) \<Rightarrow>
      (case unmap_region vm gpa sz w of
           (Inl e, w1) \<Rightarrow> (Done (Inl e), st1, w1)
         | (Inr _, w1) \<Rightarrow> (Done (Inr 0), st1, w1)))"

definition execute_subscribe ::
    "'w HyperCall \<Rightarrow> 'h ivc_state \<Rightarrow> 'w \<Rightarrow> ('h, 'w) hv_result" where
  "execute_subscribe hc st w =
     (let vm = hc_vm hc; pub_id = hc_args hc ! 0; k = hc_args hc ! 1;
          base_ptr = hc_args hc ! 2; size_ptr = hc_args hc ! 3
      in case get_channel_size pub_id k st of
           Inl e \<Rightarrow> (Done (Inl e), st, w)
         | Inr want \<Rightarrow>
      (case alloc_ivc_channel vm want w of
           (Inl e, w1) \<Rightarrow> (Done (Inl e), st, w1)
         | (Inr (gpa, _), w1) \<Rightarrow>
      (case subscribe_to_channel_of_publisher pub_id k (vm_id vm) gpa st of
           (Inl e, st1) \<Rightarrow> (Done (Inl e), st1, w1)
         | (Inr (hpa, actual_size), st1) \<Rightarrow>
      (case map_region vm gpa hpa actual_size {READ, WRITE} w1 of
           (Inl e, w2) \<Rightarrow> (Done (Inl e), st1, w2)
         | (Inr _, w2) \<Rightarrow>
      (case write_back vm base_ptr gpa size_ptr actual_size w2 of
           (Inl e, w3) \<Rightarrow> (Done (Inl e), st1, w3)
         | (Inr _, w3) \<Rightarrow> (Done (Inr 0), st1, w3))))))"

definition execute_unsubscribe ::
    "'h paging_handler \<Rightarrow> 'w HyperCall \<Rightarrow> 'h ivc_state \<Rightarrow> 'w \<Rightarrow> ('h, 'w) hv_result" where
  "execute_unsubscribe H hc st w =
     (let vm = hc_vm hc; pub_id = hc_args hc ! 0; k = hc_args hc ! 1
      in case unsubscribe_from_channel_of_publisher H pub_id k (vm_id vm) st of
           (Inl e, st1) \<Rightarrow> (Done (Inl e), st1, w)
         | (Inr (gpa, sz), st1) \<Rightarrow>
      (case unmap_region vm gpa sz w of
           (Inl e, w1) \<Rightarrow> (Done (Inl e), st1, w1)
         | (Inr _, w1) \<Rightarrow> (Done (Inr 0), st1, w1)))"

definition execute ::
    "'h paging_handler \<Rightarrow> 'w HyperCall \<Rightarrow> 'h ivc_state \<Rightarrow> 'w \<Rightarrow> ('h, 'w) hv_result" where
  "execute H hc st w =
     (case hc_code hc of
        HIVCPublishChannel \<Rightarrow> execute_publish H hc st w
      | HIVCUnPublishChannel \<Rightarrow> execute_unpublish H hc st w
      | HIVCSubscribChannel \<Rightarrow> execute_subscribe hc st w
      | HIVCUnSubscribChannel \<Rightarrow> execute_unsubscribe H hc st w
      | OtherCode _ \<Rightarrow> (Done (Inl Unsupported), st, w))"

section \<open>Every path keeps the ownership of frames\<close>

lemmas hv_splits = sum.splits prod.splits option.splits unit.splits

lemma IVCChannel_alloc_publisher:
  "IVCChannel_alloc H p k sz gpa st = (Inr c, st') \<Longrightarrow> publisher_vm_id c = p \<and> key c = k"
  by (auto simp: IVCChannel_alloc_def Let_def split: option.splits)

lemma unpublish_channel_not_None: "unpublish_channel H p k st \<noteq> (Inr None, st')"
  by (auto simp: unpublish_channel_def Let_def split: option.splits if_splits)

lemma execute_publish_inv:
  assumes "ivc_inv H live R (st, held)" "execute_publish H hc st w = (r, st', w')"
  shows "ivc_inv H live R (st', held) \<and> (\<exists>v. r = Done v)"
proof -
  have alloc: "ivc_inv H live R (st1, c # held)"
    if "IVCChannel_alloc H p k sz gpa st = (Inr c, st1)" for p k sz gpa c st1
    using alloc_inv [OF assms(1) that] by simp
  have drop: "ivc_inv H live R (IVCChannel_drop H c st1, held)"
    if "IVCChannel_alloc H p k sz gpa st = (Inr c, st1)" for p k sz gpa c st1
    using ivc_inv_drop_held [OF alloc [OF that], of c] by simp
  have ins: "ivc_inv H live R (st2, held)"
    if "IVCChannel_alloc H p k sz gpa st = (Inr c, st1)" "insert_channel H p c st1 = (q, st2)"
    for p k sz gpa c st1 st2 q
    using insert_channel_inv [OF alloc [OF that(1)], of c q st2] IVCChannel_alloc_publisher [OF that(1)] that(2)
    by simp
  have fail: "ivc_inv H live R (st1, held)"
    if "IVCChannel_alloc H p k sz gpa st = (Inl e, st1)" for p k sz gpa e st1
    using alloc_inv [OF assms(1) that] by simp
  show ?thesis
    using assms unfolding execute_publish_def
    by (auto simp: Let_def split: hv_splits dest: drop ins fail)
qed

lemma execute_unpublish_inv:
  assumes "ivc_inv H live R (st, held)" "execute_unpublish H hc st w = (r, st', w')"
  shows "ivc_inv H live R (st', held) \<and> (\<exists>v. r = Done v)"
  using assms unfolding execute_unpublish_def
  by (auto simp: Let_def unpublish_channel_not_None split: hv_splits dest: unpublish_channel_inv)

lemma execute_subscribe_inv:
  assumes "ivc_inv H live R (st, held)" "execute_subscribe hc st w = (r, st', w')"
  shows "ivc_inv H live R (st', held) \<and> (\<exists>v. r = Done v)"
  using assms unfolding execute_subscribe_def
  by (auto simp: Let_def split: hv_splits dest: subscribe_inv)

lemma execute_unsubscribe_inv:
  assumes "ivc_inv H live R (st, held)" "execute_unsubscribe H hc st w = (r, st', w')"
  shows "ivc_inv H live R (st', held) \<and> (\<exists>v. r = Done v)"
  using assms unfolding execute_unsubscribe_def
  by (auto simp: Let_def split: hv_splits dest: unsubscribe_inv)

lemmas execute_arm_inv = execute_publish_inv execute_unpublish_inv execute_subscribe_inv
  execute_unsubscribe_inv

section \<open>Main results\<close>

text \<open>
  \<^bold>\<open>C4\<close> (safety). Whatever the guest passes, whatever the guest memory, the mappings and the
  allocator answer, and on every error path of the four hypercalls: the handler does not panic
  (its \<^verbatim>\<open>unwrap\<close> is safe), and it returns with every frame that it allocated either owned by a stored
  channel or given back, the frames that other vCPUs' handlers hold untouched.
\<close>

theorem hypercall_keeps_frame_ownership:
  assumes "ivc_inv H live R (st, held)" "execute H hc st w = (r, st', w')"
  shows "ivc_inv H live R (st', held) \<and> (\<exists>v. r = Done v)"
  using assms unfolding execute_def
  by (auto split: HyperCallCode.splits dest: execute_arm_inv)

text \<open>A guest world that accepts every request and records the mappings it is asked for.\<close>

definition recording_vm :: "usize \<Rightarrow> (usize \<times> usize \<times> usize) list vm_ops" where
  "recording_vm i = \<lparr>vm_id = i, read_from_guest_of = (\<lambda>p w. Inr 256),
     write_to_guest_of = (\<lambda>p v w. (Inr (), w)),
     alloc_ivc_channel = (\<lambda>sz w. (Inr (0x80000000, 4096), w)),
     map_region = (\<lambda>gpa hpa sz fl w. (Inr (), (gpa, hpa, sz) # w)),
     unmap_region = (\<lambda>gpa sz w. (Inr (), w))\<rparr>"

definition publish_call :: "usize \<Rightarrow> (usize \<times> usize \<times> usize) list HyperCall" where
  "publish_call i = \<lparr>hc_vm = recording_vm i, hc_code = HIVCPublishChannel, hc_args = [7, 0, 8, 0, 0, 0]\<rparr>"

definition subscribe_call :: "usize \<Rightarrow> (usize \<times> usize \<times> usize) list HyperCall" where
  "subscribe_call i = \<lparr>hc_vm = recording_vm i, hc_code = HIVCSubscribChannel, hc_args = [1, 7, 0, 8, 0, 0]\<rparr>"

lemmas hv_example_defs = recording_vm_def publish_call_def subscribe_call_def

theorem hypercall_keeps_frame_ownership_witness:
  "let (r, st', w') = execute list_paging (publish_call 1) ivc_empty []
   in ivc_inv list_paging set {} (ivc_empty, []) \<and> (\<exists>v. r = Done v) \<and> ivc_inv list_paging set {} (st', [])"
proof -
  have inv: "ivc_inv list_paging set {} (ivc_empty, [])"
    by (rule ivc_init_inv) (rule ivc_example_init)
  obtain r st' w' where eq: "execute list_paging (publish_call 1) ivc_empty [] = (r, st', w')"
    by (cases "execute list_paging (publish_call 1) ivc_empty []")
  show ?thesis
    using hypercall_keeps_frame_ownership [OF inv eq] inv by (simp add: eq)
qed

lemma execute_publish_Done:
  assumes "execute_publish H hc st w = (Done (Inr v), st', w')"
  shows "\<exists>want gpa sz w1 c w2. read_from_guest_of (hc_vm hc) (hc_args hc ! 2) w = Inr want \<and>
    alloc_ivc_channel (hc_vm hc) want w = (Inr (gpa, sz), w1) \<and>
    map_region (hc_vm hc) gpa (shared_region_base c) (shared_region_size c) {READ, WRITE} w1 = (Inr (), w2) \<and>
    shared_region_size c \<le> 4096 \<and> base_gpa c = Some gpa \<and> subscriber_vms c = [] \<and>
    bt_get (vm_id (hc_vm hc), hc_args hc ! 0) (IVC_CHANNELS st') = Some c"
  using assms unfolding execute_publish_def
  by (auto simp: Let_def IVCChannel_alloc_def insert_channel_def ivc_defs(2-) split: hv_splits)

lemma add_subscriber_same:
  "shared_region_base (add_subscriber s gpa c) = shared_region_base c"
  "shared_region_size (add_subscriber s gpa c) = shared_region_size c"
  "base_gpa (add_subscriber s gpa c) = base_gpa c"
  by (simp_all add: add_subscriber_def)

lemma execute_subscribe_Done:
  assumes "execute_subscribe hc st w = (Done (Inr v), st', w')"
    "bt_get (hc_args hc ! 0, hc_args hc ! 1) (IVC_CHANNELS st) = Some c"
  shows "\<exists>gpa w1 w2.
    map_region (hc_vm hc) gpa (shared_region_base c) (shared_region_size c) {READ, WRITE} w1 = (Inr (), w2) \<and>
    bt_get (hc_args hc ! 0, hc_args hc ! 1) (IVC_CHANNELS st') = Some (add_subscriber (vm_id (hc_vm hc)) gpa c)"
  using assms unfolding execute_subscribe_def
  by (auto simp: Let_def get_channel_size_def subscribe_to_channel_of_publisher_def ivc_defs(2-)
      add_subscriber_same split: hv_splits) blast


definition ivc_shared :: "(usize, usize) btree \<Rightarrow> usize list ivc_state" where
  "ivc_shared subs = ivc_one [] None
     \<lparr>IVC_CHANNELS := [((1, 7), chan_1_7\<lparr>shared_region_size := 4096, subscriber_vms := subs\<rparr>)]\<rparr>"

lemma hv_example_publish:
  "execute list_paging (publish_call 1) ivc_empty [] =
   (Done (Inr 0), ivc_shared [], [(0x80000000, 0x1000, 4096)])"
  by (simp add: execute_def execute_publish_def hv_example_defs ivc_example_defs Let_def write_back_def
      IVCChannel_alloc_def list_paging_def insert_channel_def ivc_defs ivc_shared_def)

lemma hv_example_subscribe:
  "execute list_paging (subscribe_call 2) (ivc_shared []) [] =
   (Done (Inr 0), ivc_shared [(2, 0x80000000)], [(0x80000000, 0x1000, 4096)])"
  by (simp add: execute_def execute_subscribe_def hv_example_defs ivc_example_defs Let_def write_back_def
      get_channel_size_def subscribe_to_channel_of_publisher_def ivc_defs bt_get_def ivc_shared_def
      add_subscriber_def bt_contains_key_def)

lemma example_calls:
  "hc_code (publish_call i) = HIVCPublishChannel" "hc_code (subscribe_call i) = HIVCSubscribChannel"
  "hc_args (subscribe_call i) ! 0 = 1" "hc_args (subscribe_call i) ! 1 = hc_args (publish_call j) ! 0"
  "hc_args (publish_call i) ! 0 = 7" "vm_id (hc_vm (publish_call i)) = i" "vm_id (hc_vm (subscribe_call i)) = i"
  by (simp_all add: hv_example_defs)


text \<open>
  When the guest region is mapped but writing the result back to the guest fails, the
  publish hypercall reports the error and frees the frame, and leaves the guest world as the
  failing write left it: nothing unmaps the region, so the guest keeps access to a free frame.
\<close>

theorem publish_write_back_failure_frees_mapped_frame:
  assumes "hc_code hc = HIVCPublishChannel"
    and "read_from_guest_of (hc_vm hc) (hc_args hc ! 2) w = Inr want"
    and "alloc_ivc_channel (hc_vm hc) want w = (Inr (gpa, sz), w1)"
    and "alloc_frame H (host st) = Some (base, h')"
    and "map_region (hc_vm hc) gpa base (min sz 4096) {READ, WRITE} w1 = (Inr (), w2)"
    and "write_to_guest_of (hc_vm hc) (hc_args hc ! 1) gpa w2 = (Inl e, w3)"
  shows "\<exists>st'. execute H hc st w = (Done (Inl e), st', w3) \<and>
    IVC_CHANNELS st' = IVC_CHANNELS st \<and> host st' = dealloc_frame H base h'"
  using assms
  by (simp add: execute_def execute_publish_def Let_def IVCChannel_alloc_def write_back_def
      base_hpa_def IVCChannel_size_def IVCChannel_drop_def)

definition failing_call :: "(usize \<times> usize \<times> usize) list HyperCall" where
  "failing_call = (publish_call 1)
     \<lparr>hc_vm := recording_vm 1\<lparr>write_to_guest_of := (\<lambda>p v w. (Inl InvalidInput, w))\<rparr>\<rparr>"

theorem publish_write_back_failure_frees_mapped_frame_witness:
  "\<exists>st'. execute list_paging failing_call ivc_empty [] =
     (Done (Inl InvalidInput), st', [(0x80000000, 0x1000, 4096)]) \<and> host st' = []"
  using publish_write_back_failure_frees_mapped_frame
    [where hc = failing_call and w = "[]" and want = 256 and gpa = "0x80000000" and sz = 4096 and
       H = list_paging and st = ivc_empty and base = "0x1000" and h' = "[0x1000]" and e = InvalidInput ]
  by (simp add: failing_call_def hv_example_defs list_paging_def ivc_empty_def) blast

end
