(* ===== verification/VCpus.thy ===== *)
theory VCpus
  imports VM_List Hypercall
begin

text \<open>
  The vCPU tasks of the hypervisor: \<^verbatim>\<open>kernel/src/vmm/vcpus.rs\<close>, the task extension of
  \<^verbatim>\<open>kernel/src/task.rs\<close> and the counters and boot loop of \<^verbatim>\<open>kernel/src/vmm/mod.rs\<close>.

  The VM object is of the \<^verbatim>\<open>axvm\<close> crate: the methods that the code calls are the fields of the
  record \<open>axvm\<close>, functions on an abstract object state \<open>'v\<close>. VM objects are shared (\<^verbatim>\<open>Arc\<close>), so the
  state holds a store from references to objects; the VM table and the tasks hold references.

  \<^verbatim>\<open>vcpu_run\<close> is a step relation on the program counters of the tasks, with a step for every point
  at which another task can intervene. A task that blocks in a wait queue records which queue it is
  blocked in; only a notification of that queue makes it runnable. \<^verbatim>\<open>notify_one\<close> wakes one waiter, and
  the scheduler's choice of the waiter is the argument \<open>pick\<close>.
\<close>

section \<open>The state\<close>

datatype VMStatus = Loading | Loaded | Running | Suspended | Stopping | Stopped

datatype VCpuState = VCpuInvalid | VCpuCreated | VCpuFree | VCpuReady | VCpuRunning | VCpuBlocked

record 'v axvm =
  ax_id :: "'v \<Rightarrow> usize"
  ax_status :: "'v \<Rightarrow> VMStatus"
  ax_set_status :: "VMStatus \<Rightarrow> 'v \<Rightarrow> 'v"
  ax_boot :: "'v \<Rightarrow> unit ax_result \<times> 'v"
  ax_shutdown :: "'v \<Rightarrow> unit ax_result \<times> 'v"
  ax_running :: "'v \<Rightarrow> bool"
  ax_suspending :: "'v \<Rightarrow> bool"
  ax_stopping :: "'v \<Rightarrow> bool"
  ax_vcpu_states :: "'v \<Rightarrow> VCpuState list"
  ax_affinities :: "'v \<Rightarrow> (usize \<times> usize option \<times> usize) list"
  ax_set_entry :: "nat \<Rightarrow> usize \<Rightarrow> 'v \<Rightarrow> unit ax_result \<times> 'v"
  ax_set_gpr :: "nat \<Rightarrow> nat \<Rightarrow> usize \<Rightarrow> 'v \<Rightarrow> 'v"

record VMVCpus =
  vmvcpus_vm_id :: usize
  wait_queue :: nat
  vcpu_task_list :: "nat list"
  running_halting_vcpu_count :: usize

datatype vcpu_pc =
    BootWait
  | BootBlocked nat
  | Booted
  | InGuest
  | HaltBlocked nat
  | CheckSuspend
  | SuspendWait
  | SuspendBlocked nat
  | CheckStop
  | Exiting
  | LastExit
  | Exited
  | Panicked string

record VCpuTask =
  task_vm :: nat
  task_vcpu :: nat
  task_pc :: vcpu_pc

record 'v vmm_state =
  VM_VCPU_TASK_WAIT_QUEUE :: "(usize, VMVCpus) btree"
  next_wait_queue :: nat
  tasks :: "VCpuTask list"
  vms :: "nat \<Rightarrow> 'v"
  RUNNING_VM_COUNT :: usize
  GLOBAL_VM_LIST :: "nat VMList"

definition vmm_boot_state :: "(nat \<Rightarrow> 'v) \<Rightarrow> nat VMList \<Rightarrow> 'v vmm_state" where
  "vmm_boot_state objs vl = \<lparr>VM_VCPU_TASK_WAIT_QUEUE = [], next_wait_queue = 0, tasks = [],
     vms = objs, RUNNING_VM_COUNT = 0, GLOBAL_VM_LIST = vl\<rparr>"

section \<open>The wait-queue table\<close>

definition VMVCpus_new :: "usize \<Rightarrow> nat \<Rightarrow> VMVCpus" where
  "VMVCpus_new i wq = \<lparr>vmvcpus_vm_id = i, wait_queue = wq, vcpu_task_list = [], running_halting_vcpu_count = 0\<rparr>"

definition add_vcpu_task :: "nat \<Rightarrow> VMVCpus \<Rightarrow> VMVCpus" where
  "add_vcpu_task t e = e\<lparr>vcpu_task_list := vcpu_task_list e @ [t]\<rparr>"

definition VMVCpus_mark_vcpu_running :: "VMVCpus \<Rightarrow> VMVCpus" where
  "VMVCpus_mark_vcpu_running e = e\<lparr>running_halting_vcpu_count := running_halting_vcpu_count e + 1\<rparr>"

definition VMVCpus_mark_vcpu_exiting :: "VMVCpus \<Rightarrow> bool \<times> VMVCpus" where
  "VMVCpus_mark_vcpu_exiting e =
     (running_halting_vcpu_count e = 1,
      e\<lparr>running_halting_vcpu_count := running_halting_vcpu_count e - 1\<rparr>)"

definition queue_get :: "usize \<Rightarrow> 'v vmm_state \<Rightarrow> VMVCpus option" where
  "queue_get i st = bt_get i (VM_VCPU_TASK_WAIT_QUEUE st)"

definition queue_insert :: "usize \<Rightarrow> VMVCpus \<Rightarrow> 'v vmm_state \<Rightarrow> 'v vmm_state" where
  "queue_insert i e st =
     st\<lparr>VM_VCPU_TASK_WAIT_QUEUE := bt_insert i e (VM_VCPU_TASK_WAIT_QUEUE st)\<rparr>"

definition queue_remove :: "usize \<Rightarrow> 'v vmm_state \<Rightarrow> 'v vmm_state" where
  "queue_remove i st = st\<lparr>VM_VCPU_TASK_WAIT_QUEUE := bt_remove i (VM_VCPU_TASK_WAIT_QUEUE st)\<rparr>"

definition unwrap_none :: string where
  "unwrap_none = ''called `Option::unwrap()` on a `None` value''"

definition mark_vcpu_running :: "usize \<Rightarrow> 'v vmm_state \<Rightarrow> 'v vmm_state outcome" where
  "mark_vcpu_running i st =
     (case queue_get i st of
        None \<Rightarrow> Panic unwrap_none
      | Some e \<Rightarrow> Done (queue_insert i (VMVCpus_mark_vcpu_running e) st))"

definition mark_vcpu_exiting :: "usize \<Rightarrow> 'v vmm_state \<Rightarrow> (bool \<times> 'v vmm_state) outcome" where
  "mark_vcpu_exiting i st =
     (case queue_get i st of
        None \<Rightarrow> Panic unwrap_none
      | Some e \<Rightarrow>
          (let (b, e') = VMVCpus_mark_vcpu_exiting e in Done (b, queue_insert i e' st)))"

text \<open>Waking the waiters of a queue: each continues after the point where it blocked.\<close>

fun wake :: "nat \<Rightarrow> vcpu_pc \<Rightarrow> vcpu_pc" where
  "wake wq (BootBlocked q) = (if q = wq then BootWait else BootBlocked q)"
| "wake wq (HaltBlocked q) = (if q = wq then CheckSuspend else HaltBlocked q)"
| "wake wq (SuspendBlocked q) = (if q = wq then SuspendWait else SuspendBlocked q)"
| "wake wq pc = pc"

definition set_pc :: "nat \<Rightarrow> vcpu_pc \<Rightarrow> 'v vmm_state \<Rightarrow> 'v vmm_state" where
  "set_pc t pc st = st\<lparr>tasks := (tasks st)[t := (tasks st ! t)\<lparr>task_pc := pc\<rparr>]\<rparr>"

definition wq_notify_all :: "nat \<Rightarrow> 'v vmm_state \<Rightarrow> 'v vmm_state" where
  "wq_notify_all wq st = st\<lparr>tasks := map (\<lambda>t. t\<lparr>task_pc := wake wq (task_pc t)\<rparr>) (tasks st)\<rparr>"

definition wq_notify_one :: "nat \<Rightarrow> nat \<Rightarrow> 'v vmm_state \<Rightarrow> 'v vmm_state" where
  "wq_notify_one pick wq st =
     (if pick < length (tasks st) then set_pc pick (wake wq (task_pc (tasks st ! pick))) st else st)"

definition notify_primary_vcpu :: "nat \<Rightarrow> usize \<Rightarrow> 'v vmm_state \<Rightarrow> 'v vmm_state outcome" where
  "notify_primary_vcpu pick i st =
     (case queue_get i st of
        None \<Rightarrow> Panic unwrap_none
      | Some e \<Rightarrow> Done (wq_notify_one pick (wait_queue e) st))"

definition notify_all_vcpus :: "usize \<Rightarrow> 'v vmm_state \<Rightarrow> 'v vmm_state" where
  "notify_all_vcpus i st =
     (case queue_get i st of None \<Rightarrow> st | Some e \<Rightarrow> wq_notify_all (wait_queue e) st)"

text \<open>
  \<^verbatim>\<open>cleanup_vm_vcpus\<close> removes the entry and then joins its tasks, which blocks the caller until every
  one of them has exited; the first component is the tasks it joins.
\<close>

definition cleanup_vm_vcpus :: "usize \<Rightarrow> 'v vmm_state \<Rightarrow> nat list \<times> 'v vmm_state" where
  "cleanup_vm_vcpus i st =
     (case queue_get i st of
        None \<Rightarrow> ([], st)
      | Some e \<Rightarrow> (vcpu_task_list e, queue_remove i st))"

definition join_returns :: "nat list \<Rightarrow> 'v vmm_state \<Rightarrow> bool" where
  "join_returns ts st = (\<forall>t \<in> set ts. task_pc (tasks st ! t) = Exited)"

section \<open>Creating tasks\<close>

definition alloc_vcpu_task :: "nat \<Rightarrow> nat \<Rightarrow> 'v vmm_state \<Rightarrow> nat \<times> 'v vmm_state" where
  "alloc_vcpu_task vm vcpu st =
     (length (tasks st), st\<lparr>tasks := tasks st @ [\<lparr>task_vm = vm, task_vcpu = vcpu, task_pc = BootWait\<rparr>]\<rparr>)"

definition setup_vm_primary_vcpu :: "'v axvm \<Rightarrow> nat \<Rightarrow> 'v vmm_state \<Rightarrow> 'v vmm_state outcome" where
  "setup_vm_primary_vcpu A vm st =
     (let i = ax_id A (vms st vm);
          e = VMVCpus_new i (next_wait_queue st);
          st0 = st\<lparr>next_wait_queue := Suc (next_wait_queue st)\<rparr>
      in if ax_vcpu_states A (vms st vm) = [] then Panic ''index out of bounds''
         else (let (t, st1) = alloc_vcpu_task vm 0 st0
               in Done (queue_insert i (add_vcpu_task t e) st1)))"

definition vcpu_on ::
    "'v axvm \<Rightarrow> nat \<Rightarrow> nat \<Rightarrow> usize \<Rightarrow> usize \<Rightarrow> 'v vmm_state \<Rightarrow> 'v vmm_state outcome" where
  "vcpu_on A vm vcpu entry_point arg st =
     (let v = vms st vm; i = ax_id A v
      in if vcpu \<ge> length (ax_vcpu_states A v) then Panic ''index out of bounds''
         else if ax_vcpu_states A v ! vcpu \<noteq> VCpuFree then Panic ''vcpu_on: invalid vcpu state''
         else case ax_set_entry A vcpu entry_point v of
                (Inl _, _) \<Rightarrow> Panic ''vcpu_on: set_entry failed''
              | (Inr _, v1) \<Rightarrow>
                  (let v2 = ax_set_gpr A vcpu 0 arg v1;
                       (t, st1) = alloc_vcpu_task vm vcpu (st\<lparr>vms := (vms st)(vm := v2)\<rparr>)
                   in case queue_get i st1 of
                        None \<Rightarrow> Panic unwrap_none
                      | Some e \<Rightarrow> Done (queue_insert i (add_vcpu_task t e) st1)))"

definition with_vcpu_task :: "usize \<Rightarrow> nat \<Rightarrow> (nat \<Rightarrow> 'a) \<Rightarrow> 'v vmm_state \<Rightarrow> 'a option outcome" where
  "with_vcpu_task i vcpu f st =
     (case queue_get i st of
        None \<Rightarrow> Panic unwrap_none
      | Some e \<Rightarrow> Done (if vcpu < length (vcpu_task_list e) then Some (f (vcpu_task_list e ! vcpu)) else None))"

section \<open>The main loop of a vCPU task\<close>

datatype AxVCpuExitReason =
    ExitHypercall u64 "u64 list"
  | FailEntry u64
  | ExternalInterrupt u64
  | Halt
  | ExitNothing
  | CpuDown u64
  | CpuUp u64 usize u64
  | SystemDown
  | SendIPI u64 u64 bool bool u64
  | OtherExit

text \<open>What the body of the loop does for one exit of the guest.\<close>

datatype vcpu_action =
    DoHypercall u64 "u64 list"
  | DoIrq usize
  | DoWait
  | DoNothing
  | DoCpuUp usize usize usize
  | DoShutdown
  | InjectSelf u64
  | InjectTo u64 u64
  | DoPanic string

definition find_target_vcpu :: "(usize \<times> usize option \<times> usize) list \<Rightarrow> u64 \<Rightarrow> usize option" where
  "find_target_vcpu mappings target =
     map_option fst (find (\<lambda>(_, _, phys_id). phys_id = target) mappings)"

fun vcpu_dispatch ::
    "(usize \<times> usize option \<times> usize) list \<Rightarrow> u64 \<Rightarrow> ax_error + AxVCpuExitReason \<Rightarrow> vcpu_action" where
  "vcpu_dispatch m me (Inl _) = DoShutdown"
| "vcpu_dispatch m me (Inr (ExitHypercall nr args)) = DoHypercall nr args"
| "vcpu_dispatch m me (Inr (FailEntry _)) = DoNothing"
| "vcpu_dispatch m me (Inr (ExternalInterrupt vector)) = DoIrq vector"
| "vcpu_dispatch m me (Inr Halt) = DoWait"
| "vcpu_dispatch m me (Inr ExitNothing) = DoNothing"
| "vcpu_dispatch m me (Inr (CpuDown _)) = DoWait"
| "vcpu_dispatch m me (Inr (CpuUp target entry_point arg)) =
     (case find_target_vcpu m target of
        None \<Rightarrow> DoPanic ''Physical CPU ID not found in VM configuration''
      | Some vcpu \<Rightarrow> DoCpuUp vcpu entry_point arg)"
| "vcpu_dispatch m me (Inr SystemDown) = DoShutdown"
| "vcpu_dispatch m me (Inr (SendIPI target aux send_to_all send_to_self vector)) =
     (if send_to_all then DoPanic ''not implemented: Send IPI to all CPUs is not implemented yet''
      else if target = me \<or> send_to_self then InjectSelf vector
      else InjectTo target vector)"
| "vcpu_dispatch m me (Inr OtherExit) = DoNothing"

text \<open>The value that a hypercall exit leaves in the return register; \<open>None\<close> leaves it unchanged.\<close>

definition hypercall_return ::
    "(u32 \<Rightarrow> HyperCallCode option) \<Rightarrow> 'h paging_handler \<Rightarrow> 'w vm_ops \<Rightarrow> u64 \<Rightarrow> u64 list \<Rightarrow>
     'h ivc_state \<Rightarrow> 'w \<Rightarrow> usize option outcome \<times> 'h ivc_state \<times> 'w" where
  "hypercall_return code_try_from H vm nr args st w =
     (case HyperCall_new code_try_from vm nr args of
        Inl _ \<Rightarrow> (Done None, st, w)
      | Inr hc \<Rightarrow>
          (case execute H hc st w of
             (Panic m, st', w') \<Rightarrow> (Panic m, st', w')
           | (Done (Inr ret_val), st', w') \<Rightarrow> (Done (Some ret_val), st', w')
           | (Done (Inl _), st', w') \<Rightarrow> (Done (Some (- 1)), st', w')))"

definition set_vm :: "nat \<Rightarrow> 'v \<Rightarrow> 'v vmm_state \<Rightarrow> 'v vmm_state" where
  "set_vm vm v st = st\<lparr>vms := (vms st)(vm := v)\<rparr>"

definition vcpu_handle_exit ::
    "'v axvm \<Rightarrow> nat \<Rightarrow> ax_error + AxVCpuExitReason \<Rightarrow> 'v vmm_state \<Rightarrow> 'v vmm_state" where
  "vcpu_handle_exit A t x st =
     (let task = tasks st ! t; vm = task_vm task; v = vms st vm; i = ax_id A v
      in case vcpu_dispatch (ax_affinities A v) (of_nat (task_vcpu task)) x of
           DoWait \<Rightarrow>
             (case queue_get i st of
                None \<Rightarrow> set_pc t (Panicked unwrap_none) st
              | Some e \<Rightarrow> set_pc t (HaltBlocked (wait_queue e)) st)
         | DoCpuUp vcpu entry_point arg \<Rightarrow>
             (case vcpu_on A vm (unat vcpu) entry_point arg st of
                Panic m \<Rightarrow> set_pc t (Panicked m) st
              | Done st' \<Rightarrow> set_pc t CheckSuspend
                  (set_vm vm (ax_set_gpr A (task_vcpu task) 0 0 (vms st' vm)) st'))
         | DoShutdown \<Rightarrow>
             (case ax_shutdown A v of
                (Inl _, _) \<Rightarrow> set_pc t (Panicked ''VM shutdown failed'') st
              | (Inr _, v') \<Rightarrow> set_pc t CheckSuspend (set_vm vm v' st))
         | DoPanic m \<Rightarrow> set_pc t (Panicked m) st
         | _ \<Rightarrow> set_pc t CheckSuspend st)"

definition sub_running_vm_count :: "usize \<Rightarrow> 'v vmm_state \<Rightarrow> 'v vmm_state" where
  "sub_running_vm_count n st = st\<lparr>RUNNING_VM_COUNT := RUNNING_VM_COUNT st - n\<rparr>"

definition add_running_vm_count :: "usize \<Rightarrow> 'v vmm_state \<Rightarrow> 'v vmm_state" where
  "add_running_vm_count n st = st\<lparr>RUNNING_VM_COUNT := RUNNING_VM_COUNT st + n\<rparr>"

text \<open>
  One step of \<^verbatim>\<open>vcpu_run\<close> for task \<open>t\<close>; \<open>x\<close> is what \<^verbatim>\<open>vm.run_vcpu\<close> returns when the task is in the guest.
  Interrupt handling, injection and hypercalls change no part of this state.
\<close>

definition vcpu_run_step ::
    "'v axvm \<Rightarrow> nat \<Rightarrow> ax_error + AxVCpuExitReason \<Rightarrow> 'v vmm_state \<Rightarrow> 'v vmm_state" where
  "vcpu_run_step A t x st =
     (let task = tasks st ! t; vm = task_vm task; v = vms st vm; i = ax_id A v
      in case task_pc task of
           BootWait \<Rightarrow>
             (case queue_get i st of
                None \<Rightarrow> set_pc t (Panicked unwrap_none) st
              | Some e \<Rightarrow> set_pc t (if ax_running A v then Booted else BootBlocked (wait_queue e)) st)
         | Booted \<Rightarrow>
             (case mark_vcpu_running i st of
                Panic m \<Rightarrow> set_pc t (Panicked m) st
              | Done st' \<Rightarrow> set_pc t InGuest st')
         | InGuest \<Rightarrow> vcpu_handle_exit A t x st
         | CheckSuspend \<Rightarrow> set_pc t (if ax_suspending A v then SuspendWait else CheckStop) st
         | SuspendWait \<Rightarrow>
             (case queue_get i st of
                None \<Rightarrow> set_pc t (Panicked unwrap_none) st
              | Some e \<Rightarrow> set_pc t (if \<not> ax_suspending A v then InGuest else SuspendBlocked (wait_queue e)) st)
         | CheckStop \<Rightarrow> set_pc t (if ax_stopping A v then Exiting else InGuest) st
         | Exiting \<Rightarrow>
             (case mark_vcpu_exiting i st of
                Panic m \<Rightarrow> set_pc t (Panicked m) st
              | Done (b, st') \<Rightarrow> set_pc t (if b then LastExit else Exited) st')
         | LastExit \<Rightarrow>
             set_pc t Exited (sub_running_vm_count 1 (set_vm vm (ax_set_status A Stopped v) st))
         | _ \<Rightarrow> st)"

section \<open>Booting the VMs\<close>

text \<open>The loop of \<^verbatim>\<open>vmm::start\<close>; \<open>pick\<close> chooses the waiter for each notification.\<close>

fun vmm_start :: "'v axvm \<Rightarrow> (nat \<Rightarrow> nat) \<Rightarrow> nat list \<Rightarrow> 'v vmm_state \<Rightarrow> 'v vmm_state outcome" where
  "vmm_start A pick [] st = Done st"
| "vmm_start A pick (vm # rest) st =
     (case ax_boot A (vms st vm) of
        (Inr _, v') \<Rightarrow>
          (case notify_primary_vcpu (pick vm) (ax_id A v') (set_vm vm v' st) of
             Panic m \<Rightarrow> Panic m
           | Done st' \<Rightarrow> vmm_start A pick rest (add_running_vm_count 1 st'))
      | (Inl _, v') \<Rightarrow> vmm_start A pick rest (set_vm vm v' st))"

fun vmm_setup_all :: "'v axvm \<Rightarrow> nat list \<Rightarrow> 'v vmm_state \<Rightarrow> 'v vmm_state outcome" where
  "vmm_setup_all A [] st = Done st"
| "vmm_setup_all A (vm # rest) st = outcome_bind (setup_vm_primary_vcpu A vm st) (vmm_setup_all A rest)"

section \<open>Interleavings\<close>

datatype 'v vmm_label =
    TaskStep nat "ax_error + AxVCpuExitReason"
  | NotifyAll usize
  | NotifyPrimary nat usize
  | Setup nat
  | Cleanup usize
  | VmChanges nat 'v
  | CountAdd usize

fun counted :: "vcpu_pc \<Rightarrow> bool" where
  "counted InGuest = True"
| "counted (HaltBlocked _) = True"
| "counted CheckSuspend = True"
| "counted SuspendWait = True"
| "counted (SuspendBlocked _) = True"
| "counted CheckStop = True"
| "counted Exiting = True"
| "counted _ = False"

definition task_id :: "'v axvm \<Rightarrow> 'v vmm_state \<Rightarrow> VCpuTask \<Rightarrow> usize" where
  "task_id A st t = ax_id A (vms st (task_vm t))"

definition counted_tasks :: "'v axvm \<Rightarrow> usize \<Rightarrow> 'v vmm_state \<Rightarrow> VCpuTask list" where
  "counted_tasks A i st = filter (\<lambda>t. task_id A st t = i \<and> counted (task_pc t)) (tasks st)"

inductive vmm_step :: "'v axvm \<Rightarrow> 'v vmm_label \<Rightarrow> 'v vmm_state \<Rightarrow> 'v vmm_state \<Rightarrow> bool" for A where
  task_step: "t < length (tasks st) \<Longrightarrow> vmm_step A (TaskStep t x) st (vcpu_run_step A t x st)"
| notify_all: "vmm_step A (NotifyAll i) st (notify_all_vcpus i st)"
| notify_primary: "notify_primary_vcpu pick i st = Done st' \<Longrightarrow> vmm_step A (NotifyPrimary pick i) st st'"
| setup_vm: "setup_vm_primary_vcpu A vm st = Done st' \<Longrightarrow>
     counted_tasks A (ax_id A (vms st vm)) st = [] \<Longrightarrow> vmm_step A (Setup vm) st st'"
| cleanup: "vmm_step A (Cleanup i) st (snd (cleanup_vm_vcpus i st))"
| vm_changes: "ax_id A v' = ax_id A (vms st vm) \<Longrightarrow> vmm_step A (VmChanges vm v') st (set_vm vm v' st)"
| count_add: "vmm_step A (CountAdd n) st (add_running_vm_count n st)"

definition vmm_next :: "'v axvm \<Rightarrow> 'v vmm_state \<Rightarrow> 'v vmm_state \<Rightarrow> bool" where
  "vmm_next A s t = (\<exists>l. vmm_step A l s t)"

section \<open>The count of running vCPUs is exact\<close>

text \<open>What is used of the VM object: its methods keep its identifier.\<close>

definition axvm_id_laws :: "'v axvm \<Rightarrow> bool" where
  "axvm_id_laws A =
     ((\<forall>s v. ax_id A (ax_set_status A s v) = ax_id A v) \<and>
      (\<forall>v r v'. ax_boot A v = (r, v') \<longrightarrow> ax_id A v' = ax_id A v) \<and>
      (\<forall>v r v'. ax_shutdown A v = (r, v') \<longrightarrow> ax_id A v' = ax_id A v) \<and>
      (\<forall>k p v r v'. ax_set_entry A k p v = (r, v') \<longrightarrow> ax_id A v' = ax_id A v) \<and>
      (\<forall>k g n v. ax_id A (ax_set_gpr A k g n v) = ax_id A v))"

definition ncounted :: "'v axvm \<Rightarrow> usize \<Rightarrow> 'v vmm_state \<Rightarrow> nat" where
  "ncounted A i st = length (counted_tasks A i st)"

text \<open>
  A panic of one task takes the hypervisor down, so the states of interest have none; and the
  counter is a machine word, so fewer than \<open>2 ^ 64\<close> tasks have been created.
\<close>

fun panicked :: "vcpu_pc \<Rightarrow> bool" where
  "panicked (Panicked _) = True"
| "panicked _ = False"

definition sound :: "'v vmm_state \<Rightarrow> bool" where
  "sound st = (length (tasks st) < 2 ^ 64 \<and> (\<forall>t \<in> set (tasks st). \<not> panicked (task_pc t)))"

definition vmm_inv :: "'v axvm \<Rightarrow> 'v vmm_state \<Rightarrow> bool" where
  "vmm_inv A st =
     (axvm_id_laws A \<and> bt_inv (VM_VCPU_TASK_WAIT_QUEUE st) \<and>
      (sound st \<longrightarrow>
        (\<forall>i e. queue_get i st = Some e \<longrightarrow> unat (running_halting_vcpu_count e) = ncounted A i st)))"

definition vmm_init :: "'v axvm \<Rightarrow> 'v vmm_state \<Rightarrow> bool" where
  "vmm_init A st = (axvm_id_laws A \<and> VM_VCPU_TASK_WAIT_QUEUE st = [] \<and> tasks st = [])"

lemma length_filter_update:
  "t < length xs \<Longrightarrow>
   length (filter P (xs[t := y])) + (if P (xs ! t) then 1 else 0) =
   length (filter P xs) + (if P y then 1 else 0)"
proof -
  assume t: "t < length xs"
  have "length (filter P xs) = length (filter P (take t xs @ xs ! t # drop (Suc t) xs))"
    using t by (simp add: id_take_nth_drop [symmetric])
  then show ?thesis
    using t by (simp add: upd_conv_take_nth_drop)
qed

lemma queue_simps [simp]:
  "queue_get i (set_pc t pc st) = queue_get i st"
  "queue_get i (set_vm vm v st) = queue_get i st"
  "queue_get i (sub_running_vm_count n st) = queue_get i st"
  "queue_get i (add_running_vm_count n st) = queue_get i st"
  "queue_get i (queue_insert j e st) = (if i = j then Some e else queue_get i st)"
  "queue_get i (queue_remove j st) = (if i = j then None else queue_get i st)"
  "tasks (queue_insert j e st) = tasks st" "vms (queue_insert j e st) = vms st"
  "tasks (queue_remove j st) = tasks st" "vms (queue_remove j st) = vms st"
  "tasks (set_vm vm v st) = tasks st" "vms (set_vm vm v st) = (vms st)(vm := v)"
  "tasks (sub_running_vm_count n st) = tasks st" "vms (sub_running_vm_count n st) = vms st"
  "tasks (add_running_vm_count n st) = tasks st" "vms (add_running_vm_count n st) = vms st"
  "vms (set_pc t pc st) = vms st"
  "tasks (set_pc t pc st) = (tasks st)[t := (tasks st ! t)\<lparr>task_pc := pc\<rparr>]"
  by (simp_all add: queue_get_def set_pc_def set_vm_def sub_running_vm_count_def add_running_vm_count_def
      queue_insert_def queue_remove_def)

lemma wait_queue_simps [simp]:
  "VM_VCPU_TASK_WAIT_QUEUE (set_pc t pc st) = VM_VCPU_TASK_WAIT_QUEUE st"
  "VM_VCPU_TASK_WAIT_QUEUE (set_vm vm v st) = VM_VCPU_TASK_WAIT_QUEUE st"
  "VM_VCPU_TASK_WAIT_QUEUE (sub_running_vm_count n st) = VM_VCPU_TASK_WAIT_QUEUE st"
  "VM_VCPU_TASK_WAIT_QUEUE (add_running_vm_count n st) = VM_VCPU_TASK_WAIT_QUEUE st"
  "VM_VCPU_TASK_WAIT_QUEUE (queue_insert i e st) = bt_insert i e (VM_VCPU_TASK_WAIT_QUEUE st)"
  "VM_VCPU_TASK_WAIT_QUEUE (queue_remove i st) = bt_remove i (VM_VCPU_TASK_WAIT_QUEUE st)"
  by (simp_all add: set_pc_def set_vm_def sub_running_vm_count_def add_running_vm_count_def
      queue_insert_def queue_remove_def)

text \<open>The number of counted tasks after a step that moves one task, or changes a VM object.\<close>

lemma ncounted_ids:
  "tasks st' = tasks st \<Longrightarrow> (\<And>vm. ax_id A (vms st' vm) = ax_id A (vms st vm)) \<Longrightarrow>
   ncounted A i st' = ncounted A i st"
  by (simp add: ncounted_def counted_tasks_def task_id_def)

lemma ncounted_set_pc:
  assumes "t < length (tasks st)"
  shows "ncounted A i (set_pc t pc st) + (if task_id A st (tasks st ! t) = i \<and> counted (task_pc (tasks st ! t)) then 1 else 0) =
         ncounted A i st + (if task_id A st (tasks st ! t) = i \<and> counted pc then 1 else 0)"
  using length_filter_update [OF assms, of "\<lambda>t. task_id A st t = i \<and> counted (task_pc t)"
      "(tasks st ! t)\<lparr>task_pc := pc\<rparr>"]
  by (simp add: ncounted_def counted_tasks_def task_id_def)

lemma ncounted_le: "ncounted A i st \<le> length (tasks st)"
  by (simp add: ncounted_def counted_tasks_def)

lemma counted_wake [simp]: "counted (wake wq pc) = counted pc"
  by (induction wq pc rule: wake.induct) auto


lemma panicked_wake [simp]: "panicked (wake wq pc) = panicked pc"
  by (induction wq pc rule: wake.induct) auto

lemma sound_set_pc:
  assumes "sound (set_pc t pc st)" "t < length (tasks st)" "\<not> panicked (task_pc (tasks st ! t))"
  shows "sound st" and "\<not> panicked pc"
proof -
  have all: "\<forall>k < length (tasks st). \<not> panicked (task_pc ((tasks st)[t := (tasks st ! t)\<lparr>task_pc := pc\<rparr>] ! k))"
    using assms(1) by (simp add: sound_def all_set_conv_all_nth)
  have "\<not> panicked (task_pc (tasks st ! k))" if "k < length (tasks st)" for k
    using all [rule_format, OF that] assms(3) that by (cases "k = t") simp_all
  then show "sound st" using assms(1) by (simp add: sound_def all_set_conv_all_nth)
  show "\<not> panicked pc" using all [rule_format, OF assms(2)] assms(2) by simp
qed

lemma sound_cong: "tasks st' = tasks st \<Longrightarrow> sound st' = sound st"
  by (simp add: sound_def)

text \<open>The counter of every entry is exact.\<close>

definition counts_ok :: "'v axvm \<Rightarrow> 'v vmm_state \<Rightarrow> bool" where
  "counts_ok A st =
     (\<forall>i e. queue_get i st = Some e \<longrightarrow> unat (running_halting_vcpu_count e) = ncounted A i st)"

lemma vmm_inv_iff:
  "vmm_inv A st \<longleftrightarrow> axvm_id_laws A \<and> bt_inv (VM_VCPU_TASK_WAIT_QUEUE st) \<and> (sound st \<longrightarrow> counts_ok A st)"
  by (simp add: vmm_inv_def counts_ok_def)

lemma counts_ok_set_pc:
  assumes "counts_ok A st" "t < length (tasks st)" "counted pc = counted (task_pc (tasks st ! t))"
  shows "counts_ok A (set_pc t pc st)"
  using assms(1) ncounted_set_pc [OF assms(2), of A _ pc] assms(3) by (simp add: counts_ok_def)

lemma counts_ok_ids:
  "counts_ok A st \<Longrightarrow> tasks st' = tasks st \<Longrightarrow> VM_VCPU_TASK_WAIT_QUEUE st' = VM_VCPU_TASK_WAIT_QUEUE st \<Longrightarrow>
   (\<And>vm. ax_id A (vms st' vm) = ax_id A (vms st vm)) \<Longrightarrow> counts_ok A st'"
  using ncounted_ids [of st' st A] by (simp add: counts_ok_def queue_get_def)

lemma counts_ok_mark_running:
  assumes "counts_ok A st" "sound st" "t < length (tasks st)" "task_pc (tasks st ! t) = Booted"
    "mark_vcpu_running (task_id A st (tasks st ! t)) st = Done st'"
  shows "counts_ok A (set_pc t InGuest st')"
proof -
  let ?i = "task_id A st (tasks st ! t)"
  obtain e where e: "queue_get ?i st = Some e" "st' = queue_insert ?i (VMVCpus_mark_vcpu_running e) st"
    using assms(5) by (auto simp: mark_vcpu_running_def split: option.splits)
  have ids: "ncounted A j st' = ncounted A j st" "task_id A st' = task_id A st" for j
    using e(2) by (auto intro: ncounted_ids simp: task_id_def)
  have cnt: "ncounted A j (set_pc t InGuest st') = ncounted A j st + (if j = ?i then 1 else 0)" for j
    using ncounted_set_pc [of t st' A j InGuest] assms(3,4) e(2) ids by auto
  have "unat (running_halting_vcpu_count e) = ncounted A ?i st"
    using assms(1) e(1) by (simp add: counts_ok_def)
  moreover have "ncounted A ?i st < length (tasks st)"
    unfolding ncounted_def counted_tasks_def
    by (rule length_filter_less [of "tasks st ! t"]) (use assms(3,4) in auto)
  ultimately have "unat (running_halting_vcpu_count e + 1) = ncounted A ?i st + 1"
    using assms(2) by (intro trans [OF unat_plus_small]) (auto simp: sound_def)
  then show ?thesis
    using assms(1) e cnt by (auto simp: counts_ok_def VMVCpus_mark_vcpu_running_def)
qed

lemma counts_ok_mark_exiting:
  assumes "counts_ok A st" "t < length (tasks st)" "task_pc (tasks st ! t) = Exiting"
    "mark_vcpu_exiting (task_id A st (tasks st ! t)) st = Done (b, st')" "\<not> counted pc"
  shows "counts_ok A (set_pc t pc st')"
    and "b \<longleftrightarrow> ncounted A (task_id A st (tasks st ! t)) st = 1"
proof -
  let ?i = "task_id A st (tasks st ! t)"
  obtain e where e: "queue_get ?i st = Some e"
    "b = (running_halting_vcpu_count e = 1)"
    "st' = queue_insert ?i (e\<lparr>running_halting_vcpu_count := running_halting_vcpu_count e - 1\<rparr>) st"
    using assms(4) by (auto simp: mark_vcpu_exiting_def VMVCpus_mark_vcpu_exiting_def split: option.splits)
  have ids: "ncounted A j st' = ncounted A j st" "task_id A st' = task_id A st" for j
    using e(3) by (auto intro: ncounted_ids simp: task_id_def)
  have cnt: "ncounted A j (set_pc t pc st') + (if j = ?i then 1 else 0) = ncounted A j st" for j
    using ncounted_set_pc [of t st' A j pc] assms(2,3,5) e(3) ids by auto
  have un: "unat (running_halting_vcpu_count e) = ncounted A ?i st"
    using assms(1) e(1) by (simp add: counts_ok_def)
  moreover have "0 < ncounted A ?i st" using cnt [of ?i] by simp
  ultimately have "unat (running_halting_vcpu_count e - 1) = ncounted A ?i st - 1"
    by (subst unat_minus_le) (auto simp: word_le_nat_alt)
  moreover have "unat (running_halting_vcpu_count f) = ncounted A j st"
    if "queue_get j st = Some f" for j f
    using assms(1) that by (simp add: counts_ok_def)
  moreover have "ncounted A ?i (set_pc t pc st') = ncounted A ?i st - 1" using cnt [of ?i] by simp
  moreover have "ncounted A j (set_pc t pc st') = ncounted A j st" if "j \<noteq> ?i" for j
    using cnt [of j] that by simp
  ultimately show "counts_ok A (set_pc t pc st')"
    unfolding counts_ok_def by (auto simp: e(3) split: if_splits)
  show "b \<longleftrightarrow> ncounted A ?i st = 1"
    unfolding e(2) un [symmetric] by (simp add: word_unat_eq_iff)
qed

text \<open>A move that keeps the invariant, with what it assumes of the state before.\<close>

definition keeps :: "'v axvm \<Rightarrow> 'v vmm_state \<Rightarrow> 'v vmm_state \<Rightarrow> bool" where
  "keeps A st st' =
     ((bt_inv (VM_VCPU_TASK_WAIT_QUEUE st) \<longrightarrow> bt_inv (VM_VCPU_TASK_WAIT_QUEUE st')) \<and>
      (sound st' \<longrightarrow> sound st \<and> (counts_ok A st \<longrightarrow> counts_ok A st')))"

lemma keeps_inv: "keeps A st st' \<Longrightarrow> vmm_inv A st \<Longrightarrow> vmm_inv A st'"
  by (auto simp: keeps_def vmm_inv_iff)

lemma keeps_refl: "keeps A st st"
  by (simp add: keeps_def)

lemma keeps_trans: "keeps A s t \<Longrightarrow> keeps A t u \<Longrightarrow> keeps A s u"
  by (auto simp: keeps_def)

lemma keeps_set_pc:
  "t < length (tasks st) \<Longrightarrow> counted pc = counted (task_pc (tasks st ! t)) \<Longrightarrow>
   \<not> panicked (task_pc (tasks st ! t)) \<Longrightarrow> keeps A st (set_pc t pc st)"
  unfolding keeps_def by (auto dest: sound_set_pc(1) counts_ok_set_pc)

lemma keeps_panic: "t < length (tasks st) \<Longrightarrow> keeps A st (set_pc t (Panicked m) st)"
proof -
  assume t: "t < length (tasks st)"
  then have "(tasks st ! t)\<lparr>task_pc := Panicked m\<rparr> \<in> set (tasks (set_pc t (Panicked m) st))"
    by (simp add: set_update_memI)
  then have "\<not> sound (set_pc t (Panicked m) st)"
    by (force simp: sound_def)
  then show ?thesis by (simp add: keeps_def)
qed

lemma keeps_same_tasks:
  "tasks st' = tasks st \<Longrightarrow> VM_VCPU_TASK_WAIT_QUEUE st' = VM_VCPU_TASK_WAIT_QUEUE st \<Longrightarrow>
   (\<And>vm. ax_id A (vms st' vm) = ax_id A (vms st vm)) \<Longrightarrow> keeps A st st'"
  using sound_cong [of st' st] counts_ok_ids [of A st st'] by (simp add: keeps_def)

lemma keeps_mark_running:
  assumes "t < length (tasks st)" "task_pc (tasks st ! t) = Booted"
    "mark_vcpu_running (task_id A st (tasks st ! t)) st = Done st'"
  shows "keeps A st (set_pc t InGuest st')"
proof -
  have st': "tasks st' = tasks st" "bt_inv (VM_VCPU_TASK_WAIT_QUEUE st) \<Longrightarrow> bt_inv (VM_VCPU_TASK_WAIT_QUEUE st')"
    using assms(3) by (auto simp: mark_vcpu_running_def split: option.splits)
  have "sound st" if "sound (set_pc t InGuest st')"
    using sound_set_pc(1) [OF that] assms(1,2) st'(1) sound_cong [of st' st] by simp
  then show ?thesis
    using counts_ok_mark_running [OF _ _ assms] st'(2) by (auto simp: keeps_def)
qed

lemma keeps_mark_exiting:
  assumes "t < length (tasks st)" "task_pc (tasks st ! t) = Exiting"
    "mark_vcpu_exiting (task_id A st (tasks st ! t)) st = Done (b, st')" "\<not> counted pc"
  shows "keeps A st (set_pc t pc st')"
proof -
  have st': "tasks st' = tasks st" "bt_inv (VM_VCPU_TASK_WAIT_QUEUE st) \<Longrightarrow> bt_inv (VM_VCPU_TASK_WAIT_QUEUE st')"
    using assms(3)
    by (auto simp: mark_vcpu_exiting_def VMVCpus_mark_vcpu_exiting_def split: option.splits)
  have "sound st" if "sound (set_pc t pc st')"
    using sound_set_pc(1) [OF that] assms(1,2) st'(1) sound_cong [of st' st] by simp
  then show ?thesis
    using counts_ok_mark_exiting(1) [OF _ assms] st'(2) by (auto simp: keeps_def)
qed

text \<open>A new task is not counted until it is marked as running.\<close>

lemma keeps_spawn:
  assumes "tasks st' = tasks st @ [\<lparr>task_vm = vm, task_vcpu = c, task_pc = BootWait\<rparr>]"
    "\<And>r. ax_id A (vms st' r) = ax_id A (vms st r)"
    "bt_inv (VM_VCPU_TASK_WAIT_QUEUE st) \<Longrightarrow> bt_inv (VM_VCPU_TASK_WAIT_QUEUE st')"
    "\<And>i e'. queue_get i st' = Some e' \<Longrightarrow>
       (\<exists>e. queue_get i st = Some e \<and> running_halting_vcpu_count e' = running_halting_vcpu_count e) \<or>
       running_halting_vcpu_count e' = 0 \<and> counted_tasks A i st = []"
  shows "keeps A st st'"
proof -
  have n: "ncounted A i st' = ncounted A i st" for i
    using assms(1,2) by (simp add: ncounted_def counted_tasks_def task_id_def)
  have "sound st" if "sound st'" using that assms(1) by (auto simp: sound_def)
  moreover have "counts_ok A st'" if "counts_ok A st"
    using that assms(4) unfolding counts_ok_def n by (fastforce simp: ncounted_def)
  ultimately show ?thesis using assms(3) by (simp add: keeps_def)
qed

lemma keeps_vcpu_on:
  assumes "axvm_id_laws A" "vcpu_on A vm vcpu p a st = Done st'"
  shows "keeps A st st'" "length (tasks st') = Suc (length (tasks st))"
    "\<And>t. t < length (tasks st) \<Longrightarrow> tasks st' ! t = tasks st ! t" "ax_id A (vms st' r) = ax_id A (vms st r)"
proof -
  obtain v1 e where
    v1: "ax_set_entry A vcpu p (vms st vm) = (Inr (), v1)" and
    e: "queue_get (ax_id A (vms st vm)) st = Some e" and
    st': "st' = queue_insert (ax_id A (vms st vm)) (add_vcpu_task (length (tasks st)) e)
      (st\<lparr>vms := (vms st)(vm := ax_set_gpr A vcpu 0 a v1),
          tasks := tasks st @ [\<lparr>task_vm = vm, task_vcpu = vcpu, task_pc = BootWait\<rparr>]\<rparr>)"
    using assms(2)
    by (auto simp: vcpu_on_def Let_def alloc_vcpu_task_def queue_get_def split: if_splits option.splits prod.splits sum.splits)
  have id: "ax_id A (ax_set_gpr A vcpu 0 a v1) = ax_id A (vms st vm)"
    using assms(1) v1 by (auto simp: axvm_id_laws_def)
  show "keeps A st st'"
    by (rule keeps_spawn [where vm = vm and c = vcpu]) (use st' e id in \<open>auto simp: queue_get_def add_vcpu_task_def split: if_splits\<close>)
  show "length (tasks st') = Suc (length (tasks st))"
    "\<And>t. t < length (tasks st) \<Longrightarrow> tasks st' ! t = tasks st ! t" "ax_id A (vms st' r) = ax_id A (vms st r)"
    using st' id by (auto simp: nth_append)
qed

lemma keeps_handle_exit:
  assumes "axvm_id_laws A" "t < length (tasks st)" "task_pc (tasks st ! t) = InGuest"
  shows "keeps A st (vcpu_handle_exit A t x st)"
proof -
  let ?v = "vms st (task_vm (tasks st ! t))"
  have go: "keeps A st (set_pc t pc st)" if "counted pc" for pc
    using keeps_set_pc [of t st pc A] assms(2,3) that by simp
  have up: "keeps A st (set_pc t CheckSuspend (set_vm vm (ax_set_gpr A c 0 0 (vms st' vm)) st'))"
    if "vcpu_on A vm k p a st = Done st'" for vm k p a c st'
  proof -
    note on = keeps_vcpu_on [OF assms(1) that]
    let ?st2 = "set_vm vm (ax_set_gpr A c 0 0 (vms st' vm)) st'"
    have "keeps A st' ?st2"
      by (rule keeps_same_tasks) (use assms(1) in \<open>auto simp: axvm_id_laws_def\<close>)
    moreover have "keeps A ?st2 (set_pc t CheckSuspend ?st2)"
      by (rule keeps_set_pc) (use assms(2,3) on(2,3) in simp_all)
    ultimately show ?thesis using on(1) by (blast intro: keeps_trans)
  qed
  have down: "keeps A st (set_pc t CheckSuspend (set_vm (task_vm (tasks st ! t)) v' st))"
    if "ax_shutdown A ?v = (r, v')" for r v'
  proof -
    have "keeps A st (set_vm (task_vm (tasks st ! t)) v' st)"
      by (rule keeps_same_tasks) (use assms(1) that in \<open>auto simp: axvm_id_laws_def\<close>)
    moreover have "keeps A (set_vm (task_vm (tasks st ! t)) v' st)
        (set_pc t CheckSuspend (set_vm (task_vm (tasks st ! t)) v' st))"
      by (rule keeps_set_pc) (use assms(2,3) in simp_all)
    ultimately show ?thesis by (blast intro: keeps_trans)
  qed
  show ?thesis
    unfolding vcpu_handle_exit_def Let_def
    using keeps_panic [OF assms(2)] go up down
    by (auto split: vcpu_action.splits option.splits outcome.splits prod.splits sum.splits)
qed

lemma keeps_run_step:
  assumes "axvm_id_laws A" "t < length (tasks st)"
  shows "keeps A st (vcpu_run_step A t x st)"
proof -
  let ?t = "tasks st ! t"
  have go: "keeps A st (set_pc t pc st)" if "counted pc = counted (task_pc ?t)" "\<not> panicked (task_pc ?t)" for pc
    using keeps_set_pc assms(2) that by blast
  have last: "keeps A st (set_pc t Exited (sub_running_vm_count 1 (set_vm (task_vm ?t) (ax_set_status A Stopped v) st)))"
    if "task_pc ?t = LastExit" "v = vms st (task_vm ?t)" for v
  proof -
    let ?st1 = "sub_running_vm_count 1 (set_vm (task_vm ?t) (ax_set_status A Stopped v) st)"
    have "keeps A st ?st1"
      by (rule keeps_same_tasks) (use assms(1) that in \<open>auto simp: axvm_id_laws_def\<close>)
    moreover have "keeps A ?st1 (set_pc t Exited ?st1)"
      by (rule keeps_set_pc) (use assms(2) that in simp_all)
    ultimately show ?thesis by (blast intro: keeps_trans)
  qed
  show ?thesis
    using go last keeps_panic [OF assms(2), of A] keeps_handle_exit [OF assms, of x]
      keeps_mark_running [OF assms(2)] keeps_mark_exiting [OF assms(2)] keeps_refl [of A st]
    unfolding vcpu_run_step_def Let_def task_id_def
    by (cases "task_pc ?t") (auto split: option.splits outcome.splits prod.splits)
qed

lemma keeps_setup:
  assumes "setup_vm_primary_vcpu A vm st = Done st'" "counted_tasks A (ax_id A (vms st vm)) st = []"
  shows "keeps A st st'"
  by (rule keeps_spawn [where vm = vm and c = 0])
    (use assms in \<open>auto simp: setup_vm_primary_vcpu_def Let_def alloc_vcpu_task_def VMVCpus_new_def
       add_vcpu_task_def queue_insert_def queue_get_def split: if_splits\<close>)

lemma keeps_notify_all: "keeps A st (wq_notify_all wq st)"
proof -
  have "ncounted A i (wq_notify_all wq st) = ncounted A i st" for i
    by (simp add: wq_notify_all_def ncounted_def counted_tasks_def filter_map comp_def task_id_def)
  then show ?thesis
    by (auto simp: keeps_def wq_notify_all_def sound_def counts_ok_def queue_get_def)
qed

lemma keeps_notify_one: "keeps A st (wq_notify_one pick wq st)"
proof (cases "pick < length (tasks st) \<and> \<not> panicked (task_pc (tasks st ! pick))")
  case True
  then show ?thesis by (auto simp: wq_notify_one_def intro: keeps_set_pc)
next
  case False
  have "wake wq pc = pc" if "panicked pc" for pc using that by (cases pc) auto
  with False show ?thesis by (auto simp: wq_notify_one_def set_pc_def keeps_refl)
qed

lemma keeps_cleanup: "keeps A st (snd (cleanup_vm_vcpus i st))"
proof -
  have "ncounted A j (queue_remove i st) = ncounted A j st" for j
    by (rule ncounted_ids) simp_all
  then show ?thesis
    by (auto simp: cleanup_vm_vcpus_def keeps_def counts_ok_def sound_def split: option.splits)
qed

lemma vmm_step_inv: "vmm_step A l s t \<Longrightarrow> vmm_inv A s \<Longrightarrow> vmm_inv A t"
proof (induction rule: vmm_step.induct)
  case (task_step t st x)
  then have "axvm_id_laws A" by (simp add: vmm_inv_iff)
  from keeps_run_step [OF this task_step(1)] task_step(2) show ?case by (rule keeps_inv)
next
  case (notify_all i st)
  have "keeps A st (notify_all_vcpus i st)"
    by (simp add: notify_all_vcpus_def keeps_notify_all keeps_refl split: option.splits)
  then show ?case using notify_all by (rule keeps_inv)
next
  case (notify_primary pick i st st')
  then have "keeps A st st'"
    by (auto simp: notify_primary_vcpu_def keeps_notify_one split: option.splits)
  then show ?case using notify_primary(2) by (rule keeps_inv)
next
  case (setup_vm vm st st')
  from keeps_setup [OF setup_vm(1,2)] setup_vm(3) show ?case by (rule keeps_inv)
next
  case (cleanup i st)
  from keeps_cleanup cleanup show ?case by (rule keeps_inv)
next
  case (vm_changes v' st vm)
  have "keeps A st (set_vm vm v' st)" by (rule keeps_same_tasks) (use vm_changes(1) in simp_all)
  then show ?case using vm_changes(2) by (rule keeps_inv)
next
  case (count_add n st)
  have "keeps A st (add_running_vm_count n st)" by (rule keeps_same_tasks) simp_all
  then show ?case using count_add by (rule keeps_inv)
qed

lemma vmm_init_inv: "vmm_init A st \<Longrightarrow> vmm_inv A st"
  by (simp add: vmm_init_def vmm_inv_iff counts_ok_def queue_get_def)

interpretation vmm: transition_system "vmm_init A" "vmm_next A" "vmm_inv A"
  by unfold_locales (auto simp: vmm_next_def intro: vmm_init_inv vmm_step_inv)

section \<open>Blocked tasks\<close>

fun blocked_on :: "nat \<Rightarrow> vcpu_pc \<Rightarrow> bool" where
  "blocked_on wq (BootBlocked q) = (q = wq)"
| "blocked_on wq (HaltBlocked q) = (q = wq)"
| "blocked_on wq (SuspendBlocked q) = (q = wq)"
| "blocked_on wq _ = False"

definition notifies :: "usize \<Rightarrow> 'v vmm_label \<Rightarrow> bool" where
  "notifies i l = (l = NotifyAll i \<or> (\<exists>pick. l = NotifyPrimary pick i))"

fun vmm_run :: "'v axvm \<Rightarrow> 'v vmm_label list \<Rightarrow> 'v vmm_state \<Rightarrow> 'v vmm_state \<Rightarrow> bool" where
  "vmm_run A [] s t = (s = t)"
| "vmm_run A (l # ls) s t = (\<exists>u. vmm_step A l s u \<and> vmm_run A ls u t)"

text \<open>Every entry has a wait queue of its own, and a fresh one when it is set up.\<close>

definition wq_inv :: "'v vmm_state \<Rightarrow> bool" where
  "wq_inv st =
     (bt_inv (VM_VCPU_TASK_WAIT_QUEUE st) \<and>
      (\<forall>i e. queue_get i st = Some e \<longrightarrow> wait_queue e < next_wait_queue st) \<and>
      (\<forall>i j e f. queue_get i st = Some e \<longrightarrow> queue_get j st = Some f \<longrightarrow> wait_queue e = wait_queue f \<longrightarrow> i = j))"

text \<open>Steps other than setting up a VM keep, or drop, the entries' queues.\<close>

definition same_queues :: "'v vmm_state \<Rightarrow> 'v vmm_state \<Rightarrow> bool" where
  "same_queues st st' =
     ((bt_inv (VM_VCPU_TASK_WAIT_QUEUE st) \<longrightarrow> bt_inv (VM_VCPU_TASK_WAIT_QUEUE st')) \<and>
      next_wait_queue st' = next_wait_queue st \<and>
      (\<forall>i e'. queue_get i st' = Some e' \<longrightarrow> (\<exists>e. queue_get i st = Some e \<and> wait_queue e' = wait_queue e)))"

lemma same_queues_wq_inv: "same_queues st st' \<Longrightarrow> wq_inv st \<Longrightarrow> wq_inv st'"
  unfolding same_queues_def wq_inv_def by metis

lemma next_wait_queue_simps [simp]:
  "next_wait_queue (set_pc t pc st) = next_wait_queue st"
  "next_wait_queue (set_vm vm v st) = next_wait_queue st"
  "next_wait_queue (sub_running_vm_count n st) = next_wait_queue st"
  "next_wait_queue (add_running_vm_count n st) = next_wait_queue st"
  "next_wait_queue (queue_insert i e st) = next_wait_queue st"
  "next_wait_queue (queue_remove i st) = next_wait_queue st"
  by (simp_all add: set_pc_def set_vm_def sub_running_vm_count_def add_running_vm_count_def
      queue_insert_def queue_remove_def)

text \<open>
  A step of a task sets its program counter, in a state that keeps the queues and the other tasks.
\<close>

definition mid :: "'v vmm_state \<Rightarrow> 'v vmm_state \<Rightarrow> bool" where
  "mid st st' = (same_queues st st' \<and> length (tasks st) \<le> length (tasks st') \<and>
     (\<forall>k < length (tasks st). tasks st' ! k = tasks st ! k))"

lemma mid_refl: "mid st st"
  by (simp add: mid_def same_queues_def)

lemma mid_set_vm: "mid st st' \<Longrightarrow> mid st (set_vm vm v st')"
  by (simp add: mid_def same_queues_def)

lemma mid_sub: "mid st st' \<Longrightarrow> mid st (sub_running_vm_count n st')"
  by (simp add: mid_def same_queues_def)

lemma mid_vcpu_on:
  assumes "vcpu_on A vm k p a st = Done st'"
  shows "mid st st'"
  using assms by (auto simp: vcpu_on_def Let_def alloc_vcpu_task_def add_vcpu_task_def mid_def
      same_queues_def queue_get_def nth_append split: if_splits option.splits prod.splits sum.splits)

lemma mid_mark_running: "mark_vcpu_running i st = Done st' \<Longrightarrow> mid st st'"
  by (auto simp: mark_vcpu_running_def VMVCpus_mark_vcpu_running_def mid_def same_queues_def
      split: option.splits if_splits)

lemma mid_mark_exiting: "mark_vcpu_exiting i st = Done (b, st') \<Longrightarrow> mid st st'"
  by (auto simp: mark_vcpu_exiting_def VMVCpus_mark_vcpu_exiting_def mid_def same_queues_def
      split: option.splits if_splits)

lemmas mid_intros = mid_refl mid_set_vm mid_sub mid_vcpu_on mid_mark_running mid_mark_exiting

lemma handle_exit_form: "\<exists>pc st'. vcpu_handle_exit A t x st = set_pc t pc st' \<and> mid st st'"
proof -
  let ?v = "vms st (task_vm (tasks st ! t))"
  show ?thesis
  proof (cases "vcpu_dispatch (ax_affinities A ?v) (of_nat (task_vcpu (tasks st ! t))) x")
    case DoWait
    then show ?thesis
      by (cases "queue_get (ax_id A ?v) st") (auto simp: vcpu_handle_exit_def intro: mid_refl)
  next
    case (DoCpuUp k p a)
    then show ?thesis
      by (cases "vcpu_on A (task_vm (tasks st ! t)) (unat k) p a st")
        (auto simp: vcpu_handle_exit_def Let_def intro: mid_refl mid_vcpu_on mid_set_vm)
  next
    case DoShutdown
    obtain r v' where "ax_shutdown A ?v = (r, v')" by force
    then show ?thesis
      using DoShutdown by (cases r) (auto simp: vcpu_handle_exit_def intro: mid_refl mid_set_vm)
  qed (auto simp: vcpu_handle_exit_def intro: mid_refl)
qed

lemma run_step_form:
  "vcpu_run_step A t x st = st \<or> (\<exists>pc st'. vcpu_run_step A t x st = set_pc t pc st' \<and> mid st st')"
proof -
  let ?i = "ax_id A (vms st (task_vm (tasks st ! t)))"
  show ?thesis
  proof (cases "task_pc (tasks st ! t)")
    case BootWait
    then show ?thesis
      by (cases "queue_get ?i st") (auto simp: vcpu_run_step_def intro: mid_refl)
  next
    case Booted
    then show ?thesis
      by (cases "mark_vcpu_running ?i st") (auto simp: vcpu_run_step_def intro: mid_refl mid_mark_running)
  next
    case InGuest
    then show ?thesis using handle_exit_form [of A t x st] by (simp add: vcpu_run_step_def)
  next
    case SuspendWait
    then show ?thesis
      by (cases "queue_get ?i st") (auto simp: vcpu_run_step_def intro: mid_refl)
  next
    case Exiting
    then show ?thesis
      by (cases "mark_vcpu_exiting ?i st") (auto simp: vcpu_run_step_def intro: mid_refl mid_mark_exiting)
  next
    case LastExit
    let ?st' = "sub_running_vm_count 1
        (set_vm (task_vm (tasks st ! t)) (ax_set_status A Stopped (vms st (task_vm (tasks st ! t)))) st)"
    have "vcpu_run_step A t x st = set_pc t Exited ?st'" "mid st ?st'"
      using LastExit by (simp_all add: vcpu_run_step_def Let_def mid_refl mid_set_vm mid_sub)
    then show ?thesis by blast
  qed (auto simp: vcpu_run_step_def intro: mid_refl)
qed

lemma same_queues_run_step: "same_queues st (vcpu_run_step A t x st)"
  using run_step_form [of A t x st] by (auto simp: mid_def same_queues_def)

lemma wq_inv_setup: "wq_inv st \<Longrightarrow> setup_vm_primary_vcpu A vm st = Done st' \<Longrightarrow> wq_inv st'"
  by (force simp: setup_vm_primary_vcpu_def Let_def alloc_vcpu_task_def wq_inv_def VMVCpus_new_def
      add_vcpu_task_def queue_get_def queue_insert_def split: if_splits)

lemma wq_inv_step: "vmm_step A l s t \<Longrightarrow> wq_inv s \<Longrightarrow> wq_inv t"
proof (induction rule: vmm_step.induct)
  case (task_step t st x)
  then show ?case by (blast intro: same_queues_wq_inv same_queues_run_step)
next
  case (setup_vm vm st st')
  then show ?case by (blast intro: wq_inv_setup)
qed (auto simp: wq_inv_def notify_all_vcpus_def notify_primary_vcpu_def wq_notify_all_def
      wq_notify_one_def cleanup_vm_vcpus_def set_vm_def add_running_vm_count_def queue_get_def
      set_pc_def queue_remove_def split: option.splits if_splits)

lemma wake_other: "blocked_on wq pc \<Longrightarrow> q \<noteq> wq \<Longrightarrow> wake q pc = pc"
  by (cases pc) auto

lemma run_step_other_task:
  assumes "k < length (tasks st)" "k \<noteq> t"
  shows "k < length (tasks (vcpu_run_step A t x st)) \<and> tasks (vcpu_run_step A t x st) ! k = tasks st ! k"
  using run_step_form [of A t x st] assms by (auto simp: mid_def)

lemma run_step_blocked:
  "blocked_on wq (task_pc (tasks st ! t)) \<Longrightarrow> vcpu_run_step A t x st = st"
  by (cases "task_pc (tasks st ! t)") (auto simp: vcpu_run_step_def Let_def)

text \<open>The queue of a blocked task belongs to the VM, or to no VM any more.\<close>

definition blocked_in :: "nat \<Rightarrow> nat \<Rightarrow> usize \<Rightarrow> 'v vmm_state \<Rightarrow> bool" where
  "blocked_in t wq i st =
     (t < length (tasks st) \<and> blocked_on wq (task_pc (tasks st ! t)) \<and> wq < next_wait_queue st \<and>
      (\<forall>j e. queue_get j st = Some e \<longrightarrow> wait_queue e = wq \<longrightarrow> j = i))"

lemma blocked_same_queues:
  "blocked_in t wq i st \<Longrightarrow> same_queues st st' \<Longrightarrow> t < length (tasks st') \<Longrightarrow>
   tasks st' ! t = tasks st ! t \<Longrightarrow> blocked_in t wq i st'"
  unfolding blocked_in_def same_queues_def by metis

lemma blocked_same_tasks:
  "blocked_in t wq i st \<Longrightarrow> same_queues st st' \<Longrightarrow> tasks st' = tasks st \<Longrightarrow>
   blocked_in t wq i st' \<and> tasks st' ! t = tasks st ! t"
  using blocked_same_queues [of t wq i st st'] by (simp add: blocked_in_def)

lemma same_queues_other:
  "same_queues st (notify_all_vcpus i st)" "same_queues st (snd (cleanup_vm_vcpus i st))"
  "same_queues st (set_vm vm v st)" "same_queues st (add_running_vm_count n st)"
  "notify_primary_vcpu pick i st = Done st' \<Longrightarrow> same_queues st st'"
  by (auto simp: same_queues_def notify_all_vcpus_def notify_primary_vcpu_def wq_notify_all_def
      wq_notify_one_def cleanup_vm_vcpus_def set_vm_def add_running_vm_count_def queue_get_def
      set_pc_def queue_remove_def split: option.splits if_splits)

lemma blocked_in_step:
  assumes "vmm_step A l st st'" "blocked_in t wq i st" "\<not> notifies i l"
  shows "blocked_in t wq i st' \<and> tasks st' ! t = tasks st ! t"
  using assms(1)
proof cases
  case (task_step k x)
  have "tasks st' ! t = tasks st ! t \<and> t < length (tasks st')"
    using run_step_other_task [of t st k A x] run_step_blocked [of wq st k A x] assms(2) task_step
    by (cases "k = t") (auto simp: blocked_in_def)
  then show ?thesis
    using blocked_same_queues [OF assms(2)] same_queues_run_step task_step by blast
next
  case (notify_all j)
  have "wake (wait_queue e) (task_pc (tasks st ! t)) = task_pc (tasks st ! t)" if "queue_get j st = Some e" for e
    using wake_other [of wq] that assms(2,3) notify_all by (auto simp: blocked_in_def notifies_def)
  then have "tasks st' ! t = tasks st ! t \<and> t < length (tasks st')"
    using assms(2) notify_all
    by (auto simp: blocked_in_def notify_all_vcpus_def wq_notify_all_def split: option.splits)
  then show ?thesis
    using blocked_same_queues [OF assms(2)] same_queues_other(1) notify_all by blast
next
  case (notify_primary pick j)
  have "wake (wait_queue e) (task_pc (tasks st ! t)) = task_pc (tasks st ! t)" if "queue_get j st = Some e" for e
    using wake_other [of wq] that assms(2,3) notify_primary by (auto simp: blocked_in_def notifies_def)
  then have "tasks st' ! t = tasks st ! t \<and> t < length (tasks st')"
    using assms(2) notify_primary
    by (auto simp: blocked_in_def notify_primary_vcpu_def wq_notify_one_def nth_list_update
        split: option.splits if_splits)
  then show ?thesis
    using blocked_same_queues [OF assms(2)] same_queues_other(5) notify_primary by blast
next
  case (setup_vm vm)
  then show ?thesis
    using assms(2)
    by (auto simp: setup_vm_primary_vcpu_def Let_def alloc_vcpu_task_def blocked_in_def VMVCpus_new_def
        add_vcpu_task_def queue_get_def queue_insert_def nth_append split: if_splits)
next
  case (cleanup j)
  then have "tasks st' = tasks st" by (auto simp: cleanup_vm_vcpus_def split: option.splits)
  with assms(2) same_queues_other(2) [of st j] cleanup show ?thesis by (simp add: blocked_same_tasks)
next
  case (vm_changes v' vm)
  with assms(2) same_queues_other(3) [of st vm v'] show ?thesis by (simp add: blocked_same_tasks)
next
  case (count_add n)
  with assms(2) same_queues_other(4) [of st n] show ?thesis by (simp add: blocked_same_tasks)
qed

lemma blocked_in_run:
  "vmm_run A ls st st' \<Longrightarrow> blocked_in t wq i st \<Longrightarrow> \<forall>l \<in> set ls. \<not> notifies i l \<Longrightarrow>
   blocked_in t wq i st' \<and> tasks st' ! t = tasks st ! t"
proof (induction ls arbitrary: st)
  case (Cons l ls)
  then obtain u where u: "vmm_step A l st u" "vmm_run A ls u st'" by auto
  have "blocked_in t wq i u \<and> tasks u ! t = tasks st ! t"
    by (rule blocked_in_step [OF u(1)]) (use Cons.prems in auto)
  then show ?case using Cons.IH [OF u(2)] Cons.prems(3) by simp
qed simp

section \<open>Main results\<close>

text \<open>A VM object with a given identifier and one free vCPU, for concrete runs.\<close>

definition simple_axvm :: "(usize \<times> VMStatus) axvm" where
  "simple_axvm = \<lparr>ax_id = fst, ax_status = snd, ax_set_status = (\<lambda>s v. (fst v, s)),
     ax_boot = (\<lambda>v. (Inr (), (fst v, Running))), ax_shutdown = (\<lambda>v. (Inr (), (fst v, Stopping))),
     ax_running = (\<lambda>v. snd v = Running), ax_suspending = (\<lambda>v. snd v = Suspended),
     ax_stopping = (\<lambda>v. snd v = Stopping), ax_vcpu_states = (\<lambda>v. [VCpuFree]),
     ax_affinities = (\<lambda>v. [(0, None, 0)]), ax_set_entry = (\<lambda>k p v. (Inr (), v)), ax_set_gpr = (\<lambda>k r n v. v)\<rparr>"

lemma simple_axvm_laws: "axvm_id_laws simple_axvm"
  by (simp add: axvm_id_laws_def simple_axvm_def)

definition one_vm :: "(usize \<times> VMStatus) vmm_state" where
  "one_vm = vmm_boot_state (\<lambda>_. (1, Running)) VMList_new"

definition one_vm_task :: "vcpu_pc \<Rightarrow> usize \<Rightarrow> VMStatus \<Rightarrow> (usize \<times> VMStatus) vmm_state" where
  "one_vm_task pc n s = \<lparr>VM_VCPU_TASK_WAIT_QUEUE = [(1, \<lparr>vmvcpus_vm_id = 1, wait_queue = 0,
       vcpu_task_list = [0], running_halting_vcpu_count = n\<rparr>)],
     next_wait_queue = 1, tasks = [\<lparr>task_vm = 0, task_vcpu = 0, task_pc = pc\<rparr>],
     vms = (\<lambda>_. (1, s)), RUNNING_VM_COUNT = 0, GLOBAL_VM_LIST = VMList_new\<rparr>"

lemmas one_vm_defs = one_vm_def one_vm_task_def vmm_boot_state_def simple_axvm_def

lemma one_vm_run: "(vmm_next simple_axvm)\<^sup>*\<^sup>* one_vm (one_vm_task BootWait 0 Running)"
proof -
  have "setup_vm_primary_vcpu simple_axvm 0 one_vm = Done (one_vm_task BootWait 0 Running)"
    by (simp add: setup_vm_primary_vcpu_def one_vm_defs Let_def alloc_vcpu_task_def queue_insert_def
        VMVCpus_new_def add_vcpu_task_def)
  then have "vmm_step simple_axvm (Setup 0) one_vm (one_vm_task BootWait 0 Running)"
    by (rule setup_vm) (simp add: counted_tasks_def one_vm_defs)
  then have "vmm_next simple_axvm one_vm (one_vm_task BootWait 0 Running)"
    unfolding vmm_next_def by blast
  then show ?thesis by (rule r_into_rtranclp)
qed

lemma one_vm_step:
  "vcpu_run_step simple_axvm 0 x (one_vm_task BootWait 0 Running) = one_vm_task Booted 0 Running"
  "vcpu_run_step simple_axvm 0 x (one_vm_task Booted 0 Running) = one_vm_task InGuest 1 Running"
  by (simp_all add: vcpu_run_step_def one_vm_defs Let_def queue_get_def bt_get_def set_pc_def
      mark_vcpu_running_def queue_insert_def VMVCpus_mark_vcpu_running_def)

lemma one_vm_in_guest: "(vmm_next simple_axvm)\<^sup>*\<^sup>* one_vm (one_vm_task InGuest 1 Running)"
proof -
  have step: "vmm_next simple_axvm (one_vm_task pc n s) (vcpu_run_step simple_axvm 0 x (one_vm_task pc n s))"
    for pc n s x
    unfolding vmm_next_def by (intro exI, rule task_step [of 0]) (simp add: one_vm_task_def)
  show ?thesis
    using one_vm_run step [of BootWait 0 Running] step [of Booted 0 Running] one_vm_step
    by (auto intro: rtranclp.rtrancl_into_rtrancl)
qed



text \<open>
  \<^bold>\<open>C29\<close> (liveness). A task blocked in its VM's wait queue (halted, suspended, or waiting for the VM to
  run) stays blocked through every run in which nobody notifies that VM: changing the status of
  the VM does not wake it. A call of \<^verbatim>\<open>cleanup_vm_vcpus\<close> that joins it does not return.
\<close>

theorem blocked_until_notified:
  assumes "wq_inv st" "queue_get i st = Some e" "t < length (tasks st)"
    and "blocked_on (wait_queue e) (task_pc (tasks st ! t))"
    and "vmm_run A ls st st'" "\<forall>l \<in> set ls. \<not> notifies i l"
  shows "tasks st' ! t = tasks st ! t \<and> (t \<in> set ts \<longrightarrow> \<not> join_returns ts st')"
proof -
  have "blocked_in t (wait_queue e) i st"
    using assms(1-4) by (auto simp: blocked_in_def wq_inv_def)
  from blocked_in_run [OF assms(5) this assms(6)] have same: "tasks st' ! t = tasks st ! t" by simp
  then have "task_pc (tasks st' ! t) \<noteq> Exited" using assms(4) by auto
  then have "\<not> join_returns ts st'" if "t \<in> set ts" using that by (auto simp: join_returns_def)
  with same show ?thesis by blast
qed

theorem blocked_until_notified_witness:
  "let st = one_vm_task (SuspendBlocked 0) 1 Suspended;
       st' = snd (cleanup_vm_vcpus 1 (set_vm 0 (1, Stopping) st))
   in vmm_run simple_axvm [VmChanges 0 (1, Stopping), Cleanup 1] st st' \<and> \<not> join_returns [0] st'"
proof -
  let ?st = "one_vm_task (SuspendBlocked 0) 1 Suspended"
  let ?st' = "snd (cleanup_vm_vcpus 1 (set_vm 0 (1, Stopping) ?st))"
  have "vmm_step simple_axvm (VmChanges 0 (1, Stopping)) ?st (set_vm 0 (1, Stopping) ?st)"
    by (rule vm_changes) (simp add: one_vm_defs)
  then have run: "vmm_run simple_axvm [VmChanges 0 (1, Stopping), Cleanup 1] ?st ?st'"
    by (auto intro: cleanup)
  have "wq_inv ?st" "queue_get 1 ?st = Some \<lparr>vmvcpus_vm_id = 1, wait_queue = 0,
       vcpu_task_list = [0], running_halting_vcpu_count = 1\<rparr>"
    by (auto simp: wq_inv_def one_vm_task_def queue_get_def bt_get_def bt_inv_def split: if_splits)
  from blocked_until_notified [OF this _ _ run, of 0 "[0]"]
  have "\<not> join_returns [0] ?st'"
    by (simp add: notifies_def) (simp add: one_vm_task_def)
  with run show ?thesis by (simp only: Let_def simp_thms)
qed

text \<open>
  \<^verbatim>\<open>cleanup_vm_vcpus\<close> removes the VM's entry before it waits for the tasks. Every task
  of the VM that has not exited by then panics when it next reaches the table: waiting to boot,
  being marked as running, waiting while suspended, halting, or leaving the loop.
\<close>

theorem task_panics_after_cleanup:
  assumes "t < length (tasks st)" "task_id A st (tasks st ! t) = i"
    and "task_pc (tasks st ! t) \<in> {BootWait, Booted, SuspendWait, Exiting} \<or>
         task_pc (tasks st ! t) = InGuest \<and> x = Inr Halt"
  shows "task_pc (tasks (vcpu_run_step A t x (snd (cleanup_vm_vcpus i st))) ! t) = Panicked unwrap_none"
proof -
  have none: "queue_get i (snd (cleanup_vm_vcpus i st)) = None"
    by (simp add: cleanup_vm_vcpus_def split: option.splits)
  have "tasks (snd (cleanup_vm_vcpus i st)) = tasks st" "vms (snd (cleanup_vm_vcpus i st)) = vms st"
    by (simp_all add: cleanup_vm_vcpus_def split: option.splits)
  with none assms show ?thesis
    by (auto simp: vcpu_run_step_def vcpu_handle_exit_def task_id_def Let_def mark_vcpu_running_def
        mark_vcpu_exiting_def)
qed

theorem task_panics_after_cleanup_witness:
  "task_pc (tasks (vcpu_run_step simple_axvm 0 (Inr ExitNothing)
     (snd (cleanup_vm_vcpus 1 (one_vm_task Exiting 1 Stopping)))) ! 0) = Panicked unwrap_none"
  by (rule task_panics_after_cleanup) (simp_all add: one_vm_defs task_id_def)

end
