(* ===== verification/Shell_Parser.thy ===== *)
theory Shell_Parser
  imports Axv_BTreeMap
begin

text \<open>
  The command language of the shell, \<^verbatim>\<open>kernel/src/shell/command/mod.rs\<close>: the tree of commands, the
  tokenizer, the search for the command node, option parsing, validation, and the help texts. A
  handler is a name here (the Rust code has a function pointer); the console output of the help
  functions is a list of lines. Strings are ASCII.
\<close>

section \<open>Commands\<close>

datatype LevelFilter = LevelOff | LevelError | LevelWarn | LevelInfo | LevelDebug | LevelTrace

record OptionDef =
  opt_name :: string
  opt_short :: "char option"
  opt_long :: "string option"
  opt_description :: string
  opt_required :: bool

record FlagDef =
  flag_name :: string
  flag_short :: "char option"
  flag_long :: "string option"
  flag_description :: string

datatype 'h CommandNode = CommandNode
  (handler: "'h option")
  (subcommands: "(string \<times> 'h CommandNode) list")
  (description: string)
  (usage: "string option")
  (log_level: LevelFilter)
  (options: "OptionDef list")
  (flags: "FlagDef list")

record ParsedCommand =
  command_path :: "string list"
  pc_options :: "(string, string) btree"
  pc_flags :: "(string, bool) btree"
  positional_args :: "string list"

datatype ParseError =
    UnknownCommand string
  | UnknownOption string
  | MissingValue string
  | MissingRequiredOption string
  | NoHandler string

definition CommandNode_new :: "string \<Rightarrow> 'h CommandNode" where
  "CommandNode_new d = CommandNode None [] d None LevelOff [] []"

fun with_handler :: "'h \<Rightarrow> 'h CommandNode \<Rightarrow> 'h CommandNode" where
  "with_handler h (CommandNode _ s d u l opts fls) = CommandNode (Some h) s d u l opts fls"

fun with_usage :: "string \<Rightarrow> 'h CommandNode \<Rightarrow> 'h CommandNode" where
  "with_usage u (CommandNode h s d _ l opts fls) = CommandNode h s d (Some u) l opts fls"

fun with_log_level :: "LevelFilter \<Rightarrow> 'h CommandNode \<Rightarrow> 'h CommandNode" where
  "with_log_level l (CommandNode h s d u _ opts fls) = CommandNode h s d u l opts fls"

fun with_option :: "OptionDef \<Rightarrow> 'h CommandNode \<Rightarrow> 'h CommandNode" where
  "with_option x (CommandNode h s d u l opts fls) = CommandNode h s d u l (opts @ [x]) fls"

fun with_flag :: "FlagDef \<Rightarrow> 'h CommandNode \<Rightarrow> 'h CommandNode" where
  "with_flag x (CommandNode h s d u l opts fls) = CommandNode h s d u l opts (fls @ [x])"

fun add_subcommand :: "string \<Rightarrow> 'h CommandNode \<Rightarrow> 'h CommandNode \<Rightarrow> 'h CommandNode" where
  "add_subcommand name node (CommandNode h s d u l opts fls) =
     CommandNode h (bt_insert name node s) d u l opts fls"

definition OptionDef_new :: "string \<Rightarrow> string \<Rightarrow> OptionDef" where
  "OptionDef_new name d = \<lparr>opt_name = name, opt_short = None, opt_long = None, opt_description = d,
     opt_required = False\<rparr>"

definition opt_with_short :: "char \<Rightarrow> OptionDef \<Rightarrow> OptionDef" where
  "opt_with_short c x = x\<lparr>opt_short := Some c\<rparr>"

definition opt_with_long :: "string \<Rightarrow> OptionDef \<Rightarrow> OptionDef" where
  "opt_with_long s x = x\<lparr>opt_long := Some s\<rparr>"

definition opt_set_required :: "OptionDef \<Rightarrow> OptionDef" where
  "opt_set_required x = x\<lparr>opt_required := True\<rparr>"

definition FlagDef_new :: "string \<Rightarrow> string \<Rightarrow> FlagDef" where
  "FlagDef_new name d = \<lparr>flag_name = name, flag_short = None, flag_long = None, flag_description = d\<rparr>"

definition flag_with_short :: "char \<Rightarrow> FlagDef \<Rightarrow> FlagDef" where
  "flag_with_short c x = x\<lparr>flag_short := Some c\<rparr>"

definition flag_with_long :: "string \<Rightarrow> FlagDef \<Rightarrow> FlagDef" where
  "flag_with_long s x = x\<lparr>flag_long := Some s\<rparr>"

section \<open>Tokens\<close>

text \<open>The loop of \<^verbatim>\<open>tokenize\<close>; \<open>cur\<close> is the current token, and \<open>out\<close> the tokens so far.\<close>

fun tokenize_loop :: "string list \<Rightarrow> string \<Rightarrow> bool \<Rightarrow> bool \<Rightarrow> string \<Rightarrow> string list" where
  "tokenize_loop out cur in_quotes escape_next [] = (if cur \<noteq> [] then out @ [cur] else out)"
| "tokenize_loop out cur in_quotes escape_next (ch # s) =
     (if escape_next then tokenize_loop out (cur @ [ch]) in_quotes False s
      else if ch = CHR 0x5C then tokenize_loop out cur in_quotes True s
      else if ch = CHR 0x22 then tokenize_loop out cur (\<not> in_quotes) False s
      else if is_whitespace ch \<and> \<not> in_quotes
        then (if cur \<noteq> [] then tokenize_loop (out @ [cur]) [] in_quotes False s
              else tokenize_loop out [] in_quotes False s)
      else tokenize_loop out (cur @ [ch]) in_quotes False s)"

definition tokenize :: "string \<Rightarrow> string list" where
  "tokenize s = tokenize_loop [] [] False False s"

section \<open>Finding the command\<close>

text \<open>The \<^verbatim>\<open>while\<close> loop of \<^verbatim>\<open>find_command\<close>, on the tokens that are left.\<close>

fun find_command_loop ::
    "string list \<Rightarrow> 'h CommandNode \<Rightarrow> string list \<Rightarrow> string list \<times> 'h CommandNode \<times> string list" where
  "find_command_loop path node [] = (path, node, [])"
| "find_command_loop path node (t # ts) =
     (case bt_get t (subcommands node) of
        Some sub \<Rightarrow> find_command_loop (path @ [t]) sub ts
      | None \<Rightarrow> (path, node, t # ts))"

text \<open>\<^verbatim>\<open>parse\<close> calls \<^verbatim>\<open>find_command\<close> with a token list that is not empty.\<close>

definition find_command ::
    "(string, 'h CommandNode) btree \<Rightarrow> string list \<Rightarrow>
     ParseError + (string list \<times> 'h CommandNode \<times> string list)" where
  "find_command tree tokens =
     (case bt_get (hd tokens) tree of
        None \<Rightarrow> Inl (UnknownCommand (hd tokens))
      | Some node \<Rightarrow> Inr (find_command_loop [hd tokens] node (tl tokens)))"

section \<open>Options, flags and arguments\<close>

definition is_option :: "string \<Rightarrow> 'h CommandNode \<Rightarrow> bool" where
  "is_option name node = list_ex (\<lambda>x. opt_long x = Some name \<or> opt_name x = name) (options node)"

definition is_flag :: "string \<Rightarrow> 'h CommandNode \<Rightarrow> bool" where
  "is_flag name node = list_ex (\<lambda>x. flag_long x = Some name \<or> flag_name x = name) (flags node)"

definition is_short_option :: "char \<Rightarrow> 'h CommandNode \<Rightarrow> bool" where
  "is_short_option ch node = list_ex (\<lambda>x. opt_short x = Some ch) (options node)"

definition is_short_flag :: "char \<Rightarrow> 'h CommandNode \<Rightarrow> bool" where
  "is_short_flag ch node = list_ex (\<lambda>x. flag_short x = Some ch) (flags node)"

definition get_option_name_by_short :: "char \<Rightarrow> 'h CommandNode \<Rightarrow> string option" where
  "get_option_name_by_short ch node =
     map_option opt_name (find (\<lambda>x. opt_short x = Some ch) (options node))"

definition get_flag_name_by_short :: "char \<Rightarrow> 'h CommandNode \<Rightarrow> string option" where
  "get_flag_name_by_short ch node =
     map_option flag_name (find (\<lambda>x. flag_short x = Some ch) (flags node))"

type_synonym opt_map = "(string, string) btree"
type_synonym flag_map = "(string, bool) btree"
type_synonym 'a parse_result = "(ParseError + 'a) outcome"

definition shell_unwrap_none :: string where
  "shell_unwrap_none = ''called `Option::unwrap()` on a `None` value''"

text \<open>
  The \<^verbatim>\<open>for\<close> loop over a cluster of short options; the boolean of the result says that the token after
  the cluster was taken as a value.
\<close>

fun parse_short ::
    "'h CommandNode \<Rightarrow> string list \<Rightarrow> string \<Rightarrow> opt_map \<Rightarrow> flag_map \<Rightarrow>
     (opt_map \<times> flag_map \<times> bool) parse_result" where
  "parse_short node rest [] opts fls = Done (Inr (opts, fls, False))"
| "parse_short node rest (ch # cs) opts fls =
     (if is_short_flag ch node then
        (case get_flag_name_by_short ch node of
           None \<Rightarrow> Panic shell_unwrap_none
         | Some name \<Rightarrow> parse_short node rest cs opts (bt_insert name True fls))
      else if is_short_option ch node then
        (case get_option_name_by_short ch node of
           None \<Rightarrow> Panic shell_unwrap_none
         | Some name \<Rightarrow>
             (case (cs, rest) of
                ([], v # _) \<Rightarrow> Done (Inr (bt_insert name v opts, fls, True))
              | _ \<Rightarrow> Done (Inl (MissingValue (CHR ''-'' # [ch])))))
      else Done (Inl (UnknownOption (CHR ''-'' # [ch]))))"

fun parse_args_loop ::
    "'h CommandNode \<Rightarrow> opt_map \<Rightarrow> flag_map \<Rightarrow> string list \<Rightarrow> string list \<Rightarrow>
     (opt_map \<times> flag_map \<times> string list) parse_result" where
  "parse_args_loop node opts fls args [] = Done (Inr (opts, fls, args))"
| "parse_args_loop node opts fls args (token # rest) =
     (case strip_prefix_of ''--'' token of
        Some name \<Rightarrow>
          (case str_find CHR ''='' name of
             Some eq_pos \<Rightarrow>
               (let nm = take eq_pos name; v = drop 1 (drop eq_pos name)
                in if is_option nm node
                   then parse_args_loop node (bt_insert nm v opts) fls args rest
                   else Done (Inl (UnknownOption (''--'' @ nm))))
           | None \<Rightarrow>
               if is_flag name node then parse_args_loop node opts (bt_insert name True fls) args rest
               else if is_option name node then
                 (case rest of
                    [] \<Rightarrow> Done (Inl (MissingValue (''--'' @ name)))
                  | v # rest' \<Rightarrow> parse_args_loop node (bt_insert name v opts) fls args rest')
               else Done (Inl (UnknownOption (''--'' @ name))))
      | None \<Rightarrow>
          if starts_with token ''-'' \<and> length token > 1 then
            (case parse_short node rest (tl token) opts fls of
               Panic m \<Rightarrow> Panic m
             | Done (Inl e) \<Rightarrow> Done (Inl e)
             | Done (Inr (opts', fls', taken)) \<Rightarrow>
                 (case rest of
                    v # rest' \<Rightarrow> if taken then parse_args_loop node opts' fls' args rest'
                                 else parse_args_loop node opts' fls' args (v # rest')
                  | [] \<Rightarrow> parse_args_loop node opts' fls' args []))
          else parse_args_loop node opts fls (args @ [token]) rest)"

definition parse_args ::
    "string list \<Rightarrow> 'h CommandNode \<Rightarrow> (opt_map \<times> flag_map \<times> string list) parse_result" where
  "parse_args tokens node = parse_args_loop node [] [] [] tokens"

fun validate_required :: "OptionDef list \<Rightarrow> opt_map \<Rightarrow> ParseError + unit" where
  "validate_required [] opts = Inr ()"
| "validate_required (x # xs) opts =
     (if opt_required x \<and> \<not> bt_contains_key (opt_name x) opts
      then Inl (MissingRequiredOption (opt_name x)) else validate_required xs opts)"

definition validate_required_options :: "'h CommandNode \<Rightarrow> opt_map \<Rightarrow> ParseError + unit" where
  "validate_required_options node opts = validate_required (options node) opts"

definition parse :: "(string, 'h CommandNode) btree \<Rightarrow> string \<Rightarrow> ParsedCommand parse_result" where
  "parse tree input =
     (let tokens = tokenize input
      in if tokens = [] then Done (Inl (UnknownCommand ''empty command''))
         else case find_command tree tokens of
                Inl e \<Rightarrow> Done (Inl e)
              | Inr (path, node, rest) \<Rightarrow>
                  (case parse_args rest node of
                     Panic m \<Rightarrow> Panic m
                   | Done (Inl e) \<Rightarrow> Done (Inl e)
                   | Done (Inr (opts, fls, args)) \<Rightarrow>
                       (case validate_required_options node opts of
                          Inl e \<Rightarrow> Done (Inl e)
                        | Inr _ \<Rightarrow> Done (Inr \<lparr>command_path = path, pc_options = opts, pc_flags = fls,
                                            positional_args = args\<rparr>))))"

section \<open>Executing a command\<close>

text \<open>The descent of \<^verbatim>\<open>execute_command\<close> along the path, with its \<^verbatim>\<open>unwrap\<close>s.\<close>

fun descend :: "'h CommandNode \<Rightarrow> string list \<Rightarrow> 'h CommandNode outcome" where
  "descend node [] = Done node"
| "descend node (c # cs) =
     (case bt_get c (subcommands node) of None \<Rightarrow> Panic shell_unwrap_none | Some sub \<Rightarrow> descend sub cs)"

text \<open>The result is the handler to call with the parsed command.\<close>

definition execute_command ::
    "(string, 'h CommandNode) btree \<Rightarrow> string \<Rightarrow> ('h \<times> ParsedCommand) parse_result" where
  "execute_command tree input =
     (case parse tree input of
        Panic m \<Rightarrow> Panic m
      | Done (Inl e) \<Rightarrow> Done (Inl e)
      | Done (Inr p) \<Rightarrow>
          (case command_path p of
             [] \<Rightarrow> Panic ''index out of bounds''
           | c # cs \<Rightarrow>
               (case bt_get c tree of
                  None \<Rightarrow> Panic shell_unwrap_none
                | Some node \<Rightarrow>
                    (case descend node cs of
                       Panic m \<Rightarrow> Panic m
                     | Done node' \<Rightarrow>
                         (case handler node' of
                            Some h \<Rightarrow> Done (Inr (h, p))
                          | None \<Rightarrow> Done (Inl (NoHandler (str_join '' '' (command_path p)))))))))"

section \<open>Help and the top level\<close>

text \<open>What a command writes to the console; \<open>ExitProcess\<close> ends the hypervisor.\<close>

datatype console = Line string | Raw string | ExitProcess nat

definition names_str :: "char option \<Rightarrow> string option \<Rightarrow> string \<Rightarrow> string" where
  "names_str short long name =
     (let a = (case short of Some c \<Rightarrow> ''-'' @ [c] | None \<Rightarrow> []);
          b = (case long of Some l \<Rightarrow> (if a \<noteq> [] then a @ '', '' else a) @ ''--'' @ l | None \<Rightarrow> a)
      in if b = [] then name else b)"

definition option_help :: "OptionDef \<Rightarrow> string" where
  "option_help x = ''  '' @ pad_right 20 (names_str (opt_short x) (opt_long x) (opt_name x)) @ '' '' @
     opt_description x @ (if opt_required x then '' (required)'' else [])"

definition flag_help :: "FlagDef \<Rightarrow> string" where
  "flag_help x = ''  '' @ pad_right 20 (names_str (flag_short x) (flag_long x) (flag_name x)) @ '' '' @
     flag_description x"

fun help_descend :: "'h CommandNode \<Rightarrow> string list \<Rightarrow> ParseError + 'h CommandNode" where
  "help_descend node [] = Inr node"
| "help_descend node (c # cs) =
     (case bt_get c (subcommands node) of
        None \<Rightarrow> Inl (UnknownCommand c)
      | Some sub \<Rightarrow> help_descend sub cs)"

definition newline :: string where
  "newline = [char_of (10 :: nat)]"

definition help_text :: "string list \<Rightarrow> 'h CommandNode \<Rightarrow> console list" where
  "help_text path node =
     [Line (''Command: '' @ str_join '' '' path), Line (''Description: '' @ description node)] @
     (case usage node of Some u \<Rightarrow> [Line (''Usage: '' @ u)] | None \<Rightarrow> []) @
     (if options node \<noteq> [] then Line (newline @ ''Options:'') # map (Line \<circ> option_help) (options node) else []) @
     (if flags node \<noteq> [] then Line (newline @ ''Flags:'') # map (Line \<circ> flag_help) (flags node) else []) @
     (if subcommands node \<noteq> []
      then Line (newline @ ''Subcommands:'') #
           map (\<lambda>(name, sub). Line (''  '' @ pad_right 20 name @ '' '' @ description sub)) (subcommands node)
      else [])"

definition show_help ::
    "(string, 'h CommandNode) btree \<Rightarrow> string list \<Rightarrow> (ParseError + console list) outcome" where
  "show_help tree path =
     (case path of
        [] \<Rightarrow> Panic ''index out of bounds''
      | c # cs \<Rightarrow>
          Done (case bt_get c tree of
                  None \<Rightarrow> Inl (UnknownCommand c)
                | Some node \<Rightarrow>
                    (case help_descend node cs of
                       Inl e \<Rightarrow> Inl e
                     | Inr node' \<Rightarrow> Inr (help_text path node'))))"

definition show_available_commands :: "(string, 'h CommandNode) btree \<Rightarrow> console list" where
  "show_available_commands tree =
     [Line ''ArceOS Shell - Available Commands:'', Line []] @
     concat (map (\<lambda>(name, node).
        Line (''  '' @ pad_right 15 name @ '' '' @ description node) #
        map (\<lambda>(sub_name, sub). Line (''    '' @ pad_right 13 sub_name @ '' '' @ description sub)) (subcommands node))
       (bt_entries tree)) @
     [Line [], Line ''Built-in Commands:'',
      Line ''  help            Show help information'',
      Line ''  help <command>  Show help for a specific command'',
      Line ''  clear           Clear the screen'',
      Line ''  exit/quit       Exit the shell'', Line [],
      Line ''Tip: Use 'help <command>' to see detailed usage of a command'']"

text \<open>What \<^verbatim>\<open>{:?}\<close> prints of an error is left out of the model: the parameter \<open>debug\<close>.\<close>

definition handle_builtin_commands ::
    "(ParseError \<Rightarrow> string) \<Rightarrow> (string, 'h CommandNode) btree \<Rightarrow> string \<Rightarrow> (bool \<times> console list) outcome" where
  "handle_builtin_commands debug tree input =
     (let t = str_trim input
      in if t = ''help'' then Done (True, show_available_commands tree)
         else if t = ''exit'' \<or> t = ''quit'' then Done (True, [Line ''Goodbye!'', ExitProcess 0])
         else if t = ''clear'' then Done (True, [Raw (CHR 0x1B # ''[2J'' @ CHR 0x1B # ''[H'')])
         else if starts_with input ''help '' then
           (case show_help tree (str_split_whitespace (drop 5 input)) of
              Panic m \<Rightarrow> Panic m
            | Done (Inl e) \<Rightarrow> Done (True, [Line (''Error: '' @ debug e)])
            | Done (Inr out) \<Rightarrow> Done (True, out))
         else Done (False, []))"

definition quoted :: "string \<Rightarrow> string" where
  "quoted s = CHR 0x27 # s @ [CHR 0x27]"

fun parse_error_text :: "ParseError \<Rightarrow> console list" where
  "parse_error_text (UnknownCommand c) =
     [Line (''Error: Unknown command '' @ quoted c), Line ''Type 'help' to see available commands'']"
| "parse_error_text (UnknownOption x) = [Line (''Error: Unknown option '' @ quoted x)]"
| "parse_error_text (MissingValue x) = [Line (''Error: Option '' @ quoted x @ '' is missing a value'')]"
| "parse_error_text (MissingRequiredOption x) = [Line (''Error: Missing required option '' @ quoted x)]"
| "parse_error_text (NoHandler x) = [Line (''Error: Command '' @ quoted x @ '' has no handler function'')]"

text \<open>
  \<^verbatim>\<open>run_cmd_bytes\<close>: either the handler to run with its command, or the lines to print. \<open>from_utf8\<close> is
  \<^verbatim>\<open>str::from_utf8\<close>.
\<close>

definition run_cmd_bytes ::
    "(u8 list \<Rightarrow> string option) \<Rightarrow> (string, 'h CommandNode) btree \<Rightarrow> u8 list \<Rightarrow>
     (console list + 'h \<times> ParsedCommand) outcome" where
  "run_cmd_bytes from_utf8 tree bytes =
     (case from_utf8 bytes of
        None \<Rightarrow> Done (Inl [Line ''Error: Input contains invalid UTF-8 characters''])
      | Some s \<Rightarrow>
          (let trimmed = str_trim s
           in if trimmed = [] then Done (Inl [])
              else case execute_command tree trimmed of
                     Panic m \<Rightarrow> Panic m
                   | Done (Inl e) \<Rightarrow> Done (Inl (parse_error_text e))
                   | Done (Inr hp) \<Rightarrow> Done (Inr hp)))"

section \<open>The tokenizer reads back what is quoted\<close>

text \<open>Quoting an argument: double quotes around it, and a backslash before quotes and backslashes.\<close>

fun escape :: "string \<Rightarrow> string" where
  "escape [] = []"
| "escape (c # s) = (if c = CHR 0x5C \<or> c = CHR 0x22 then CHR 0x5C # c # escape s else c # escape s)"

definition quote_arg :: "string \<Rightarrow> string" where
  "quote_arg s = CHR 0x22 # escape s @ [CHR 0x22]"

lemma tokenize_escape:
  "tokenize_loop out cur True False (escape s @ CHR 0x22 # rest) = tokenize_loop out (cur @ s) False False rest"
  by (induction s arbitrary: cur) auto

lemma tokenize_quote_arg:
  "tokenize_loop out cur False False (quote_arg s @ rest) = tokenize_loop out (cur @ s) False False rest"
  by (simp add: quote_arg_def tokenize_escape)

lemma is_whitespace_space [simp]: "is_whitespace CHR '' ''"
  by (simp add: is_whitespace_def Let_def)

lemma tokenize_quoted_list:
  "\<forall>a \<in> set args. a \<noteq> [] \<Longrightarrow>
   tokenize_loop out [] False False (str_join '' '' (map quote_arg args)) = out @ args"
proof (induction args arbitrary: out)
  case Nil
  show ?case by simp
next
  case (Cons a args)
  show ?case
  proof (cases args)
    case Nil
    with Cons.prems tokenize_quote_arg [of out "[]" a "[]"] show ?thesis by simp
  next
    case (Cons b bs)
    have "str_join '' '' (map quote_arg (a # args)) = quote_arg a @ '' '' @ str_join '' '' (map quote_arg args)"
      by (simp add: Cons)
    with Cons.prems Cons.IH [of "out @ [a]"] show ?thesis
      by (simp add: tokenize_quote_arg)
  qed
qed

text \<open>
  \<^bold>\<open>C30\<close> (round trip). Any list of non-empty arguments, whatever characters they hold, survives being
  quoted, joined with blanks and tokenized.
\<close>

theorem tokenize_quoted:
  assumes "\<forall>a \<in> set args. a \<noteq> []"
  shows "tokenize (str_join '' '' (map quote_arg args)) = args"
  using tokenize_quoted_list [OF assms, of "[]"] by (simp add: tokenize_def)

theorem tokenize_quoted_witness:
  "tokenize (str_join '' '' (map quote_arg [''vm'', ''a b'', [CHR 0x22, CHR 0x5C]])) =
   [''vm'', ''a b'', [CHR 0x22, CHR 0x5C]]"
  by (rule tokenize_quoted) simp

section \<open>No panic\<close>

lemma list_ex_find: "list_ex P xs \<longleftrightarrow> find P xs \<noteq> None"
  by (induction xs) auto

lemma short_names:
  "is_short_flag ch node \<Longrightarrow> get_flag_name_by_short ch node \<noteq> None"
  "is_short_option ch node \<Longrightarrow> get_option_name_by_short ch node \<noteq> None"
  by (simp_all add: is_short_flag_def get_flag_name_by_short_def is_short_option_def
      get_option_name_by_short_def list_ex_find)

lemma parse_short_no_panic: "parse_short node rest cs opts fls \<noteq> Panic m"
proof (induction node rest cs opts fls rule: parse_short.induct)
  case (2 node rest ch cs opts fls)
  then show ?case
    using short_names [of ch node] by (auto split: option.splits list.splits)
qed simp

lemma parse_args_no_panic: "parse_args_loop node opts fls args ts \<noteq> Panic m"
proof (induction node opts fls args ts rule: parse_args_loop.induct)
  case (2 node opts fls args token rest)
  then show ?case
    using parse_short_no_panic [of node rest "tl token" opts fls]
    by (auto simp: Let_def split: option.splits list.splits outcome.splits sum.splits)
qed simp

lemma find_command_loop_descend:
  "find_command_loop path node ts = (path', node', rest) \<Longrightarrow>
   \<exists>cs. path' = path @ cs \<and> ts = cs @ rest \<and> descend node cs = Done node' \<and>
        (rest \<noteq> [] \<longrightarrow> bt_get (hd rest) (subcommands node') = None)"
proof (induction path node ts rule: find_command_loop.induct)
  case (2 path node t ts)
  then show ?case by (cases "bt_get t (subcommands node)") auto
qed auto

lemma find_command_path:
  assumes "find_command tree ts = Inr (path, node, rest)" "ts \<noteq> []"
  shows "\<exists>c cs top. path = c # cs \<and> ts = path @ rest \<and> bt_get c tree = Some top \<and> descend top cs = Done node \<and>
    (rest \<noteq> [] \<longrightarrow> bt_get (hd rest) (subcommands node) = None)"
  using assms by (cases ts) (auto simp: find_command_def split: option.splits dest: find_command_loop_descend)

lemma parse_path:
  assumes "parse tree input = Done (Inr p)"
  shows "\<exists>c cs top node rest. command_path p = c # cs \<and> tokenize input = command_path p @ rest \<and>
    bt_get c tree = Some top \<and> descend top cs = Done node \<and>
    (rest \<noteq> [] \<longrightarrow> bt_get (hd rest) (subcommands node) = None) \<and>
    parse_args rest node = Done (Inr (pc_options p, pc_flags p, positional_args p)) \<and>
    validate_required_options node (pc_options p) = Inr ()"
  using assms find_command_path [of tree "tokenize input"]
  by (auto simp: parse_def Let_def split: if_splits sum.splits outcome.splits prod.splits)

lemma parse_no_panic: "parse tree input \<noteq> Panic m"
  by (auto simp: parse_def parse_args_def Let_def parse_args_no_panic
      split: sum.splits prod.splits outcome.splits)



definition demo_tree :: "(string, nat) btree \<Rightarrow> (string, nat CommandNode) btree" where
  "demo_tree subs = [(''vm'', fold (\<lambda>(n, h). add_subcommand n (with_handler h (CommandNode_new [])))
     subs (CommandNode_new ''machines''))]"

lemma demo_tokens: "tokenize ''vm list 1'' = [''vm'', ''list'', ''1'']"
  by (simp add: tokenize_def is_whitespace_def)


section \<open>Arguments are read back\<close>

definition render_option :: "string \<times> string \<Rightarrow> string" where
  "render_option nv = ''--'' @ fst nv @ ''='' @ snd nv"

definition render_flag :: "string \<times> bool \<Rightarrow> string" where
  "render_flag nb = ''--'' @ fst nb"

definition plain_arg :: "string \<Rightarrow> bool" where
  "plain_arg a = (\<not> prefix ''-'' a \<or> a = ''-'')"

lemma parse_rendered_options:
  "\<forall>(n, v) \<in> set kvs. is_option n node \<and> CHR ''='' \<notin> set n \<Longrightarrow>
   parse_args_loop node opts fls args (map render_option kvs @ rest) =
   parse_args_loop node (fold (\<lambda>(k, v). bt_insert k v) kvs opts) fls args rest"
proof (induction kvs arbitrary: opts)
  case (Cons nv kvs)
  obtain n v where nv: "nv = (n, v)" by (cases nv)
  have "str_find CHR ''='' (n @ CHR ''='' # v) = Some (length n)"
    using Cons.prems nv by (intro str_find_append) auto
  then show ?case
    using Cons nv by (simp add: render_option_def Let_def)
qed simp

lemma parse_rendered_flags:
  "\<forall>(n, b) \<in> set kbs. b \<and> is_flag n node \<and> CHR ''='' \<notin> set n \<Longrightarrow>
   parse_args_loop node opts fls args (map render_flag kbs @ rest) =
   parse_args_loop node opts (fold (\<lambda>(k, b). bt_insert k b) kbs fls) args rest"
proof (induction kbs arbitrary: fls)
  case (Cons nb kbs)
  obtain n b where nb: "nb = (n, b)" by (cases nb)
  have "str_find CHR ''='' n = None"
    using Cons.prems nb by (simp add: str_find_None)
  then show ?case
    using Cons nb by (simp add: render_flag_def)
qed simp

lemma plain_arg_no_prefix: "plain_arg a \<Longrightarrow> strip_prefix_of ''--'' a = None"
  by (auto simp: plain_arg_def strip_prefix_of_eq_None prefix_def)

lemma parse_plain_args:
  "\<forall>a \<in> set xs. plain_arg a \<Longrightarrow>
   parse_args_loop node opts fls args xs = Done (Inr (opts, fls, args @ xs))"
proof (induction xs arbitrary: args)
  case (Cons a xs)
  have "strip_prefix_of ''--'' a = None" "\<not> (starts_with a ''-'' \<and> length a > 1)"
    using Cons.prems plain_arg_no_prefix [of a] by (auto simp: plain_arg_def starts_with_prefix)
  then show ?case using Cons by auto
qed simp

lemma fold_bt_insert: "bt_inv (m @ m') \<Longrightarrow> fold (\<lambda>(k, v). bt_insert k v) m' m = m @ m'"
proof (induction m' arbitrary: m)
  case (Cons kv m')
  obtain k v where kv: "kv = (k, v)" by (cases kv)
  have "bt_insert k v m = m @ [(k, v)]"
    using Cons.prems kv by (induction m) (auto simp: bt_inv_def)
  with Cons.IH [of "m @ [(k, v)]"] Cons.prems kv show ?case by simp
qed simp

text \<open>
  Parsing the canonical rendering of options, flags and arguments gives them back
  exactly: every option the command declares, with any value (also an empty one, or one with an
  equals sign), every declared flag, and every argument that does not look like an option.
\<close>

theorem parse_args_render:
  assumes "bt_inv opts" "\<forall>(n, v) \<in> set opts. is_option n node \<and> CHR ''='' \<notin> set n"
    and "bt_inv fls" "\<forall>(n, b) \<in> set fls. b \<and> is_flag n node \<and> CHR ''='' \<notin> set n"
    and "\<forall>a \<in> set args. plain_arg a"
  shows "parse_args (map render_option opts @ map render_flag fls @ args) node = Done (Inr (opts, fls, args))"
  using assms fold_bt_insert [of "[]" opts] fold_bt_insert [of "[]" fls]
  by (simp add: parse_args_def parse_rendered_options parse_rendered_flags parse_plain_args)

definition demo_node :: "nat CommandNode" where
  "demo_node = with_flag (FlagDef_new ''all'' []) (with_option (OptionDef_new ''format'' []) (CommandNode_new []))"

theorem parse_args_render_witness:
  "parse_args (map render_option [(''format'', ''a=b'')] @ map render_flag [(''all'', True)] @ [''1'']) demo_node =
   Done (Inr ([(''format'', ''a=b'')], [(''all'', True)], [''1'']))"
  by (rule parse_args_render)
    (simp_all add: bt_inv_def demo_node_def CommandNode_new_def OptionDef_new_def FlagDef_new_def
      is_option_def is_flag_def plain_arg_def)

end
