(* ===== verification/Shell_Commands.thy ===== *)
theory Shell_Commands
  imports Shell_Parser
begin

text \<open>
  The commands that the shell registers: \<^verbatim>\<open>build_base_cmd\<close> of \<^verbatim>\<open>kernel/src/shell/command/base.rs\<close> and
  \<^verbatim>\<open>build_vm_cmd\<close> of \<^verbatim>\<open>kernel/src/shell/command/vm.rs\<close>, and the tree that \<^verbatim>\<open>build_command_tree\<close> makes of
  them. The argument \<open>fs\<close> is the Cargo feature of that name, which decides which commands exist.
\<close>

section \<open>Handlers\<close>

datatype shell_handler =
    H_do_ls
  | H_do_cat
  | H_do_echo
  | H_do_mkdir
  | H_do_rm
  | H_do_cd
  | H_do_pwd
  | H_do_uname
  | H_do_exit
  | H_do_log
  | H_do_touch
  | H_do_cp
  | H_do_mv
  | H_vm_create
  | H_vm_start
  | H_vm_stop
  | H_vm_restart
  | H_vm_suspend
  | H_vm_resume
  | H_vm_delete
  | H_vm_list
  | H_vm_show
  | H_vm_help

section \<open>Base commands\<close>

definition ls_cmd :: "shell_handler CommandNode" where
  "ls_cmd = with_flag (flag_with_long ''all'' (flag_with_short CHR ''a'' (FlagDef_new ''all'' ''Show hidden files'')))
    (with_flag (flag_with_long ''long'' (flag_with_short CHR ''l'' (FlagDef_new ''long'' ''Use long listing format'')))
    (with_usage ''ls [OPTIONS] [DIRECTORY...]''
    (with_handler H_do_ls
    (CommandNode_new ''List directory contents''))))"

definition cat_cmd :: "shell_handler CommandNode" where
  "cat_cmd = with_usage ''cat <FILE1> [FILE2...]''
    (with_handler H_do_cat
    (CommandNode_new ''Display file contents''))"

definition echo_cmd :: "shell_handler CommandNode" where
  "echo_cmd = with_flag (flag_with_long ''no-newline'' (flag_with_short CHR ''n'' (FlagDef_new ''no-newline'' ''Do not output trailing newline'')))
    (with_usage ''echo [OPTIONS] [TEXT...]''
    (with_handler H_do_echo
    (CommandNode_new ''Display text'')))"

definition mkdir_cmd :: "shell_handler CommandNode" where
  "mkdir_cmd = with_flag (flag_with_long ''parents'' (flag_with_short CHR ''p'' (FlagDef_new ''parents'' ''Create parent directories as needed'')))
    (with_usage ''mkdir [OPTIONS] <DIRECTORY1> [DIRECTORY2...]''
    (with_handler H_do_mkdir
    (CommandNode_new ''Create directories'')))"

definition rm_cmd :: "shell_handler CommandNode" where
  "rm_cmd = with_flag (flag_with_long ''force'' (flag_with_short CHR ''f'' (FlagDef_new ''force'' ''Force removal, ignore nonexistent files'')))
    (with_flag (flag_with_long ''recursive'' (flag_with_short CHR ''r'' (FlagDef_new ''recursive'' ''Remove directories recursively'')))
    (with_flag (flag_with_long ''dir'' (flag_with_short CHR ''d'' (FlagDef_new ''dir'' ''Remove empty directories'')))
    (with_usage ''rm [OPTIONS] <FILE1> [FILE2...]''
    (with_handler H_do_rm
    (CommandNode_new ''Remove files and directories'')))))"

definition cd_cmd :: "shell_handler CommandNode" where
  "cd_cmd = with_usage ''cd [DIRECTORY]''
    (with_handler H_do_cd
    (CommandNode_new ''Change directory''))"

definition pwd_cmd :: "shell_handler CommandNode" where
  "pwd_cmd = with_flag (flag_with_long ''logical'' (flag_with_short CHR ''L'' (FlagDef_new ''logical'' ''Use logical path'')))
    (with_usage ''pwd [OPTIONS]''
    (with_handler H_do_pwd
    (CommandNode_new ''Print working directory'')))"

definition uname_cmd :: "shell_handler CommandNode" where
  "uname_cmd = with_flag (flag_with_long ''machine'' (flag_with_short CHR ''m'' (FlagDef_new ''machine'' ''Show machine architecture'')))
    (with_flag (flag_with_long ''kernel-name'' (flag_with_short CHR ''s'' (FlagDef_new ''kernel-name'' ''Show kernel name'')))
    (with_flag (flag_with_long ''all'' (flag_with_short CHR ''a'' (FlagDef_new ''all'' ''Show all information'')))
    (with_usage ''uname [OPTIONS]''
    (with_handler H_do_uname
    (CommandNode_new ''System information'')))))"

definition exit_cmd :: "shell_handler CommandNode" where
  "exit_cmd = with_usage ''exit [EXIT_CODE]''
    (with_handler H_do_exit
    (CommandNode_new ''Exit the shell''))"

definition log_cmd :: "shell_handler CommandNode" where
  "log_cmd = with_usage ''log [LEVEL]''
    (with_handler H_do_log
    (CommandNode_new ''Change log level''))"

definition touch_cmd :: "shell_handler CommandNode" where
  "touch_cmd = with_usage ''touch <FILE1> [FILE2...]''
    (with_handler H_do_touch
    (CommandNode_new ''Create empty files''))"

definition cp_cmd :: "shell_handler CommandNode" where
  "cp_cmd = with_flag (flag_with_long ''recursive'' (flag_with_short CHR ''r'' (FlagDef_new ''recursive'' ''Copy directories recursively'')))
    (with_usage ''cp [OPTIONS] <SOURCE> <DEST>''
    (with_handler H_do_cp
    (CommandNode_new ''Copy files'')))"

definition mv_cmd :: "shell_handler CommandNode" where
  "mv_cmd = with_usage ''mv <SOURCE> <DEST> | mv <SOURCE1> [SOURCE2...] <DIRECTORY>''
    (with_handler H_do_mv
    (CommandNode_new ''Move/rename files''))"

text \<open>\<^verbatim>\<open>tree.insert\<close> for the commands that the build includes.\<close>

definition insert_if ::
    "bool \<Rightarrow> string \<Rightarrow> 'h CommandNode \<Rightarrow> (string, 'h CommandNode) btree \<Rightarrow> (string, 'h CommandNode) btree" where
  "insert_if c name node tree = (if c then bt_insert name node tree else tree)"

definition build_base_cmd ::
    "bool \<Rightarrow> (string, shell_handler CommandNode) btree \<Rightarrow> (string, shell_handler CommandNode) btree" where
  "build_base_cmd fs tree =
     fold (\<lambda>(c, name, node). insert_if c name node)
       [(fs, ''ls'', ls_cmd),
        (fs, ''cat'', cat_cmd),
        (fs, ''echo'', echo_cmd),
        (fs, ''mkdir'', mkdir_cmd),
        (fs, ''rm'', rm_cmd),
        (fs, ''cd'', cd_cmd),
        (fs, ''pwd'', pwd_cmd),
        (True, ''uname'', uname_cmd),
        (True, ''exit'', exit_cmd),
        (True, ''log'', log_cmd),
        (fs, ''touch'', touch_cmd),
        (fs, ''cp'', cp_cmd),
        (fs, ''mv'', mv_cmd)] tree"

section \<open>VM commands\<close>

definition vm_create_cmd :: "shell_handler CommandNode" where
  "vm_create_cmd = with_flag (flag_with_long ''force'' (flag_with_short CHR ''f'' (FlagDef_new ''force'' ''Force creation without confirmation'')))
    (with_option (opt_with_long ''memory'' (opt_with_short CHR ''m'' (OptionDef_new ''memory'' ''Amount of memory'')))
    (with_option (opt_with_long ''cpu'' (opt_with_short CHR ''c'' (OptionDef_new ''cpu'' ''Number of CPU cores'')))
    (with_option (opt_with_long ''name'' (opt_with_short CHR ''n'' (OptionDef_new ''name'' ''Virtual machine name'')))
    (with_usage ''vm create [OPTIONS] <CONFIG_FILE>...''
    (with_handler H_vm_create
    (CommandNode_new ''Create a new virtual machine''))))))"

definition vm_start_cmd :: "shell_handler CommandNode" where
  "vm_start_cmd = with_flag (flag_with_long ''console'' (flag_with_short CHR ''c'' (FlagDef_new ''console'' ''Attach to console'')))
    (with_flag (flag_with_long ''detach'' (flag_with_short CHR ''d'' (FlagDef_new ''detach'' ''Start in background'')))
    (with_usage ''vm start [OPTIONS] [VM_ID...]''
    (with_handler H_vm_start
    (CommandNode_new ''Start a virtual machine''))))"

definition vm_stop_cmd :: "shell_handler CommandNode" where
  "vm_stop_cmd = with_flag (flag_with_long ''graceful'' (flag_with_short CHR ''g'' (FlagDef_new ''graceful'' ''Graceful shutdown'')))
    (with_flag (flag_with_long ''force'' (flag_with_short CHR ''f'' (FlagDef_new ''force'' ''Force stop'')))
    (with_usage ''vm stop [OPTIONS] <VM_ID>...''
    (with_handler H_vm_stop
    (CommandNode_new ''Stop a virtual machine''))))"

definition vm_restart_cmd :: "shell_handler CommandNode" where
  "vm_restart_cmd = with_flag (flag_with_long ''force'' (flag_with_short CHR ''f'' (FlagDef_new ''force'' ''Force restart'')))
    (with_usage ''vm restart [OPTIONS] <VM_ID>...''
    (with_handler H_vm_restart
    (CommandNode_new ''Restart a virtual machine'')))"

definition vm_suspend_cmd :: "shell_handler CommandNode" where
  "vm_suspend_cmd = with_usage ''vm suspend <VM_ID>...''
    (with_handler H_vm_suspend
    (CommandNode_new ''Suspend (pause) a running virtual machine''))"

definition vm_resume_cmd :: "shell_handler CommandNode" where
  "vm_resume_cmd = with_usage ''vm resume <VM_ID>...''
    (with_handler H_vm_resume
    (CommandNode_new ''Resume a suspended virtual machine''))"

definition vm_delete_cmd :: "shell_handler CommandNode" where
  "vm_delete_cmd = with_flag (flag_with_long ''keep-data'' (FlagDef_new ''keep-data'' ''Keep VM data''))
    (with_flag (flag_with_long ''force'' (flag_with_short CHR ''f'' (FlagDef_new ''force'' ''Skip confirmation'')))
    (with_usage ''vm delete [OPTIONS] <VM_ID>''
    (with_handler H_vm_delete
    (CommandNode_new ''Delete a virtual machine''))))"

definition vm_list_cmd :: "shell_handler CommandNode" where
  "vm_list_cmd = with_option (opt_with_long ''format'' (OptionDef_new ''format'' ''Output format (table, json)''))
    (with_flag (flag_with_long ''all'' (flag_with_short CHR ''a'' (FlagDef_new ''all'' ''Show all VMs including stopped ones'')))
    (with_usage ''vm list [OPTIONS]''
    (with_handler H_vm_list
    (CommandNode_new ''Show virtual machine lists''))))"

definition vm_show_cmd :: "shell_handler CommandNode" where
  "vm_show_cmd = with_flag (flag_with_long ''stats'' (flag_with_short CHR ''s'' (FlagDef_new ''stats'' ''Show device statistics'')))
    (with_flag (flag_with_long ''config'' (flag_with_short CHR ''c'' (FlagDef_new ''config'' ''Show configuration details'')))
    (with_flag (flag_with_long ''full'' (flag_with_short CHR ''f'' (FlagDef_new ''full'' ''Show full detailed information'')))
    (with_usage ''vm show [OPTIONS] <VM_ID>''
    (with_handler H_vm_show
    (CommandNode_new ''Show detailed VM information'')))))"

definition vm_node :: "bool \<Rightarrow> shell_handler CommandNode" where
  "vm_node fs =
     (let node = add_subcommand ''help'' (with_handler H_vm_help
    (CommandNode_new ''Show VM help''))
    (with_usage ''vm <command> [options] [args...]''
    (with_handler H_vm_help
    (CommandNode_new ''Virtual machine management'')));
          node1 = (if fs then add_subcommand ''start'' vm_start_cmd (add_subcommand ''create'' vm_create_cmd node)
                   else node)
      in add_subcommand ''show'' vm_show_cmd (add_subcommand ''list'' vm_list_cmd
        (add_subcommand ''delete'' vm_delete_cmd (add_subcommand ''restart'' vm_restart_cmd
        (add_subcommand ''resume'' vm_resume_cmd (add_subcommand ''suspend'' vm_suspend_cmd
        (add_subcommand ''stop'' vm_stop_cmd node1)))))))"

definition build_vm_cmd ::
    "bool \<Rightarrow> (string, shell_handler CommandNode) btree \<Rightarrow> (string, shell_handler CommandNode) btree" where
  "build_vm_cmd fs tree = bt_insert ''vm'' (vm_node fs) tree"

definition build_command_tree :: "bool \<Rightarrow> (string, shell_handler CommandNode) btree" where
  "build_command_tree fs = build_vm_cmd fs (build_base_cmd fs [])"

section \<open>The registered commands are consistent\<close>

text \<open>
  A node whose handler finds a flag or option under one name however it is written: the long form
  is the name the value is stored under, and no short letter or long name is declared twice.
\<close>

definition node_ok :: "'h CommandNode \<Rightarrow> bool" where
  "node_ok node =
     (handler node \<noteq> None \<and>
      list_all (\<lambda>x. flag_long x = Some (flag_name x) \<and> CHR ''='' \<notin> set (flag_name x)) (flags node) \<and>
      list_all (\<lambda>x. opt_long x = Some (opt_name x) \<and> CHR ''='' \<notin> set (opt_name x)) (options node) \<and>
      distinct (map flag_name (flags node) @ map opt_name (options node)) \<and>
      distinct (List.map_filter flag_short (flags node) @ List.map_filter opt_short (options node)) \<and>
      CHR ''-'' \<notin> set (List.map_filter flag_short (flags node) @ List.map_filter opt_short (options node)))"

fun node_and_below :: "'h CommandNode \<Rightarrow> 'h CommandNode list" where
  "node_and_below (CommandNode h subs d u l opts fls) =
     CommandNode h subs d u l opts fls # concat (map (\<lambda>(_, sub). node_and_below sub) subs)"

definition tree_nodes :: "(string, 'h CommandNode) btree \<Rightarrow> 'h CommandNode list" where
  "tree_nodes tree = concat (map (node_and_below \<circ> snd) tree)"

lemma tree_consistent: "list_all node_ok (tree_nodes (build_command_tree fs))"
  by (cases fs) (simp only:, code_simp)+

lemma in_set_map_filter: "c \<in> set (List.map_filter f xs) \<longleftrightarrow> (\<exists>x \<in> set xs. f x = Some c)"
  by (induction xs) (auto simp: List.map_filter_simps split: option.splits)

lemma node_below_self: "node \<in> set (node_and_below node)"
  by (cases node) simp

lemma descend_below: "descend node cs = Done n \<Longrightarrow> n \<in> set (node_and_below node)"
proof (induction node cs rule: descend.induct)
  case (1 node)
  then show ?case by (simp add: node_below_self)
next
  case (2 node c cs)
  then obtain sub where sub: "bt_get c (subcommands node) = Some sub" "n \<in> set (node_and_below sub)"
    by (auto split: option.splits)
  then have "(c, sub) \<in> set (subcommands node)" by (intro bt_get_in_set)
  with sub(2) show ?case by (cases node) force
qed

lemma lookup_in_tree:
  assumes "bt_get c tree = Some root" "descend root cs = Done node"
  shows "node \<in> set (tree_nodes tree)"
  using bt_get_in_set [OF assms(1)] descend_below [OF assms(2)] by (force simp: tree_nodes_def)

lemma map_filter_nth_unique:
  "distinct (List.map_filter f xs) \<Longrightarrow> x \<in> set xs \<Longrightarrow> f x = Some c \<Longrightarrow> find (\<lambda>y. f y = Some c) xs = Some x"
  by (induction xs) (auto simp: List.map_filter_simps in_set_map_filter split: option.splits if_splits)

lemma short_flag_name:
  assumes "node_ok node" "x \<in> set (flags node)" "flag_short x = Some c"
  shows "is_short_flag c node" "get_flag_name_by_short c node = Some (flag_name x)"
    "is_flag (flag_name x) node" "str_find CHR ''='' (flag_name x) = None"
  using assms map_filter_nth_unique [of flag_short "flags node" x c]
  by (auto simp: node_ok_def is_short_flag_def get_flag_name_by_short_def is_flag_def list_ex_iff
      list_all_iff str_find_None)

lemma short_option_name:
  assumes "node_ok node" "x \<in> set (options node)" "opt_short x = Some c"
  shows "is_short_option c node" "get_option_name_by_short c node = Some (opt_name x)" "\<not> is_short_flag c node"
proof -
  have c: "c \<in> set (List.map_filter opt_short (options node))"
    using assms(2,3) by (auto simp: in_set_map_filter)
  then have "c \<notin> set (List.map_filter flag_short (flags node))"
    using assms(1) unfolding node_ok_def distinct_append by blast
  then show "\<not> is_short_flag c node"
    by (auto simp: is_short_flag_def list_ex_iff in_set_map_filter)
  show "is_short_option c node" "get_option_name_by_short c node = Some (opt_name x)"
    using assms map_filter_nth_unique [of opt_short "options node" x c]
    by (auto simp: node_ok_def is_short_option_def get_option_name_by_short_def list_ex_iff)
qed

lemma long_option_name:
  assumes "node_ok node" "x \<in> set (options node)"
  shows "is_option (opt_name x) node" "\<not> is_flag (opt_name x) node" "str_find CHR ''='' (opt_name x) = None"
  using assms by (auto simp: node_ok_def is_option_def is_flag_def list_ex_iff list_all_iff str_find_None)

text \<open>
  For every command that the shell registers, with or without the file-system
  feature, every flag that has a short letter means the same written \<^verbatim>\<open>-c\<close> and \<^verbatim>\<open>--name\<close>, and every
  option with a short letter means the same written \<^verbatim>\<open>-c value\<close>, \<^verbatim>\<open>--name value\<close> and \<^verbatim>\<open>--name=value\<close>,
  wherever they stand in the line.
\<close>

theorem registered_spellings_agree:
  assumes "bt_get c (build_command_tree fs) = Some root" "descend root cs = Done node"
  shows "(\<forall>x \<in> set (flags node). \<forall>ch. flag_short x = Some ch \<longrightarrow>
            parse_args_loop node opts fls args ((''-'' @ [ch]) # rest) =
            parse_args_loop node opts fls args ((''--'' @ flag_name x) # rest)) \<and>
         (\<forall>x \<in> set (options node). \<forall>ch. opt_short x = Some ch \<longrightarrow>
            parse_args_loop node opts fls args ((''-'' @ [ch]) # v # rest) =
            parse_args_loop node opts fls args ((''--'' @ opt_name x) # v # rest) \<and>
            parse_args_loop node opts fls args ((''--'' @ opt_name x) # v # rest) =
            parse_args_loop node opts fls args ((''--'' @ opt_name x @ ''='' @ v) # rest))"
proof -
  have ok: "node_ok node"
    using tree_consistent [of fs] lookup_in_tree [OF assms] by (auto simp: list_all_iff)
  have dash: "ch \<noteq> CHR ''-''" if "x \<in> set (flags node) \<and> flag_short x = Some ch \<or>
      y \<in> set (options node) \<and> opt_short y = Some ch" for x y ch
    using ok that by (auto simp: node_ok_def in_set_map_filter)
  have "parse_args_loop node opts fls args ((''-'' @ [ch]) # rest) =
        parse_args_loop node opts fls args ((''--'' @ flag_name x) # rest)"
    if x: "x \<in> set (flags node)" "flag_short x = Some ch" for x ch
    using short_flag_name [OF ok x] dash [of x ch] x by (cases rest) (simp_all add: starts_with_def)
  moreover have "parse_args_loop node opts fls args ((''-'' @ [ch]) # v # rest) =
        parse_args_loop node opts fls args ((''--'' @ opt_name x) # v # rest)"
    if x: "x \<in> set (options node)" "opt_short x = Some ch" for x ch
    using short_option_name [OF ok x] long_option_name [OF ok x(1)] dash [of _ ch x] x
    by (simp add: starts_with_def)
  moreover have "parse_args_loop node opts fls args ((''--'' @ opt_name x) # v # rest) =
        parse_args_loop node opts fls args ((''--'' @ opt_name x @ ''='' @ v) # rest)"
    if x: "x \<in> set (options node)" for x
  proof -
    have "str_find CHR ''='' (opt_name x @ CHR ''='' # v) = Some (length (opt_name x))"
      using long_option_name(3) [OF ok x] by (intro str_find_append) (simp add: str_find_None)
    with long_option_name [OF ok x] show ?thesis by (simp add: Let_def)
  qed
  ultimately show ?thesis by blast
qed

theorem registered_spellings_agree_witness:
  "parse_args_loop vm_stop_cmd [] [] [] [''-f'', ''1''] = parse_args_loop vm_stop_cmd [] [] [] [''--force'', ''1'']"
proof -
  have "bt_get ''vm'' (build_command_tree False) = Some (vm_node False)"
    by (simp add: build_command_tree_def build_vm_cmd_def)
  moreover have "descend (vm_node False) [''stop''] = Done vm_stop_cmd"
    by (simp add: vm_node_def CommandNode_new_def bt_get_def)
  ultimately have "\<forall>x \<in> set (flags vm_stop_cmd). \<forall>ch. flag_short x = Some ch \<longrightarrow>
      parse_args_loop vm_stop_cmd [] [] [] ((''-'' @ [ch]) # [''1'']) =
      parse_args_loop vm_stop_cmd [] [] [] ((''--'' @ flag_name x) # [''1''])"
    by (rule registered_spellings_agree [THEN conjunct1])
  then show ?thesis
    by (simp only: vm_stop_cmd_def with_flag.simps with_usage.simps with_handler.simps CommandNode_new_def
        CommandNode.sel append.simps list.set ball_simps)
      (simp add: flag_with_long_def flag_with_short_def FlagDef_new_def)
qed

end
