(* ===== verification/Shell_Line.thy ===== *)
theory Shell_Line
  imports Shell_Parser
begin

text \<open>
  The interactive line editor: \<^verbatim>\<open>kernel/src/shell/mod.rs\<close> (\<^verbatim>\<open>console_init\<close>) and the command history of
  \<^verbatim>\<open>kernel/src/shell/command/history.rs\<close>. One byte of input is one step on the editor's state; what
  the step prints or runs is a list of events. The edited line is a fixed buffer of 256 bytes with a
  length and a cursor; the specification is a pair of byte lists, before and after the cursor.

  \<^verbatim>\<open>str::from_utf8\<close> and \<^verbatim>\<open>str::as_bytes\<close> are the arguments \<open>from_utf8\<close> and \<open>as_bytes\<close>.
\<close>

section \<open>Command history\<close>

record CommandHistory =
  history :: "string list"
  current_index :: nat
  max_size :: nat

definition CommandHistory_new :: "nat \<Rightarrow> CommandHistory" where
  "CommandHistory_new n = \<lparr>history = [], current_index = 0, max_size = n\<rparr>"

text \<open>\<^verbatim>\<open>Vec::remove(0)\<close> panics on an empty vector.\<close>

definition add_command :: "string \<Rightarrow> CommandHistory \<Rightarrow> CommandHistory outcome" where
  "add_command cmd h =
     (let pushed =
        (if str_trim cmd \<noteq> [] \<and> (history h = [] \<or> last (history h) \<noteq> cmd) then
           (if length (history h) \<ge> max_size h
            then (case history h of
                    [] \<Rightarrow> Panic ''removal index (is 0) should be < len (is 0)''
                  | _ # rest \<Rightarrow> Done (rest @ [cmd]))
            else Done (history h @ [cmd]))
         else Done (history h))
      in case pushed of
           Panic m \<Rightarrow> Panic m
         | Done hs \<Rightarrow> Done (h\<lparr>history := hs, current_index := length hs\<rparr>))"

definition vec_get :: "nat \<Rightarrow> 'a list \<Rightarrow> 'a option" where
  "vec_get i xs = (if i < length xs then Some (xs ! i) else None)"

definition previous :: "CommandHistory \<Rightarrow> string option \<times> CommandHistory" where
  "previous h =
     (if current_index h > 0
      then (let h' = h\<lparr>current_index := current_index h - 1\<rparr>
            in (vec_get (current_index h') (history h'), h'))
      else (None, h))"

definition next_cmd :: "CommandHistory \<Rightarrow> string option \<times> CommandHistory" where
  "next_cmd h =
     (if current_index h < length (history h)
      then (let h' = h\<lparr>current_index := current_index h + 1\<rparr>
            in if current_index h' < length (history h')
               then (vec_get (current_index h') (history h'), h') else (None, h'))
      else (None, h))"

section \<open>The editor\<close>

datatype InputState = Normal | Escape | EscapeSeq

record shell_line =
  buf :: "u8 list"
  cursor :: nat
  line_len :: nat
  input_state :: InputState
  hist :: CommandHistory

text \<open>
  \<open>Submit\<close> runs a line (the decoded string and the raw bytes); \<open>Redraw\<close> is \<^verbatim>\<open>clear_line_and_redraw\<close>
  with the content and the cursor; \<open>MoveCursor\<close> writes a cursor movement.
\<close>

datatype shell_event =
    Submit string "u8 list"
  | PrintNewline
  | PrintPrompt
  | Redraw string nat
  | MoveCursor string

definition MAX_LINE_LEN :: nat where
  "MAX_LINE_LEN = 256"

definition shell_line_new :: shell_line where
  "shell_line_new = \<lparr>buf = replicate MAX_LINE_LEN 0, cursor = 0, line_len = 0, input_state = Normal,
     hist = CommandHistory_new 100\<rparr>"

definition fill_zero :: "nat \<Rightarrow> u8 list \<Rightarrow> u8 list" where
  "fill_zero n b = replicate n 0 @ drop n b"

text \<open>The two copying loops of the editor.\<close>

definition shift_left :: "nat \<Rightarrow> nat \<Rightarrow> u8 list \<Rightarrow> u8 list" where
  "shift_left c n b = fold (\<lambda>i b. b[i - 1 := b ! i]) [c..<n] b"

definition shift_right :: "nat \<Rightarrow> nat \<Rightarrow> u8 list \<Rightarrow> u8 list" where
  "shift_right c n b = fold (\<lambda>i b. b[i + 1 := b ! i]) (rev [c..<n]) b"

definition decode_line :: "(u8 list \<Rightarrow> string option) \<Rightarrow> shell_line \<Rightarrow> string" where
  "decode_line from_utf8 st = (case from_utf8 (take (line_len st) (buf st)) of Some s \<Rightarrow> s | None \<Rightarrow> [])"

definition enter_key ::
    "(u8 list \<Rightarrow> string option) \<Rightarrow> shell_line \<Rightarrow> (shell_line \<times> shell_event list) outcome" where
  "enter_key from_utf8 st =
     (if line_len st > 0 then
        (let cmd = decode_line from_utf8 st
         in case add_command cmd (hist st) of
              Panic m \<Rightarrow> Panic m
            | Done h \<Rightarrow>
                Done (st\<lparr>hist := h, buf := fill_zero (line_len st) (buf st), cursor := 0, line_len := 0\<rparr>,
                      [PrintNewline, Submit cmd (take (line_len st) (buf st)), PrintPrompt]))
      else Done (st, [PrintNewline, PrintPrompt]))"

definition backspace_key ::
    "(u8 list \<Rightarrow> string option) \<Rightarrow> shell_line \<Rightarrow> shell_line \<times> shell_event list" where
  "backspace_key from_utf8 st =
     (if cursor st > 0 then
        (let b = shift_left (cursor st) (line_len st) (buf st);
             n = line_len st - 1;
             st' = st\<lparr>buf := (if n < length b then b[n := 0] else b), cursor := cursor st - 1, line_len := n\<rparr>
         in (st', [Redraw (decode_line from_utf8 st') (cursor st')]))
      else (st, []))"

definition insert_key ::
    "(u8 list \<Rightarrow> string option) \<Rightarrow> u8 \<Rightarrow> shell_line \<Rightarrow> shell_line \<times> shell_event list" where
  "insert_key from_utf8 c st =
     (if line_len st < MAX_LINE_LEN - 1 then
        (let b = shift_right (cursor st) (line_len st) (buf st);
             st' = st\<lparr>buf := b[cursor st := c], cursor := cursor st + 1, line_len := line_len st + 1\<rparr>
         in (st', [Redraw (decode_line from_utf8 st') (cursor st')]))
      else (st, []))"

definition load_line :: "(string \<Rightarrow> u8 list) \<Rightarrow> string \<Rightarrow> shell_line \<Rightarrow> shell_line" where
  "load_line as_bytes cmd st =
     (let b = fill_zero (line_len st) (buf st);
          bytes = as_bytes cmd;
          n = min (length bytes) (MAX_LINE_LEN - 1)
      in st\<lparr>buf := take n bytes @ drop n b, cursor := n, line_len := n\<rparr>)"

definition up_key :: "(string \<Rightarrow> u8 list) \<Rightarrow> shell_line \<Rightarrow> shell_line \<times> shell_event list" where
  "up_key as_bytes st =
     (case previous (hist st) of
        (Some cmd, h) \<Rightarrow>
          (let st' = load_line as_bytes cmd (st\<lparr>hist := h\<rparr>) in (st', [Redraw cmd (cursor st')]))
      | (None, h) \<Rightarrow> (st\<lparr>hist := h\<rparr>, []))"

definition down_key :: "(string \<Rightarrow> u8 list) \<Rightarrow> shell_line \<Rightarrow> shell_line \<times> shell_event list" where
  "down_key as_bytes st =
     (case next_cmd (hist st) of
        (Some cmd, h) \<Rightarrow>
          (let st' = load_line as_bytes cmd (st\<lparr>hist := h\<rparr>) in (st', [Redraw cmd (cursor st')]))
      | (None, h) \<Rightarrow>
          (st\<lparr>hist := h, buf := fill_zero (line_len st) (buf st), cursor := 0, line_len := 0\<rparr>, [Redraw [] 0]))"

definition CR :: u8 where "CR = 13"
definition LF :: u8 where "LF = 10"
definition DL :: u8 where "DL = 0x7F"
definition BS :: u8 where "BS = 8"
definition ESC :: u8 where "ESC = 0x1B"

definition normal_key ::
    "(u8 list \<Rightarrow> string option) \<Rightarrow> u8 \<Rightarrow> shell_line \<Rightarrow> (shell_line \<times> shell_event list) outcome" where
  "normal_key from_utf8 ch st =
     (if ch = CR \<or> ch = LF then enter_key from_utf8 st
      else if ch = BS \<or> ch = DL then Done (backspace_key from_utf8 st)
      else if ch = ESC then Done (st\<lparr>input_state := Escape\<rparr>, [])
      else if ch \<le> 31 then Done (st, [])
      else Done (insert_key from_utf8 ch st))"

definition escape_seq_key ::
    "(string \<Rightarrow> u8 list) \<Rightarrow> u8 \<Rightarrow> shell_line \<Rightarrow> shell_line \<times> shell_event list" where
  "escape_seq_key as_bytes ch st =
     (let st0 = st\<lparr>input_state := Normal\<rparr>
      in if ch = 0x41 then up_key as_bytes st0
         else if ch = 0x42 then down_key as_bytes st0
         else if ch = 0x43 then
           (if cursor st < line_len st
            then (st0\<lparr>cursor := cursor st + 1\<rparr>, [MoveCursor (CHR 0x1B # ''[C'')]) else (st0, []))
         else if ch = 0x44 then
           (if cursor st > 0
            then (st0\<lparr>cursor := cursor st - 1\<rparr>, [MoveCursor (CHR 0x1B # ''[D'')]) else (st0, []))
         else (st0, []))"

definition console_key ::
    "(u8 list \<Rightarrow> string option) \<Rightarrow> (string \<Rightarrow> u8 list) \<Rightarrow> u8 \<Rightarrow> shell_line \<Rightarrow>
     (shell_line \<times> shell_event list) outcome" where
  "console_key from_utf8 as_bytes ch st =
     (case input_state st of
        Normal \<Rightarrow> normal_key from_utf8 ch st
      | Escape \<Rightarrow> Done (st\<lparr>input_state := (if ch = 0x5B then EscapeSeq else Normal)\<rparr>, [])
      | EscapeSeq \<Rightarrow> Done (escape_seq_key as_bytes ch st))"

text \<open>The loop of \<^verbatim>\<open>console_init\<close>, over the bytes that were read.\<close>

fun console_run ::
    "(u8 list \<Rightarrow> string option) \<Rightarrow> (string \<Rightarrow> u8 list) \<Rightarrow> u8 list \<Rightarrow> shell_line \<Rightarrow>
     (shell_line \<times> shell_event list) outcome" where
  "console_run from_utf8 as_bytes [] st = Done (st, [])"
| "console_run from_utf8 as_bytes (ch # chs) st =
     (case console_key from_utf8 as_bytes ch st of
        Panic m \<Rightarrow> Panic m
      | Done (st', evs) \<Rightarrow>
          (case console_run from_utf8 as_bytes chs st' of
             Panic m \<Rightarrow> Panic m
           | Done (st'', evs') \<Rightarrow> Done (st'', evs @ evs')))"

text \<open>\<^verbatim>\<open>clear_line_and_redraw\<close>: what is written to the terminal.\<close>

definition clear_line_and_redraw :: "string \<Rightarrow> string \<Rightarrow> nat \<Rightarrow> string" where
  "clear_line_and_redraw prompt content pos =
     [char_of (13 :: nat), CHR 0x1B] @ ''[2K'' @ prompt @ content @
     (if pos < length content then CHR 0x1B # ''['' @ show_nat (length content - pos) @ ''D'' else [])"

section \<open>Specification: a line with a cursor\<close>

record line_spec =
  before :: "u8 list"
  after :: "u8 list"
  spec_input :: InputState
  spec_hist :: CommandHistory

definition spec_new :: line_spec where
  "spec_new = \<lparr>before = [], after = [], spec_input = Normal, spec_hist = CommandHistory_new 100\<rparr>"

definition spec_text :: "(u8 list \<Rightarrow> string option) \<Rightarrow> line_spec \<Rightarrow> string" where
  "spec_text from_utf8 s = (case from_utf8 (before s @ after s) of Some t \<Rightarrow> t | None \<Rightarrow> [])"

definition spec_load :: "u8 list \<Rightarrow> line_spec \<Rightarrow> line_spec" where
  "spec_load bytes s = s\<lparr>before := take 255 bytes, after := []\<rparr>"

definition spec_normal ::
    "(u8 list \<Rightarrow> string option) \<Rightarrow> u8 \<Rightarrow> line_spec \<Rightarrow> (line_spec \<times> shell_event list) outcome" where
  "spec_normal from_utf8 ch s =
     (if ch = CR \<or> ch = LF then
        (if before s @ after s = [] then Done (s, [PrintNewline, PrintPrompt])
         else case add_command (spec_text from_utf8 s) (spec_hist s) of
                Panic m \<Rightarrow> Panic m
              | Done h \<Rightarrow> Done (s\<lparr>before := [], after := [], spec_hist := h\<rparr>,
                  [PrintNewline, Submit (spec_text from_utf8 s) (before s @ after s), PrintPrompt]))
      else if ch = BS \<or> ch = DL then
        (if before s = [] then Done (s, [])
         else (let s' = s\<lparr>before := butlast (before s)\<rparr>
               in Done (s', [Redraw (spec_text from_utf8 s') (length (before s'))])))
      else if ch = ESC then Done (s\<lparr>spec_input := Escape\<rparr>, [])
      else if ch \<le> 31 \<or> length (before s @ after s) \<ge> 255 then Done (s, [])
      else (let s' = s\<lparr>before := before s @ [ch]\<rparr>
            in Done (s', [Redraw (spec_text from_utf8 s') (length (before s'))])))"

definition spec_escape_seq ::
    "(string \<Rightarrow> u8 list) \<Rightarrow> u8 \<Rightarrow> line_spec \<Rightarrow> line_spec \<times> shell_event list" where
  "spec_escape_seq as_bytes ch s =
     (let s0 = s\<lparr>spec_input := Normal\<rparr>
      in if ch = 0x41 then
           (case previous (spec_hist s) of
              (Some cmd, h) \<Rightarrow> (spec_load (as_bytes cmd) (s0\<lparr>spec_hist := h\<rparr>),
                                [Redraw cmd (min (length (as_bytes cmd)) 255)])
            | (None, h) \<Rightarrow> (s0\<lparr>spec_hist := h\<rparr>, []))
         else if ch = 0x42 then
           (case next_cmd (spec_hist s) of
              (Some cmd, h) \<Rightarrow> (spec_load (as_bytes cmd) (s0\<lparr>spec_hist := h\<rparr>),
                                [Redraw cmd (min (length (as_bytes cmd)) 255)])
            | (None, h) \<Rightarrow> (s0\<lparr>spec_hist := h, before := [], after := []\<rparr>, [Redraw [] 0]))
         else if ch = 0x43 then
           (case after s of
              [] \<Rightarrow> (s0, [])
            | c # cs \<Rightarrow> (s0\<lparr>before := before s @ [c], after := cs\<rparr>, [MoveCursor (CHR 0x1B # ''[C'')]))
         else if ch = 0x44 then
           (if before s = [] then (s0, [])
            else (s0\<lparr>before := butlast (before s), after := last (before s) # after s\<rparr>,
                  [MoveCursor (CHR 0x1B # ''[D'')]))
         else (s0, []))"

definition spec_key ::
    "(u8 list \<Rightarrow> string option) \<Rightarrow> (string \<Rightarrow> u8 list) \<Rightarrow> u8 \<Rightarrow> line_spec \<Rightarrow>
     (line_spec \<times> shell_event list) outcome" where
  "spec_key from_utf8 as_bytes ch s =
     (case spec_input s of
        Normal \<Rightarrow> spec_normal from_utf8 ch s
      | Escape \<Rightarrow> Done (s\<lparr>spec_input := (if ch = 0x5B then EscapeSeq else Normal)\<rparr>, [])
      | EscapeSeq \<Rightarrow> Done (spec_escape_seq as_bytes ch s))"

fun spec_run ::
    "(u8 list \<Rightarrow> string option) \<Rightarrow> (string \<Rightarrow> u8 list) \<Rightarrow> u8 list \<Rightarrow> line_spec \<Rightarrow>
     (line_spec \<times> shell_event list) outcome" where
  "spec_run from_utf8 as_bytes [] s = Done (s, [])"
| "spec_run from_utf8 as_bytes (ch # chs) s =
     (case spec_key from_utf8 as_bytes ch s of
        Panic m \<Rightarrow> Panic m
      | Done (s', evs) \<Rightarrow>
          (case spec_run from_utf8 as_bytes chs s' of
             Panic m \<Rightarrow> Panic m
           | Done (s'', evs') \<Rightarrow> Done (s'', evs @ evs')))"

section \<open>The buffer implements the line\<close>

definition line_abs :: "shell_line \<Rightarrow> line_spec" where
  "line_abs st = \<lparr>before = take (cursor st) (buf st),
     after = drop (cursor st) (take (line_len st) (buf st)),
     spec_input = input_state st, spec_hist = hist st\<rparr>"

definition hist_inv :: "CommandHistory \<Rightarrow> bool" where
  "hist_inv h = (0 < max_size h \<and> length (history h) \<le> max_size h \<and> current_index h \<le> length (history h))"

definition line_inv :: "shell_line \<Rightarrow> bool" where
  "line_inv st = (length (buf st) = 256 \<and> cursor st \<le> line_len st \<and> line_len st \<le> 255 \<and> hist_inv (hist st))"

lemma shift_left_nth:
  "c \<le> n \<Longrightarrow> 0 < c \<Longrightarrow> n \<le> length b \<Longrightarrow>
   length (shift_left c n b) = length b \<and>
   (\<forall>i < length b. shift_left c n b ! i = (if c - 1 \<le> i \<and> i < n - 1 then b ! (i + 1) else b ! i))"
proof (induction n rule: dec_induct)
  case base
  then show ?case by (auto simp: shift_left_def)
next
  case (step n)
  have "shift_left c (Suc n) b = (shift_left c n b)[n - 1 := shift_left c n b ! n]"
    using step.hyps by (simp add: shift_left_def)
  with step show ?case by (auto simp: nth_list_update)
qed

lemma shift_right_nth:
  "c \<le> n \<Longrightarrow> n < length b \<Longrightarrow>
   length (shift_right c n b) = length b \<and>
   (\<forall>i < length b. shift_right c n b ! i = (if c < i \<and> i \<le> n then b ! (i - 1) else b ! i))"
proof (induction n arbitrary: b rule: dec_induct)
  case base
  then show ?case by (auto simp: shift_right_def)
next
  case (step n)
  have "shift_right c (Suc n) b = shift_right c n (b[n + 1 := b ! n])"
    using step.hyps by (simp add: shift_right_def)
  with step show ?case by (auto simp: nth_list_update le_Suc_eq)
qed

lemma shift_left_take:
  assumes "0 < c" "c \<le> n" "n \<le> length b"
  shows "take (n - 1) (shift_left c n b) = take (c - 1) b @ drop c (take n b)"
    and "length (shift_left c n b) = length b"
proof -
  note sl = shift_left_nth [OF assms(2,1,3)]
  then show len: "length (shift_left c n b) = length b" by simp
  show "take (n - 1) (shift_left c n b) = take (c - 1) b @ drop c (take n b)"
  proof (rule nth_equalityI)
    fix i assume "i < length (take (n - 1) (shift_left c n b))"
    then have i: "i < n - 1" "i < length b" using len by auto
    then show "take (n - 1) (shift_left c n b) ! i = (take (c - 1) b @ drop c (take n b)) ! i"
      using sl assms by (cases "i < c - 1") (auto simp: nth_append)
  qed (use assms len in auto)
qed

lemma shift_right_take:
  assumes "c \<le> n" "n < length b"
  shows "take (n + 1) ((shift_right c n b)[c := x]) = take c b @ x # drop c (take n b)"
    and "length (shift_right c n b) = length b"
proof -
  note sr = shift_right_nth [OF assms]
  then show len: "length (shift_right c n b) = length b" by simp
  show "take (n + 1) ((shift_right c n b)[c := x]) = take c b @ x # drop c (take n b)"
  proof (rule nth_equalityI)
    fix i assume "i < length (take (n + 1) ((shift_right c n b)[c := x]))"
    then have i: "i < n + 1" "i < length b" using len by auto
    consider "i < c" | "i = c" | "c < i" by linarith
    then show "take (n + 1) ((shift_right c n b)[c := x]) ! i = (take c b @ x # drop c (take n b)) ! i"
      using sr assms i len by cases (auto simp: nth_append nth_Cons')
  qed (use assms len in auto)
qed

lemma insert_key_abs:
  assumes "line_inv st" "line_len st < 255"
  shows "line_abs (fst (insert_key f ch st)) = (line_abs st)\<lparr>before := before (line_abs st) @ [ch]\<rparr>"
    "line_inv (fst (insert_key f ch st))"
    "snd (insert_key f ch st) = [Redraw (spec_text f ((line_abs st)\<lparr>before := before (line_abs st) @ [ch]\<rparr>)) (cursor st + 1)]"
proof -
  let ?b = "(shift_right (cursor st) (line_len st) (buf st))[cursor st := ch]"
  have c: "cursor st \<le> line_len st" "line_len st < length (buf st)"
    using assms by (auto simp: line_inv_def)
  note sh = shift_right_take(1) [OF c, of ch] shift_right_take(2) [OF c]
  have "take (cursor st + 1) ?b = take (cursor st + 1) (take (line_len st + 1) ?b)"
    using c by simp
  also have "\<dots> = take (cursor st) (buf st) @ [ch]"
    unfolding sh(1) using c by simp
  finally have bef: "take (cursor st + 1) ?b = take (cursor st) (buf st) @ [ch]" .
  have aft: "drop (cursor st + 1) (take (line_len st + 1) ?b) = drop (cursor st) (take (line_len st) (buf st))"
    unfolding sh(1) using c by simp
  show "line_abs (fst (insert_key f ch st)) = (line_abs st)\<lparr>before := before (line_abs st) @ [ch]\<rparr>"
    using assms(2) bef aft by (simp add: insert_key_def Let_def MAX_LINE_LEN_def line_abs_def)
  show "line_inv (fst (insert_key f ch st))"
    using assms sh(2) by (simp add: insert_key_def Let_def MAX_LINE_LEN_def line_inv_def)
  show "snd (insert_key f ch st) = [Redraw (spec_text f ((line_abs st)\<lparr>before := before (line_abs st) @ [ch]\<rparr>)) (cursor st + 1)]"
    using assms(2) sh(1) by (simp add: insert_key_def Let_def MAX_LINE_LEN_def decode_line_def spec_text_def line_abs_def)
qed

lemma backspace_key_abs:
  assumes "line_inv st" "0 < cursor st"
  shows "line_abs (fst (backspace_key f st)) = (line_abs st)\<lparr>before := butlast (before (line_abs st))\<rparr>"
    "line_inv (fst (backspace_key f st))"
    "snd (backspace_key f st) = [Redraw (spec_text f ((line_abs st)\<lparr>before := butlast (before (line_abs st))\<rparr>)) (cursor st - 1)]"
proof -
  let ?c = "cursor st" and ?n = "line_len st"
  let ?s = "shift_left ?c ?n (buf st)"
  have c: "?c \<le> ?n" "?n \<le> length (buf st)" "?n - 1 < length (buf st)"
    using assms by (auto simp: line_inv_def)
  note sh = shift_left_take [OF assms(2) c(1,2)]
  have upd: "take (?n - 1) (?s[?n - 1 := 0]) = take (?c - 1) (buf st) @ drop ?c (take ?n (buf st))"
    using sh(1) by simp
  have bl: "butlast (take ?c (buf st)) = take (?c - 1) (buf st)"
    using c by (intro butlast_take) simp
  have "take (?c - 1) (?s[?n - 1 := 0]) = take (?c - 1) (take (?n - 1) (?s[?n - 1 := 0]))"
    using c by simp
  also have "\<dots> = take (?c - 1) (buf st)" unfolding upd using c by simp
  finally have bef: "take (?c - 1) (?s[?n - 1 := 0]) = take (?c - 1) (buf st)" .
  have aft: "drop (?c - 1) (take (?n - 1) (?s[?n - 1 := 0])) = drop ?c (take ?n (buf st))"
    unfolding upd using c by simp
  show "line_abs (fst (backspace_key f st)) = (line_abs st)\<lparr>before := butlast (before (line_abs st))\<rparr>"
    using assms(2) bef aft bl sh(2) c(3) by (simp add: backspace_key_def Let_def line_abs_def)
  show "line_inv (fst (backspace_key f st))"
    using assms sh(2) c by (auto simp: backspace_key_def Let_def line_inv_def)
  show "snd (backspace_key f st) = [Redraw (spec_text f ((line_abs st)\<lparr>before := butlast (before (line_abs st))\<rparr>)) (cursor st - 1)]"
    using assms(2) upd bl sh(2) c(3)
    by (simp add: backspace_key_def Let_def decode_line_def spec_text_def line_abs_def)
qed

lemma load_line_abs:
  assumes "line_inv st"
  shows "line_abs (load_line g cmd st) = spec_load (g cmd) (line_abs st)" "line_inv (load_line g cmd st)"
    "cursor (load_line g cmd st) = min (length (g cmd)) 255"
  using assms
  by (auto simp: load_line_def Let_def line_abs_def spec_load_def line_inv_def fill_zero_def MAX_LINE_LEN_def min_def)

lemma hist_inv_previous: "hist_inv h \<Longrightarrow> hist_inv (snd (previous h))"
  by (auto simp: previous_def Let_def hist_inv_def)

lemma hist_inv_next: "hist_inv h \<Longrightarrow> hist_inv (snd (next_cmd h))"
  by (auto simp: next_cmd_def Let_def hist_inv_def)

lemma add_command_ok:
  assumes "hist_inv h"
  shows "\<exists>h'. add_command cmd h = Done h' \<and> hist_inv h'"
  using assms by (cases "history h") (auto simp: add_command_def Let_def hist_inv_def)

text \<open>One key, in the implementation and in the specification.\<close>

definition abs_result :: "(shell_line \<times> shell_event list) outcome \<Rightarrow> (line_spec \<times> shell_event list) outcome" where
  "abs_result r = (case r of Done (st, evs) \<Rightarrow> Done (line_abs st, evs) | Panic m \<Rightarrow> Panic m)"

definition ok_result :: "(shell_line \<times> shell_event list) outcome \<Rightarrow> bool" where
  "ok_result r = (case r of Done (st, evs) \<Rightarrow> line_inv st | Panic m \<Rightarrow> False)"

lemma abs_lengths:
  "line_inv st \<Longrightarrow> before (line_abs st) @ after (line_abs st) = take (line_len st) (buf st)"
  "line_inv st \<Longrightarrow> length (before (line_abs st)) = cursor st"
  "line_inv st \<Longrightarrow> length (before (line_abs st) @ after (line_abs st)) = line_len st"
proof -
  assume inv: "line_inv st"
  have "take (cursor st) (buf st) = take (cursor st) (take (line_len st) (buf st))"
    using inv by (simp add: line_inv_def)
  then show "before (line_abs st) @ after (line_abs st) = take (line_len st) (buf st)"
    by (simp add: line_abs_def del: take_take)
  then show "length (before (line_abs st) @ after (line_abs st)) = line_len st"
    using inv by (simp add: line_inv_def)
  show "length (before (line_abs st)) = cursor st"
    using inv by (simp add: line_abs_def line_inv_def)
qed

lemma enter_key_refines:
  assumes "line_inv st" "ch = CR \<or> ch = LF"
  shows "abs_result (enter_key f st) = spec_normal f ch (line_abs st) \<and> ok_result (enter_key f st)"
proof (cases "line_len st = 0")
  case True
  then have "before (line_abs st) @ after (line_abs st) = []"
    using abs_lengths(1) [OF assms(1)] by simp
  with True assms show ?thesis
    by (auto simp: enter_key_def spec_normal_def abs_result_def ok_result_def)
next
  case False
  have ne: "before (line_abs st) @ after (line_abs st) \<noteq> []"
    using abs_lengths(3) [OF assms(1)] False by fastforce
  have dl: "spec_text f (line_abs st) = decode_line f st"
    using abs_lengths(1) [OF assms(1)] by (simp add: spec_text_def decode_line_def)
  obtain h where h: "add_command (decode_line f st) (hist st) = Done h" "hist_inv h"
    using add_command_ok assms(1) by (auto simp: line_inv_def)
  have hs: "spec_hist (line_abs st) = hist st" by (simp add: line_abs_def)
  show ?thesis
    using False assms ne dl h hs abs_lengths(1) [OF assms(1)]
    by (auto simp: enter_key_def spec_normal_def abs_result_def ok_result_def Let_def)
      (auto simp: line_abs_def line_inv_def fill_zero_def)
qed

lemma normal_key_refines:
  assumes "line_inv st"
  shows "abs_result (normal_key f ch st) = spec_normal f ch (line_abs st) \<and> ok_result (normal_key f ch st)"
proof -
  consider (enter) "ch = CR \<or> ch = LF" | (bs) "ch = BS \<or> ch = DL" | (esc) "ch = ESC"
    | (other) "ch \<notin> {CR, LF, BS, DL, ESC}" by blast
  then show ?thesis
  proof cases
    case enter
    then show ?thesis using enter_key_refines [OF assms enter] by (auto simp: normal_key_def)
  next
    case bs
    have neq: "BS \<noteq> CR" "BS \<noteq> LF" "DL \<noteq> CR" "DL \<noteq> LF"
      by (simp_all add: BS_def CR_def LF_def DL_def)
    show ?thesis
    proof (cases "0 < cursor st")
      case True
      then have "before (line_abs st) \<noteq> []" using abs_lengths(2) [OF assms] by fastforce
      then show ?thesis
        using bs neq True backspace_key_abs [OF assms True, of f] abs_lengths(2) [OF assms]
        by (cases "backspace_key f st") (auto simp: normal_key_def spec_normal_def abs_result_def ok_result_def Let_def)
    next
      case False
      then have "before (line_abs st) = []" using abs_lengths(2) [OF assms] by simp
      then show ?thesis
        using bs neq False assms
        by (auto simp: normal_key_def spec_normal_def abs_result_def ok_result_def backspace_key_def)
    qed
  next
    case esc
    have "ESC \<notin> {CR, LF, BS, DL}" by (simp add: BS_def CR_def LF_def DL_def ESC_def)
    with esc assms show ?thesis
      by (auto simp: normal_key_def spec_normal_def abs_result_def ok_result_def line_abs_def line_inv_def)
  next
    case other
    have len: "length (before (line_abs st) @ after (line_abs st)) = line_len st"
      by (rule abs_lengths(3) [OF assms])
    show ?thesis
    proof (cases "ch \<le> 31 \<or> line_len st \<ge> 255")
      case True
      with other assms len show ?thesis
        by (auto simp: normal_key_def spec_normal_def abs_result_def ok_result_def insert_key_def MAX_LINE_LEN_def)
    next
      case False
      then have "line_len st < 255" by simp
      with False other len insert_key_abs [OF assms, of f ch] abs_lengths(2) [OF assms] show ?thesis
        by (cases "insert_key f ch st") (auto simp: normal_key_def spec_normal_def abs_result_def ok_result_def Let_def)
    qed
  qed
qed

lemma line_inv_update:
  "line_inv st \<Longrightarrow> hist_inv h \<Longrightarrow> line_inv (st\<lparr>input_state := i, hist := h\<rparr>)"
  "line_inv st \<Longrightarrow> line_inv (st\<lparr>input_state := i\<rparr>)"
  by (simp_all add: line_inv_def)

lemma line_abs_update:
  "line_abs (st\<lparr>input_state := i, hist := h\<rparr>) = (line_abs st)\<lparr>spec_input := i, spec_hist := h\<rparr>"
  "line_abs (st\<lparr>input_state := i\<rparr>) = (line_abs st)\<lparr>spec_input := i\<rparr>"
  by (simp_all add: line_abs_def)

lemma escape_seq_refines:
  assumes "line_inv st"
  shows "abs_result (Done (escape_seq_key g ch st)) = Done (spec_escape_seq g ch (line_abs st)) \<and>
         ok_result (Done (escape_seq_key g ch st))"
proof -
  have hi: "hist_inv (hist st)" and hs: "spec_hist (line_abs st) = hist st"
    using assms by (simp_all add: line_inv_def line_abs_def)
  consider (up) "ch = 0x41" | (down) "ch = 0x42" | (right) "ch = 0x43" | (left) "ch = 0x44"
    | (other) "ch \<notin> {0x41, 0x42, 0x43, 0x44}" by blast
  then show ?thesis
  proof cases
    case up
    obtain r h where p: "previous (hist st) = (r, h)" by force
    let ?st = "st\<lparr>input_state := Normal, hist := h\<rparr>"
    have inv: "line_inv ?st" using hist_inv_previous [OF hi] p by (intro line_inv_update assms) simp
    show ?thesis
      using up p inv hs load_line_abs [OF inv]
      by (cases r) (auto simp: escape_seq_key_def spec_escape_seq_def up_key_def Let_def abs_result_def
          ok_result_def line_abs_update)
  next
    case down
    obtain r h where p: "next_cmd (hist st) = (r, h)" by force
    let ?st = "st\<lparr>input_state := Normal, hist := h\<rparr>"
    have inv: "line_inv ?st" using hist_inv_next [OF hi] p by (intro line_inv_update assms) simp
    show ?thesis
    proof (cases r)
      case None
      then show ?thesis
        using down p inv hs
        by (auto simp: escape_seq_key_def spec_escape_seq_def down_key_def Let_def abs_result_def
            ok_result_def line_abs_def line_inv_def fill_zero_def)
    next
      case (Some cmd)
      then show ?thesis
        using down p inv hs load_line_abs [OF inv]
        by (auto simp: escape_seq_key_def spec_escape_seq_def down_key_def Let_def abs_result_def
            ok_result_def line_abs_update)
    qed
  next
    case right
    have c: "cursor st \<le> line_len st" "line_len st \<le> length (buf st)" using assms by (auto simp: line_inv_def)
    show ?thesis
    proof (cases "cursor st < line_len st")
      case True
      have "drop (cursor st) (take (line_len st) (buf st)) =
          buf st ! cursor st # drop (Suc (cursor st)) (take (line_len st) (buf st))"
        using True c by (simp add: Cons_nth_drop_Suc [symmetric])
      then show ?thesis
        using right True assms c
        by (auto simp: escape_seq_key_def spec_escape_seq_def Let_def abs_result_def ok_result_def
            line_abs_def line_inv_def take_Suc_conv_app_nth)
    next
      case False
      then show ?thesis
        using right assms c
        by (auto simp: escape_seq_key_def spec_escape_seq_def Let_def abs_result_def ok_result_def
            line_abs_def line_inv_def)
    qed
  next
    case left
    have c: "cursor st \<le> line_len st" "line_len st \<le> length (buf st)" using assms by (auto simp: line_inv_def)
    show ?thesis
    proof (cases "cursor st")
      case 0
      then show ?thesis
        using left assms
        by (auto simp: escape_seq_key_def spec_escape_seq_def Let_def abs_result_def ok_result_def
            line_abs_def line_inv_def)
    next
      case (Suc k)
      have "take (Suc k) (buf st) = take k (buf st) @ [buf st ! k]"
        "drop k (take (line_len st) (buf st)) = buf st ! k # drop (Suc k) (take (line_len st) (buf st))"
        using Suc c by (simp_all add: take_Suc_conv_app_nth Cons_nth_drop_Suc [symmetric])
      then show ?thesis
        using left Suc assms
        by (auto simp: escape_seq_key_def spec_escape_seq_def Let_def abs_result_def ok_result_def
            line_abs_def line_inv_def)
    qed
  next
    case other
    then show ?thesis
      using assms by (auto simp: escape_seq_key_def spec_escape_seq_def Let_def abs_result_def ok_result_def
          line_abs_update line_inv_update)
  qed
qed

lemma console_key_refines:
  assumes "line_inv st"
  shows "abs_result (console_key f g ch st) = spec_key f g ch (line_abs st)" "ok_result (console_key f g ch st)"
proof -
  have "spec_input (line_abs st) = input_state st" by (simp add: line_abs_def)
  then have "abs_result (console_key f g ch st) = spec_key f g ch (line_abs st) \<and> ok_result (console_key f g ch st)"
    using normal_key_refines [OF assms, of f ch] escape_seq_refines [OF assms, of g ch] assms
    by (cases "input_state st")
      (auto simp: console_key_def spec_key_def abs_result_def ok_result_def line_abs_update line_inv_update)
  then show "abs_result (console_key f g ch st) = spec_key f g ch (line_abs st)" "ok_result (console_key f g ch st)"
    by simp_all
qed

lemma console_run_refines:
  "line_inv st \<Longrightarrow> abs_result (console_run f g chs st) = spec_run f g chs (line_abs st) \<and>
     ok_result (console_run f g chs st)"
proof (induction chs arbitrary: st)
  case Nil
  then show ?case by (simp add: abs_result_def ok_result_def)
next
  case (Cons ch chs)
  obtain st' evs where k: "console_key f g ch st = Done (st', evs)" "line_inv st'"
    using console_key_refines(2) [OF Cons.prems, of f g ch]
    by (auto simp: ok_result_def split: outcome.splits)
  have sk: "spec_key f g ch (line_abs st) = Done (line_abs st', evs)"
    using console_key_refines(1) [OF Cons.prems, of f g ch] k by (simp add: abs_result_def)
  obtain st'' evs' where r: "console_run f g chs st' = Done (st'', evs')"
    using Cons.IH [OF k(2)] by (auto simp: ok_result_def split: outcome.splits)
  have "spec_run f g chs (line_abs st') = Done (line_abs st'', evs')" "line_inv st''"
    using Cons.IH [OF k(2)] r by (simp_all add: abs_result_def ok_result_def)
  then show ?case
    using k(1) sk r by (simp add: abs_result_def ok_result_def)
qed

lemma line_new: "line_inv shell_line_new" "line_abs shell_line_new = spec_new"
  by (simp_all add: shell_line_new_def line_inv_def hist_inv_def CommandHistory_new_def MAX_LINE_LEN_def
      line_abs_def spec_new_def)

text \<open>
  \<^bold>\<open>C32\<close> (refinement). Whatever bytes are typed, the editor's fixed buffer with its copying loops behaves
  exactly as a line with a cursor: the same lines are submitted, the same redraws happen at the same
  cursor positions, typing stops at 255 bytes, and the editor never panics (every index into the
  buffer and into the history is in range).
\<close>

theorem console_refines_line_spec:
  "\<exists>st evs. console_run from_utf8 as_bytes chs shell_line_new = Done (st, evs) \<and>
     spec_run from_utf8 as_bytes chs spec_new = Done (line_abs st, evs) \<and>
     length (buf st) = 256 \<and> cursor st \<le> line_len st \<and> line_len st \<le> 255"
proof -
  have "abs_result (console_run from_utf8 as_bytes chs shell_line_new) = spec_run from_utf8 as_bytes chs spec_new \<and>
      ok_result (console_run from_utf8 as_bytes chs shell_line_new)"
    using console_run_refines [OF line_new(1), of from_utf8 as_bytes chs] line_new(2) by simp
  then show ?thesis
    by (cases "console_run from_utf8 as_bytes chs shell_line_new")
      (auto simp: abs_result_def ok_result_def line_inv_def)
qed

section \<open>Walking through the history\<close>

lemma previous_iter:
  "k \<le> current_index h \<Longrightarrow> current_index h \<le> length (history h) \<Longrightarrow>
   ((snd \<circ> previous) ^^ k) h = h\<lparr>current_index := current_index h - k\<rparr>"
  by (induction k) (auto simp: previous_def Let_def)

lemma add_command_Done:
  assumes "add_command cmd h = Done h'"
  shows "current_index h' = length (history h')" "max_size h' = max_size h"
    "str_trim cmd \<noteq> [] \<Longrightarrow> history h' \<noteq> [] \<and> last (history h') = cmd"
    "length (history h) \<le> max_size h \<Longrightarrow> length (history h') \<le> max_size h"
  using assms by (auto simp: add_command_def Let_def split: if_splits list.splits)

text \<open>
  After a command has been entered, pressing \<^verbatim>\<open>UP\<close> \<open>k\<close> times recalls the \<open>k\<close>-th most
  recent entry, the command just entered first; one \<^verbatim>\<open>DOWN\<close> then recalls the entry after it, or
  clears the line when there is none. The history never holds more than its maximum.
\<close>

theorem history_recall:
  assumes "add_command cmd h = Done h'" "str_trim cmd \<noteq> []" "length (history h) \<le> max_size h"
    and "1 \<le> k" "k \<le> length (history h')"
  shows "fst (previous (((snd \<circ> previous) ^^ (k - 1)) h')) = Some (history h' ! (length (history h') - k)) \<and>
         fst (next_cmd (((snd \<circ> previous) ^^ k) h')) =
           (if k = 1 then None else Some (history h' ! (length (history h') - (k - 1)))) \<and>
         history h' ! (length (history h') - 1) = cmd \<and> length (history h') \<le> max_size h'"
proof -
  note add = add_command_Done [OF assms(1)]
  have it: "((snd \<circ> previous) ^^ j) h' = h'\<lparr>current_index := length (history h') - j\<rparr>" if "j \<le> k" for j
    using previous_iter [of j h'] that add(1) assms(5) by simp
  have "history h' ! (length (history h') - 1) = cmd"
    using add(3) [OF assms(2)] by (metis last_conv_nth)
  then show ?thesis
    using assms(3-5) add(2,4) it [of k] it [of "k - 1"]
    by (auto simp: previous_def next_cmd_def Let_def vec_get_def Suc_diff_le)
qed

theorem history_recall_witness:
  "fst (previous (((snd \<circ> previous) ^^ (2 - 1)) \<lparr>history = [''ls'', ''vm list''], current_index = 2, max_size = 100\<rparr>)) =
     Some ''ls''"
proof -
  have add: "add_command ''vm list'' \<lparr>history = [''ls''], current_index = 1, max_size = 100\<rparr> =
      Done \<lparr>history = [''ls'', ''vm list''], current_index = 2, max_size = 100\<rparr>"
    by (simp add: add_command_def str_trim_def trim_matches_def trim_start_matches_def trim_end_matches_def
        is_whitespace_def)
  have "str_trim ''vm list'' \<noteq> []"
    by (simp add: str_trim_def trim_matches_def trim_start_matches_def trim_end_matches_def is_whitespace_def)
  from history_recall [OF add this, of 2] show ?thesis by simp
qed

end
