(* ===== verification/Shell_VmShow.thy ===== *)
theory Shell_VmShow
  imports VCpus Shell_Parser
begin

text \<open>
  The listings of the \<^verbatim>\<open>vm\<close> command, \<^verbatim>\<open>kernel/src/shell/command/vm.rs\<close>: \<^verbatim>\<open>vm list\<close>, \<^verbatim>\<open>vm show\<close>, the sizes in
  them and the help text. What they ask of the VM object, its configuration and its devices (the
  crates \<^verbatim>\<open>axvm\<close>, \<^verbatim>\<open>axvcpu\<close> and \<^verbatim>\<open>axdevice\<close>) are the fields of the record \<open>vm_view\<close>; the output is exact
  text, with the information sign of the source written as \<^verbatim>\<open>(i)\<close> and the cross as \<^verbatim>\<open>(x)\<close>.
\<close>

section \<open>What is shown\<close>

record region_view =
  region_gpa :: usize
  region_hva :: usize
  region_size :: usize
  needs_dealloc :: bool
  is_identical :: bool

record vcpu_view =
  vcpu_id :: usize
  vcpu_state :: VCpuState
  phys_cpu_set :: "usize option"

record passthrough_view =
  pt_name :: string
  pt_base_gpa :: usize
  pt_base_hpa :: usize
  pt_length :: usize

record 'v vm_view =
  view_name :: "'v \<Rightarrow> string"
  view_as_str :: "VMStatus \<Rightarrow> string"
  view_as_str_with_icon :: "VMStatus \<Rightarrow> string"
  view_vcpu_num :: "'v \<Rightarrow> nat"
  view_vcpu_list :: "'v \<Rightarrow> vcpu_view list"
  view_memory_regions :: "'v \<Rightarrow> region_view list"
  view_ept_root :: "'v \<Rightarrow> usize"
  view_bsp_entry :: "'v \<Rightarrow> usize"
  view_ap_entry :: "'v \<Rightarrow> usize"
  view_interrupt_mode :: "'v \<Rightarrow> string"
  view_dtb_load_gpa :: "'v \<Rightarrow> usize option"
  view_kernel_load_gpa :: "'v \<Rightarrow> usize"
  view_pass_through_devices :: "'v \<Rightarrow> passthrough_view list"
  view_pass_through_addresses :: "'v \<Rightarrow> (usize \<times> usize) list"
  view_pass_through_spis :: "'v \<Rightarrow> nat list"
  view_emu_devices :: "'v \<Rightarrow> string list"
  view_mmio_dev_count :: "'v \<Rightarrow> nat"
  view_sys_reg_dev_count :: "'v \<Rightarrow> nat"

definition format_memory_size :: "usize \<Rightarrow> string" where
  "format_memory_size bytes =
     (if bytes < 1024 then show_nat (unat bytes) @ ''B''
      else if bytes < 1024 * 1024 then show_nat (unat (bytes div 1024)) @ ''KB''
      else if bytes < 1024 * 1024 * 1024 then show_nat (unat (bytes div (1024 * 1024))) @ ''MB''
      else show_nat (unat (bytes div (1024 * 1024 * 1024))) @ ''GB'')"

text \<open>The format \<^verbatim>\<open>{:#x}\<close>.\<close>

definition hex_digit :: "nat \<Rightarrow> char" where
  "hex_digit n = ''0123456789abcdef'' ! n"

function hex_digits :: "nat \<Rightarrow> string" where
  "hex_digits n = (if n < 16 then [hex_digit n] else hex_digits (n div 16) @ [hex_digit (n mod 16)])"
  by auto
termination by (relation "measure id") auto

declare hex_digits.simps [simp del]

definition show_hex :: "usize \<Rightarrow> string" where
  "show_hex w = ''0x'' @ hex_digits (unat w)"

definition usize_str :: "usize \<Rightarrow> string" where
  "usize_str w = show_nat (unat w)"

definition total_memory :: "'v vm_view \<Rightarrow> 'v \<Rightarrow> usize" where
  "total_memory V v = sum_list (map region_size (view_memory_regions V v))"

section \<open>Lists of VMs\<close>

definition vm_list_simple :: "'v axvm \<Rightarrow> 'v vm_view \<Rightarrow> 'v vmm_state \<Rightarrow> string list" where
  "vm_list_simple A V st =
     [''ID    NAME           STATE      VCPU   MEMORY'', ''----  -----------    -------    ----   ------''] @
     map (\<lambda>vm. let v = vms st vm
               in pad_right 4 (usize_str (ax_id A v)) @ ''  '' @ pad_right 11 (view_name V v) @ ''    '' @
                  pad_right 7 (view_as_str V (ax_status A v)) @ ''    '' @
                  pad_right 4 (show_nat (view_vcpu_num V v)) @ ''   '' @ format_memory_size (total_memory V v))
       (get_vm_list (GLOBAL_VM_LIST st))"

fun short_state :: "VCpuState \<Rightarrow> string" where
  "short_state VCpuFree = ''Free''"
| "short_state VCpuRunning = ''Run''"
| "short_state VCpuBlocked = ''Blk''"
| "short_state VCpuInvalid = ''Inv''"
| "short_state VCpuCreated = ''Cre''"
| "short_state VCpuReady = ''Rdy''"

fun long_state :: "VCpuState \<Rightarrow> string" where
  "long_state VCpuFree = ''Free''"
| "long_state VCpuRunning = ''Running''"
| "long_state VCpuBlocked = ''Blocked''"
| "long_state VCpuInvalid = ''Invalid''"
| "long_state VCpuCreated = ''Created''"
| "long_state VCpuReady = ''Ready''"

text \<open>\<^verbatim>\<open>*state_counts.entry(state).or_insert(0) += 1\<close> for every vCPU.\<close>

fun count_states :: "(VCpuState \<Rightarrow> string) \<Rightarrow> vcpu_view list \<Rightarrow> (string, nat) btree \<Rightarrow> (string, nat) btree" where
  "count_states name [] m = m"
| "count_states name (c # cs) m =
     (let k = name (vcpu_state c); n = (case bt_get k m of Some n \<Rightarrow> n | None \<Rightarrow> 0)
      in count_states name cs (bt_insert k (n + 1) m))"

definition json_vm :: "'v axvm \<Rightarrow> 'v vm_view \<Rightarrow> 'v \<Rightarrow> bool \<Rightarrow> string list" where
  "json_vm A V v more_vms =
     [''    {'',
      ''      \"id\": '' @ usize_str (ax_id A v) @ '','',
      ''      \"name\": \"'' @ view_name V v @ ''\",'',
      ''      \"state\": \"'' @ view_as_str V (ax_status A v) @ ''\",'',
      ''      \"vcpu\": '' @ show_nat (view_vcpu_num V v) @ '','',
      ''      \"memory\": \"'' @ format_memory_size (total_memory V v) @ ''\"'',
      (if more_vms then ''    },'' else ''    }'')]"

fun json_vms :: "'v axvm \<Rightarrow> 'v vm_view \<Rightarrow> 'v list \<Rightarrow> string list" where
  "json_vms A V [] = []"
| "json_vms A V (v # vs) = json_vm A V v (vs \<noteq> []) @ json_vms A V vs"

definition table_row :: "string \<Rightarrow> string \<Rightarrow> string \<Rightarrow> string \<Rightarrow> string \<Rightarrow> string \<Rightarrow> string" where
  "table_row a b c d e f =
     pad_right 6 a @ '' '' @ pad_right 15 b @ '' '' @ pad_right 12 c @ '' '' @ pad_right 15 d @ '' '' @
     pad_right 10 e @ '' '' @ pad_right 20 f"

definition table_vm :: "'v axvm \<Rightarrow> 'v vm_view \<Rightarrow> 'v \<Rightarrow> string" where
  "table_vm A V v =
     table_row (usize_str (ax_id A v)) (view_name V v) (view_as_str V (ax_status A v))
       (str_join '','' (map (usize_str \<circ> vcpu_id) (view_vcpu_list V v)))
       (format_memory_size (total_memory V v))
       (str_join '','' (map (\<lambda>(state, count). state @ '':'' @ show_nat count)
          (bt_entries (count_states short_state (view_vcpu_list V v) []))))"

definition vm_list_handler :: "'v axvm \<Rightarrow> 'v vm_view \<Rightarrow> ParsedCommand \<Rightarrow> 'v vmm_state \<Rightarrow> string list" where
  "vm_list_handler A V cmd st =
     (let fmt = (case bt_get ''format'' (pc_options cmd) of Some f \<Rightarrow> f | None \<Rightarrow> ''table'');
          display_vms = map (vms st) (get_vm_list (GLOBAL_VM_LIST st))
      in if display_vms = [] then [''No virtual machines found.'']
         else if fmt = ''json'' then [''{'', ''  \"vms\": [''] @ json_vms A V display_vms @ [''  ]'', ''}'']
         else [table_row ''VM ID'' ''NAME'' ''STATUS'' ''VCPU'' ''MEMORY'' ''VCPU STATE'',
               str_join '' '' (map (\<lambda>n. replicate n CHR ''-'') [6, 15, 12, 15, 10, 20])] @
              map (table_vm A V) display_vms)"

section \<open>Details of a VM\<close>

definition basic_hint :: "usize \<Rightarrow> VMStatus \<Rightarrow> string list" where
  "basic_hint i status =
     (case status of
        Suspended \<Rightarrow> [[], ''  (i) VM is paused. Use 'vm resume '' @ usize_str i @ ''' to continue.'']
      | Stopped \<Rightarrow> [[], ''  (i) VM is stopped. Use 'vm delete '' @ usize_str i @ ''' to clean up.'']
      | Loaded \<Rightarrow> [[], ''  (i) VM is ready. Use 'vm start '' @ usize_str i @ ''' to boot.'']
      | _ \<Rightarrow> [])"

definition config_lines :: "'v vm_view \<Rightarrow> 'v \<Rightarrow> string list" where
  "config_lines V v =
     [''  BSP Entry:      '' @ show_hex (view_bsp_entry V v),
      ''  AP Entry:       '' @ show_hex (view_ap_entry V v),
      ''  Interrupt Mode: '' @ view_interrupt_mode V v] @
     (case view_dtb_load_gpa V v of
        Some dtb_addr \<Rightarrow> [''  DTB Address:    '' @ show_hex dtb_addr]
      | None \<Rightarrow> [])"

definition identity_lines :: "'v axvm \<Rightarrow> 'v vm_view \<Rightarrow> 'v \<Rightarrow> string list" where
  "identity_lines A V v =
     [''  VM ID:     '' @ usize_str (ax_id A v),
      ''  Name:      '' @ view_name V v,
      ''  Status:    '' @ view_as_str_with_icon V (ax_status A v),
      ''  VCPUs:     '' @ show_nat (view_vcpu_num V v),
      ''  Memory:    '' @ format_memory_size (total_memory V v)]"

definition show_vm_basic_details ::
    "'v axvm \<Rightarrow> 'v vm_view \<Rightarrow> usize \<Rightarrow> bool \<Rightarrow> bool \<Rightarrow> 'v vmm_state \<Rightarrow> string list option" where
  "show_vm_basic_details A V i show_config show_stats st =
     with_vm i (\<lambda>vm. let v = vms st vm in
        [''VM Details: '' @ usize_str i, []] @ identity_lines A V v @ basic_hint i (ax_status A v) @
        [[], ''VCPU Summary:''] @
        map (\<lambda>(state, count). ''  '' @ state @ '': '' @ show_nat count)
          (bt_entries (count_states long_state (view_vcpu_list V v) [])) @
        [[], ''Memory Summary:'',
         ''  Total Regions: '' @ show_nat (length (view_memory_regions V v)),
         ''  Total Size:    '' @ format_memory_size (total_memory V v)] @
        (if show_config then [[], ''Configuration:''] @ config_lines V v else []) @
        (if show_stats then [[], ''Device Summary:'',
           ''  MMIO Devices:   '' @ show_nat (view_mmio_dev_count V v),
           ''  SysReg Devices: '' @ show_nat (view_sys_reg_dev_count V v)] else []) @
        [[], ''Use 'vm show '' @ usize_str i @ '' --full' for detailed information''])
       (GLOBAL_VM_LIST st)"

definition full_hint :: "usize \<Rightarrow> VMStatus \<Rightarrow> string list" where
  "full_hint i status =
     (case status of
        Suspended \<Rightarrow> [''    (i) VM is paused, VCpu tasks are waiting. Use 'vm resume '' @ usize_str i @ ''' to continue.'']
      | Stopping \<Rightarrow> [''    (i) VM is shutting down, VCpu tasks are exiting.'']
      | Stopped \<Rightarrow> [''    (i) VM is stopped, all VCpu tasks have exited. Use 'vm delete '' @ usize_str i @ ''' to clean up.'']
      | Loaded \<Rightarrow> [''    (i) VM is ready to start. Use 'vm start '' @ usize_str i @ ''' to boot.'']
      | _ \<Rightarrow> [])"

definition vcpu_line :: "vcpu_view \<Rightarrow> string" where
  "vcpu_line c =
     ''  VCPU '' @ usize_str (vcpu_id c) @ '': '' @ long_state (vcpu_state c) @
     (case phys_cpu_set c of
        Some s \<Rightarrow> '' (Affinity: '' @ show_hex s @ '')''
      | None \<Rightarrow> '' (No affinity)'')"

definition vcpu_details :: "'v axvm \<Rightarrow> 'v vm_view \<Rightarrow> 'v \<Rightarrow> string list" where
  "vcpu_details A V v =
     [[], ''VCPU Details:'',
      ''  Summary: '' @ str_join '', '' (map (\<lambda>(state, count). state @ '': '' @ show_nat count)
         (bt_entries (count_states long_state (view_vcpu_list V v) []))), []] @
     map vcpu_line (view_vcpu_list V v) @
     (if ax_status A v = Suspended
      then [[], ''  Note: VCpu tasks are blocked in wait queue and will resume when VM is unpaused.''] else [])"

definition region_line :: "nat \<Rightarrow> region_view \<Rightarrow> string" where
  "region_line i r =
     ''  Region '' @ show_nat i @ '': GPA='' @ show_hex (region_gpa r) @ '' HVA='' @ show_hex (region_hva r) @
     '' Size='' @ format_memory_size (region_size r) @ '' Type='' @
     (if needs_dealloc r then ''Allocated'' else ''Reserved'') @ (if is_identical r then '' [identical]'' else [])"

definition region_details :: "'v vm_view \<Rightarrow> 'v \<Rightarrow> string list" where
  "region_details V v =
     [[], ''Memory Regions: ('' @ show_nat (length (view_memory_regions V v)) @ '' region(s), '' @
          format_memory_size (total_memory V v) @ '' total)''] @
     map (\<lambda>(i, r). region_line i r) (enumerate 0 (view_memory_regions V v))"

definition passthrough_details :: "'v vm_view \<Rightarrow> 'v \<Rightarrow> string list" where
  "passthrough_details V v =
     (if view_pass_through_devices V v \<noteq> [] then
        [[], ''  Passthrough Devices: ('' @ show_nat (length (view_pass_through_devices V v)) @ '' device(s))''] @
        map (\<lambda>d. ''    - '' @ pt_name d @ '': GPA['' @ show_hex (pt_base_gpa d) @ ''~'' @
                 show_hex (pt_base_gpa d + pt_length d) @ ''] -> HPA['' @ show_hex (pt_base_hpa d) @ ''~'' @
                 show_hex (pt_base_hpa d + pt_length d) @ ''] ('' @ format_memory_size (pt_length d) @ '')'')
          (view_pass_through_devices V v) else []) @
     (if view_pass_through_addresses V v \<noteq> [] then
        [[], ''  Passthrough Memory Regions: ('' @ show_nat (length (view_pass_through_addresses V v)) @ '' region(s))''] @
        map (\<lambda>(base, len). ''    - GPA['' @ show_hex base @ ''~'' @ show_hex (base + len) @ ''] ('' @
                 format_memory_size len @ '')'')
          (view_pass_through_addresses V v) else [])"

definition config_details :: "bool \<Rightarrow> 'v vm_view \<Rightarrow> 'v \<Rightarrow> string list" where
  "config_details aarch64 V v =
     [[], ''Configuration:''] @ config_lines V v @
     [''  Kernel GPA:     '' @ show_hex (view_kernel_load_gpa V v)] @
     passthrough_details V v @
     (if aarch64 \<and> view_pass_through_spis V v \<noteq> [] then
        [[], ''  Passthrough SPIs: ['' @ str_join '', '' (map show_nat (view_pass_through_spis V v)) @ '']''] else []) @
     (if view_emu_devices V v \<noteq> [] then
        [[], ''  Emulated Devices: ('' @ show_nat (length (view_emu_devices V v)) @ '' device(s))''] @
        map (\<lambda>(idx, d). ''    '' @ show_nat (idx + 1) @ ''. '' @ d) (enumerate 0 (view_emu_devices V v)) else [])"

definition device_details :: "'v axvm \<Rightarrow> 'v vm_view \<Rightarrow> 'v \<Rightarrow> string list" where
  "device_details A V v =
     [[], ''Devices:'',
      ''  MMIO Devices:   '' @ show_nat (view_mmio_dev_count V v),
      ''  SysReg Devices: '' @ show_nat (view_sys_reg_dev_count V v),
      [], ''Additional Statistics:'',
      ''  Total Memory Regions: '' @ show_nat (length (view_memory_regions V v)),
      [], ''  VCpu Affinity Details:''] @
     map (\<lambda>(vcpu, affinity, pcpu).
            ''    VCpu '' @ usize_str vcpu @
            (case affinity of
               Some aff \<Rightarrow> '': Physical CPU mask '' @ show_hex aff @ '', PCpu ID '' @ usize_str pcpu
             | None \<Rightarrow> '': No specific affinity, PCpu ID '' @ usize_str pcpu))
       (ax_affinities A v)"

definition show_vm_full_details ::
    "bool \<Rightarrow> 'v axvm \<Rightarrow> 'v vm_view \<Rightarrow> usize \<Rightarrow> 'v vmm_state \<Rightarrow> string list option" where
  "show_vm_full_details aarch64 A V i st =
     with_vm i (\<lambda>vm. let v = vms st vm in
        [''=== VM Details: '' @ usize_str i @ '' ==='', [], ''Basic Information:''] @ identity_lines A V v @
        [''  EPT Root:  '' @ show_hex (view_ept_root V v)] @ full_hint i (ax_status A v) @
        vcpu_details A V v @ region_details V v @ config_details aarch64 V v @ device_details A V v)
       (GLOBAL_VM_LIST st)"

text \<open>A flag of the command line that was not given is false.\<close>

definition flag_set :: "string \<Rightarrow> ParsedCommand \<Rightarrow> bool" where
  "flag_set name cmd = (case bt_get name (pc_flags cmd) of Some b \<Rightarrow> b | None \<Rightarrow> False)"

definition vm_show ::
    "bool \<Rightarrow> 'v axvm \<Rightarrow> 'v vm_view \<Rightarrow> ParsedCommand \<Rightarrow> 'v vmm_state \<Rightarrow> string list" where
  "vm_show aarch64 A V cmd st =
     (case positional_args cmd of
        [] \<Rightarrow> [''Error: No VM specified'', ''Usage: vm show [OPTIONS] <VM_ID>'', [], ''Options:'',
               ''  -f, --full     Show full detailed information'',
               ''  -c, --config   Show configuration details'',
               ''  -s, --stats    Show statistics'', [], ''Use 'vm list' to see all VMs'']
      | name # _ \<Rightarrow>
          (case parse_usize name of
             None \<Rightarrow> [''Error: Invalid VM ID: '' @ name]
           | Some i \<Rightarrow>
               (case (if flag_set ''full'' cmd then show_vm_full_details aarch64 A V i st
                      else show_vm_basic_details A V i (flag_set ''config'' cmd) (flag_set ''stats'' cmd) st) of
                  Some ls \<Rightarrow> ls
                | None \<Rightarrow> [''(x) VM['' @ usize_str i @ ''] not found''])))"

definition vm_help :: "string list" where
  "vm_help =
     [''VM - virtual machine management'', [], ''Most commonly used vm commands:'',
      ''  create    Create a new virtual machine'',
      ''  start     Start a virtual machine'',
      ''  stop      Stop a virtual machine'',
      ''  suspend   Suspend (pause) a running virtual machine'',
      ''  resume    Resume a suspended virtual machine'',
      ''  restart   Restart a virtual machine'',
      ''  delete    Delete a virtual machine'', [],
      ''Information commands:'',
      ''  list      Show table of all VMs'',
      ''  show      Show VM details (requires VM_ID)'',
      ''            - Default: basic information'',
      ''            - --full: complete detailed information'',
      ''            - --config: show configuration'',
      ''            - --stats: show statistics'', [],
      ''Use 'vm <command> --help' for more_vms information on a specific command.'']"


section \<open>What the listings promise\<close>

lemma bt_sum_insert:
  fixes m :: "('k :: linorder, nat) btree"
  assumes "bt_inv m"
  shows "sum_list (map snd (bt_insert k v m)) + (case bt_get k m of Some n \<Rightarrow> n | None \<Rightarrow> 0) = sum_list (map snd m) + v"
proof -
  have "sum_mset (image_mset snd (mset (bt_insert k v m))) + (case bt_get k m of Some n \<Rightarrow> n | None \<Rightarrow> 0) =
      sum_mset (image_mset snd (mset m)) + v"
    using assms bt_mset_remove[OF assms, of k] bt_remove_absent[of k m]
    by (auto simp: bt_mset_insert split: option.splits)
  then show ?thesis by (simp flip: sum_mset_sum_list)
qed

lemma count_states_get:
  "bt_get k (count_states name cs m) =
     (let n = length (filter (\<lambda>c. name (vcpu_state c) = k) cs)
      in case bt_get k m of Some i \<Rightarrow> Some (i + n) | None \<Rightarrow> if n = 0 then None else Some n)"
  by (induction name cs m rule: count_states.induct) (auto simp: Let_def split: option.splits)

lemma count_states_inv: "bt_inv m \<Longrightarrow> bt_inv (count_states name cs m)"
  by (induction name cs m rule: count_states.induct) (auto simp: Let_def)

lemma count_states_sum:
  "bt_inv m \<Longrightarrow> sum_list (map snd (count_states name cs m)) = sum_list (map snd m) + length cs"
proof (induction name cs m rule: count_states.induct)
  case (2 name c cs m)
  show ?case
    using 2(1)[OF refl refl] 2(2) bt_sum_insert[OF 2(2), of "name (vcpu_state c)"
      "(case bt_get (name (vcpu_state c)) m of Some n \<Rightarrow> n | None \<Rightarrow> 0) + 1"]
    by (simp add: Let_def)
qed simp

text \<open>
  The summary of vCPU states that the listings print names exactly the states that
  occur, in the order of their names, each with the number of vCPUs in it; the numbers add up to
  the number of vCPUs.
\<close>

theorem vcpu_summary_exact:
  "let m = count_states name cs [] in
     sorted_wrt (<) (map fst (bt_entries m)) \<and>
     set (bt_entries m) = (\<lambda>s. (s, length (filter (\<lambda>c. name (vcpu_state c) = s) cs))) ` (name ` vcpu_state ` set cs) \<and>
     sum_list (map snd (bt_entries m)) = length cs"
proof -
  let ?m = "count_states name cs []"
  have inv: "bt_inv ?m" by (simp add: count_states_inv)
  let ?cnt = "\<lambda>s. length (filter (\<lambda>c. name (vcpu_state c) = s) cs)"
  have mem: "(s, n) \<in> set (bt_entries ?m) \<longleftrightarrow> s \<in> name ` vcpu_state ` set cs \<and> n = ?cnt s" for s n
    by (auto simp: bt_entries_mem[OF inv] count_states_get Let_def filter_empty_conv split: if_splits)
  have "set (bt_entries ?m) = (\<lambda>s. (s, ?cnt s)) ` (name ` vcpu_state ` set cs)"
    by (rule set_eqI, rename_tac p, case_tac p) (simp only: mem image_iff Bex_def prod.inject, blast)
  with inv show ?thesis
    using bt_entries_sorted[OF inv] count_states_sum[OF bt_inv_Nil, of name cs]
    by (simp add: Let_def bt_entries_def)
qed

definition unit_name :: "nat \<Rightarrow> string" where
  "unit_name u = [''B'', ''KB'', ''MB'', ''GB''] ! u"

text \<open>
  A printed size is the size rounded down to the largest unit that fits: the number
  times the unit is at most the size, one more of the unit exceeds it, the number is at least one
  unless the unit is the byte, and below 1024 unless the unit is the gigabyte.
\<close>

theorem format_memory_size_bounds:
  "\<exists>k u. format_memory_size b = show_nat k @ unit_name u \<and> u < 4 \<and>
     k * 1024 ^ u \<le> unat b \<and> unat b < (k + 1) * 1024 ^ u \<and>
     (u = 0 \<or> 1 \<le> k) \<and> (u = 3 \<or> k < 1024)"
proof -
  have fits: "k = unat b div 1024 ^ u \<Longrightarrow> k * 1024 ^ u \<le> unat b \<and> unat b < (k + 1) * 1024 ^ u" for k u :: nat
    by (simp add: mult.commute[of _ "1024 ^ u"] dividend_less_times_div add.commute)
  consider "unat b < 1024" | "1024 \<le> unat b" "unat b < 1048576" | "1048576 \<le> unat b" "unat b < 1073741824"
    | "1073741824 \<le> unat b" by linarith
  then show ?thesis
  proof cases
    case 1
    then show ?thesis by (intro exI[of _ "unat b"] exI[of _ 0]) (simp add: format_memory_size_def unit_name_def word_less_nat_alt)
  next
    case 2
    then show ?thesis using fits[of "unat b div 1024" 1]
      by (intro exI[of _ "unat b div 1024"] exI[of _ 1])
         (simp add: format_memory_size_def unit_name_def word_less_nat_alt unat_div)
  next
    case 3
    then show ?thesis using fits[of "unat b div 1048576" 2]
      by (intro exI[of _ "unat b div 1048576"] exI[of _ 2])
         (simp add: format_memory_size_def unit_name_def word_less_nat_alt unat_div)
  next
    case 4
    then show ?thesis using fits[of "unat b div 1073741824" 3]
      by (intro exI[of _ "unat b div 1073741824"] exI[of _ 3])
         (simp add: format_memory_size_def unit_name_def word_less_nat_alt unat_div)
  qed
qed

end
