(* ===== verification/Shell_Vm.thy ===== *)
theory Shell_Vm
  imports Shell_VmShow
begin

text \<open>
  The \<^verbatim>\<open>vm\<close> commands of the shell, \<^verbatim>\<open>kernel/src/shell/command/vm.rs\<close>: starting, stopping, restarting,
  suspending, resuming, creating and deleting virtual machines. They work on the state of the
  theory \<open>VCpus\<close>: the VM table, the shared VM objects, the vCPU tasks and their wait queues.

  The result of a command is the state after it and the lines it prints, with the signs of the
  source written \<^verbatim>\<open>(v)\<close>, \<^verbatim>\<open>(x)\<close> and \<^verbatim>\<open>(!)\<close>. The debugging lines about reference counts are left out. While
  a command polls, the other tasks go on: the argument \<open>env\<close> is what they do to the state before
  the \<open>n\<close>-th poll. The argument \<open>pick\<close> is the scheduler's choice of the waiter that a notification
  wakes, and \<open>dbg\<close> the debug format of a VM status, which the \<^verbatim>\<open>axvm\<close> crate defines.
\<close>

section \<open>Which transitions are allowed\<close>

fun can_start_vm :: "VMStatus \<Rightarrow> string + unit" where
  "can_start_vm Loaded = Inr ()"
| "can_start_vm Stopped = Inr ()"
| "can_start_vm Running = Inl ''VM is already running''"
| "can_start_vm Suspended = Inl ''VM is suspended, use 'vm resume' instead''"
| "can_start_vm Stopping = Inl ''VM is stopping, wait for it to fully stop''"
| "can_start_vm Loading = Inl ''VM is still loading''"

fun can_stop_vm :: "VMStatus \<Rightarrow> bool \<Rightarrow> string + unit" where
  "can_stop_vm Running force = Inr ()"
| "can_stop_vm Suspended force = Inr ()"
| "can_stop_vm Stopping force = (if force then Inr () else Inl ''VM is already stopping'')"
| "can_stop_vm Stopped force = Inl ''VM is already stopped''"
| "can_stop_vm Loading force = Inr ()"
| "can_stop_vm Loaded force = Inr ()"

fun can_suspend_vm :: "VMStatus \<Rightarrow> string + unit" where
  "can_suspend_vm Running = Inr ()"
| "can_suspend_vm Suspended = Inl ''VM is already suspended''"
| "can_suspend_vm Stopped = Inl ''VM is stopped, cannot suspend''"
| "can_suspend_vm Stopping = Inl ''VM is stopping, cannot suspend''"
| "can_suspend_vm Loading = Inl ''VM is loading, cannot suspend''"
| "can_suspend_vm Loaded = Inl ''VM is not running, cannot suspend''"

fun can_resume_vm :: "VMStatus \<Rightarrow> string + unit" where
  "can_resume_vm Suspended = Inr ()"
| "can_resume_vm Running = Inl ''VM is already running''"
| "can_resume_vm Stopped = Inl ''VM is stopped, use 'vm start' instead''"
| "can_resume_vm Stopping = Inl ''VM is stopping, cannot resume''"
| "can_resume_vm Loading = Inl ''VM is loading, cannot resume''"
| "can_resume_vm Loaded = Inl ''VM is not started yet, use 'vm start' instead''"


section \<open>Lines\<close>

type_synonym lines = "string list"

definition vm_tag :: "usize \<Rightarrow> string" where
  "vm_tag i = ''VM['' @ usize_str i @ '']''"

definition good :: "usize \<Rightarrow> string \<Rightarrow> string" where
  "good i s = ''(v) '' @ vm_tag i @ s"

definition bad :: "usize \<Rightarrow> string \<Rightarrow> string" where
  "bad i s = ''(x) '' @ vm_tag i @ s"

definition warn :: "usize \<Rightarrow> string \<Rightarrow> string" where
  "warn i s = ''(!) '' @ vm_tag i @ s"

text \<open>The format \<^verbatim>\<open>{:?}\<close> of a string.\<close>

definition char_debug :: "char \<Rightarrow> string" where
  "char_debug c =
     (if c = CHR 0x22 then [CHR 0x5C, CHR 0x22] else if c = CHR 0x5C then [CHR 0x5C, CHR 0x5C]
      else if c = CHR 0x0A then [CHR 0x5C, CHR ''n''] else if c = CHR 0x0D then [CHR 0x5C, CHR ''r'']
      else if c = CHR 0x09 then [CHR 0x5C, CHR ''t''] else if c = CHR 0x00 then [CHR 0x5C, CHR ''0'']
      else if of_char c < (32 :: nat) \<or> of_char c = (127 :: nat)
      then [CHR 0x5C] @ ''u{'' @ hex_digits (of_char c) @ ''}'' else [c])"

definition str_debug :: "string \<Rightarrow> string" where
  "str_debug s = [CHR 0x22] @ concat (map char_debug s) @ [CHR 0x22]"

section \<open>Starting\<close>

definition start_single_vm ::
    "'v axvm \<Rightarrow> nat \<Rightarrow> nat \<Rightarrow> 'v vmm_state \<Rightarrow> ((string + unit) \<times> 'v vmm_state) outcome" where
  "start_single_vm A pick vm st =
     (case can_start_vm (ax_status A (vms st vm)) of
        Inl e \<Rightarrow> Done (Inl e, st)
      | Inr _ \<Rightarrow>
          (case setup_vm_primary_vcpu A vm st of
             Panic m \<Rightarrow> Panic m
           | Done st1 \<Rightarrow>
               (case ax_boot A (vms st1 vm) of
                  (Inr _, v') \<Rightarrow>
                    (case notify_primary_vcpu pick (ax_id A (vms st vm)) (set_vm vm v' st1) of
                       Panic m \<Rightarrow> Panic m
                     | Done st2 \<Rightarrow> Done (Inr (), add_running_vm_count 1 st2))
                | (Inl _, v') \<Rightarrow> Done (Inl ''Failed to boot VM'', set_vm vm v' st1))))"

definition start_vm_by_id ::
    "'v axvm \<Rightarrow> nat \<Rightarrow> usize \<Rightarrow> 'v vmm_state \<Rightarrow> (lines \<times> 'v vmm_state) outcome" where
  "start_vm_by_id A pick vid st =
     (case with_vm vid (\<lambda>vm. start_single_vm A pick vm st) (GLOBAL_VM_LIST st) of
        None \<Rightarrow> Done ([bad vid '' not found''], st)
      | Some (Panic m) \<Rightarrow> Panic m
      | Some (Done (Inr _, st')) \<Rightarrow> Done ([good vid '' started successfully''], st')
      | Some (Done (Inl e, st')) \<Rightarrow> Done ([bad vid ('' failed to start: '' @ e)], st'))"

text \<open>Running a command for each element in turn.\<close>

fun for_each ::
    "('a \<Rightarrow> 'v vmm_state \<Rightarrow> (lines \<times> 'v vmm_state) outcome) \<Rightarrow> 'a list \<Rightarrow> 'v vmm_state \<Rightarrow>
     (lines \<times> 'v vmm_state) outcome" where
  "for_each f [] st = Done ([], st)"
| "for_each f (x # xs) st =
     (case f x st of
        Panic m \<Rightarrow> Panic m
      | Done (ms, st') \<Rightarrow>
          (case for_each f xs st' of
             Panic m \<Rightarrow> Panic m
           | Done (ms', st'') \<Rightarrow> Done (ms @ ms', st'')))"

text \<open>The loop over all VMs; \<open>started_count\<close> counts the successful starts.\<close>

fun start_all ::
    "'v axvm \<Rightarrow> (VMStatus \<Rightarrow> string) \<Rightarrow> (nat \<Rightarrow> nat) \<Rightarrow> nat list \<Rightarrow> nat \<Rightarrow> 'v vmm_state \<Rightarrow>
     (lines \<times> 'v vmm_state) outcome" where
  "start_all A dbg pick [] started_count st = Done ([''Started '' @ show_nat started_count @ '' VM(s)''], st)"
| "start_all A dbg pick (vm # rest) started_count st =
     (let v = vms st vm; i = ax_id A v; status = ax_status A v;
          continue = (\<lambda>ls n s. case start_all A dbg pick rest n s of
                                 Panic m \<Rightarrow> Panic m | Done (ls', s') \<Rightarrow> Done (ls @ ls', s'))
      in if status = Running then continue [warn i '' is already running, skipping''] started_count st
         else if status \<noteq> Loaded \<and> status \<noteq> Stopped
         then continue [warn i ('' is in '' @ dbg status @ '' state, cannot start'')] started_count st
         else case start_single_vm A (pick vm) vm st of
                Panic m \<Rightarrow> Panic m
              | Done (Inl e, st') \<Rightarrow> continue [bad i ('' failed to start: '' @ str_debug e)] started_count st'
              | Done (Inr _, st') \<Rightarrow> continue [good i '' started successfully''] (started_count + 1) st')"

definition vm_start ::
    "'v axvm \<Rightarrow> 'v vm_view \<Rightarrow> (VMStatus \<Rightarrow> string) \<Rightarrow> (nat \<Rightarrow> nat) \<Rightarrow> ParsedCommand \<Rightarrow> 'v vmm_state \<Rightarrow>
     (lines \<times> 'v vmm_state) outcome" where
  "vm_start A V dbg pick cmd st =
     (case (if positional_args cmd = [] then start_all A dbg pick (get_vm_list (GLOBAL_VM_LIST st)) 0 st
            else for_each (\<lambda>name st.
                   case parse_usize name of
                     Some vid \<Rightarrow> start_vm_by_id A (pick (unat vid)) vid st
                   | None \<Rightarrow> Done ([''Error: VM name lookup not implemented. Use VM ID instead.'', ''Available VMs:''] @
                                   vm_list_simple A V st, st))
                 (positional_args cmd) st) of
        Panic m \<Rightarrow> Panic m
      | Done (ls, st') \<Rightarrow>
          Done (ls @ (if flag_set ''detach'' cmd then [''VMs started in background mode''] else []), st'))"

section \<open>Stopping and restarting\<close>

fun stop_announce :: "(VMStatus \<Rightarrow> string) \<Rightarrow> usize \<Rightarrow> VMStatus \<Rightarrow> bool \<Rightarrow> lines" where
  "stop_announce dbg i Stopping force = (if force then [''Force stopping '' @ vm_tag i @ ''...''] else [])"
| "stop_announce dbg i Running force =
     (if force then [''Force stopping '' @ vm_tag i @ ''...''] else [''Gracefully stopping '' @ vm_tag i @ ''...''])"
| "stop_announce dbg i Loading force = [warn i ('' is in '' @ dbg Loading @ '' state, stopping anyway...'')]"
| "stop_announce dbg i Loaded force = [warn i ('' is in '' @ dbg Loaded @ '' state, stopping anyway...'')]"
| "stop_announce dbg i Suspended force = []"
| "stop_announce dbg i Stopped force = []"

definition failed_to :: "string \<Rightarrow> usize \<Rightarrow> string \<Rightarrow> string" where
  "failed_to what i e = ''(x) Failed to '' @ what @ '' '' @ vm_tag i @ '': '' @ e"

definition stop_vm_by_id ::
    "'v axvm \<Rightarrow> (VMStatus \<Rightarrow> string) \<Rightarrow> usize \<Rightarrow> bool \<Rightarrow> 'v vmm_state \<Rightarrow> lines \<times> 'v vmm_state" where
  "stop_vm_by_id A dbg vid force st =
     (case get_vm_by_id vid (GLOBAL_VM_LIST st) of
        None \<Rightarrow> ([bad vid '' not found''], st)
      | Some vm \<Rightarrow>
          (let status = ax_status A (vms st vm)
           in case can_stop_vm status force of
                Inl e \<Rightarrow> ([warn vid ('' '' @ e), failed_to ''stop'' vid (str_debug e)], st)
              | Inr _ \<Rightarrow>
                  (case ax_shutdown A (vms st vm) of
                     (Inr _, v') \<Rightarrow>
                       (stop_announce dbg vid status force @
                        [good vid '' stop signal sent successfully'',
                         ''  Note: vCPU threads will exit gracefully, VM status will transition to Stopped''],
                        set_vm vm v' st)
                   | (Inl _, v') \<Rightarrow>
                       (stop_announce dbg vid status force @ [failed_to ''stop'' vid (str_debug ''Failed to shutdown VM'')],
                        set_vm vm v' st))))"

definition by_vm_id ::
    "string \<Rightarrow> (usize \<Rightarrow> 'v vmm_state \<Rightarrow> (lines \<times> 'v vmm_state) outcome) \<Rightarrow> ParsedCommand \<Rightarrow>
     'v vmm_state \<Rightarrow> (lines \<times> 'v vmm_state) outcome" where
  "by_vm_id usage_line f cmd st =
     (if positional_args cmd = [] then Done ([''Error: No VM specified'', ''Usage: '' @ usage_line], st)
      else for_each (\<lambda>name st. case parse_usize name of
                                 Some vid \<Rightarrow> f vid st
                               | None \<Rightarrow> Done ([''Error: Invalid VM ID: '' @ name], st)) (positional_args cmd) st)"

definition vm_stop ::
    "'v axvm \<Rightarrow> (VMStatus \<Rightarrow> string) \<Rightarrow> ParsedCommand \<Rightarrow> 'v vmm_state \<Rightarrow> (lines \<times> 'v vmm_state) outcome" where
  "vm_stop A dbg cmd st =
     by_vm_id ''vm stop [OPTIONS] <VM_ID>''
       (\<lambda>vid st. Done (stop_vm_by_id A dbg vid (flag_set ''force'' cmd) st)) cmd st"

text \<open>
  The polling loop of a restart; the boolean says that the VM has stopped. The loop ends by itself
  after at most 50 polls, so that the fuel of 50 with which it is called is never used up.
\<close>

fun wait_stopped ::
    "'v axvm \<Rightarrow> (VMStatus \<Rightarrow> string) \<Rightarrow> (nat \<Rightarrow> 'v vmm_state \<Rightarrow> 'v vmm_state) \<Rightarrow> usize \<Rightarrow> nat \<Rightarrow> nat \<Rightarrow>
     'v vmm_state \<Rightarrow> bool \<times> lines \<times> 'v vmm_state" where
  "wait_stopped A dbg env vid 0 iterations st = (False, [], st)"
| "wait_stopped A dbg env vid (Suc fuel) iterations st =
     (let st1 = env iterations st
      in case with_vm vid (\<lambda>vm. ax_status A (vms st1 vm)) (GLOBAL_VM_LIST st1) of
           None \<Rightarrow> (False, [bad vid '' no longer exists''], st1)
         | Some status \<Rightarrow>
             if status = Stopped then (True, [good vid '' stopped successfully''], st1)
             else if status = Stopping then
               (if iterations + 1 \<ge> 50
                then (False, [warn vid '' stop timeout, it may still be shutting down'',
                              ''  Use 'vm status '' @ usize_str vid @ ''' to check status manually''], st1)
                else wait_stopped A dbg env vid fuel (iterations + 1) st1)
             else (False, [warn vid ('' in unexpected state: '' @ dbg status)], st1))"

definition restart_vm_by_id ::
    "'v axvm \<Rightarrow> (VMStatus \<Rightarrow> string) \<Rightarrow> nat \<Rightarrow> (nat \<Rightarrow> 'v vmm_state \<Rightarrow> 'v vmm_state) \<Rightarrow> usize \<Rightarrow> bool \<Rightarrow>
     'v vmm_state \<Rightarrow> (lines \<times> 'v vmm_state) outcome" where
  "restart_vm_by_id A dbg pick env vid force st =
     (let restarting = ''Restarting '' @ vm_tag vid @ ''...''
      in case with_vm vid (\<lambda>vm. ax_status A (vms st vm)) (GLOBAL_VM_LIST st) of
        None \<Rightarrow> Done ([restarting, bad vid '' not found''], st)
      | Some status \<Rightarrow>
          if status = Stopped \<or> status = Loaded then
            (case start_vm_by_id A pick vid st of
               Panic m \<Rightarrow> Panic m
             | Done (ls, st') \<Rightarrow> Done ([restarting, vm_tag vid @ '' is already stopped, starting...''] @ ls, st'))
          else if status = Suspended \<or> status = Running then
            (let (ls1, st1) = stop_vm_by_id A dbg vid force st;
                 (stopped, ls2, st2) = wait_stopped A dbg env vid 50 0 st1;
                 front = [restarting, ''Stopping '' @ vm_tag vid @ ''...''] @ ls1 @
                         [''Waiting for '' @ vm_tag vid @ '' to stop completely...''] @ ls2
             in if \<not> stopped then Done (front, st2)
                else case start_vm_by_id A pick vid st2 of
                       Panic m \<Rightarrow> Panic m
                     | Done (ls3, st3) \<Rightarrow> Done (front @ [''Starting '' @ vm_tag vid @ ''...''] @ ls3, st3))
          else if status = Stopping then
            Done (restarting #
              (if force then [warn vid '' is currently stopping, waiting for shutdown to complete...'']
               else [warn vid '' is currently stopping'',
                     ''  Wait for shutdown to complete, then use 'vm start '' @ usize_str vid @ [CHR 0x27],
                     ''  Or use --force to wait and then restart'']), st)
          else Done ([restarting, bad vid '' is still loading, cannot restart''], st))"

definition vm_restart ::
    "'v axvm \<Rightarrow> (VMStatus \<Rightarrow> string) \<Rightarrow> nat \<Rightarrow> (nat \<Rightarrow> 'v vmm_state \<Rightarrow> 'v vmm_state) \<Rightarrow> ParsedCommand \<Rightarrow>
     'v vmm_state \<Rightarrow> (lines \<times> 'v vmm_state) outcome" where
  "vm_restart A dbg pick env cmd st =
     by_vm_id ''vm restart [OPTIONS] <VM_ID>''
       (\<lambda>vid st. restart_vm_by_id A dbg pick env vid (flag_set ''force'' cmd) st) cmd st"

section \<open>Suspending and resuming\<close>

definition all_blocked :: "'v axvm \<Rightarrow> 'v \<Rightarrow> bool" where
  "all_blocked A v =
     (length (filter (\<lambda>s. s = VCpuBlocked) (ax_vcpu_states A v)) = length (ax_vcpu_states A v))"

fun wait_suspended ::
    "'v axvm \<Rightarrow> (nat \<Rightarrow> 'v vmm_state \<Rightarrow> 'v vmm_state) \<Rightarrow> usize \<Rightarrow> nat \<Rightarrow> nat \<Rightarrow> 'v vmm_state \<Rightarrow>
     bool \<times> 'v vmm_state" where
  "wait_suspended A env vid 0 iterations st = (False, st)"
| "wait_suspended A env vid (Suc left) iterations st =
     (let st1 = env iterations st
      in case get_vm_by_id vid (GLOBAL_VM_LIST st1) of
           Some vm \<Rightarrow> if all_blocked A (vms st1 vm) then (True, st1)
                      else wait_suspended A env vid left (iterations + 1) st1
         | None \<Rightarrow> wait_suspended A env vid left (iterations + 1) st1)"

definition suspend_vm_by_id ::
    "'v axvm \<Rightarrow> 'v vm_view \<Rightarrow> (nat \<Rightarrow> 'v vmm_state \<Rightarrow> 'v vmm_state) \<Rightarrow> usize \<Rightarrow> 'v vmm_state \<Rightarrow>
     lines \<times> 'v vmm_state" where
  "suspend_vm_by_id A V env vid st =
     (let suspending = ''Suspending '' @ vm_tag vid @ ''...''
      in case get_vm_by_id vid (GLOBAL_VM_LIST st) of
        None \<Rightarrow> ([suspending, bad vid '' not found''], st)
      | Some vm \<Rightarrow>
          (case can_suspend_vm (ax_status A (vms st vm)) of
             Inl e \<Rightarrow> ([suspending, failed_to ''suspend'' vid e], st)
           | Inr _ \<Rightarrow>
               (let st1 = set_vm vm (ax_set_status A Suspended (vms st vm)) st;
                    n = (case with_vm vid (\<lambda>vm. view_vcpu_num V (vms st1 vm)) (GLOBAL_VM_LIST st1) of
                           Some k \<Rightarrow> k | None \<Rightarrow> 0);
                    (all_suspended, st2) = wait_suspended A env vid 10 0 st1
                in ([suspending, good vid '' suspend signal sent'',
                     ''  Note: '' @ show_nat n @ '' VCpu task(s) will enter wait queue at next VMExit'',
                     ''  Waiting for VCpus to suspend...''] @
                    (if all_suspended then [''(v) All VCpu tasks are now suspended'']
                     else [''(!) Some VCpu tasks may still be transitioning to suspended state'',
                           ''  VCpus will suspend at next VMExit (timer interrupt, I/O, etc.)'',
                           ''  This is normal for VMs with low interrupt rates'']) @
                    [''  Use 'vm resume '' @ usize_str vid @ ''' to resume the VM''], st2))))"

definition vm_suspend ::
    "'v axvm \<Rightarrow> 'v vm_view \<Rightarrow> (nat \<Rightarrow> 'v vmm_state \<Rightarrow> 'v vmm_state) \<Rightarrow> ParsedCommand \<Rightarrow> 'v vmm_state \<Rightarrow>
     (lines \<times> 'v vmm_state) outcome" where
  "vm_suspend A V env cmd st =
     by_vm_id ''vm suspend <VM_ID>...'' (\<lambda>vid st. Done (suspend_vm_by_id A V env vid st)) cmd st"

definition resume_vm_by_id :: "'v axvm \<Rightarrow> usize \<Rightarrow> 'v vmm_state \<Rightarrow> lines \<times> 'v vmm_state" where
  "resume_vm_by_id A vid st =
     (let resuming = ''Resuming '' @ vm_tag vid @ ''...''
      in case get_vm_by_id vid (GLOBAL_VM_LIST st) of
        None \<Rightarrow> ([resuming, bad vid '' not found''], st)
      | Some vm \<Rightarrow>
          (case can_resume_vm (ax_status A (vms st vm)) of
             Inl e \<Rightarrow> ([resuming, failed_to ''resume'' vid e], st)
           | Inr _ \<Rightarrow>
               ([resuming, good vid '' resumed successfully''],
                notify_all_vcpus vid (set_vm vm (ax_set_status A Running (vms st vm)) st))))"

definition vm_resume :: "'v axvm \<Rightarrow> ParsedCommand \<Rightarrow> 'v vmm_state \<Rightarrow> (lines \<times> 'v vmm_state) outcome" where
  "vm_resume A cmd st =
     by_vm_id ''vm resume <VM_ID>...'' (\<lambda>vid st. Done (resume_vm_by_id A vid st)) cmd st"

section \<open>Deleting\<close>

text \<open>The third component is the vCPU tasks that the command joins, and blocks on.\<close>

definition delete_vm_by_id ::
    "'v axvm \<Rightarrow> (VMStatus \<Rightarrow> string) \<Rightarrow> usize \<Rightarrow> bool \<Rightarrow> 'v vmm_state \<Rightarrow> lines \<times> 'v vmm_state \<times> nat list" where
  "delete_vm_by_id A dbg vid keep_data st =
     (case get_vm_by_id vid (GLOBAL_VM_LIST st) of
        None \<Rightarrow> ([bad vid '' not found or already removed''], st, [])
      | Some vm \<Rightarrow>
          (let status = ax_status A (vms st vm);
               (ls1, st1) =
                 (if status = Running \<or> status = Suspended \<or> status = Stopping
                  then ([''  '' @ vm_tag vid @ '' is '' @ dbg status @ '', sending shutdown signal...''],
                        set_vm vm (snd (ax_shutdown A (ax_set_status A Stopping (vms st vm)))) st)
                  else if status = Loaded then ([], set_vm vm (ax_set_status A Stopped (vms st vm)) st)
                  else ([], st))
           in case remove_vm vid (GLOBAL_VM_LIST st1) of
                (None, l) \<Rightarrow>
                  (ls1 @ [''(x) Failed to remove '' @ vm_tag vid @ '' from list (may have been removed already)'',
                          good vid '' deletion completed''], st1\<lparr>GLOBAL_VM_LIST := l\<rparr>, [])
              | (Some _, l) \<Rightarrow>
                  (let (joins, st2) = cleanup_vm_vcpus vid (st1\<lparr>GLOBAL_VM_LIST := l\<rparr>);
                       ls2 = (if status \<in> {Running, Suspended, Stopping, Stopped}
                              then [''  Waiting for vCPU threads to exit...'', ''  Cleaning up VCpu resources...''] else [])
                   in (ls1 @ [good vid '' removed from VM list''] @ ls2 @
                       [good vid (if keep_data then '' deleted (configuration and data preserved)''
                                  else '' deleted completely''),
                        ''  '' @ vm_tag vid @ '' will be freed now'', good vid '' deletion completed''],
                       st2, joins))))"

definition delete_check :: "(VMStatus \<Rightarrow> string) \<Rightarrow> usize \<Rightarrow> VMStatus \<Rightarrow> bool \<Rightarrow> bool \<times> lines" where
  "delete_check dbg vid status force =
     (case status of
        Running \<Rightarrow>
          (if force then (True, [''(!) Force deleting running '' @ vm_tag vid @ ''...''])
           else (False, [bad vid '' is currently running'',
                         ''  Use 'vm stop '' @ usize_str vid @ ''' first, or use '--force' to force delete'']))
      | Stopping \<Rightarrow>
          (if force then (True, [''(!) Force deleting stopping '' @ vm_tag vid @ ''...''])
           else (False, [warn vid '' is currently stopping'',
                         ''  Wait for it to stop completely, or use '--force' to force delete'']))
      | Stopped \<Rightarrow> (True, [''Deleting stopped '' @ vm_tag vid @ ''...''])
      | _ \<Rightarrow> (force, [warn vid ('' is in '' @ dbg status @ '' state'')] @
               (if force then [] else [''Use --force to force delete''])))"

definition vm_delete ::
    "'v axvm \<Rightarrow> (VMStatus \<Rightarrow> string) \<Rightarrow> ParsedCommand \<Rightarrow> 'v vmm_state \<Rightarrow> lines \<times> 'v vmm_state \<times> nat list" where
  "vm_delete A dbg cmd st =
     (case positional_args cmd of
        [] \<Rightarrow> ([''Error: No VM specified'', ''Usage: vm delete [OPTIONS] <VM_ID>''], st, [])
      | name # _ \<Rightarrow>
          (case parse_usize name of
             None \<Rightarrow> ([''Error: Invalid VM ID: '' @ name], st, [])
           | Some vid \<Rightarrow>
               (case with_vm vid (\<lambda>vm. ax_status A (vms st vm)) (GLOBAL_VM_LIST st) of
                  None \<Rightarrow> ([bad vid '' not found''], st, [])
                | Some status \<Rightarrow>
                    (let (go_on, ls) = delete_check dbg vid status (flag_set ''force'' cmd)
                     in if \<not> go_on then (ls, st, [])
                        else (let (ls', st', joins) = delete_vm_by_id A dbg vid (flag_set ''keep-data'' cmd) st
                              in (ls @ ls', st', joins))))))"

section \<open>Creating\<close>

text \<open>
  Reading the configuration file and building the VM from it are the arguments \<open>read_to_string\<close> and
  \<open>init_guest_vm\<close>; the second may push the new VM into the table. An error of the first comes with
  its debug text.
\<close>

definition create_from ::
    "(string \<Rightarrow> string + string) \<Rightarrow> (string \<Rightarrow> 'v vmm_state \<Rightarrow> usize ax_result \<times> 'v vmm_state) \<Rightarrow> string \<Rightarrow>
     'v vmm_state \<Rightarrow> (lines \<times> 'v vmm_state) outcome" where
  "create_from read_to_string init_guest_vm path st =
     (let creating = ''Creating VM from config: '' @ path
      in case read_to_string path of
        Inl e \<Rightarrow> Done ([creating, ''(x) Failed to read config file '' @ path @ '': '' @ e], st)
      | Inr raw_cfg \<Rightarrow>
          (case init_guest_vm raw_cfg st of
             (Inr vid, st') \<Rightarrow>
               Done ([creating, ''(v) Successfully created '' @ vm_tag vid @ '' from config: '' @ path], st')
           | (Inl _, st') \<Rightarrow>
               Done ([creating, ''(x) Failed to create VM from '' @ path @ '': Configuration error or panic occurred''], st')))"

definition vm_create ::
    "(string \<Rightarrow> string + string) \<Rightarrow> (string \<Rightarrow> 'v vmm_state \<Rightarrow> usize ax_result \<times> 'v vmm_state) \<Rightarrow>
     ParsedCommand \<Rightarrow> 'v vmm_state \<Rightarrow> (lines \<times> 'v vmm_state) outcome" where
  "vm_create read_to_string init_guest_vm cmd st =
     (let args = positional_args cmd;
          front = ''Positional args: ['' @ str_join '', '' (map str_debug args) @ '']''
      in if args = [] then Done ([front, ''Error: No VM configuration file specified'',
                                  ''Usage: vm create [CONFIG_FILE]''], st)
         else case for_each (create_from read_to_string init_guest_vm) args st of
                Panic m \<Rightarrow> Panic m
              | Done (ls, st') \<Rightarrow>
                  (let initial_vm_count = of_nat (length (get_vm_list (GLOBAL_VM_LIST st))) :: usize;
                       final_vm_count = of_nat (length (get_vm_list (GLOBAL_VM_LIST st')));
                       created_count = final_vm_count - initial_vm_count
                   in Done ([front] @ ls @
                        (if created_count > 0
                         then [''Successfully created '' @ usize_str created_count @ '' VM(s)'',
                               ''Use 'vm start <VM_ID>' to start the created VMs.'']
                         else [''No VMs were created.'']), st')))"


section \<open>The life cycle of a VM under the commands\<close>

datatype vm_command = CStart usize | CStop usize bool | CSuspend usize | CResume usize | CDelete usize bool

fun command_vm :: "vm_command \<Rightarrow> usize" where
  "command_vm (CStart i) = i"
| "command_vm (CStop i _) = i"
| "command_vm (CSuspend i) = i"
| "command_vm (CResume i) = i"
| "command_vm (CDelete i _) = i"

text \<open>What a command does to the state when no other task intervenes while it polls.\<close>

fun run_vm_command ::
    "'v axvm \<Rightarrow> 'v vm_view \<Rightarrow> (VMStatus \<Rightarrow> string) \<Rightarrow> nat \<Rightarrow> vm_command \<Rightarrow> 'v vmm_state \<Rightarrow> 'v vmm_state outcome" where
  "run_vm_command A V dbg pick (CStart i) st =
     (case start_vm_by_id A pick i st of Panic m \<Rightarrow> Panic m | Done (_, st') \<Rightarrow> Done st')"
| "run_vm_command A V dbg pick (CStop i force) st = Done (snd (stop_vm_by_id A dbg i force st))"
| "run_vm_command A V dbg pick (CSuspend i) st = Done (snd (suspend_vm_by_id A V (\<lambda>_ s. s) i st))"
| "run_vm_command A V dbg pick (CResume i) st = Done (snd (resume_vm_by_id A i st))"
| "run_vm_command A V dbg pick (CDelete i keep_data) st = Done (fst (snd (delete_vm_by_id A dbg i keep_data st)))"

text \<open>The transitions that each command may make.\<close>

fun allowed :: "vm_command \<Rightarrow> VMStatus \<Rightarrow> VMStatus \<Rightarrow> bool" where
  "allowed (CStart _) s t = (s \<in> {Loaded, Stopped} \<and> t = Running)"
| "allowed (CStop _ force) s t = (t = Stopping \<and> s \<noteq> Stopped \<and> (s \<noteq> Stopping \<or> force))"
| "allowed (CSuspend _) s t = (s = Running \<and> t = Suspended)"
| "allowed (CResume _) s t = (s = Suspended \<and> t = Running)"
| "allowed (CDelete _ _) s t = (s \<in> {Running, Suspended, Stopping} \<and> t = Stopping \<or> s = Loaded \<and> t = Stopped)"

text \<open>What is relied on of the status methods of the VM object.\<close>

definition axvm_status_laws :: "'v axvm \<Rightarrow> bool" where
  "axvm_status_laws A =
     ((\<forall>s v. ax_status A (ax_set_status A s v) = s) \<and>
      (\<forall>v u v'. ax_boot A v = (Inr u, v') \<longrightarrow> ax_status A v' = Running) \<and>
      (\<forall>v e v'. ax_boot A v = (Inl e, v') \<longrightarrow> ax_status A v' = ax_status A v) \<and>
      (\<forall>v u v'. ax_shutdown A v = (Inr u, v') \<longrightarrow> ax_status A v' = Stopping) \<and>
      (\<forall>v e v'. ax_shutdown A v = (Inl e, v') \<longrightarrow> ax_status A v' = ax_status A v))"

lemma vms_simps [simp]:
  "vms (queue_insert i e st) = vms st" "vms (queue_remove i st) = vms st" "vms (set_pc t pc st) = vms st"
  "vms (wq_notify_all wq st) = vms st" "vms (notify_all_vcpus i st) = vms st"
  "vms (add_running_vm_count n st) = vms st" "vms (snd (cleanup_vm_vcpus i st)) = vms st"
  "vms (set_vm vm v st) = (vms st)(vm := v)"
  by (auto simp: queue_insert_def queue_remove_def set_pc_def wq_notify_all_def notify_all_vcpus_def
      add_running_vm_count_def cleanup_vm_vcpus_def set_vm_def split: option.splits)

lemma vms_setup: "setup_vm_primary_vcpu A vm st = Done st' \<Longrightarrow> vms st' = vms st"
  by (auto simp: setup_vm_primary_vcpu_def Let_def alloc_vcpu_task_def split: if_splits)

lemma vms_notify_primary: "notify_primary_vcpu pick i st = Done st' \<Longrightarrow> vms st' = vms st"
  by (auto simp: notify_primary_vcpu_def wq_notify_one_def split: option.splits if_splits)

lemma can_start_vm_Inr: "can_start_vm s = Inr u \<longleftrightarrow> s \<in> {Loaded, Stopped}"
  by (cases s) auto

lemma can_stop_vm_Inr: "can_stop_vm s force = Inr u \<longleftrightarrow> s \<noteq> Stopped \<and> (s \<noteq> Stopping \<or> force)"
  by (cases s) auto

lemma can_suspend_vm_Inr: "can_suspend_vm s = Inr u \<longleftrightarrow> s = Running"
  by (cases s) auto

lemma can_resume_vm_Inr: "can_resume_vm s = Inr u \<longleftrightarrow> s = Suspended"
  by (cases s) auto

lemmas can_simps = can_start_vm_Inr can_stop_vm_Inr can_suspend_vm_Inr can_resume_vm_Inr

lemma wait_suspended_id: "snd (wait_suspended A (\<lambda>_ s. s) i n k st) = st"
  by (induction n arbitrary: k) (auto simp: Let_def split: option.splits)

text \<open>A start that succeeds boots the VM; one that fails leaves the object as the failed boot left it.\<close>

lemma start_single_vm_vms:
  assumes "start_single_vm A pick vm st = Done (r, st')"
  shows "vms st' = vms st \<or> can_start_vm (ax_status A (vms st vm)) = Inr () \<and>
    (\<exists>v' b. ax_boot A (vms st vm) = (b, v') \<and> vms st' = (vms st)(vm := v'))"
  using assms vms_setup[of A vm st]
  by (auto simp: start_single_vm_def dest!: vms_notify_primary
      split: sum.splits outcome.splits prod.splits if_splits)


lemma stop_vms:
  "vms (snd (stop_vm_by_id A dbg i force st)) = vms st \<or>
   (\<exists>vm r v'. get_vm_by_id i (GLOBAL_VM_LIST st) = Some vm \<and> can_stop_vm (ax_status A (vms st vm)) force = Inr () \<and>
      ax_shutdown A (vms st vm) = (r, v') \<and> vms (snd (stop_vm_by_id A dbg i force st)) = (vms st)(vm := v'))"
  by (auto simp: stop_vm_by_id_def Let_def split: option.splits sum.splits prod.splits)

lemma suspend_vms:
  "vms (snd (suspend_vm_by_id A V (\<lambda>_ s. s) i st)) = vms st \<or>
   (\<exists>vm. get_vm_by_id i (GLOBAL_VM_LIST st) = Some vm \<and> ax_status A (vms st vm) = Running \<and>
      vms (snd (suspend_vm_by_id A V (\<lambda>_ s. s) i st)) = (vms st)(vm := ax_set_status A Suspended (vms st vm)))"
  using wait_suspended_id[of A i 10 0]
  by (auto simp: suspend_vm_by_id_def Let_def can_simps split: option.splits sum.splits prod.splits)
     (metis snd_conv vms_simps(8))+

lemma resume_vms:
  "vms (snd (resume_vm_by_id A i st)) = vms st \<or>
   (\<exists>vm. get_vm_by_id i (GLOBAL_VM_LIST st) = Some vm \<and> ax_status A (vms st vm) = Suspended \<and>
      vms (snd (resume_vm_by_id A i st)) = (vms st)(vm := ax_set_status A Running (vms st vm)))"
  by (auto simp: resume_vm_by_id_def Let_def can_simps split: option.splits sum.splits prod.splits)

text \<open>The object that a delete leaves behind.\<close>

definition deleted_object :: "'v axvm \<Rightarrow> 'v \<Rightarrow> 'v" where
  "deleted_object A v =
     (if ax_status A v \<in> {Running, Suspended, Stopping} then snd (ax_shutdown A (ax_set_status A Stopping v))
      else if ax_status A v = Loaded then ax_set_status A Stopped v else v)"

lemma delete_vm_by_id_found:
  assumes "get_vm_by_id i (GLOBAL_VM_LIST st) = Some vm"
  shows "\<exists>ls. delete_vm_by_id A dbg i keep_data st =
    (ls, snd (cleanup_vm_vcpus i (set_vm vm (deleted_object A (vms st vm)) st
           \<lparr>GLOBAL_VM_LIST := snd (remove_vm i (GLOBAL_VM_LIST st))\<rparr>)),
     fst (cleanup_vm_vcpus i st))"
proof -
  have "get_vm_by_id i (GLOBAL_VM_LIST (set_vm vm v st)) = Some vm" for v
    using assms by (simp add: set_vm_def)
  moreover have "fst (cleanup_vm_vcpus i (set_vm vm v st\<lparr>GLOBAL_VM_LIST := l\<rparr>)) = fst (cleanup_vm_vcpus i st)" for v l
    by (simp add: cleanup_vm_vcpus_def set_vm_def queue_get_def split: option.splits)
  moreover have "fst (cleanup_vm_vcpus i (st\<lparr>GLOBAL_VM_LIST := l\<rparr>)) = fst (cleanup_vm_vcpus i st)" for l
    by (simp add: cleanup_vm_vcpus_def queue_get_def split: option.splits)
  ultimately show ?thesis
    using assms
    by (cases "ax_status A (vms st vm)")
       (auto simp: delete_vm_by_id_def Let_def deleted_object_def remove_vm_def VMList_remove_vm_def
          get_vm_by_id_def VMList_get_vm_by_id_def set_vm_def case_prod_beta)
qed

lemma run_CDelete:
  "run_vm_command A V dbg pick (CDelete i keep_data) st =
     (case get_vm_by_id i (GLOBAL_VM_LIST st) of
        None \<Rightarrow> Done st
      | Some vm \<Rightarrow> Done (snd (cleanup_vm_vcpus i (set_vm vm (deleted_object A (vms st vm)) st
                           \<lparr>GLOBAL_VM_LIST := snd (remove_vm i (GLOBAL_VM_LIST st))\<rparr>))))"
proof (cases "get_vm_by_id i (GLOBAL_VM_LIST st)")
  case None
  then show ?thesis by (simp add: delete_vm_by_id_def)
next
  case (Some vm)
  then show ?thesis using delete_vm_by_id_found[OF Some, of A dbg keep_data] by auto
qed

lemma vms_cleanup_list [simp]: "vms (snd (cleanup_vm_vcpus i (st\<lparr>GLOBAL_VM_LIST := l\<rparr>))) = vms st"
  by simp

lemma deleted_status:
  assumes "axvm_status_laws A"
  shows "ax_status A (deleted_object A v) = ax_status A v \<or>
    allowed (CDelete i keep_data) (ax_status A v) (ax_status A (deleted_object A v))"
proof (cases "ax_shutdown A (ax_set_status A Stopping v)")
  case (Pair r v')
  with assms have "ax_status A v' = Stopping"
    by (cases r) (auto simp: axvm_status_laws_def)
  with Pair assms show ?thesis
    by (auto simp: deleted_object_def axvm_status_laws_def)
qed

text \<open>
  \<^bold>\<open>C13\<close> (safety). A command changes no VM object but that of the VM it names, and the status of that
  VM only along the transitions of its kind: a start takes a loaded or stopped VM to running, a stop
  any VM that is not stopped to stopping (one that is stopping only when forced), a suspend a
  running VM to suspended, a resume a suspended one to running, and a delete a VM with vCPU tasks
  to stopping or a loaded one to stopped.
\<close>

theorem vm_command_lifecycle:
  assumes "axvm_status_laws A" "run_vm_command A V dbg pick c st = Done st'" "vms st' vm \<noteq> vms st vm"
  shows "get_vm_by_id (command_vm c) (GLOBAL_VM_LIST st) = Some vm \<and>
    (ax_status A (vms st' vm) = ax_status A (vms st vm) \<or>
     allowed c (ax_status A (vms st vm)) (ax_status A (vms st' vm)))"
proof (cases c)
  case (CStart i)
  obtain w r where w: "get_vm_by_id i (GLOBAL_VM_LIST st) = Some w" "start_single_vm A pick w st = Done (r, st')"
    using assms(2,3) CStart
    by (auto simp: start_vm_by_id_def with_vm_def split: option.splits outcome.splits prod.splits sum.splits)
  obtain b v' where b: "can_start_vm (ax_status A (vms st w)) = Inr ()" "ax_boot A (vms st w) = (b, v')"
      "vms st' = (vms st)(w := v')"
    using start_single_vm_vms[OF w(2)] assms(3) by auto
  have "ax_status A v' = ax_status A (vms st w) \<or> ax_status A v' = Running"
    using assms(1) b(2) by (cases b) (auto simp: axvm_status_laws_def)
  with b w assms(3) CStart show ?thesis by (auto simp: can_simps split: if_splits)
next
  case (CStop i force)
  obtain w r v' where w: "get_vm_by_id i (GLOBAL_VM_LIST st) = Some w" "can_stop_vm (ax_status A (vms st w)) force = Inr ()"
      "ax_shutdown A (vms st w) = (r, v')" "vms st' = (vms st)(w := v')"
    using stop_vms[of A dbg i force st] assms(2,3) CStop by auto
  have "ax_status A v' = ax_status A (vms st w) \<or> ax_status A v' = Stopping"
    using assms(1) w(3) by (cases r) (auto simp: axvm_status_laws_def)
  with w assms(3) CStop show ?thesis by (auto simp: can_simps split: if_splits)
next
  case (CSuspend i)
  then show ?thesis
    using suspend_vms[of A V i st] assms by (auto simp: axvm_status_laws_def split: if_splits)
next
  case (CResume i)
  then show ?thesis
    using resume_vms[of A i st] assms by (auto simp: axvm_status_laws_def split: if_splits)
next
  case (CDelete i keep_data)
  obtain w where w: "get_vm_by_id i (GLOBAL_VM_LIST st) = Some w"
      "vms st' = (vms st)(w := deleted_object A (vms st w))"
    using assms(2,3) CDelete by (auto simp: run_CDelete simp del: run_vm_command.simps split: option.splits)
  with deleted_status[OF assms(1), of "vms st w"] assms(3) CDelete show ?thesis
    by (auto split: if_splits)
qed


definition shell_vm_state :: "vcpu_pc \<Rightarrow> usize \<Rightarrow> VMStatus \<Rightarrow> (usize \<times> VMStatus) vmm_state" where
  "shell_vm_state pc n s = (one_vm_task pc n s)\<lparr>GLOBAL_VM_LIST := \<lparr>vm_list = [(1, 0)]\<rparr>\<rparr>"

lemma simple_axvm_status_laws: "axvm_status_laws simple_axvm"
  by (simp add: axvm_status_laws_def simple_axvm_def)

lemma shell_vm_state_get: "get_vm_by_id 1 (GLOBAL_VM_LIST (shell_vm_state pc n s)) = Some 0"
  by (simp add: shell_vm_state_def get_vm_by_id_def VMList_get_vm_by_id_def bt_get_def)

lemma shell_vm_state_stop:
  "run_vm_command simple_axvm V dbg 0 (CStop 1 False) (shell_vm_state pc n Suspended) =
   Done (set_vm 0 (1, Stopping) (shell_vm_state pc n Suspended))"
  by (simp add: stop_vm_by_id_def shell_vm_state_get Let_def simple_axvm_def)
     (simp add: shell_vm_state_def one_vm_task_def)


definition plain_view :: "'v vm_view" where
  "plain_view = \<lparr>view_name = (\<lambda>_. ''guest''), view_as_str = (\<lambda>_. ''vm''), view_as_str_with_icon = (\<lambda>_. ''vm''),
     view_vcpu_num = (\<lambda>_. 1), view_vcpu_list = (\<lambda>_. []), view_memory_regions = (\<lambda>_. []),
     view_ept_root = (\<lambda>_. 0), view_bsp_entry = (\<lambda>_. 0), view_ap_entry = (\<lambda>_. 0), view_interrupt_mode = (\<lambda>_. []),
     view_dtb_load_gpa = (\<lambda>_. None), view_kernel_load_gpa = (\<lambda>_. 0), view_pass_through_devices = (\<lambda>_. []),
     view_pass_through_addresses = (\<lambda>_. []), view_pass_through_spis = (\<lambda>_. []), view_emu_devices = (\<lambda>_. []),
     view_mmio_dev_count = (\<lambda>_. 0), view_sys_reg_dev_count = (\<lambda>_. 0)\<rparr>"

theorem vm_command_lifecycle_witness:
  "run_vm_command simple_axvm plain_view (\<lambda>_. ''status'') 0 (CStop 1 False) (shell_vm_state InGuest 1 Suspended) =
     Done (set_vm 0 (1, Stopping) (shell_vm_state InGuest 1 Suspended)) \<and>
   get_vm_by_id 1 (GLOBAL_VM_LIST (shell_vm_state InGuest 1 Suspended)) = Some 0"
proof -
  have "vms (set_vm 0 (1, Stopping) (shell_vm_state InGuest 1 Suspended)) 0 \<noteq> vms (shell_vm_state InGuest 1 Suspended) 0"
    by (simp add: shell_vm_state_def one_vm_task_def)
  then show ?thesis
    using vm_command_lifecycle[OF simple_axvm_status_laws shell_vm_state_stop] shell_vm_state_stop by fastforce
qed

section \<open>The commands as runs of the vCPU system\<close>

fun wakes :: "vm_command \<Rightarrow> bool" where
  "wakes (CStart _) = True"
| "wakes (CResume _) = True"
| "wakes _ = False"

lemma start_single_vm_run:
  assumes "axvm_id_laws A" "start_single_vm A pick vm st = Done (r, st')"
    "counted_tasks A (ax_id A (vms st vm)) st = []"
  shows "\<exists>ls. vmm_run A ls st st'"
proof (cases "can_start_vm (ax_status A (vms st vm))")
  case (Inl e)
  then have "st' = st" using assms(2) by (simp add: start_single_vm_def)
  then show ?thesis by (intro exI[of _ "[]"]) simp
next
  case (Inr u)
  then obtain st1 b v' where s: "setup_vm_primary_vcpu A vm st = Done st1" "ax_boot A (vms st1 vm) = (b, v')"
    using assms(2) by (auto simp: start_single_vm_def split: outcome.splits prod.splits)
  have 1: "vmm_step A (Setup vm) st st1" by (rule setup_vm[OF s(1) assms(3)])
  have 2: "vmm_step A (VmChanges vm v') st1 (set_vm vm v' st1)"
    by (rule vm_changes) (use assms(1) s(2) in \<open>auto simp: axvm_id_laws_def\<close>)
  show ?thesis
  proof (cases b)
    case (Inl e)
    then have "st' = set_vm vm v' st1" using assms(2) s \<open>can_start_vm _ = Inr u\<close> by (simp add: start_single_vm_def)
    then have "vmm_run A [Setup vm, VmChanges vm v'] st st'" using 1 2 by auto
    then show ?thesis by (rule exI)
  next
    case b: (Inr u')
    then obtain st2 where st2: "notify_primary_vcpu pick (ax_id A (vms st vm)) (set_vm vm v' st1) = Done st2"
        "st' = add_running_vm_count 1 st2"
      using assms(2) s Inr by (auto simp: start_single_vm_def split: outcome.splits)
    have "vmm_run A [Setup vm, VmChanges vm v', NotifyPrimary pick (ax_id A (vms st vm)), CountAdd 1] st st'"
      using 1 2 notify_primary[OF st2(1), of A] count_add[of A 1 st2] st2(2) by auto
    then show ?thesis by (rule exI)
  qed
qed


lemma set_vm_run:
  assumes "ax_id A v = ax_id A (vms st vm)"
  shows "vmm_run A [VmChanges vm v] st (set_vm vm v st)"
  using vm_changes[OF assms] by auto

lemma GLOBAL_VM_LIST_simps [simp]:
  "GLOBAL_VM_LIST (set_vm vm v st) = GLOBAL_VM_LIST st" "GLOBAL_VM_LIST (queue_insert i e st) = GLOBAL_VM_LIST st"
  "GLOBAL_VM_LIST (set_pc t pc st) = GLOBAL_VM_LIST st" "GLOBAL_VM_LIST (notify_all_vcpus i st) = GLOBAL_VM_LIST st"
  "GLOBAL_VM_LIST (add_running_vm_count n st) = GLOBAL_VM_LIST st"
  by (auto simp: set_vm_def queue_insert_def set_pc_def notify_all_vcpus_def wq_notify_all_def
      add_running_vm_count_def split: option.splits)

lemma GLOBAL_VM_LIST_start:
  "start_single_vm A pick vm st = Done (r, st') \<Longrightarrow> GLOBAL_VM_LIST st' = GLOBAL_VM_LIST st"
  by (auto simp: start_single_vm_def setup_vm_primary_vcpu_def notify_primary_vcpu_def alloc_vcpu_task_def Let_def
      wq_notify_one_def split: sum.splits outcome.splits prod.splits if_splits option.splits)

lemma cleanup_list:
  "(snd (cleanup_vm_vcpus i (st\<lparr>GLOBAL_VM_LIST := l\<rparr>)))\<lparr>GLOBAL_VM_LIST := GLOBAL_VM_LIST st\<rparr> = snd (cleanup_vm_vcpus i st)"
  by (auto simp: cleanup_vm_vcpus_def queue_get_def queue_remove_def split: option.splits)

lemma axvm_ids:
  assumes "axvm_id_laws A"
  shows "ax_id A (ax_set_status A s v) = ax_id A v" "ax_id A (snd (ax_shutdown A v)) = ax_id A v"
    "ax_shutdown A v = (r, v') \<Longrightarrow> ax_id A v' = ax_id A v" "ax_id A (deleted_object A v) = ax_id A v"
proof -
  show 1: "ax_id A (ax_set_status A s v) = ax_id A v" for s v using assms by (simp add: axvm_id_laws_def)
  show 2: "ax_id A (snd (ax_shutdown A v)) = ax_id A v" for v
    using assms by (cases "ax_shutdown A v") (auto simp: axvm_id_laws_def)
  show "ax_shutdown A v = (r, v') \<Longrightarrow> ax_id A v' = ax_id A v" using 2[of v] by simp
  show "ax_id A (deleted_object A v) = ax_id A v" by (simp add: deleted_object_def 1 2)
qed

lemma same_list: "GLOBAL_VM_LIST st' = l \<Longrightarrow> st'\<lparr>GLOBAL_VM_LIST := l\<rparr> = st'"
  by auto

text \<open>Runs in which no wait queue is notified.\<close>

definition quiet_run :: "'v axvm \<Rightarrow> 'v vmm_state \<Rightarrow> 'v vmm_state \<Rightarrow> bool" where
  "quiet_run A st st' = (\<exists>ls. vmm_run A ls st st' \<and> (\<forall>l \<in> set ls. \<forall>i. \<not> notifies i l))"

lemma quiet_refl: "quiet_run A st st"
  unfolding quiet_run_def by (intro exI[of _ "[]"]) simp

lemma quiet_set_vm: "ax_id A v = ax_id A (vms st vm) \<Longrightarrow> quiet_run A st (set_vm vm v st)"
  unfolding quiet_run_def using set_vm_run[of A v st vm]
  by (intro exI[of _ "[VmChanges vm v]"]) (simp add: notifies_def)

lemma quiet_stop:
  assumes "axvm_id_laws A"
  shows "quiet_run A st (snd (stop_vm_by_id A dbg i force st))"
  by (auto simp: stop_vm_by_id_def Let_def split: option.splits sum.splits prod.splits
      intro!: quiet_refl quiet_set_vm dest: axvm_ids(3)[OF assms])

lemma quiet_suspend:
  assumes "axvm_id_laws A"
  shows "quiet_run A st (snd (suspend_vm_by_id A V (\<lambda>_ s. s) i st))"
  by (auto simp: suspend_vm_by_id_def Let_def case_prod_beta wait_suspended_id axvm_ids(1)[OF assms]
      split: option.splits sum.splits intro!: quiet_refl quiet_set_vm)

lemma quiet_delete:
  assumes "axvm_id_laws A" "run_vm_command A V dbg pick (CDelete i keep_data) st = Done st'"
  shows "quiet_run A st (st'\<lparr>GLOBAL_VM_LIST := GLOBAL_VM_LIST st\<rparr>)"
proof (cases "get_vm_by_id i (GLOBAL_VM_LIST st)")
  case None
  then show ?thesis using assms(2) quiet_refl by (simp add: run_CDelete del: run_vm_command.simps)
next
  case (Some vm)
  let ?st1 = "set_vm vm (deleted_object A (vms st vm)) st"
  have "st'\<lparr>GLOBAL_VM_LIST := GLOBAL_VM_LIST st\<rparr> = snd (cleanup_vm_vcpus i ?st1)"
    using assms(2) Some cleanup_list[of ?st1 i] by (auto simp: run_CDelete simp del: run_vm_command.simps)
  moreover have "vmm_run A [VmChanges vm (deleted_object A (vms st vm)), Cleanup i] st (snd (cleanup_vm_vcpus i ?st1))"
    using vm_changes[of A "deleted_object A (vms st vm)" st vm] axvm_ids(4)[OF assms(1)] vmm_step.cleanup[of A i ?st1] by auto
  ultimately show ?thesis
    unfolding quiet_run_def by (intro exI[of _ "[VmChanges vm (deleted_object A (vms st vm)), Cleanup i]"])
      (simp add: notifies_def)
qed

lemma resume_run:
  assumes "axvm_id_laws A"
  shows "\<exists>ls. vmm_run A ls st (snd (resume_vm_by_id A i st))"
proof (cases "\<exists>vm. get_vm_by_id i (GLOBAL_VM_LIST st) = Some vm \<and> ax_status A (vms st vm) = Suspended")
  case True
  then obtain vm where vm: "get_vm_by_id i (GLOBAL_VM_LIST st) = Some vm" "ax_status A (vms st vm) = Suspended" by blast
  have "vmm_run A [VmChanges vm (ax_set_status A Running (vms st vm)), NotifyAll i] st (snd (resume_vm_by_id A i st))"
    using vm_changes[of A "ax_set_status A Running (vms st vm)" st vm] axvm_ids(1)[OF assms]
      notify_all[of A i "set_vm vm (ax_set_status A Running (vms st vm)) st"] vm
    by (auto simp: resume_vm_by_id_def Let_def)
  then show ?thesis by (rule exI)
next
  case False
  then have "snd (resume_vm_by_id A i st) = st"
    by (auto simp: resume_vm_by_id_def Let_def can_simps split: option.splits sum.splits)
  then show ?thesis by (intro exI[of _ "[]"]) simp
qed

lemma start_run:
  assumes "axvm_id_laws A" "start_vm_by_id A pick i st = Done (ls, st')"
    "\<forall>vm. get_vm_by_id i (GLOBAL_VM_LIST st) = Some vm \<longrightarrow> counted_tasks A (ax_id A (vms st vm)) st = []"
  shows "GLOBAL_VM_LIST st' = GLOBAL_VM_LIST st \<and> (\<exists>ls. vmm_run A ls st st')"
proof (cases "get_vm_by_id i (GLOBAL_VM_LIST st)")
  case None
  then have "st' = st" using assms(2) by (auto simp: start_vm_by_id_def with_vm_def)
  then show ?thesis by (auto intro: exI[of _ "[]"])
next
  case (Some vm)
  then obtain r where r: "start_single_vm A pick vm st = Done (r, st')"
    using assms(2)
    by (auto simp: start_vm_by_id_def with_vm_def split: option.splits outcome.splits prod.splits sum.splits)
  then show ?thesis using start_single_vm_run[OF assms(1) r] GLOBAL_VM_LIST_start[OF r] assms(3) Some by simp
qed




section \<open>Waking up, or not\<close>

lemma wake_not_blocked: "\<not> blocked_on wq (wake wq pc)"
  by (cases pc) auto

text \<open>
  Resuming a suspended VM makes it running and leaves no task blocked in its wait
  queue: a task that waited for the end of the suspension is back at its wait loop, finds the VM no
  longer suspending, and its next step takes it into the guest again. Tasks blocked in other queues
  are as they were.
\<close>

theorem resume_wakes_all:
  assumes "axvm_status_laws A" "axvm_id_laws A" "\<forall>v. ax_suspending A v \<longleftrightarrow> ax_status A v = Suspended"
    "get_vm_by_id i (GLOBAL_VM_LIST st) = Some vm" "ax_id A (vms st vm) = i" "ax_status A (vms st vm) = Suspended"
    "queue_get i st = Some e" "st' = snd (resume_vm_by_id A i st)"
  shows "ax_status A (vms st' vm) = Running \<and>
    list_all (\<lambda>t. \<not> blocked_on (wait_queue e) (task_pc t)) (tasks st') \<and>
    (\<forall>t < length (tasks st). task_vm (tasks st ! t) = vm \<longrightarrow>
       task_pc (tasks st ! t) = SuspendBlocked (wait_queue e) \<longrightarrow>
       task_pc (tasks (vcpu_run_step A t x st') ! t) = InGuest) \<and>
    (\<forall>t < length (tasks st). \<not> blocked_on (wait_queue e) (task_pc (tasks st ! t)) \<longrightarrow> tasks st' ! t = tasks st ! t)"
proof -
  let ?v = "ax_set_status A Running (vms st vm)"
  have st': "st' = wq_notify_all (wait_queue e) (set_vm vm ?v st)"
    using assms(4,6-8) by (simp add: resume_vm_by_id_def Let_def notify_all_vcpus_def)
  have ts: "tasks st' = map (\<lambda>t. t\<lparr>task_pc := wake (wait_queue e) (task_pc t)\<rparr>) (tasks st)"
    and vs: "vms st' = (vms st)(vm := ?v)" and q: "queue_get i st' = Some e"
    using assms(7) by (simp_all add: st' wq_notify_all_def queue_get_def set_vm_def)
  have awake: "wake wq pc = pc" if "\<not> blocked_on wq pc" for wq pc using that by (cases pc) auto
  have "ax_status A ?v = Running" "ax_id A ?v = i" using assms(1,2,5) by (simp_all add: axvm_status_laws_def axvm_id_laws_def)
  moreover from this have "\<not> ax_suspending A ?v" using assms(3) by simp
  ultimately show ?thesis
    using q by (auto simp: vs ts list_all_iff wake_not_blocked awake vcpu_run_step_def Let_def set_pc_def)
qed

theorem resume_wakes_all_witness:
  "task_pc (tasks (vcpu_run_step simple_axvm 0 (Inl BadState)
     (snd (resume_vm_by_id simple_axvm 1 (shell_vm_state (SuspendBlocked 0) 1 Suspended)))) ! 0) = InGuest"
proof -
  let ?st = "shell_vm_state (SuspendBlocked 0) 1 Suspended"
  have st: "vms ?st 0 = (1, Suspended)" "tasks ?st = [\<lparr>task_vm = 0, task_vcpu = 0, task_pc = SuspendBlocked 0\<rparr>]"
    by (simp_all add: shell_vm_state_def one_vm_task_def)
  have q: "queue_get 1 ?st = Some \<lparr>vmvcpus_vm_id = 1, wait_queue = 0, vcpu_task_list = [0], running_halting_vcpu_count = 1\<rparr>"
    by (simp add: shell_vm_state_def one_vm_task_def queue_get_def bt_get_def)
  have ax: "ax_id simple_axvm (vms ?st 0) = 1" "ax_status simple_axvm (vms ?st 0) = Suspended"
    "\<forall>v. ax_suspending simple_axvm v \<longleftrightarrow> ax_status simple_axvm v = Suspended"
    by (simp_all add: st simple_axvm_def)
  show ?thesis
    using resume_wakes_all[OF simple_axvm_status_laws simple_axvm_laws ax(3) shell_vm_state_get ax(1,2) q refl, of "Inl BadState"]
    by (simp add: st)
qed

text \<open>
  A stop, suspend or delete wakes nobody: a task that is blocked in the VM's wait
  queue when the command is given is blocked in every later state, whatever steps follow, until the
  VM is notified. In particular a suspended VM that is told to stop keeps its tasks and never
  becomes stopped by them, and joining them after a delete does not return.
\<close>

theorem stop_wakes_nobody:
  assumes "axvm_id_laws A" "wq_inv st" "queue_get i st = Some e" "t < length (tasks st)"
    "blocked_on (wait_queue e) (task_pc (tasks st ! t))" "\<not> wakes c" "run_vm_command A V dbg pick c st = Done st'"
    "vmm_run A ls (st'\<lparr>GLOBAL_VM_LIST := GLOBAL_VM_LIST st\<rparr>) st''" "\<forall>l \<in> set ls. \<not> notifies i l"
  shows "tasks st'' ! t = tasks st ! t \<and> \<not> join_returns [t] st''"
proof -
  have "blocked_in t (wait_queue e) i st"
    using assms(2-5) unfolding blocked_in_def wq_inv_def by blast
  moreover obtain ls0 where "vmm_run A ls0 st (st'\<lparr>GLOBAL_VM_LIST := GLOBAL_VM_LIST st\<rparr>)" "\<forall>l \<in> set ls0. \<not> notifies i l"
  proof (cases c)
    case (CStop j force)
    have "GLOBAL_VM_LIST (snd (stop_vm_by_id A dbg j force st)) = GLOBAL_VM_LIST st"
      by (auto simp: stop_vm_by_id_def Let_def split: option.splits sum.splits prod.splits)
    then show ?thesis using that quiet_stop[OF assms(1), of st dbg j force] CStop assms(7)
      by (auto simp: quiet_run_def same_list)
  next
    case (CSuspend j)
    have "GLOBAL_VM_LIST (snd (suspend_vm_by_id A V (\<lambda>_ s. s) j st)) = GLOBAL_VM_LIST st"
      by (auto simp: suspend_vm_by_id_def Let_def case_prod_beta wait_suspended_id split: option.splits sum.splits)
    then show ?thesis using that quiet_suspend[OF assms(1), of st V j] CSuspend assms(7)
      by (auto simp: quiet_run_def same_list)
  next
    case (CDelete j keep_data)
    then show ?thesis using that quiet_delete[OF assms(1) assms(7)[unfolded CDelete]] by (auto simp: quiet_run_def)
  qed (use assms(6) in simp_all)
  ultimately have b: "blocked_in t (wait_queue e) i (st'\<lparr>GLOBAL_VM_LIST := GLOBAL_VM_LIST st\<rparr>)"
      "tasks (st'\<lparr>GLOBAL_VM_LIST := GLOBAL_VM_LIST st\<rparr>) ! t = tasks st ! t"
    using blocked_in_run by blast+
  have "tasks st'' ! t = tasks st ! t" using blocked_in_run[OF assms(8) b(1) assms(9)] b(2) by simp
  then show ?thesis using assms(5) by (auto simp: join_returns_def)
qed

theorem stop_wakes_nobody_witness:
  "tasks (set_vm 0 (1, Stopping) (shell_vm_state (SuspendBlocked 0) 1 Suspended)) ! 0 =
     tasks (shell_vm_state (SuspendBlocked 0) 1 Suspended) ! 0 \<and>
   \<not> join_returns [0] (set_vm 0 (1, Stopping) (shell_vm_state (SuspendBlocked 0) 1 Suspended))"
proof -
  let ?st = "shell_vm_state (SuspendBlocked 0) 1 Suspended"
  have q: "queue_get i ?st = (if i = 1 then Some \<lparr>vmvcpus_vm_id = 1, wait_queue = 0, vcpu_task_list = [0],
      running_halting_vcpu_count = 1\<rparr> else None)" for i
    by (simp add: shell_vm_state_def one_vm_task_def queue_get_def bt_get_def)
  have "wq_inv ?st" by (auto simp: wq_inv_def q split: if_splits) (simp_all add: shell_vm_state_def one_vm_task_def bt_inv_def)
  moreover have "0 < length (tasks ?st)" "blocked_on 0 (task_pc (tasks ?st ! 0))"
    by (simp_all add: shell_vm_state_def one_vm_task_def)
  ultimately show ?thesis
    using stop_wakes_nobody[OF simple_axvm_laws, of ?st 1 _ 0 "CStop 1 False" plain_view "\<lambda>_. ''status''" 0 _ "[]"]
      shell_vm_state_stop[of plain_view "\<lambda>_. ''status''"] by (simp add: q same_list)
qed

section \<open>The polling loop of a restart\<close>

text \<open>The state at the \<open>n\<close>-th poll, and what the poll sees.\<close>

primrec polled :: "(nat \<Rightarrow> 'v vmm_state \<Rightarrow> 'v vmm_state) \<Rightarrow> 'v vmm_state \<Rightarrow> nat \<Rightarrow> 'v vmm_state" where
  "polled env st 0 = env 0 st"
| "polled env st (Suc n) = env (Suc n) (polled env st n)"

definition poll :: "'v axvm \<Rightarrow> (nat \<Rightarrow> 'v vmm_state \<Rightarrow> 'v vmm_state) \<Rightarrow> usize \<Rightarrow> 'v vmm_state \<Rightarrow> nat \<Rightarrow> VMStatus option" where
  "poll A env i st n = with_vm i (\<lambda>vm. ax_status A (vms (polled env st n) vm)) (GLOBAL_VM_LIST (polled env st n))"

lemma wait_stopped_polls:
  assumes "k < 50" "50 - k \<le> fuel" "env k s = polled env st k" "\<forall>n < k. poll A env i st n = Some Stopping"
  shows "\<exists>j < 50. (\<forall>n < j. poll A env i st n = Some Stopping) \<and> (poll A env i st j \<noteq> Some Stopping \<or> j = 49) \<and>
    fst (wait_stopped A dbg env i fuel k s) = (poll A env i st j = Some Stopped) \<and>
    snd (snd (wait_stopped A dbg env i fuel k s)) = polled env st j"
  using assms
proof (induction fuel arbitrary: k s)
  case (Suc fuel)
  show ?case
  proof (cases "poll A env i st k = Some Stopping \<and> k < 49")
    case True
    have eq: "wait_stopped A dbg env i (Suc fuel) k s = wait_stopped A dbg env i fuel (Suc k) (polled env st k)"
      using True Suc.prems(3) by (auto simp: Let_def poll_def)
    show ?thesis unfolding eq
      by (rule Suc.IH) (use True Suc.prems in \<open>auto simp: less_Suc_eq\<close>)
  next
    case False
    then have "fst (wait_stopped A dbg env i (Suc fuel) k s) = (poll A env i st k = Some Stopped) \<and>
        snd (snd (wait_stopped A dbg env i (Suc fuel) k s)) = polled env st k"
      using Suc.prems(1,3) by (auto simp: Let_def poll_def split: option.splits)
    then show ?thesis using False Suc.prems(1,4) by (intro exI[of _ k]) auto
  qed
qed simp

text \<open>
  Whatever the other tasks do, the loop with which a restart waits for the VM to
  stop ends at the first poll that does not see the VM stopping, and at the fiftieth at the latest;
  giving it more fuel changes nothing. The restart goes on exactly if that poll sees it stopped.
\<close>

theorem restart_wait_ends:
  "\<exists>j < 50. list_all (\<lambda>n. poll A env i st n = Some Stopping) [0..<j] \<and>
     (j = 49 \<or> poll A env i st j \<in> - {Some Stopping}) \<and>
     fst (wait_stopped A dbg env i (50 + fuel) 0 st) = (poll A env i st j = Some Stopped) \<and>
     snd (snd (wait_stopped A dbg env i (50 + fuel) 0 st)) = polled env st j"
  using wait_stopped_polls[of 0 "50 + fuel" env st st A i dbg] by (auto simp: list_all_iff)

end
