(* ===== verification/Axfs_Dev.thy ===== *)
theory Axfs_Dev
  imports Axv_Prelude
begin

text \<open>
  The block devices of the file-system module, \<^verbatim>\<open>modules/axfs/src/dev.rs\<close>: \<^verbatim>\<open>Disk\<close>, a cursor over a
  device of 512-byte blocks, and \<^verbatim>\<open>Partition\<close>, a cursor over a range of its blocks; and the loops over
  their \<^verbatim>\<open>read_one\<close> and \<^verbatim>\<open>write_one\<close> in \<^verbatim>\<open>partition.rs\<close>, \<^verbatim>\<open>fs/fatfs.rs\<close> and \<^verbatim>\<open>fs/ext4fs.rs\<close>.

  The device driver (\<^verbatim>\<open>AxBlockDevice\<close>) is the record \<open>block_dev\<close> of its methods on an abstract device
  state \<open>'d\<close>. The device is shared by the disk, its clones and its partitions, so its state is
  passed beside theirs. A \<^verbatim>\<open>read_one\<close> into a buffer is given the length of the buffer and returns the
  bytes that it stores at the front of it.

  The locales \<open>block_stream\<close> and \<open>block_rw\<close> are the contract of a cursor, on which the loops rely;
  they are interpreted for disks and for partitions.
\<close>

section \<open>Disks\<close>

record ('d, 'e) block_dev =
  bd_block_size :: "'d \<Rightarrow> nat"
  bd_num_blocks :: "'d \<Rightarrow> u64"
  bd_read_block :: "u64 \<Rightarrow> 'd \<Rightarrow> 'e + u8 list"
  bd_write_block :: "u64 \<Rightarrow> u8 list \<Rightarrow> 'd \<Rightarrow> ('e + unit) \<times> 'd"

abbreviation BLOCK_SIZE :: nat where "BLOCK_SIZE \<equiv> 512"

record Disk =
  block_id :: u64
  offset :: nat

definition Disk_new :: "('d, 'e) block_dev \<Rightarrow> 'd \<Rightarrow> Disk outcome" where
  "Disk_new B d =
     (if bd_block_size B d = BLOCK_SIZE then Done \<lparr>block_id = 0, offset = 0\<rparr>
      else Panic ''assertion `left == right` failed'')"

definition disk_size :: "('d, 'e) block_dev \<Rightarrow> 'd \<Rightarrow> u64" where
  "disk_size B d = bd_num_blocks B d * 512"

definition disk_position :: "Disk \<Rightarrow> u64" where
  "disk_position dk = block_id dk * 512 + of_nat (offset dk)"

definition disk_set_position :: "u64 \<Rightarrow> Disk \<Rightarrow> Disk" where
  "disk_set_position p dk = dk\<lparr>block_id := p div 512, offset := unat p mod BLOCK_SIZE\<rparr>"

text \<open>The end of the partial-block branches: the cursor moves on, into the next block if need be.\<close>

definition advance :: "nat \<Rightarrow> Disk \<Rightarrow> Disk" where
  "advance count dk =
     (let o' = offset dk + count
      in if o' \<ge> BLOCK_SIZE then dk\<lparr>block_id := block_id dk + 1, offset := o' - BLOCK_SIZE\<rparr> else dk\<lparr>offset := o'\<rparr>)"

definition disk_read_one :: "('d, 'e) block_dev \<Rightarrow> nat \<Rightarrow> 'd \<Rightarrow> Disk \<Rightarrow> ('e + u8 list) \<times> Disk" where
  "disk_read_one B buf_len d dk =
     (if offset dk = 0 \<and> buf_len \<ge> BLOCK_SIZE then
        (case bd_read_block B (block_id dk) d of
           Inl e \<Rightarrow> (Inl e, dk)
         | Inr data \<Rightarrow> (Inr data, dk\<lparr>block_id := block_id dk + 1\<rparr>))
      else
        (let start = offset dk; count = min buf_len (BLOCK_SIZE - offset dk)
         in case bd_read_block B (block_id dk) d of
              Inl e \<Rightarrow> (Inl e, dk)
            | Inr data \<Rightarrow> (Inr (slice start (start + count) data), advance count dk)))"

definition disk_write_one :: "('d, 'e) block_dev \<Rightarrow> u8 list \<Rightarrow> 'd \<Rightarrow> Disk \<Rightarrow> ('e + nat) \<times> Disk \<times> 'd" where
  "disk_write_one B buf d dk =
     (if offset dk = 0 \<and> length buf \<ge> BLOCK_SIZE then
        (case bd_write_block B (block_id dk) (take BLOCK_SIZE buf) d of
           (Inl e, d') \<Rightarrow> (Inl e, dk, d')
         | (Inr _, d') \<Rightarrow> (Inr BLOCK_SIZE, dk\<lparr>block_id := block_id dk + 1\<rparr>, d'))
      else
        (let start = offset dk; count = min (length buf) (BLOCK_SIZE - offset dk)
         in case bd_read_block B (block_id dk) d of
              Inl e \<Rightarrow> (Inl e, dk, d)
            | Inr data \<Rightarrow>
                (case bd_write_block B (block_id dk) (take start data @ take count buf @ drop (start + count) data) d of
                   (Inl e, d') \<Rightarrow> (Inl e, dk, d')
                 | (Inr _, d') \<Rightarrow> (Inr count, advance count dk, d'))))"

section \<open>Partitions\<close>

record Partition =
  part_disk :: Disk
  start_lba :: u64
  end_lba :: u64
  part_position :: u64

definition Partition_new :: "Disk \<Rightarrow> u64 \<Rightarrow> u64 \<Rightarrow> Partition" where
  "Partition_new dk s e = \<lparr>part_disk = dk, start_lba = s, end_lba = e, part_position = 0\<rparr>"

definition partition_size :: "Partition \<Rightarrow> u64" where
  "partition_size p = (end_lba p - start_lba p + 1) * 512"

definition partition_set_position :: "u64 \<Rightarrow> Partition \<Rightarrow> Partition" where
  "partition_set_position q p = p\<lparr>part_position := min q (partition_size p)\<rparr>"

definition partition_read_one :: "('d, 'e) block_dev \<Rightarrow> nat \<Rightarrow> 'd \<Rightarrow> Partition \<Rightarrow> ('e + u8 list) \<times> Partition" where
  "partition_read_one B buf_len d p =
     (if part_position p \<ge> partition_size p then (Inr [], p)
      else
        (let remaining = partition_size p - part_position p;
             to_read = min buf_len (unat remaining);
             abs_pos = start_lba p * 512 + part_position p
         in case disk_read_one B to_read d (disk_set_position abs_pos (part_disk p)) of
              (Inl e, dk) \<Rightarrow> (Inl e, p\<lparr>part_disk := dk\<rparr>)
            | (Inr data, dk) \<Rightarrow>
                (Inr data, p\<lparr>part_disk := dk, part_position := part_position p + of_nat (length data)\<rparr>)))"

definition partition_write_one ::
    "('d, 'e) block_dev \<Rightarrow> u8 list \<Rightarrow> 'd \<Rightarrow> Partition \<Rightarrow> ('e + nat) \<times> Partition \<times> 'd" where
  "partition_write_one B buf d p =
     (if part_position p \<ge> partition_size p then (Inr 0, p, d)
      else
        (let remaining = partition_size p - part_position p;
             to_write = min (length buf) (unat remaining);
             abs_pos = start_lba p * 512 + part_position p
         in case disk_write_one B (take to_write buf) d (disk_set_position abs_pos (part_disk p)) of
              (Inl e, dk, d') \<Rightarrow> (Inl e, p\<lparr>part_disk := dk\<rparr>, d')
            | (Inr write_len, dk, d') \<Rightarrow>
                (Inr write_len, p\<lparr>part_disk := dk, part_position := part_position p + of_nat write_len\<rparr>, d')))"

section \<open>Loops over a cursor\<close>

text \<open>
  \<^verbatim>\<open>Read::read\<close> of \<^verbatim>\<open>fatfs.rs\<close>, for disks and for partitions: reads until the buffer is full, or nothing
  more comes. The result is the bytes stored at the front of the buffer.
\<close>

function read_all :: "(nat \<Rightarrow> 's \<Rightarrow> ('e + u8 list) \<times> 's) \<Rightarrow> nat \<Rightarrow> 's \<Rightarrow> (unit + u8 list) \<times> 's" where
  "read_all rd n s =
     (if n = 0 then (Inr [], s)
      else case rd n s of
             (Inl _, s') \<Rightarrow> (Inl (), s')
           | (Inr data, s') \<Rightarrow>
               if data = [] then (Inr [], s')
               else case read_all rd (n - length data) s' of
                      (Inl _, s'') \<Rightarrow> (Inl (), s'')
                    | (Inr rest, s'') \<Rightarrow> (Inr (data @ rest), s''))"
  by pat_completeness auto
termination by (relation "measure (\<lambda>(rd, n, s). n)") auto

declare read_all.simps [simp del]

text \<open>\<^verbatim>\<open>read_exact\<close> of \<^verbatim>\<open>partition.rs\<close>: the same loop; the rest of the buffer keeps what it held.\<close>

definition read_exact ::
    "(nat \<Rightarrow> 's \<Rightarrow> ('e + u8 list) \<times> 's) \<Rightarrow> u8 list \<Rightarrow> 's \<Rightarrow> (unit + u8 list) \<times> 's" where
  "read_exact rd buf s =
     (case read_all rd (length buf) s of
        (Inl _, s') \<Rightarrow> (Inl (), s')
      | (Inr data, s') \<Rightarrow> (Inr (data @ drop (length data) buf), s'))"

text \<open>\<^verbatim>\<open>Write::write\<close> of \<^verbatim>\<open>fatfs.rs\<close>.\<close>

function write_all :: "(u8 list \<Rightarrow> 's \<Rightarrow> ('e + nat) \<times> 's) \<Rightarrow> u8 list \<Rightarrow> 's \<Rightarrow> (unit + nat) \<times> 's" where
  "write_all wr buf s =
     (if buf = [] then (Inr 0, s)
      else case wr buf s of
             (Inl _, s') \<Rightarrow> (Inl (), s')
           | (Inr n, s') \<Rightarrow>
               if n = 0 then (Inr 0, s')
               else case write_all wr (drop n buf) s' of
                      (Inl _, s'') \<Rightarrow> (Inl (), s'')
                    | (Inr m, s'') \<Rightarrow> (Inr (n + m), s''))"
  by pat_completeness auto
termination by (relation "measure (\<lambda>(wr, buf, s). length buf)") auto

declare write_all.simps [simp del]

datatype BlockDevError = ReadError | WriteError

text \<open>
  \<^verbatim>\<open>BlockDevice::read\<close> and \<^verbatim>\<open>write\<close> of \<^verbatim>\<open>ext4fs.rs\<close>: their loops do not stop when no byte is transferred,
  so they may run for ever; the value is then \<open>None\<close>.
\<close>

partial_function (option) block_read_loop ::
    "(nat \<Rightarrow> 's \<Rightarrow> ('e + u8 list) \<times> 's) \<Rightarrow> nat \<Rightarrow> nat \<Rightarrow> u8 list \<Rightarrow> 's \<Rightarrow> ((BlockDevError + u8 list) \<times> 's) option" where
  "block_read_loop rd buffer_len to_read acc s =
     (if length acc < to_read then
        (case rd (buffer_len - length acc) s of
           (Inl _, s') \<Rightarrow> Some (Inl ReadError, s')
         | (Inr data, s') \<Rightarrow> block_read_loop rd buffer_len to_read (acc @ data) s')
      else Some (Inr acc, s))"

partial_function (option) block_write_loop ::
    "(u8 list \<Rightarrow> 's \<Rightarrow> ('e + nat) \<times> 's) \<Rightarrow> u8 list \<Rightarrow> nat \<Rightarrow> nat \<Rightarrow> 's \<Rightarrow> ((BlockDevError + unit) \<times> 's) option" where
  "block_write_loop wr buffer to_write written s =
     (if written < to_write then
        (case wr (drop written buffer) s of
           (Inl _, s') \<Rightarrow> Some (Inl WriteError, s')
         | (Inr n, s') \<Rightarrow> block_write_loop wr buffer to_write (written + n) s')
      else Some (Inr (), s))"

section \<open>The cursors as streams\<close>

type_synonym 'd disk_state = "Disk \<times> 'd"
type_synonym 'd part_state = "Partition \<times> 'd"

definition disk_rd :: "('d, 'e) block_dev \<Rightarrow> nat \<Rightarrow> 'd disk_state \<Rightarrow> ('e + u8 list) \<times> 'd disk_state" where
  "disk_rd B n s = (let (r, dk) = disk_read_one B n (snd s) (fst s) in (r, dk, snd s))"

definition disk_wr :: "('d, 'e) block_dev \<Rightarrow> u8 list \<Rightarrow> 'd disk_state \<Rightarrow> ('e + nat) \<times> 'd disk_state" where
  "disk_wr B buf s = disk_write_one B buf (snd s) (fst s)"

definition part_rd :: "('d, 'e) block_dev \<Rightarrow> nat \<Rightarrow> 'd part_state \<Rightarrow> ('e + u8 list) \<times> 'd part_state" where
  "part_rd B n s = (let (r, p) = partition_read_one B n (snd s) (fst s) in (r, p, snd s))"

definition part_wr :: "('d, 'e) block_dev \<Rightarrow> u8 list \<Rightarrow> 'd part_state \<Rightarrow> ('e + nat) \<times> 'd part_state" where
  "part_wr B buf s = partition_write_one B buf (snd s) (fst s)"

text \<open>The block size of \<^verbatim>\<open>ext4fs.rs\<close>.\<close>

abbreviation EXT4_BLOCK :: nat where "EXT4_BLOCK \<equiv> 4096"

definition disk_block_read ::
    "('d, 'e) block_dev \<Rightarrow> nat \<Rightarrow> u32 \<Rightarrow> u32 \<Rightarrow> 'd disk_state \<Rightarrow> ((BlockDevError + u8 list) \<times> 'd disk_state) option" where
  "disk_block_read B buffer_len block count s =
     block_read_loop (disk_rd B) buffer_len (unat count * EXT4_BLOCK) []
       (disk_set_position (ucast block * 4096) (fst s), snd s)"

definition disk_block_write ::
    "('d, 'e) block_dev \<Rightarrow> u8 list \<Rightarrow> u32 \<Rightarrow> u32 \<Rightarrow> 'd disk_state \<Rightarrow> ((BlockDevError + unit) \<times> 'd disk_state) option" where
  "disk_block_write B buffer block count s =
     block_write_loop (disk_wr B) buffer (unat count * EXT4_BLOCK) 0
       (disk_set_position (ucast block * 4096) (fst s), snd s)"

definition part_block_read ::
    "('d, 'e) block_dev \<Rightarrow> nat \<Rightarrow> u32 \<Rightarrow> u32 \<Rightarrow> 'd part_state \<Rightarrow> ((BlockDevError + u8 list) \<times> 'd part_state) option" where
  "part_block_read B buffer_len block count s =
     block_read_loop (part_rd B) buffer_len (unat count * EXT4_BLOCK) []
       (partition_set_position (ucast block * 4096) (fst s), snd s)"

definition part_block_write ::
    "('d, 'e) block_dev \<Rightarrow> u8 list \<Rightarrow> u32 \<Rightarrow> u32 \<Rightarrow> 'd part_state \<Rightarrow> ((BlockDevError + unit) \<times> 'd part_state) option" where
  "part_block_write B buffer block count s =
     block_write_loop (part_wr B) buffer (unat count * EXT4_BLOCK) 0
       (partition_set_position (ucast block * 4096) (fst s), snd s)"

definition disk_total_blocks :: "('d, 'e) block_dev \<Rightarrow> 'd \<Rightarrow> u64" where
  "disk_total_blocks B d = disk_size B d div 4096"

definition part_total_blocks :: "Partition \<Rightarrow> u64" where
  "part_total_blocks p = partition_size p div 4096"

text \<open>\<^verbatim>\<open>Seek\<close> of \<^verbatim>\<open>fatfs.rs\<close>; \<^verbatim>\<open>checked_add_signed\<close> fails when the exact sum does not fit.\<close>

datatype SeekFrom = SeekStart u64 | SeekCurrent "64 word" | SeekEnd "64 word"

definition checked_add_signed :: "u64 \<Rightarrow> 64 word \<Rightarrow> u64 option" where
  "checked_add_signed a off =
     (let r = uint a + sint off in if 0 \<le> r \<and> r < 2 ^ 64 then Some (word_of_int r) else None)"

definition seek_target :: "u64 \<Rightarrow> u64 \<Rightarrow> SeekFrom \<Rightarrow> u64 option" where
  "seek_target pos sz where_to =
     (case where_to of
        SeekStart p \<Rightarrow> Some p
      | SeekCurrent off \<Rightarrow> checked_add_signed pos off
      | SeekEnd off \<Rightarrow> checked_add_signed sz off)"

definition partition_seek :: "SeekFrom \<Rightarrow> Partition \<Rightarrow> (unit + u64) \<times> Partition" where
  "partition_seek where_to p =
     (case seek_target (part_position p) (partition_size p) where_to of
        None \<Rightarrow> (Inl (), p)
      | Some q \<Rightarrow> (Inr q, partition_set_position q p))"

definition disk_seek :: "('d, 'e) block_dev \<Rightarrow> SeekFrom \<Rightarrow> 'd \<Rightarrow> Disk \<Rightarrow> (unit + u64) \<times> Disk" where
  "disk_seek B where_to d dk =
     (case seek_target (disk_position dk) (disk_size B d) where_to of
        None \<Rightarrow> (Inl (), dk)
      | Some q \<Rightarrow> (Inr q, disk_set_position q dk))"


section \<open>The contract of a cursor\<close>

definition patch :: "(nat \<Rightarrow> 'b) \<Rightarrow> nat \<Rightarrow> 'b list \<Rightarrow> nat \<Rightarrow> 'b" where
  "patch f p xs = (\<lambda>i. if p \<le> i \<and> i < p + length xs then xs ! (i - p) else f i)"

lemma patch_Nil [simp]: "patch f p [] = f"
  by (auto simp: patch_def fun_eq_iff)

lemma patch_append: "patch (patch f p xs) (p + length xs) ys = patch f p (xs @ ys)"
  by (auto simp: patch_def nth_append fun_eq_iff)

lemma map_patch: "map (patch f p xs) [p..<p + length xs] = xs"
  by (auto simp: patch_def intro: nth_equalityI)

locale block_stream =
  fixes rd :: "nat \<Rightarrow> 's \<Rightarrow> ('e + u8 list) \<times> 's"
    and pos :: "'s \<Rightarrow> nat"
    and limit :: "'s \<Rightarrow> nat"
    and bytes :: "'s \<Rightarrow> nat \<Rightarrow> u8"
    and ok :: "'s \<Rightarrow> bool"
  assumes rd_ok: "ok s \<Longrightarrow> 0 < n \<Longrightarrow> pos s + n \<le> limit s \<Longrightarrow>
    \<exists>k s'. rd n s = (Inr (map (bytes s) [pos s..<pos s + k]), s') \<and> 0 < k \<and> k \<le> n \<and> ok s' \<and>
      pos s' = pos s + k \<and> limit s' = limit s \<and> bytes s' = bytes s"
begin

lemma read_all_ok:
  "ok s \<Longrightarrow> pos s + n \<le> limit s \<Longrightarrow>
   \<exists>s'. read_all rd n s = (Inr (map (bytes s) [pos s..<pos s + n]), s') \<and> ok s' \<and> pos s' = pos s + n \<and>
     limit s' = limit s \<and> bytes s' = bytes s"
proof (induction n arbitrary: s rule: less_induct)
  case (less n)
  show ?case
  proof (cases "n = 0")
    case True
    with less.prems show ?thesis by (simp add: read_all.simps)
  next
    case False
    then obtain k s1 where k: "rd n s = (Inr (map (bytes s) [pos s..<pos s + k]), s1)" "0 < k" "k \<le> n" "ok s1"
        "pos s1 = pos s + k" "limit s1 = limit s" "bytes s1 = bytes s"
      using rd_ok[of s n] less.prems by auto
    have "n - k < n" "pos s1 + (n - k) \<le> limit s1" using k less.prems False by auto
    then obtain s2 where s2: "read_all rd (n - k) s1 = (Inr (map (bytes s1) [pos s1..<pos s1 + (n - k)]), s2)"
        "ok s2" "pos s2 = pos s1 + (n - k)" "limit s2 = limit s1" "bytes s2 = bytes s1"
      using less.IH[of "n - k" s1] k(4) by blast
    have "[pos s..<pos s + k] @ [pos s + k..<pos s + n] = [pos s..<pos s + n]"
      using k(3) upt_add_eq_append[of "pos s" "pos s + k" "n - k"] by simp
    then have "map (bytes s) [pos s..<pos s + k] @ map (bytes s) [pos s + k..<pos s + n] = map (bytes s) [pos s..<pos s + n]"
      by (metis map_append)
    then show ?thesis
      using k s2 False by (subst read_all.simps) simp
  qed
qed

lemma block_read_loop_ok:
  assumes "ok s" "pos s + n \<le> limit s" "length acc + n = buffer_len"
  shows "\<exists>s'. block_read_loop rd buffer_len buffer_len acc s = Some (Inr (acc @ map (bytes s) [pos s..<pos s + n]), s') \<and>
    ok s' \<and> pos s' = pos s + n \<and> limit s' = limit s \<and> bytes s' = bytes s"
  using assms
proof (induction n arbitrary: s acc rule: less_induct)
  case (less n)
  show ?case
  proof (cases "n = 0")
    case True
    with less.prems show ?thesis by (subst block_read_loop.simps) simp
  next
    case False
    then obtain k s1 where k: "rd n s = (Inr (map (bytes s) [pos s..<pos s + k]), s1)" "0 < k" "k \<le> n" "ok s1"
        "pos s1 = pos s + k" "limit s1 = limit s" "bytes s1 = bytes s"
      using rd_ok[of s n] less.prems by auto
    let ?acc = "acc @ map (bytes s) [pos s..<pos s + k]"
    have "n - k < n" "pos s1 + (n - k) \<le> limit s1" "length ?acc + (n - k) = buffer_len"
      using k less.prems False by auto
    then obtain s2 where s2: "block_read_loop rd buffer_len buffer_len ?acc s1 =
          Some (Inr (?acc @ map (bytes s1) [pos s1..<pos s1 + (n - k)]), s2)"
        "ok s2" "pos s2 = pos s1 + (n - k)" "limit s2 = limit s1" "bytes s2 = bytes s1"
      using less.IH[of "n - k" s1 ?acc] k(4) by blast
    have "[pos s..<pos s + k] @ [pos s + k..<pos s + n] = [pos s..<pos s + n]"
      using k(3) upt_add_eq_append[of "pos s" "pos s + k" "n - k"] by simp
    then have "map (bytes s) [pos s..<pos s + k] @ map (bytes s) [pos s + k..<pos s + n] = map (bytes s) [pos s..<pos s + n]"
      by (metis map_append)
    moreover have "block_read_loop rd buffer_len buffer_len acc s = block_read_loop rd buffer_len buffer_len ?acc s1"
      using k(1) False less.prems(3) by (subst block_read_loop.simps) auto
    ultimately show ?thesis using k s2 by simp
  qed
qed

end

locale block_rw = block_stream rd pos limit bytes ok
  for rd :: "nat \<Rightarrow> 's \<Rightarrow> ('e + u8 list) \<times> 's"
    and pos :: "'s \<Rightarrow> nat"
    and limit :: "'s \<Rightarrow> nat"
    and bytes :: "'s \<Rightarrow> nat \<Rightarrow> u8"
    and ok :: "'s \<Rightarrow> bool" +
  fixes wr :: "u8 list \<Rightarrow> 's \<Rightarrow> ('e + nat) \<times> 's"
  assumes wr_ok: "ok s \<Longrightarrow> buf \<noteq> [] \<Longrightarrow> pos s + length buf \<le> limit s \<Longrightarrow>
    \<exists>k s'. wr buf s = (Inr k, s') \<and> 0 < k \<and> k \<le> length buf \<and> ok s' \<and>
      pos s' = pos s + k \<and> limit s' = limit s \<and> bytes s' = patch (bytes s) (pos s) (take k buf)"
begin

lemma write_all_ok:
  "ok s \<Longrightarrow> pos s + length buf \<le> limit s \<Longrightarrow>
   \<exists>s'. write_all wr buf s = (Inr (length buf), s') \<and> ok s' \<and> pos s' = pos s + length buf \<and>
     limit s' = limit s \<and> bytes s' = patch (bytes s) (pos s) buf"
proof (induction buf arbitrary: s rule: length_induct)
  case (1 buf)
  show ?case
  proof (cases "buf = []")
    case True
    with 1 show ?thesis by (simp add: write_all.simps)
  next
    case False
    then obtain k s1 where k: "wr buf s = (Inr k, s1)" "0 < k" "k \<le> length buf" "ok s1"
        "pos s1 = pos s + k" "limit s1 = limit s" "bytes s1 = patch (bytes s) (pos s) (take k buf)"
      using wr_ok[of s buf] 1 by auto
    have "length (drop k buf) < length buf" "pos s1 + length (drop k buf) \<le> limit s1" using k 1 False by auto
    then obtain s2 where s2: "write_all wr (drop k buf) s1 = (Inr (length (drop k buf)), s2)" "ok s2"
        "pos s2 = pos s1 + length (drop k buf)" "limit s2 = limit s1" "bytes s2 = patch (bytes s1) (pos s1) (drop k buf)"
      using 1(1) k(4) by blast
    have "bytes s2 = patch (bytes s) (pos s) buf"
      using s2(5) k(3,5,7) patch_append[of "bytes s" "pos s" "take k buf" "drop k buf"] by (simp add: min_absorb2)
    then show ?thesis using k s2 False by (subst write_all.simps) simp
  qed
qed

lemma block_write_loop_ok:
  assumes "ok s" "pos s + (length buffer - wd) \<le> limit s" "wd \<le> length buffer"
  shows "\<exists>s'. block_write_loop wr buffer (length buffer) wd s = Some (Inr (), s') \<and> ok s' \<and>
    pos s' = pos s + (length buffer - wd) \<and> limit s' = limit s \<and> bytes s' = patch (bytes s) (pos s) (drop wd buffer)"
  using assms
proof (induction "length buffer - wd" arbitrary: s wd rule: less_induct)
  case less
  show ?case
  proof (cases "wd = length buffer")
    case True
    with less.prems show ?thesis by (subst block_write_loop.simps) simp
  next
    case False
    then obtain k s1 where k: "wr (drop wd buffer) s = (Inr k, s1)" "0 < k" "k \<le> length buffer - wd" "ok s1"
        "pos s1 = pos s + k" "limit s1 = limit s" "bytes s1 = patch (bytes s) (pos s) (take k (drop wd buffer))"
      using wr_ok[of s "drop wd buffer"] less.prems by auto
    have "length buffer - (wd + k) < length buffer - wd" "pos s1 + (length buffer - (wd + k)) \<le> limit s1"
        "wd + k \<le> length buffer"
      using k less.prems False by auto
    then obtain s2 where s2: "block_write_loop wr buffer (length buffer) (wd + k) s1 = Some (Inr (), s2)" "ok s2"
        "pos s2 = pos s1 + (length buffer - (wd + k))" "limit s2 = limit s1"
        "bytes s2 = patch (bytes s1) (pos s1) (drop (wd + k) buffer)"
      using less.hyps[of "wd + k" s1] k(4) by blast
    have "bytes s2 = patch (bytes s) (pos s) (drop wd buffer)"
      using s2(5) k(3,5,7) patch_append[of "bytes s" "pos s" "take k (drop wd buffer)" "drop k (drop wd buffer)"]
        append_take_drop_id[of k "drop wd buffer"]
      by (simp add: min_absorb2 add.commute del: append_take_drop_id)
    moreover have "block_write_loop wr buffer (length buffer) wd s = block_write_loop wr buffer (length buffer) (wd + k) s1"
      using k(1) False less.prems(3) by (subst block_write_loop.simps) auto
    ultimately show ?thesis using k s2 by simp
  qed
qed

end

section \<open>Disks keep the contract\<close>

text \<open>What is relied on of the device: its blocks hold what was last written to them, and it never fails.\<close>

definition block_dev_laws :: "('d, 'e) block_dev \<Rightarrow> bool" where
  "block_dev_laws B =
     ((\<forall>b d. b < bd_num_blocks B d \<longrightarrow> (\<exists>data. bd_read_block B b d = Inr data \<and> length data = 512)) \<and>
      (\<forall>b d data. b < bd_num_blocks B d \<longrightarrow> length data = 512 \<longrightarrow>
         (\<exists>d'. bd_write_block B b data d = (Inr (), d') \<and> bd_num_blocks B d' = bd_num_blocks B d \<and>
            (\<forall>c. bd_read_block B c d' = (if c = b then Inr data else bd_read_block B c d)))))"

lemma block_dev_read:
  "block_dev_laws B \<Longrightarrow> b < bd_num_blocks B d \<Longrightarrow> \<exists>data. bd_read_block B b d = Inr data \<and> length data = 512"
  unfolding block_dev_laws_def by blast

lemma block_dev_write:
  "block_dev_laws B \<Longrightarrow> b < bd_num_blocks B d \<Longrightarrow> length data = 512 \<Longrightarrow>
   \<exists>d'. bd_write_block B b data d = (Inr (), d') \<and> bd_num_blocks B d' = bd_num_blocks B d \<and>
     (\<forall>c. bd_read_block B c d' = (if c = b then Inr data else bd_read_block B c d))"
  unfolding block_dev_laws_def by blast

definition disk_byte :: "('d, 'e) block_dev \<Rightarrow> 'd \<Rightarrow> nat \<Rightarrow> u8" where
  "disk_byte B d i =
     (if i div 512 < 2 ^ 64 then
        (case bd_read_block B (of_nat (i div 512)) d of Inr data \<Rightarrow> data ! (i mod 512) | Inl _ \<Rightarrow> 0)
      else 0)"

text \<open>The offset of a cursor is below the block size, and the device has fewer than \<open>2 ^ 64\<close> bytes.\<close>

definition disk_ok :: "('d, 'e) block_dev \<Rightarrow> 'd disk_state \<Rightarrow> bool" where
  "disk_ok B s = (block_dev_laws B \<and> offset (fst s) < 512 \<and> unat (bd_num_blocks B (snd s)) * 512 < 2 ^ 64)"

definition disk_pos :: "'d disk_state \<Rightarrow> nat" where
  "disk_pos s = unat (block_id (fst s)) * 512 + offset (fst s)"

definition disk_limit :: "('d, 'e) block_dev \<Rightarrow> 'd disk_state \<Rightarrow> nat" where
  "disk_limit B s = unat (bd_num_blocks B (snd s)) * 512"

definition disk_bytes :: "('d, 'e) block_dev \<Rightarrow> 'd disk_state \<Rightarrow> nat \<Rightarrow> u8" where
  "disk_bytes B s = disk_byte B (snd s)"

lemmas disk_defs = disk_ok_def disk_pos_def disk_limit_def disk_bytes_def

lemma disk_in_range:
  assumes "disk_ok B (dk, d)" "0 < n" "disk_pos (dk, d) + n \<le> disk_limit B (dk, d)"
  shows "block_id dk < bd_num_blocks B d" "unat (block_id dk) < unat (bd_num_blocks B d)"
proof -
  show "unat (block_id dk) < unat (bd_num_blocks B d)" using assms by (simp add: disk_defs)
  then show "block_id dk < bd_num_blocks B d" by (simp add: word_less_nat_alt)
qed

lemma unat_Suc_block:
  "unat (b :: u64) < unat (n :: u64) \<Longrightarrow> unat (b + 1) = unat b + 1"
  using unat_plus_small[of b 1] unsigned_less[of n, where 'a = nat] by simp

lemma advance_pos:
  assumes "offset dk < 512" "k \<le> 512 - offset dk" "unat (block_id dk) < unat (n :: u64)"
  shows "disk_pos (advance k dk, d) = disk_pos (dk, d) + k" "offset (advance k dk) < 512"
  using assms unat_Suc_block[OF assms(3)] by (auto simp: disk_pos_def advance_def Let_def)

lemma disk_byte_block:
  assumes "bd_read_block B b d = Inr data" "j < 512"
  shows "disk_byte B d (unat b * 512 + j) = data ! j"
  using assms unsigned_less[of b, where 'a = nat] by (simp add: disk_byte_def div_mult_self3 mod_mult_self3)

lemma disk_slice:
  assumes "bd_read_block B b d = Inr data" "length data = 512" "o' + k \<le> 512"
  shows "slice o' (o' + k) data = map (disk_byte B d) [unat b * 512 + o'..<unat b * 512 + o' + k]"
  using assms disk_byte_block[OF assms(1)]
  by (intro nth_equalityI) (auto simp: nth_slice add.assoc)

lemma disk_read_one_ok:
  assumes "disk_ok B (dk, d)" "0 < n" "disk_pos (dk, d) + n \<le> disk_limit B (dk, d)"
  shows "\<exists>k. 0 < k \<and> k \<le> n \<and> k \<le> 512 - offset dk \<and>
    disk_read_one B n d dk = (Inr (map (disk_byte B d) [disk_pos (dk, d)..<disk_pos (dk, d) + k]), advance k dk)"
proof -
  let ?k = "min n (512 - offset dk)"
  obtain data where data: "bd_read_block B (block_id dk) d = Inr data" "length data = 512"
    using block_dev_read[OF _ disk_in_range(1)[OF assms]] assms(1) by (auto simp: disk_ok_def)
  have "offset dk < 512" using assms(1) by (simp add: disk_ok_def)
  then have "disk_read_one B n d dk = (Inr (slice (offset dk) (offset dk + ?k) data), advance ?k dk)"
    using data by (auto simp: disk_read_one_def Let_def slice_def advance_def)
  moreover have "slice (offset dk) (offset dk + ?k) data =
      map (disk_byte B d) [disk_pos (dk, d)..<disk_pos (dk, d) + ?k]"
    unfolding disk_pos_def fst_conv using \<open>offset dk < 512\<close> by (intro disk_slice[OF data]) simp
  ultimately show ?thesis using assms(2) \<open>offset dk < 512\<close> by (intro exI[of _ ?k]) simp
qed

lemma disk_byte_write:
  assumes rd: "bd_read_block B b d = Inr data" "length data = 512" "o' + length xs \<le> 512"
    and wr: "\<forall>c. bd_read_block B c d' = (if c = b then Inr (take o' data @ xs @ drop (o' + length xs) data) else bd_read_block B c d)"
  shows "disk_byte B d' = patch (disk_byte B d) (unat b * 512 + o') xs"
proof
  fix i
  have eq: "(of_nat (i div 512) :: u64) = b \<longleftrightarrow> i div 512 = unat b" if "i div 512 < 2 ^ 64"
    using that by (simp add: word_unat_eq_iff unat_of_nat take_bit_nat_eq_self)
  have b: "unat b < 2 ^ 64" using unsigned_less[of b, where 'a = nat] by simp
  show "disk_byte B d' i = patch (disk_byte B d) (unat b * 512 + o') xs i"
  proof (cases "i div 512 = unat b")
    case True
    then obtain j where j: "i = unat b * 512 + j" "j < 512"
      using div_mult_mod_eq[of i 512] by (metis mod_less_divisor zero_less_numeral)
    have new: "bd_read_block B b d' = Inr (take o' data @ xs @ drop (o' + length xs) data)" using wr by simp
    show ?thesis
      unfolding j(1) using disk_byte_block[OF new j(2)] disk_byte_block[OF rd(1) j(2)] rd(2,3) j(2)
      by (auto simp: patch_def nth_append)
  next
    case False
    then have "\<not> (unat b * 512 + o' \<le> i \<and> i < unat b * 512 + o' + length xs)"
      using rd(3) by (auto dest: div_le_mono)
    with False wr eq show ?thesis by (auto simp: disk_byte_def patch_def)
  qed
qed

lemma disk_write_one_ok:
  assumes "disk_ok B (dk, d)" "buf \<noteq> []" "disk_pos (dk, d) + length buf \<le> disk_limit B (dk, d)"
  shows "\<exists>k d'. 0 < k \<and> k \<le> length buf \<and> k \<le> 512 - offset dk \<and>
    disk_write_one B buf d dk = (Inr k, advance k dk, d') \<and> bd_num_blocks B d' = bd_num_blocks B d \<and>
    disk_byte B d' = patch (disk_byte B d) (disk_pos (dk, d)) (take k buf)"
proof -
  let ?k = "min (length buf) (512 - offset dk)"
  have len: "0 < length buf" using assms(2) by simp
  obtain data where data: "bd_read_block B (block_id dk) d = Inr data" "length data = 512"
    using block_dev_read[OF _ disk_in_range(1)[OF assms(1) len assms(3)]] assms(1) by (auto simp: disk_ok_def)
  have o': "offset dk < 512" using assms(1) by (simp add: disk_ok_def)
  let ?new = "take (offset dk) data @ take ?k buf @ drop (offset dk + length (take ?k buf)) data"
  have "length ?new = 512" using data(2) o' by auto
  then obtain d' where d': "bd_write_block B (block_id dk) ?new d = (Inr (), d')"
      "bd_num_blocks B d' = bd_num_blocks B d"
      "\<forall>c. bd_read_block B c d' = (if c = block_id dk then Inr ?new else bd_read_block B c d)"
    using block_dev_write[OF _ disk_in_range(1)[OF assms(1) len assms(3)], of ?new] assms(1) unfolding disk_ok_def by blast
  have "disk_byte B d' = patch (disk_byte B d) (disk_pos (dk, d)) (take ?k buf)"
    unfolding disk_pos_def fst_conv using disk_byte_write[OF data _ d'(3)] o' by simp
  moreover have "disk_write_one B buf d dk = (Inr ?k, advance ?k dk, d')"
    using data d'(1) o' by (auto simp: disk_write_one_def Let_def advance_def min_def split: if_splits)
  ultimately show ?thesis using d'(2) o' assms(2) by (intro exI[of _ ?k] exI[of _ d']) simp
qed

lemma disk_advance_ok:
  assumes "disk_ok B (dk, d)" "0 < n" "disk_pos (dk, d) + n \<le> disk_limit B (dk, d)" "k \<le> 512 - offset dk"
    "bd_num_blocks B d' = bd_num_blocks B d"
  shows "disk_ok B (advance k dk, d')" "disk_pos (advance k dk, d') = disk_pos (dk, d) + k"
    "disk_limit B (advance k dk, d') = disk_limit B (dk, d)"
  using advance_pos[OF _ assms(4) disk_in_range(2)[OF assms(1-3)]] assms(1,5)
  by (simp_all add: disk_ok_def disk_limit_def disk_pos_def)

interpretation disk: block_rw "disk_rd B" disk_pos "disk_limit B" "disk_bytes B" "disk_ok B" "disk_wr B" for B
proof
  fix s n
  assume a: "disk_ok B s" "0 < n" "disk_pos s + n \<le> disk_limit B s"
  obtain dk d where s: "s = (dk, d)" by force
  obtain k where k: "0 < k" "k \<le> n" "k \<le> 512 - offset dk"
      "disk_read_one B n d dk = (Inr (map (disk_byte B d) [disk_pos (dk, d)..<disk_pos (dk, d) + k]), advance k dk)"
    using disk_read_one_ok[OF a[unfolded s]] by blast
  then have "disk_rd B n s = (Inr (map (disk_bytes B s) [disk_pos s..<disk_pos s + k]), (advance k dk, d))"
    by (simp add: disk_rd_def disk_bytes_def s)
  then show "\<exists>k s'. disk_rd B n s = (Inr (map (disk_bytes B s) [disk_pos s..<disk_pos s + k]), s') \<and> 0 < k \<and> k \<le> n \<and>
      disk_ok B s' \<and> disk_pos s' = disk_pos s + k \<and> disk_limit B s' = disk_limit B s \<and> disk_bytes B s' = disk_bytes B s"
    using k(1,2) disk_advance_ok[OF a[unfolded s] k(3) refl] s
    by (intro exI[of _ k] exI[of _ "(advance k dk, d)"]) (simp add: disk_bytes_def)
next
  fix s and buf :: "u8 list"
  assume a: "disk_ok B s" "buf \<noteq> []" "disk_pos s + length buf \<le> disk_limit B s"
  obtain dk d where s: "s = (dk, d)" by force
  obtain k d' where k: "0 < k" "k \<le> length buf" "k \<le> 512 - offset dk"
      "disk_write_one B buf d dk = (Inr k, advance k dk, d')" "bd_num_blocks B d' = bd_num_blocks B d"
      "disk_byte B d' = patch (disk_byte B d) (disk_pos (dk, d)) (take k buf)"
    using disk_write_one_ok[OF a[unfolded s]] by blast
  have "0 < length buf" using a(2) by simp
  note b = disk_advance_ok[OF a(1)[unfolded s] this a(3)[unfolded s] k(3) k(5)]
  show "\<exists>k s'. disk_wr B buf s = (Inr k, s') \<and> 0 < k \<and> k \<le> length buf \<and> disk_ok B s' \<and>
      disk_pos s' = disk_pos s + k \<and> disk_limit B s' = disk_limit B s \<and>
      disk_bytes B s' = patch (disk_bytes B s) (disk_pos s) (take k buf)"
    using k(1,2,4,6) b s
    by (intro exI[of _ k] exI[of _ "(advance k dk, d')"]) (simp add: disk_bytes_def disk_wr_def)
qed


section \<open>Partitions keep the contract\<close>

text \<open>The partition lies within the device.\<close>

definition part_ok :: "('d, 'e) block_dev \<Rightarrow> 'd part_state \<Rightarrow> bool" where
  "part_ok B s =
     (block_dev_laws B \<and> start_lba (fst s) \<le> end_lba (fst s) \<and> end_lba (fst s) < bd_num_blocks B (snd s) \<and>
      unat (bd_num_blocks B (snd s)) * 512 < 2 ^ 64)"

definition part_pos :: "'d part_state \<Rightarrow> nat" where
  "part_pos s = unat (part_position (fst s))"

definition part_limit :: "'d part_state \<Rightarrow> nat" where
  "part_limit s = (unat (end_lba (fst s)) - unat (start_lba (fst s)) + 1) * 512"

definition part_base :: "Partition \<Rightarrow> nat" where
  "part_base p = unat (start_lba p) * 512"

lemma part_sizes:
  assumes "part_ok B (p, d)"
  shows "unat (partition_size p) = part_limit (p, d)"
    "part_base p + part_limit (p, d) \<le> unat (bd_num_blocks B d) * 512"
proof -
  let ?n = "unat (end_lba p) - unat (start_lba p) + 1"
  have le: "unat (start_lba p) \<le> unat (end_lba p)" "unat (end_lba p) < unat (bd_num_blocks B d)"
      "unat (bd_num_blocks B d) * 512 < 2 ^ 64"
    using assms by (simp_all add: part_ok_def word_le_nat_alt word_less_nat_alt)
  have 1: "unat (end_lba p - start_lba p) = unat (end_lba p) - unat (start_lba p)"
    using assms by (simp add: part_ok_def unat_minus_le)
  have 2: "unat (end_lba p - start_lba p + 1) = ?n"
    using unat_plus_small[of "end_lba p - start_lba p" 1] 1 le by simp
  show "unat (partition_size p) = part_limit (p, d)"
    unfolding partition_size_def part_limit_def fst_conv
    using unat_times_small[of "end_lba p - start_lba p + 1" 512] 2 le by simp
  show "part_base p + part_limit (p, d) \<le> unat (bd_num_blocks B d) * 512"
    using le by (simp add: part_base_def part_limit_def)
qed

text \<open>The disk cursor that a partition sets up before a transfer.\<close>

lemma part_cursor:
  assumes ok: "part_ok B (p, d)" and pos: "part_pos (p, d) < part_limit (p, d)"
  shows "disk_ok B (disk_set_position (start_lba p * 512 + part_position p) (part_disk p), d)"
    "disk_pos (disk_set_position (start_lba p * 512 + part_position p) (part_disk p), d) = part_base p + part_pos (p, d)"
proof -
  let ?q = "start_lba p * 512 + part_position p"
  have lim: "part_base p + part_pos (p, d) < 2 ^ 64" "unat (start_lba p) * 512 < 2 ^ 64"
    using part_sizes(2)[OF ok] pos ok by (simp_all add: part_ok_def part_base_def)
  then have "unat (start_lba p * 512) = unat (start_lba p) * 512"
    using unat_times_small[of "start_lba p" 512] by simp
  then have q: "unat ?q = part_base p + part_pos (p, d)"
    using unat_plus_small[of "start_lba p * 512" "part_position p"] lim by (simp add: part_base_def part_pos_def)
  show "disk_ok B (disk_set_position ?q (part_disk p), d)"
    using ok by (simp add: disk_ok_def part_ok_def disk_set_position_def)
  show "disk_pos (disk_set_position ?q (part_disk p), d) = part_base p + part_pos (p, d)"
    using q by (simp add: disk_pos_def disk_set_position_def unat_div div_mult_mod_eq)
qed

lemma part_in_disk:
  assumes "part_ok B (p, d)" "part_pos (p, d) + n \<le> part_limit (p, d)"
  shows "part_base p + part_pos (p, d) + n \<le> disk_limit B (dk, d)"
  using part_sizes(2)[OF assms(1)] assms(2) by (simp add: disk_limit_def)

lemma part_step_ok:
  assumes "part_ok B (p, d)" "part_pos (p, d) + k \<le> part_limit (p, d)" "bd_num_blocks B d' = bd_num_blocks B d"
  shows "part_ok B (p\<lparr>part_disk := dk, part_position := part_position p + of_nat k\<rparr>, d')"
    "part_pos (p\<lparr>part_disk := dk, part_position := part_position p + of_nat k\<rparr>, d') = part_pos (p, d) + k"
proof -
  have "part_pos (p, d) + k < 2 ^ 64"
    using part_sizes(2)[OF assms(1)] assms(1,2) by (simp add: part_ok_def)
  then show "part_pos (p\<lparr>part_disk := dk, part_position := part_position p + of_nat k\<rparr>, d') = part_pos (p, d) + k"
    by (simp add: part_pos_def unat_word_ariths unat_of_nat take_bit_nat_eq_self mod_less)
  show "part_ok B (p\<lparr>part_disk := dk, part_position := part_position p + of_nat k\<rparr>, d')"
    using assms(1,3) by (simp add: part_ok_def)
qed

lemma part_not_at_end:
  assumes "part_ok B (p, d)" "part_pos (p, d) < part_limit (p, d)"
  shows "\<not> part_position p \<ge> partition_size p"
    "unat (partition_size p - part_position p) = part_limit (p, d) - part_pos (p, d)"
proof -
  show 1: "\<not> part_position p \<ge> partition_size p"
    using part_sizes(1)[OF assms(1)] assms(2) by (simp add: word_le_nat_alt part_pos_def)
  then show "unat (partition_size p - part_position p) = part_limit (p, d) - part_pos (p, d)"
    using part_sizes(1)[OF assms(1)] by (simp add: unat_minus_le part_pos_def)
qed

lemma part_read_one_ok:
  assumes "part_ok B (p, d)" "0 < n" "part_pos (p, d) < part_limit (p, d)"
  shows "\<exists>k p'. part_rd B n (p, d) =
      (Inr (map (disk_byte B d) [part_base p + part_pos (p, d)..<part_base p + part_pos (p, d) + k]), (p', d)) \<and>
    0 < k \<and> k \<le> n \<and> part_pos (p, d) + k \<le> part_limit (p, d) \<and> part_ok B (p', d) \<and>
    part_pos (p', d) = part_pos (p, d) + k \<and> start_lba p' = start_lba p \<and> end_lba p' = end_lba p"
proof -
  let ?dk = "disk_set_position (start_lba p * 512 + part_position p) (part_disk p)"
  let ?m = "min n (part_limit (p, d) - part_pos (p, d))"
  note c = part_cursor[OF assms(1,3)]
  have m: "0 < ?m" "part_pos (p, d) + ?m \<le> part_limit (p, d)" using assms(2,3) by auto
  then have "disk_pos (?dk, d) + ?m \<le> disk_limit B (?dk, d)"
    using part_in_disk[OF assms(1) m(2), of ?dk] c(2) by simp
  from disk_read_one_ok[OF c(1) m(1) this] obtain k where k: "0 < k" "k \<le> ?m"
      "disk_read_one B ?m d ?dk = (Inr (map (disk_byte B d) [disk_pos (?dk, d)..<disk_pos (?dk, d) + k]), advance k ?dk)"
    by blast
  let ?p = "p\<lparr>part_disk := advance k ?dk, part_position := part_position p + of_nat k\<rparr>"
  have "part_rd B n (p, d) =
      (Inr (map (disk_byte B d) [part_base p + part_pos (p, d)..<part_base p + part_pos (p, d) + k]), (?p, d))"
    using k(3) part_not_at_end[OF assms(1,3)] c(2) by (simp add: part_rd_def partition_read_one_def Let_def)
  moreover have "part_pos (p, d) + k \<le> part_limit (p, d)" using k(2) m(2) by linarith
  ultimately show ?thesis
    using k part_step_ok[OF assms(1) _ refl, of k "advance k ?dk"] by (intro exI[of _ k] exI[of _ ?p]) simp
qed

lemma part_write_one_ok:
  assumes "part_ok B (p, d)" "buf \<noteq> []" "part_pos (p, d) < part_limit (p, d)"
  shows "\<exists>k p' d'. part_wr B buf (p, d) = (Inr k, (p', d')) \<and> 0 < k \<and> k \<le> length buf \<and>
    part_pos (p, d) + k \<le> part_limit (p, d) \<and> part_ok B (p', d') \<and>
    part_pos (p', d') = part_pos (p, d) + k \<and> start_lba p' = start_lba p \<and> end_lba p' = end_lba p \<and>
    disk_byte B d' = patch (disk_byte B d) (part_base p + part_pos (p, d)) (take k buf)"
proof -
  let ?dk = "disk_set_position (start_lba p * 512 + part_position p) (part_disk p)"
  let ?m = "min (length buf) (part_limit (p, d) - part_pos (p, d))"
  note c = part_cursor[OF assms(1,3)]
  have m: "take ?m buf \<noteq> []" "part_pos (p, d) + ?m \<le> part_limit (p, d)" "length (take ?m buf) = ?m"
    using assms(2,3) by auto
  then have "disk_pos (?dk, d) + length (take ?m buf) \<le> disk_limit B (?dk, d)"
    using part_in_disk[OF assms(1) m(2), of ?dk] c(2) by simp
  from disk_write_one_ok[OF c(1) m(1) this] obtain k d' where k: "0 < k" "k \<le> ?m"
      "disk_write_one B (take ?m buf) d ?dk = (Inr k, advance k ?dk, d')" "bd_num_blocks B d' = bd_num_blocks B d"
      "disk_byte B d' = patch (disk_byte B d) (disk_pos (?dk, d)) (take k (take ?m buf))"
    unfolding m(3) by blast
  let ?p = "p\<lparr>part_disk := advance k ?dk, part_position := part_position p + of_nat k\<rparr>"
  have "part_wr B buf (p, d) = (Inr k, (?p, d'))"
    using k(3) part_not_at_end[OF assms(1,3)] by (simp add: part_wr_def partition_write_one_def Let_def)
  moreover have "part_pos (p, d) + k \<le> part_limit (p, d)" using k(2) m(2) by linarith
  ultimately show ?thesis
    using k c(2) part_step_ok[OF assms(1) _ k(4), of k "advance k ?dk"]
    by (intro exI[of _ k] exI[of _ ?p] exI[of _ d']) (simp add: min_absorb1)
qed

text \<open>The partition of the blocks from \<open>a\<close> to \<open>e\<close>, with positions counted from the start of the disk.\<close>

definition part_at :: "('d, 'e) block_dev \<Rightarrow> u64 \<Rightarrow> u64 \<Rightarrow> 'd part_state \<Rightarrow> bool" where
  "part_at B a e s = (part_ok B s \<and> start_lba (fst s) = a \<and> end_lba (fst s) = e)"

definition part_abs :: "u64 \<Rightarrow> 'd part_state \<Rightarrow> nat" where
  "part_abs a s = unat a * 512 + part_pos s"

definition part_stop :: "u64 \<Rightarrow> 'd part_state \<Rightarrow> nat" where
  "part_stop e s = (unat e + 1) * 512"

definition part_bytes :: "('d, 'e) block_dev \<Rightarrow> 'd part_state \<Rightarrow> nat \<Rightarrow> u8" where
  "part_bytes B s = disk_byte B (snd s)"

lemma part_at_limit:
  assumes "part_at B a e (p, d)"
  shows "part_abs a (p, d) = part_base p + part_pos (p, d)" "part_stop e (p, d) = part_base p + part_limit (p, d)"
  using assms by (auto simp: part_at_def part_ok_def part_abs_def part_stop_def part_base_def part_limit_def word_le_nat_alt)

interpretation part: block_rw "part_rd B" "part_abs a" "part_stop e" "part_bytes B" "part_at B a e" "part_wr B" for B a e
proof
  fix s n
  assume a: "part_at B a e s" "0 < n" "part_abs a s + n \<le> part_stop e s"
  obtain p d where s: "s = (p, d)" by force
  have ok: "part_ok B (p, d)" "part_pos (p, d) < part_limit (p, d)"
    using a part_at_limit[of B a e p d] s by (auto simp: part_at_def)
  from part_read_one_ok[OF ok(1) a(2) ok(2)] obtain k p' where
    k: "part_rd B n (p, d) = (Inr (map (disk_byte B d) [part_base p + part_pos (p, d)..<part_base p + part_pos (p, d) + k]), (p', d))"
      "0 < k" "k \<le> n" "part_ok B (p', d)" "part_pos (p', d) = part_pos (p, d) + k"
      "start_lba p' = start_lba p" "end_lba p' = end_lba p" by blast
  show "\<exists>k s'. part_rd B n s = (Inr (map (part_bytes B s) [part_abs a s..<part_abs a s + k]), s') \<and> 0 < k \<and> k \<le> n \<and>
      part_at B a e s' \<and> part_abs a s' = part_abs a s + k \<and> part_stop e s' = part_stop e s \<and> part_bytes B s' = part_bytes B s"
    using k a(1) part_at_limit(1)[OF a(1)[unfolded s]] s
    by (intro exI[of _ k] exI[of _ "(p', d)"]) (simp add: part_bytes_def part_at_def part_abs_def part_stop_def)
next
  fix s and buf :: "u8 list"
  assume a: "part_at B a e s" "buf \<noteq> []" "part_abs a s + length buf \<le> part_stop e s"
  obtain p d where s: "s = (p, d)" by force
  have "0 < length buf" using a(2) by simp
  then have ok: "part_ok B (p, d)" "part_pos (p, d) < part_limit (p, d)"
    using a(1,3) part_at_limit[of B a e p d] s by (auto simp: part_at_def simp del: length_greater_0_conv)
  from part_write_one_ok[OF ok(1) a(2) ok(2)] obtain k p' d' where
    k: "part_wr B buf (p, d) = (Inr k, (p', d'))" "0 < k" "k \<le> length buf" "part_ok B (p', d')"
      "part_pos (p', d') = part_pos (p, d) + k" "start_lba p' = start_lba p" "end_lba p' = end_lba p"
      "disk_byte B d' = patch (disk_byte B d) (part_base p + part_pos (p, d)) (take k buf)" by blast
  show "\<exists>k s'. part_wr B buf s = (Inr k, s') \<and> 0 < k \<and> k \<le> length buf \<and> part_at B a e s' \<and>
      part_abs a s' = part_abs a s + k \<and> part_stop e s' = part_stop e s \<and>
      part_bytes B s' = patch (part_bytes B s) (part_abs a s) (take k buf)"
    using k a(1) part_at_limit(1)[OF a(1)[unfolded s]] s
    by (intro exI[of _ k] exI[of _ "(p', d')"]) (simp add: part_bytes_def part_at_def part_abs_def part_stop_def)
qed

section \<open>Main results\<close>

text \<open>A RAM disk: the list of its blocks.\<close>

definition ram_dev :: "(u8 list list, unit) block_dev" where
  "ram_dev = \<lparr>bd_block_size = (\<lambda>_. 512), bd_num_blocks = (\<lambda>_. 24),
     bd_read_block = (\<lambda>b d. if unat b < 24 \<and> unat b < length d \<and> length (d ! unat b) = 512 then Inr (d ! unat b)
                            else if unat b < 24 then Inr (replicate 512 0) else Inl ()),
     bd_write_block = (\<lambda>b data d. if unat b < 24 then (Inr (), (d @ replicate (24 - length d) [])[unat b := data]) else (Inl (), d))\<rparr>"

lemma ram_dev_laws: "block_dev_laws ram_dev"
  unfolding block_dev_laws_def ram_dev_def
  by (auto simp: word_less_nat_alt nth_list_update nth_append word_unat_eq_iff)

lemma part_set_position_ok:
  assumes "part_at B a e (p, d)" "unat q \<le> part_limit (p, d)"
  shows "part_at B a e (partition_set_position q p, d)" "part_abs a (partition_set_position q p, d) = unat a * 512 + unat q"
  using assms part_sizes(1)[of B p d]
  by (auto simp: part_at_def part_ok_def partition_set_position_def part_pos_def part_abs_def min_def word_le_nat_alt)

lemma unat_block_pos: "unat ((ucast (b :: u32) :: u64) * 4096) = unat b * 4096"
proof -
  have "unat b < 2 ^ 32" using unsigned_less[of b, where 'a = nat] by simp
  moreover from this have "unat (ucast b :: u64) = unat b"
    by (simp add: unsigned_ucast_eq take_bit_nat_eq_self)
  ultimately show ?thesis using unat_times_small[of "ucast b :: u64" 4096] by simp
qed

lemma part_limit_at: "part_at B a e (p, d) \<Longrightarrow> part_limit (p, d) = (unat e - unat a + 1) * 512"
  by (auto simp: part_at_def part_limit_def)

text \<open>
  \<^bold>\<open>C21\<close> (round trip). On a device that does not fail, a file system that writes blocks inside its
  partition and reads them back gets what it wrote: both loops return, the read gives the buffer of
  the write, and no byte of the disk outside those blocks has changed.
\<close>

theorem partition_block_roundtrip:
  assumes "part_at B a e (p, d)" "length buffer = unat count * 4096"
    "unat block * 4096 + length buffer \<le> (unat e - unat a + 1) * 512"
  shows "\<exists>s' s''. part_block_write B buffer block count (p, d) = Some (Inr (), s') \<and>
    part_block_read B (length buffer) block count s' = Some (Inr buffer, s'') \<and>
    disk_byte B (snd s') = patch (disk_byte B d) (unat a * 512 + unat block * 4096) buffer"
proof -
  let ?q = "ucast block * 4096 :: u64"
  have le: "unat ?q \<le> part_limit (p, d)" using assms(3) by (simp add: unat_block_pos part_limit_at[OF assms(1)])
  note s0 = part_set_position_ok[OF assms(1) le]
  have ae: "unat a \<le> unat e" using assms(1) by (auto simp: part_at_def part_ok_def word_le_nat_alt)
  have stop: "unat a * 512 + unat block * 4096 + length buffer \<le> (unat e + 1) * 512" using assms(3) ae by simp
  obtain p' d' where w: "part_block_write B buffer block count (p, d) = Some (Inr (), (p', d'))" "part_at B a e (p', d')"
      "disk_byte B d' = patch (disk_byte B d) (unat a * 512 + unat block * 4096) buffer"
    using part.block_write_loop_ok[OF s0(1), of buffer 0] s0(2) assms(2) stop
    by (auto simp: part_block_write_def part_bytes_def part_stop_def unat_block_pos)
  have le': "unat ?q \<le> part_limit (p', d')" using le part_limit_at[OF w(2)] part_limit_at[OF assms(1)] by simp
  note s1 = part_set_position_ok[OF w(2) le']
  obtain s'' where "part_block_read B (length buffer) block count (p', d') =
      Some (Inr (map (patch (disk_byte B d) (unat a * 512 + unat block * 4096) buffer)
        [unat a * 512 + unat block * 4096..<unat a * 512 + unat block * 4096 + length buffer]), s'')"
    using part.block_read_loop_ok[OF s1(1), of "length buffer" "[]" "length buffer"] s1(2) w(3) assms(2) stop
    by (auto simp: part_block_read_def part_bytes_def part_stop_def unat_block_pos)
  then show ?thesis using w map_patch[of "disk_byte B d"] by auto
qed


definition ram_part :: Partition where
  "ram_part = Partition_new \<lparr>block_id = 0, offset = 0\<rparr> 3 20"

lemma ram_part_at: "part_at ram_dev 3 20 (ram_part, [])"
  by (simp add: part_at_def part_ok_def ram_dev_laws ram_part_def Partition_new_def) (simp add: ram_dev_def)

theorem partition_block_roundtrip_witness:
  "\<exists>s' s''. part_block_write ram_dev (replicate 4096 7) 1 1 (ram_part, []) = Some (Inr (), s') \<and>
    part_block_read ram_dev (length (replicate 4096 (7 :: u8))) 1 1 s' = Some (Inr (replicate 4096 7), s'')"
  using partition_block_roundtrip[OF ram_part_at, of "replicate 4096 7" 1 1] by auto

lemma part_at_end:
  assumes "part_at B a e (p, d)" "part_abs a (p, d) = part_stop e (p, d)"
  shows "part_rd B n (p, d) = (Inr [], (p, d))" "part_wr B buf (p, d) = (Inr 0, (p, d))"
proof -
  have ok: "part_ok B (p, d)" using assms(1) by (simp add: part_at_def)
  have "part_pos (p, d) = part_limit (p, d)" using assms part_at_limit[OF assms(1)] by simp
  then have "part_position p \<ge> partition_size p"
    using part_sizes(1)[OF ok] by (simp add: word_le_nat_alt part_pos_def)
  then show "part_rd B n (p, d) = (Inr [], (p, d))" "part_wr B buf (p, d) = (Inr 0, (p, d))"
    by (simp_all add: part_rd_def part_wr_def partition_read_one_def partition_write_one_def)
qed

lemma part_write_step:
  assumes "part_at B a e (p, d)" "buf \<noteq> []" "part_abs a (p, d) < part_stop e (p, d)"
  obtains k s' where "part_wr B buf (p, d) = (Inr k, s')" "0 < k" "k \<le> length buf"
    "part_abs a (p, d) + k \<le> part_stop e (p, d)" "part_at B a e s'" "part_abs a s' = part_abs a (p, d) + k"
    "part_bytes B s' = patch (part_bytes B (p, d)) (part_abs a (p, d)) (take k buf)"
proof -
  have ok: "part_ok B (p, d)" "part_pos (p, d) < part_limit (p, d)"
    using assms(1,3) part_at_limit[OF assms(1)] by (auto simp: part_at_def)
  from part_write_one_ok[OF ok(1) assms(2) ok(2)] obtain k p' d' where
    "part_wr B buf (p, d) = (Inr k, (p', d'))" "0 < k" "k \<le> length buf" "part_ok B (p', d')"
    "part_pos (p, d) + k \<le> part_limit (p, d)" "part_pos (p', d') = part_pos (p, d) + k"
    "start_lba p' = start_lba p" "end_lba p' = end_lba p"
    "disk_byte B d' = patch (disk_byte B d) (part_base p + part_pos (p, d)) (take k buf)" by blast
  then show ?thesis
    using that[of k "(p', d')"] part_at_limit[OF assms(1)] assms(1)
    by (simp add: part_at_def part_abs_def part_bytes_def)
qed

lemma write_all_clipped:
  assumes "part_at B a e s" "part_abs a s \<le> part_stop e s"
  shows "\<exists>s'. write_all (part_wr B) buf s = (Inr (min (length buf) (part_stop e s - part_abs a s)), s') \<and> part_at B a e s' \<and>
    part_bytes B s' = patch (part_bytes B s) (part_abs a s) (take (part_stop e s - part_abs a s) buf)"
  using assms
proof (induction buf arbitrary: s rule: length_induct)
  case (1 buf)
  obtain p d where s: "s = (p, d)" by force
  show ?case
  proof (cases "buf = [] \<or> part_abs a s = part_stop e s")
    case True
    then show ?thesis using 1 part_at_end(2)[of B a e p d buf] s by (auto simp: write_all.simps[of _ buf])
  next
    case False
    then obtain k s1 where k: "part_wr B buf s = (Inr k, s1)" "0 < k" "k \<le> length buf"
        "part_abs a s + k \<le> part_stop e s" "part_at B a e s1" "part_abs a s1 = part_abs a s + k"
        "part_bytes B s1 = patch (part_bytes B s) (part_abs a s) (take k buf)"
      using part_write_step[of B a e p d buf] 1(2,3) s by (metis le_neq_implies_less)
    let ?r = "part_stop e s - part_abs a s"
    have stop: "part_stop e s1 = part_stop e s" by (simp add: part_stop_def)
    have "length (drop k buf) < length buf" using k(2,3) by simp
    then obtain s2 where s2: "write_all (part_wr B) (drop k buf) s1 =
          (Inr (min (length (drop k buf)) (part_stop e s1 - part_abs a s1)), s2)" "part_at B a e s2"
        "part_bytes B s2 = patch (part_bytes B s1) (part_abs a s1) (take (part_stop e s1 - part_abs a s1) (drop k buf))"
      using 1(1) k(4-6) stop by (metis (no_types, lifting))
    have "take k buf @ take (?r - k) (drop k buf) = take ?r buf"
      using k(4) by (metis add_diff_inverse_nat le_diff_conv2 add.commute linorder_not_less take_add le_add1 add_leE)
    then have "part_bytes B s2 = patch (part_bytes B s) (part_abs a s) (take ?r buf)"
      using s2(3) k(3,6,7) stop patch_append[of "part_bytes B s" "part_abs a s" "take k buf" "take (?r - k) (drop k buf)"]
      by (simp add: min_absorb2)
    then show ?thesis using s2 k False stop by (subst write_all.simps) auto
  qed
qed

text \<open>
  \<^bold>\<open>C22\<close> (safety). Whatever buffer the FAT file system writes at whatever position of its partition, the
  write stores as much of it as fits before the end of the partition, reports that number, and
  changes no byte of the disk outside the partition.
\<close>

theorem partition_write_confined:
  assumes "part_at B a e (p, d)" "part_abs a (p, d) \<le> part_stop e (p, d)"
  shows "\<exists>n s'. write_all (part_wr B) buf (p, d) = (Inr n, s') \<and> n = min (length buf) (part_stop e (p, d) - part_abs a (p, d)) \<and>
    disk_byte B (snd s') = patch (disk_byte B d) (part_abs a (p, d)) (take n buf) \<and>
    (\<forall>i. i < unat a * 512 \<or> (unat e + 1) * 512 \<le> i \<longrightarrow> disk_byte B (snd s') i = disk_byte B d i)"
proof -
  let ?r = "part_stop e (p, d) - part_abs a (p, d)"
  obtain s' where s': "write_all (part_wr B) buf (p, d) = (Inr (min (length buf) ?r), s')"
      "disk_byte B (snd s') = patch (disk_byte B d) (part_abs a (p, d)) (take ?r buf)"
    using write_all_clipped[OF assms, of buf] by (auto simp: part_bytes_def)
  moreover have "take (min (length buf) ?r) buf = take ?r buf" by (simp add: min_def)
  ultimately show ?thesis
    using assms(2) by (auto simp: patch_def part_abs_def part_stop_def)
qed

theorem partition_write_confined_witness:
  "\<exists>n s'. write_all (part_wr ram_dev) (replicate 10000 7) (ram_part, []) = (Inr n, s') \<and> n = 9216 \<and>
     disk_byte ram_dev (snd s') 20000 = disk_byte ram_dev [] 20000"
proof -
  have "part_abs 3 (ram_part, [] :: u8 list list) = 1536" "part_stop 20 (ram_part, [] :: u8 list list) = 10752"
    by (simp_all add: part_abs_def part_stop_def part_pos_def ram_part_def Partition_new_def)
  then obtain n s' where "write_all (part_wr ram_dev) (replicate 10000 7) (ram_part, []) = (Inr n, s')" "n = 9216"
      "\<forall>i. i < 1536 \<or> 10752 \<le> i \<longrightarrow> disk_byte ram_dev (snd s') i = disk_byte ram_dev [] i"
    using partition_write_confined[OF ram_part_at, of "replicate 10000 7"] by auto
  then show ?thesis by auto
qed

text \<open>Reading past the end: the loop goes on without transferring anything.\<close>

lemma part_read_step:
  assumes "part_at B a e s" "0 < n" "part_abs a s \<le> part_stop e s"
  obtains data s' where "part_rd B n s = (Inr data, s')" "part_at B a e s'" "part_abs a s' = part_abs a s + length data"
    "part_abs a s' \<le> part_stop e s'" "length data \<le> n"
proof -
  obtain p d where s: "s = (p, d)" by force
  show ?thesis
  proof (cases "part_abs a s = part_stop e s")
    case True
    then show ?thesis using that[of "[]" s] part_at_end(1)[of B a e p d n] assms s by simp
  next
    case False
    then have ok: "part_ok B (p, d)" "part_pos (p, d) < part_limit (p, d)"
      using assms(1,3) part_at_limit[of B a e p d] s by (auto simp: part_at_def)
    from part_read_one_ok[OF ok(1) assms(2) ok(2)] obtain k p' where
      "part_rd B n (p, d) = (Inr (map (disk_byte B d) [part_base p + part_pos (p, d)..<part_base p + part_pos (p, d) + k]), (p', d))"
      "k \<le> n" "part_pos (p, d) + k \<le> part_limit (p, d)" "part_ok B (p', d)" "part_pos (p', d) = part_pos (p, d) + k"
      "start_lba p' = start_lba p" "end_lba p' = end_lba p" by blast
    then show ?thesis
      using that[of "map (disk_byte B d) [part_base p + part_pos (p, d)..<part_base p + part_pos (p, d) + k]" "(p', d)"]
        part_at_limit[of B a e p d] assms(1) s by (simp add: part_at_def part_abs_def part_stop_def)
  qed
qed

definition starving :: "('d, 'e) block_dev \<Rightarrow> u64 \<Rightarrow> u64 \<Rightarrow> nat \<Rightarrow> u8 list \<Rightarrow> 'd part_state \<Rightarrow> bool" where
  "starving B a e m acc s =
     (part_at B a e s \<and> part_abs a s \<le> part_stop e s \<and> length acc + (part_stop e s - part_abs a s) < m)"

lemma starving_step:
  assumes "starving B a e m acc s"
  obtains data s' where "part_rd B (m - length acc) s = (Inr data, s')" "starving B a e m (acc @ data) s'"
proof -
  have "0 < m - length acc" using assms by (simp add: starving_def)
  then obtain data s' where d: "part_rd B (m - length acc) s = (Inr data, s')" "part_at B a e s'"
      "part_abs a s' = part_abs a s + length data" "part_abs a s' \<le> part_stop e s'"
    using part_read_step[of B a e s "m - length acc"] assms unfolding starving_def by blast
  moreover have "part_stop e s' = part_stop e s" by (simp add: part_stop_def)
  ultimately show ?thesis using that[OF d(1)] assms by (simp add: starving_def)
qed

lemma block_read_loop_starves: "starving B a e m acc s \<Longrightarrow> block_read_loop (part_rd B) m m acc s = None"
proof (rule ccontr)
  assume st: "starving B a e m acc s" and "block_read_loop (part_rd B) m m acc s \<noteq> None"
  then obtain r where "block_read_loop (part_rd B) m m acc s = Some r" by blast
  then have "part_rd B = part_rd B \<longrightarrow> m = m \<longrightarrow> \<not> starving B a e m acc s"
  proof (rule block_read_loop.raw_induct[where P = "\<lambda>rd len to acc s r. rd = part_rd B \<longrightarrow> len = to \<longrightarrow> \<not> starving B a e to acc s", rotated])
    fix f rd len to acc s r
    assume IH: "\<And>rd len to acc s y. f rd len to acc s = Some y \<Longrightarrow> rd = part_rd B \<longrightarrow> len = to \<longrightarrow> \<not> starving B a e to acc s"
      and eq: "(if length acc < to then case rd (len - length acc) s of (Inl x, s') \<Rightarrow> Some (Inl ReadError, s')
        | (Inr data, s') \<Rightarrow> f rd len to (acc @ data) s' else Some (Inr acc, s)) = Some r"
    show "rd = part_rd B \<longrightarrow> len = to \<longrightarrow> \<not> starving B a e to acc s"
    proof (intro impI notI)
      assume a: "rd = part_rd B" "len = to" "starving B a e to acc s"
      obtain data s' where "part_rd B (to - length acc) s = (Inr data, s')" "starving B a e to (acc @ data) s'"
        using starving_step[OF a(3)] by blast
      moreover have "length acc < to" using a(3) by (simp add: starving_def)
      ultimately show False using eq IH[of rd len to "acc @ data" s'] a by auto
    qed
  qed
  with st show False by simp
qed

text \<open>
  The block read that the ext4 file system uses never returns when the blocks reach
  beyond the end of the partition, even on a device that does not fail: the cursor is held at the
  end, every read transfers nothing, and the loop has no exit for that.
\<close>

theorem partition_block_read_beyond_end:
  assumes "part_at B a e (p, d)" "(unat e - unat a + 1) * 512 < unat block * 4096 + unat count * 4096"
    "0 < count"
  shows "part_block_read B (unat count * 4096) block count (p, d) = None"
proof -
  let ?q = "ucast block * 4096 :: u64" and ?p = "partition_set_position (ucast block * 4096) p"
  have ok: "part_ok B (p, d)" and ae: "unat a \<le> unat e" "start_lba p = a" "end_lba p = e"
    using assms(1) by (auto simp: part_at_def part_ok_def word_le_nat_alt)
  have "unat (partition_size p) = (unat e - unat a + 1) * 512" using part_sizes(1)[OF ok] ae by (simp add: part_limit_def)
  then have pos: "unat (part_position ?p) = min (unat block * 4096) ((unat e - unat a + 1) * 512)"
    by (auto simp: partition_set_position_def min_def word_le_nat_alt unat_block_pos)
  have "part_at B a e (?p, d)" using assms(1) by (auto simp: part_at_def part_ok_def partition_set_position_def)
  moreover have "0 < unat count" using assms(3) by (simp add: word_less_nat_alt)
  ultimately have "starving B a e (unat count * 4096) [] (?p, d)"
    using pos assms(2) ae(1) by (auto simp: starving_def part_abs_def part_pos_def part_stop_def min_def split: if_splits)
  then show ?thesis using block_read_loop_starves by (simp add: part_block_read_def)
qed

theorem partition_block_read_beyond_end_witness:
  "part_block_read ram_dev (unat (1 :: u32) * 4096) 2 1 (ram_part, []) = None"
  using partition_block_read_beyond_end[OF ram_part_at, of 2 1] by simp

end
