(* ===== verification/Axfs_Partition.thy ===== *)
theory Axfs_Partition
  imports Axfs_Dev
begin

text \<open>
  Partition tables and file-system detection, \<^verbatim>\<open>modules/axfs/src/partition.rs\<close>. The functions read through
  the disk cursor of the theory \<open>Axfs_Dev\<close>; a disk state is the cursor and the state of the device.
  Names are decoded from UTF-16; strings here are ASCII, so a code unit outside ASCII becomes a
  question mark.
\<close>

section \<open>Data\<close>

datatype FilesystemType = Fat | Ext4 | Unknown

record PartitionInfo =
  index :: u32
  part_name :: string
  partition_type_guid :: "u8 list"
  unique_partition_guid :: "u8 list"
  filesystem_uuid :: "string option"
  starting_lba :: u64
  ending_lba :: u64
  size_bytes :: u64
  filesystem_type :: "FilesystemType option"

record GptHeader =
  gh_signature :: "u8 list"
  gh_revision :: "u8 list"
  gh_header_size :: "u8 list"
  gh_header_crc32 :: "u8 list"
  gh_reserved :: "u8 list"
  gh_current_lba :: "u8 list"
  gh_backup_lba :: "u8 list"
  gh_first_usable_lba :: "u8 list"
  gh_last_usable_lba :: "u8 list"
  gh_disk_guid :: "u8 list"
  gh_partition_entry_lba :: "u8 list"
  gh_number_of_partition_entries :: "u8 list"
  gh_size_of_partition_entry :: "u8 list"
  gh_partition_entry_array_crc32 :: "u8 list"

record GptPartitionEntry =
  ge_type_guid :: "u8 list"
  ge_unique_guid :: "u8 list"
  ge_starting_lba :: "u8 list"
  ge_ending_lba :: "u8 list"
  ge_attributes :: "u8 list"
  ge_name :: "u16 list"

text \<open>A byte string literal.\<close>

definition ascii :: "string \<Rightarrow> u8 list" where
  "ascii s = map of_char s"

definition from_utf16_lossy :: "u16 list \<Rightarrow> string" where
  "from_utf16_lossy us = map (\<lambda>u. if u < 128 then char_of (unat u) else CHR ''?'') us"

text \<open>The format \<^verbatim>\<open>{:02x}\<close> of a byte.\<close>

definition hex_nibble :: "nat \<Rightarrow> char" where
  "hex_nibble n = ''0123456789abcdef'' ! n"

definition hex02 :: "u8 \<Rightarrow> string" where
  "hex02 b = [hex_nibble (unat b div 16), hex_nibble (unat b mod 16)]"

section \<open>Parsing headers and entries\<close>

definition parse_header :: "u8 list \<Rightarrow> GptHeader" where
  "parse_header data = \<lparr>gh_signature = slice 0 8 data, gh_revision = slice 8 12 data, gh_header_size = slice 12 16 data,
     gh_header_crc32 = slice 16 20 data, gh_reserved = slice 20 24 data, gh_current_lba = slice 24 32 data,
     gh_backup_lba = slice 32 40 data, gh_first_usable_lba = slice 40 48 data, gh_last_usable_lba = slice 48 56 data,
     gh_disk_guid = slice 56 72 data, gh_partition_entry_lba = slice 72 80 data,
     gh_number_of_partition_entries = slice 80 84 data, gh_size_of_partition_entry = slice 84 88 data,
     gh_partition_entry_array_crc32 = slice 88 92 data\<rparr>"

text \<open>The name field: 36 code units, as far as the entry reaches.\<close>

definition entry_name :: "u8 list \<Rightarrow> u16 list" where
  "entry_name data =
     map (\<lambda>j. let off = 56 + j * 2 in if off + 1 < length data then le_u16 [data ! off, data ! (off + 1)] else 0) [0..<36]"

definition parse_entry :: "u8 list \<Rightarrow> GptPartitionEntry" where
  "parse_entry data = \<lparr>ge_type_guid = slice 0 16 data, ge_unique_guid = slice 16 32 data,
     ge_starting_lba = slice 32 40 data, ge_ending_lba = slice 40 48 data, ge_attributes = slice 48 56 data,
     ge_name = entry_name data\<rparr>"

text \<open>The name up to its terminator.\<close>

definition name_str :: "u16 list \<Rightarrow> string" where
  "name_str us = from_utf16_lossy (takeWhile (\<lambda>u. u \<noteq> 0) us)"

definition is_fat_filesystem :: "u8 list \<Rightarrow> bool" where
  "is_fat_filesystem boot_sector =
     (length boot_sector \<ge> 0x36 + 3 \<and> slice 0x36 (0x36 + 3) boot_sector = ascii ''FAT'' \<or>
      length boot_sector \<ge> 0x52 + 5 \<and> slice 0x52 (0x52 + 5) boot_sector = ascii ''FAT32'')"

section \<open>Reading from the disk\<close>

definition seek_to :: "u64 \<Rightarrow> 'd disk_state \<Rightarrow> 'd disk_state" where
  "seek_to p s = (disk_set_position p (fst s), snd s)"

definition is_ext4_filesystem :: "('d, 'e) block_dev \<Rightarrow> u64 \<Rightarrow> 'd disk_state \<Rightarrow> bool \<times> 'd disk_state" where
  "is_ext4_filesystem B lba s =
     (let superblock_offset = lba * 512 + 1024; pos = disk_position (fst s)
      in case read_exact (disk_rd B) (replicate 2048 0) (seek_to superblock_offset s) of
           (Inl _, s') \<Rightarrow> (False, seek_to pos s')
         | (Inr superblock, s') \<Rightarrow>
             (length superblock \<ge> 58 \<and> le_u16 [superblock ! 56, superblock ! 57] = 0xEF53, seek_to pos s'))"

definition detect_filesystem_type ::
    "('d, 'e) block_dev \<Rightarrow> u64 \<Rightarrow> 'd disk_state \<Rightarrow> FilesystemType option \<times> 'd disk_state" where
  "detect_filesystem_type B lba s =
     (let original_position = disk_position (fst s)
      in case read_exact (disk_rd B) (replicate 512 0) (seek_to (lba * 512) s) of
           (Inl _, s') \<Rightarrow> (None, seek_to original_position s')
         | (Inr boot_sector, s') \<Rightarrow>
             (let s1 = seek_to original_position s'
              in if is_fat_filesystem boot_sector then (Some Fat, s1)
                 else (let (e, s2) = is_ext4_filesystem B lba s1
                       in if e then (Some Ext4, s2) else (None, s2))))"

definition read_ext4_uuid :: "('d, 'e) block_dev \<Rightarrow> u64 \<Rightarrow> 'd disk_state \<Rightarrow> string option \<times> 'd disk_state" where
  "read_ext4_uuid B lba s =
     (case read_exact (disk_rd B) (replicate 1024 0) (seek_to (lba * 512 + 1024) s) of
        (Inl _, s') \<Rightarrow> (None, s')
      | (Inr data, s') \<Rightarrow>
          (if length data \<ge> 120 then
             (let u = map hex02 (slice 104 120 data); part = (\<lambda>i j. concat (slice i j u))
              in (Some (part 0 4 @ ''-'' @ part 4 6 @ ''-'' @ part 6 8 @ ''-'' @ part 8 10 @ ''-'' @ part 10 16), s'))
           else (None, s')))"

definition read_fat32_uuid :: "('d, 'e) block_dev \<Rightarrow> u64 \<Rightarrow> 'd disk_state \<Rightarrow> string option \<times> 'd disk_state" where
  "read_fat32_uuid B lba s =
     (case read_exact (disk_rd B) (replicate 512 0) (seek_to (lba * 512) s) of
        (Inl _, s') \<Rightarrow> (None, s')
      | (Inr boot_sector, s') \<Rightarrow>
          (if length boot_sector \<ge> 71 then (Some (concat (map hex02 (rev (slice 67 71 boot_sector)))), s')
           else (None, s')))"

definition read_filesystem_uuid_simple ::
    "('d, 'e) block_dev \<Rightarrow> u64 \<Rightarrow> FilesystemType \<Rightarrow> 'd disk_state \<Rightarrow> string option \<times> 'd disk_state" where
  "read_filesystem_uuid_simple B lba fs s =
     (case fs of Ext4 \<Rightarrow> read_ext4_uuid B lba s | Fat \<Rightarrow> read_fat32_uuid B lba s | Unknown \<Rightarrow> (None, s))"

text \<open>The body of the loop over the entries, for one entry that was read.\<close>

definition gpt_entry ::
    "('d, 'e) block_dev \<Rightarrow> u32 \<Rightarrow> u8 list \<Rightarrow> 'd disk_state \<Rightarrow> PartitionInfo option \<times> 'd disk_state" where
  "gpt_entry B i entry_data s =
     (let entry = parse_entry entry_data
      in if list_all (\<lambda>b. b = 0) (ge_type_guid entry) then (None, s)
         else (let s_lba = le_u64 (ge_starting_lba entry); e_lba = le_u64 (ge_ending_lba entry);
                   name = name_str (ge_name entry)
               in if name = [] then (None, s)
                  else (let (fs_type, s1) = detect_filesystem_type B s_lba s;
                            (uuid, s2) = (case fs_type of
                                            Some fs \<Rightarrow> read_filesystem_uuid_simple B s_lba fs s1
                                          | None \<Rightarrow> (None, s1))
                        in (Some \<lparr>index = i, part_name = name, partition_type_guid = ge_type_guid entry,
                              unique_partition_guid = ge_unique_guid entry, filesystem_uuid = uuid,
                              starting_lba = s_lba, ending_lba = e_lba, size_bytes = (e_lba - s_lba + 1) * 512,
                              filesystem_type = fs_type\<rparr>, s2))))"

fun gpt_entries ::
    "('d, 'e) block_dev \<Rightarrow> u64 \<Rightarrow> u32 \<Rightarrow> nat list \<Rightarrow> 'd disk_state \<Rightarrow> PartitionInfo list \<times> 'd disk_state" where
  "gpt_entries B entry_offset entry_size [] s = ([], s)"
| "gpt_entries B entry_offset entry_size (i # is) s =
     (let current = entry_offset + of_nat i * ucast entry_size
      in case read_exact (disk_rd B) (replicate (unat entry_size) 0) (seek_to current s) of
           (Inl _, s1) \<Rightarrow> gpt_entries B entry_offset entry_size is s1
         | (Inr entry_data, s1) \<Rightarrow>
             if entry_size \<ge> 128 then
               (let (p, s2) = gpt_entry B (of_nat i) entry_data s1;
                    (ps, s3) = gpt_entries B entry_offset entry_size is s2
                in (case p of Some q \<Rightarrow> q # ps | None \<Rightarrow> ps, s3))
             else gpt_entries B entry_offset entry_size is s1)"

definition parse_gpt_partitions ::
    "('d, 'e) block_dev \<Rightarrow> 'd disk_state \<Rightarrow> PartitionInfo list ax_result \<times> 'd disk_state" where
  "parse_gpt_partitions B s =
     (case read_exact (disk_rd B) (replicate 512 0) (seek_to 512 s) of
        (Inl _, s') \<Rightarrow> (Inl InvalidData, s')
      | (Inr header_data, s') \<Rightarrow>
          (if slice 0 8 header_data \<noteq> ascii ''EFI PART'' then (Inl InvalidData, s')
           else (let header = parse_header header_data;
                     entry_lba = le_u64 (gh_partition_entry_lba header);
                     number = le_u32 (gh_number_of_partition_entries header);
                     entry_size = le_u32 (gh_size_of_partition_entry header);
                     entry_offset = entry_lba * 512;
                     (ps, s'') = gpt_entries B entry_offset entry_size [0..<unat number] (seek_to entry_offset s')
                 in (Inr ps, s''))))"

definition scan_gpt_partitions ::
    "('d, 'e) block_dev \<Rightarrow> 'd disk_state \<Rightarrow> PartitionInfo list ax_result \<times> 'd disk_state" where
  "scan_gpt_partitions B s =
     (let size = disk_size B (snd s)
      in if size = 0 then (Inr [], s)
         else (let (r, s1) = parse_gpt_partitions B s
               in if (case r of Inr ps \<Rightarrow> ps \<noteq> [] | Inl _ \<Rightarrow> False) then (r, s1)
                  else (let (fs, s2) = detect_filesystem_type B 0 s1
                        in (Inr [\<lparr>index = 0, part_name = ''disk'', partition_type_guid = replicate 16 0,
                             unique_partition_guid = replicate 16 0, filesystem_uuid = None, starting_lba = 0,
                             ending_lba = size div 512, size_bytes = size, filesystem_type = fs\<rparr>], s2))))"

text \<open>
  Creating the file system of a partition; mounting FAT or ext4 on the partition is the work of
  the file-system crates, the arguments \<open>fat\<close> and \<open>ext4\<close>.
\<close>

definition create_filesystem_for_partition ::
    "(Partition \<Rightarrow> 'fs) \<Rightarrow> (Partition \<Rightarrow> 'fs) \<Rightarrow> Disk \<Rightarrow> PartitionInfo \<Rightarrow> 'fs ax_result" where
  "create_filesystem_for_partition fat ext4 disk p =
     (case filesystem_type p of
        Some Fat \<Rightarrow> Inr (fat (Partition_new disk (starting_lba p) (ending_lba p)))
      | Some Ext4 \<Rightarrow> Inr (ext4 (Partition_new disk (starting_lba p) (ending_lba p)))
      | Some Unknown \<Rightarrow> Inl Unsupported
      | None \<Rightarrow> Inl Unsupported)"


section \<open>What the scan finds, as a function of the bytes of the disk\<close>

definition img :: "(nat \<Rightarrow> u8) \<Rightarrow> nat \<Rightarrow> nat \<Rightarrow> u8 list" where
  "img f off n = map f [off..<off + n]"

definition spec_detect :: "(nat \<Rightarrow> u8) \<Rightarrow> nat \<Rightarrow> FilesystemType option" where
  "spec_detect f base =
     (if is_fat_filesystem (img f base 512) then Some Fat
      else if le_u16 [f (base + 1080), f (base + 1081)] = 0xEF53 then Some Ext4 else None)"

definition spec_uuid :: "(nat \<Rightarrow> u8) \<Rightarrow> nat \<Rightarrow> FilesystemType option \<Rightarrow> string option" where
  "spec_uuid f base fs =
     (case fs of
        Some Ext4 \<Rightarrow>
          (let u = (\<lambda>i j. concat (map hex02 (img f (base + 1128 + i) (j - i))))
           in Some (u 0 4 @ ''-'' @ u 4 6 @ ''-'' @ u 6 8 @ ''-'' @ u 8 10 @ ''-'' @ u 10 16))
      | Some Fat \<Rightarrow> Some (concat (map hex02 (rev (img f (base + 67) 4))))
      | _ \<Rightarrow> None)"

definition spec_entry :: "(nat \<Rightarrow> u8) \<Rightarrow> nat \<Rightarrow> u8 list \<Rightarrow> PartitionInfo option" where
  "spec_entry f i data =
     (let e = parse_entry data; s_lba = le_u64 (ge_starting_lba e); e_lba = le_u64 (ge_ending_lba e);
          fs = spec_detect f (unat s_lba * 512)
      in if list_all (\<lambda>b. b = 0) (ge_type_guid e) \<or> name_str (ge_name e) = [] then None
         else Some \<lparr>index = of_nat i, part_name = name_str (ge_name e), partition_type_guid = ge_type_guid e,
                unique_partition_guid = ge_unique_guid e, filesystem_uuid = spec_uuid f (unat s_lba * 512) fs,
                starting_lba = s_lba, ending_lba = e_lba, size_bytes = (e_lba - s_lba + 1) * 512, filesystem_type = fs\<rparr>)"

definition spec_scan :: "(nat \<Rightarrow> u8) \<Rightarrow> PartitionInfo list" where
  "spec_scan f =
     (let base = unat (le_u64 (img f 584 8)) * 512; n = unat (le_u32 (img f 592 4)); sz = unat (le_u32 (img f 596 4))
      in List.map_filter (\<lambda>i. spec_entry f i (img f (base + i * sz) sz)) [0..<n])"

text \<open>A disk state over a disk of \<open>L\<close> bytes that hold \<open>f\<close>.\<close>

definition at_image :: "('d, 'e) block_dev \<Rightarrow> (nat \<Rightarrow> u8) \<Rightarrow> nat \<Rightarrow> 'd disk_state \<Rightarrow> bool" where
  "at_image B f L s = (disk_ok B s \<and> disk_bytes B s = f \<and> disk_limit B s = L)"

lemma at_image_seek:
  assumes "at_image B f L s"
  shows "at_image B f L (seek_to p s)" "disk_pos (seek_to p s) = unat p"
  using assms by (auto simp: at_image_def seek_to_def disk_ok_def disk_bytes_def disk_limit_def disk_set_position_def
      disk_pos_def unat_div div_mult_mod_eq)

lemma image_read:
  assumes "at_image B f L s" "unat p + n \<le> L"
  shows "\<exists>s'. read_exact (disk_rd B) (replicate n 0) (seek_to p s) = (Inr (img f (unat p) n), s') \<and> at_image B f L s'"
proof -
  note i = at_image_seek[OF assms(1), of p]
  have "disk_ok B (seek_to p s)" "disk_pos (seek_to p s) + n \<le> disk_limit B (seek_to p s)"
    using i assms(2) by (simp_all add: at_image_def)
  from disk.read_all_ok[OF this] show ?thesis
    using i by (auto simp: read_exact_def img_def at_image_def)
qed

lemma length_img [simp]: "length (img f off n) = n"
  by (simp add: img_def)

lemma nth_img [simp]: "i < n \<Longrightarrow> img f off n ! i = f (off + i)"
  by (simp add: img_def)

lemma slice_img: "i \<le> j \<Longrightarrow> j \<le> n \<Longrightarrow> slice i j (img f off n) = img f (off + i) (j - i)"
  by (rule nth_equalityI) (simp_all add: nth_slice add.assoc)

text \<open>An address of the disk does not wrap around.\<close>

lemma image_addr:
  assumes "at_image B f L s" "unat (lba :: u64) * 512 + k \<le> L" "k < 2 ^ 63"
  shows "unat (lba * 512) = unat lba * 512" "unat (lba * 512 + of_nat k) = unat lba * 512 + k"
proof -
  have L: "L < 2 ^ 64" using assms(1) by (auto simp: at_image_def disk_ok_def disk_limit_def)
  show 1: "unat (lba * 512) = unat lba * 512" using unat_times_small[of lba 512] assms(2) L by simp
  have "unat (of_nat k :: u64) = k" using assms(3) by (simp add: unat_of_nat take_bit_nat_eq_self)
  then show "unat (lba * 512 + of_nat k) = unat lba * 512 + k"
    using unat_plus_small[of "lba * 512" "of_nat k"] assms(2) L 1 by simp
qed

lemma is_ext4_image:
  assumes "at_image B f L s" "unat lba * 512 + 3072 \<le> L"
  shows "\<exists>s'. is_ext4_filesystem B lba s =
    (le_u16 [f (unat lba * 512 + 1080), f (unat lba * 512 + 1081)] = 0xEF53, s') \<and> at_image B f L s'"
proof -
  have a: "unat (lba * 512 + 1024) = unat lba * 512 + 1024"
    using image_addr(2)[OF assms(1), of lba 1024] assms(2) by simp
  then obtain s' where s': "read_exact (disk_rd B) (replicate 2048 0) (seek_to (lba * 512 + 1024) s) =
      (Inr (img f (unat lba * 512 + 1024) 2048), s')" "at_image B f L s'"
    using image_read[OF assms(1), of "lba * 512 + 1024" 2048] assms(2) by auto
  then show ?thesis using at_image_seek(1)[OF s'(2)] by (simp add: is_ext4_filesystem_def Let_def add.commute)
qed

lemma detect_image:
  assumes "at_image B f L s" "unat lba * 512 + 3072 \<le> L"
  shows "\<exists>s'. detect_filesystem_type B lba s = (spec_detect f (unat lba * 512), s') \<and> at_image B f L s'"
proof -
  have a: "unat (lba * 512) = unat lba * 512"
    using image_addr(1)[OF assms(1), of lba 0] assms(2) by simp
  then obtain s1 where s1: "read_exact (disk_rd B) (replicate 512 0) (seek_to (lba * 512) s) =
      (Inr (img f (unat lba * 512) 512), s1)" "at_image B f L s1"
    using image_read[OF assms(1), of "lba * 512" 512] assms(2) by auto
  obtain s2 where s2: "is_ext4_filesystem B lba (seek_to (disk_position (fst s)) s1) =
      (le_u16 [f (unat lba * 512 + 1080), f (unat lba * 512 + 1081)] = 0xEF53, s2)" "at_image B f L s2"
    using is_ext4_image[OF at_image_seek(1)[OF s1(2)] assms(2)] by blast
  show ?thesis
    using s1 s2 at_image_seek(1)[OF s1(2)]
    by (intro exI[of _ "if is_fat_filesystem (img f (unat lba * 512) 512) then seek_to (disk_position (fst s)) s1 else s2"])
       (simp add: detect_filesystem_type_def spec_detect_def Let_def)
qed

lemma uuid_image:
  assumes "at_image B f L s" "unat lba * 512 + 3072 \<le> L"
  shows "\<exists>s'. read_filesystem_uuid_simple B lba fs s = (spec_uuid f (unat lba * 512) (Some fs), s') \<and> at_image B f L s'"
proof (cases fs)
  case Fat
  have a: "unat (lba * 512) = unat lba * 512"
    using image_addr(1)[OF assms(1), of lba 0] assms(2) by simp
  then obtain s1 where s1: "read_exact (disk_rd B) (replicate 512 0) (seek_to (lba * 512) s) =
      (Inr (img f (unat lba * 512) 512), s1)" "at_image B f L s1"
    using image_read[OF assms(1), of "lba * 512" 512] assms(2) by auto
  then show ?thesis using Fat
    by (simp add: read_filesystem_uuid_simple_def read_fat32_uuid_def spec_uuid_def slice_img)
next
  case Ext4
  have a: "unat (lba * 512 + 1024) = unat lba * 512 + 1024"
    using image_addr(2)[OF assms(1), of lba 1024] assms(2) by simp
  then obtain s1 where s1: "read_exact (disk_rd B) (replicate 1024 0) (seek_to (lba * 512 + 1024) s) =
      (Inr (img f (unat lba * 512 + 1024) 1024), s1)" "at_image B f L s1"
    using image_read[OF assms(1), of "lba * 512 + 1024" 1024] assms(2) by auto
  have sl: "slice i j (map hex02 (img f b 16)) = map hex02 (img f (b + i) (j - i))" if "i \<le> j" "j \<le> 16" for i j b
    using that by (simp add: slice_img[symmetric] slice_def drop_map take_map)
  show ?thesis using Ext4 s1
    by (simp add: read_filesystem_uuid_simple_def read_ext4_uuid_def spec_uuid_def slice_img sl Let_def add.assoc)
next
  case Unknown
  then show ?thesis using assms(1) by (simp add: read_filesystem_uuid_simple_def spec_uuid_def)
qed


text \<open>The entries that the scan looks at lie on the disk, and so do the superblocks of their partitions.\<close>

definition entry_fits :: "nat \<Rightarrow> u8 list \<Rightarrow> bool" where
  "entry_fits L data =
     (list_all (\<lambda>b. b = 0) (ge_type_guid (parse_entry data)) \<or>
      unat (le_u64 (ge_starting_lba (parse_entry data))) * 512 + 3072 \<le> L)"

lemma gpt_entry_image:
  assumes "at_image B f L s" "entry_fits L data"
  shows "\<exists>s'. gpt_entry B (of_nat i) data s = (spec_entry f i data, s') \<and> at_image B f L s'"
proof (cases "list_all (\<lambda>b. b = 0) (ge_type_guid (parse_entry data)) \<or> name_str (ge_name (parse_entry data)) = []")
  case True
  then show ?thesis using assms(1) by (intro exI[of _ s]) (auto simp: gpt_entry_def spec_entry_def Let_def)
next
  case False
  let ?lba = "le_u64 (ge_starting_lba (parse_entry data))"
  have fits: "unat ?lba * 512 + 3072 \<le> L" using assms(2) False by (auto simp: entry_fits_def)
  obtain s1 where s1: "detect_filesystem_type B ?lba s = (spec_detect f (unat ?lba * 512), s1)" "at_image B f L s1"
    using detect_image[OF assms(1) fits] by blast
  show ?thesis
  proof (cases "spec_detect f (unat ?lba * 512)")
    case None
    then show ?thesis using s1 False by (simp add: gpt_entry_def spec_entry_def spec_uuid_def Let_def)
  next
    case (Some fs)
    obtain s2 where "read_filesystem_uuid_simple B ?lba fs s1 = (spec_uuid f (unat ?lba * 512) (Some fs), s2)"
        "at_image B f L s2"
      using uuid_image[OF s1(2) fits] by blast
    then show ?thesis using s1 False Some by (simp add: gpt_entry_def spec_entry_def Let_def)
  qed
qed

lemma entry_addr:
  assumes "at_image B f L s" "unat off + i * unat (sz :: u32) + unat sz \<le> L"
  shows "unat (off + of_nat i * ucast sz :: u64) = unat off + i * unat sz"
proof (cases "sz = 0")
  case False
  have L: "L < 2 ^ 64" using assms(1) by (auto simp: at_image_def disk_ok_def disk_limit_def)
  have "0 < unat sz" using False by (simp add: unat_gt_0)
  then have "i \<le> i * unat sz" by simp
  then have "i < 2 ^ 64" using assms(2) L by linarith
  then have i: "unat (of_nat i :: u64) = i" by (simp add: unat_of_nat take_bit_nat_eq_self)
  have "unat sz < 2 ^ 32" using unsigned_less[of sz, where 'a = nat] by simp
  then have z: "unat (ucast sz :: u64) = unat sz" by (simp add: unsigned_ucast_eq take_bit_nat_eq_self)
  have "unat (of_nat i * ucast sz :: u64) = i * unat sz"
    using unat_times_small[of "of_nat i :: u64" "ucast sz"] i z assms(2) L by simp
  then show ?thesis using unat_plus_small[of off "of_nat i * ucast sz"] assms(2) L by simp
qed simp

lemma gpt_entries_image:
  assumes "at_image B f L s" "sz \<ge> 128"
    "\<forall>i \<in> set is. unat off + i * unat sz + unat sz \<le> L \<and> entry_fits L (img f (unat off + i * unat sz) (unat sz))"
  shows "\<exists>s'. gpt_entries B off sz is s =
    (List.map_filter (\<lambda>i. spec_entry f i (img f (unat off + i * unat sz) (unat sz))) is, s') \<and> at_image B f L s'"
  using assms
proof (induction "is" arbitrary: s)
  case (Cons i js)
  have a: "unat (off + of_nat i * ucast sz) = unat off + i * unat sz"
    by (rule entry_addr[OF Cons.prems(1)]) (use Cons.prems(3) in simp)
  then obtain s1 where s1: "read_exact (disk_rd B) (replicate (unat sz) 0) (seek_to (off + of_nat i * ucast sz) s) =
      (Inr (img f (unat off + i * unat sz) (unat sz)), s1)" "at_image B f L s1"
    using image_read[OF Cons.prems(1), of "off + of_nat i * ucast sz" "unat sz"] Cons.prems(3) by auto
  obtain s2 where s2: "gpt_entry B (of_nat i) (img f (unat off + i * unat sz) (unat sz)) s1 =
      (spec_entry f i (img f (unat off + i * unat sz) (unat sz)), s2)" "at_image B f L s2"
    using gpt_entry_image[OF s1(2)] Cons.prems(3) by fastforce
  obtain s3 where s3: "gpt_entries B off sz js s2 =
      (List.map_filter (\<lambda>i. spec_entry f i (img f (unat off + i * unat sz) (unat sz))) js, s3)" "at_image B f L s3"
    using Cons.IH[OF s2(2) Cons.prems(2)] Cons.prems(3) by auto
  show ?case using s1(1) s2(1) s3 Cons.prems(2)
    by (simp add: Let_def List.map_filter_simps split: option.splits)
qed (simp add: List.map_filter_simps)



text \<open>A disk with one entry: partition \<^verbatim>\<open>A\<close> from block 3 to block 20.\<close>

definition gpt_disk :: "u8 list list" where
  "gpt_disk =
     [replicate 512 0,
      ascii ''EFI PART'' @ replicate 64 0 @ [2, 0, 0, 0, 0, 0, 0, 0] @ [1, 0, 0, 0] @ [128, 0, 0, 0] @ replicate 424 0,
      replicate 16 1 @ replicate 16 2 @ [3, 0, 0, 0, 0, 0, 0, 0] @ [20, 0, 0, 0, 0, 0, 0, 0] @ replicate 8 0 @
        [65, 0] @ replicate 454 0]"

definition gpt_state :: "u8 list list disk_state" where
  "gpt_state = (\<lparr>block_id = 0, offset = 0\<rparr>, gpt_disk)"

lemma gpt_byte:
  "i < 1536 \<Longrightarrow> disk_bytes ram_dev gpt_state i = gpt_disk ! (i div 512) ! (i mod 512)"
proof -
  assume i: "i < 1536"
  then have "i div 512 < 3" by simp
  moreover from this have "unat (of_nat (i div 512) :: u64) = i div 512"
    by (simp add: unat_of_nat take_bit_nat_eq_self)
  moreover have "length (gpt_disk ! k) = 512" if "k < 3" for k
    using that by (auto simp: gpt_disk_def ascii_def nth_Cons split: nat.splits)
  ultimately show ?thesis
    by (simp add: disk_bytes_def disk_byte_def gpt_state_def ram_dev_def) (simp add: gpt_disk_def)
qed

lemma gpt_img: "off + n \<le> 1536 \<Longrightarrow> img (disk_bytes ram_dev gpt_state) off n = map (\<lambda>i. gpt_disk ! (i div 512) ! (i mod 512)) [off..<off + n]"
  by (simp add: img_def gpt_byte)

lemma gpt_fields:
  "img (disk_bytes ram_dev gpt_state) 512 8 = ascii ''EFI PART''"
  "le_u64 (img (disk_bytes ram_dev gpt_state) 584 8) = 2"
  "le_u32 (img (disk_bytes ram_dev gpt_state) 592 4) = 1"
  "le_u32 (img (disk_bytes ram_dev gpt_state) 596 4) = 128"
  "le_u64 (slice 32 40 (img (disk_bytes ram_dev gpt_state) 1024 128)) = 3"
  by (simp_all add: gpt_img slice_img) code_simp+



text \<open>
  When no partition table is found, the whole disk is presented as one partition that
  ends at block number \<^verbatim>\<open>disk_size / 512\<close>. A partition includes its last block, so this one is a block
  longer than the disk: its size is 512 bytes more, and its last block is not on the disk.
\<close>

theorem whole_disk_partition_too_long:
  assumes "disk_ok B s" "disk_limit B s + 512 < 2 ^ 64" "0 < disk_limit B s"
    "parse_gpt_partitions B s = (r, s1)" "r = Inr [] \<or> r = Inl err"
  shows "\<exists>p s2. scan_gpt_partitions B s = (Inr [p], s2) \<and> starting_lba p = 0 \<and>
    unat (size_bytes p) = disk_limit B s \<and> ending_lba p = bd_num_blocks B (snd s) \<and>
    unat (partition_size (Partition_new dk (starting_lba p) (ending_lba p))) = disk_limit B s + 512"
proof -
  let ?n = "bd_num_blocks B (snd s)"
  have lim: "unat ?n * 512 + 512 < 2 ^ 64" using assms(2) by (simp add: disk_limit_def)
  have size: "unat (disk_size B (snd s)) = unat ?n * 512"
    using unat_times_small[of ?n 512] lim by (simp add: disk_size_def)
  then have "disk_size B (snd s) \<noteq> 0" using assms(3) by (auto simp: disk_limit_def)
  have "disk_size B (snd s) div 512 = ?n"
    using size by (simp add: word_unat_eq_iff unat_div)
  have "unat (?n + 1) = unat ?n + 1" using unat_plus_small[of ?n 1] lim by simp
  then have psize: "unat ((?n + 1) * 512) = unat ?n * 512 + 512"
    using unat_times_small[of "?n + 1" 512] lim by simp
  obtain fs s2 where "detect_filesystem_type B 0 s1 = (fs, s2)" by (rule prod.exhaust)
  with assms(4,5) \<open>disk_size B (snd s) \<noteq> 0\<close> \<open>disk_size B (snd s) div 512 = ?n\<close> size psize show ?thesis
    by (auto simp: scan_gpt_partitions_def Let_def disk_limit_def partition_size_def Partition_new_def)
qed

definition blank_state :: "u8 list list disk_state" where
  "blank_state = (\<lparr>block_id = 0, offset = 0\<rparr>, [])"

lemma blank_parse: "\<exists>s1. parse_gpt_partitions ram_dev blank_state = (Inl InvalidData, s1)"
proof -
  have im: "at_image ram_dev (disk_bytes ram_dev blank_state) 12288 blank_state"
    using ram_dev_laws by (simp add: at_image_def disk_ok_def disk_limit_def blank_state_def) (simp add: ram_dev_def)
  obtain s1 where s1: "read_exact (disk_rd ram_dev) (replicate 512 0) (seek_to 512 blank_state) =
      (Inr (img (disk_bytes ram_dev blank_state) 512 512), s1)"
    using image_read[OF im, of 512 512] by auto
  have "disk_bytes ram_dev blank_state 512 = 0"
    by (simp add: disk_bytes_def disk_byte_def blank_state_def ram_dev_def)
  then have "slice 0 8 (img (disk_bytes ram_dev blank_state) 512 512) ! 0 \<noteq> ascii ''EFI PART'' ! 0"
    by (simp add: nth_slice ascii_def)
  then have "slice 0 8 (img (disk_bytes ram_dev blank_state) 512 512) \<noteq> ascii ''EFI PART''" by metis
  then show ?thesis using s1 by (simp add: parse_gpt_partitions_def)
qed

theorem whole_disk_partition_too_long_witness:
  "\<exists>p s2. scan_gpt_partitions ram_dev blank_state = (Inr [p], s2) \<and> ending_lba p = 24 \<and>
    unat (partition_size (Partition_new (fst blank_state) (starting_lba p) (ending_lba p))) = 12800"
proof -
  have "disk_ok ram_dev blank_state" "disk_limit ram_dev blank_state = 12288"
      "bd_num_blocks ram_dev (snd blank_state) = 24"
    using ram_dev_laws by (simp_all add: disk_ok_def disk_limit_def blank_state_def) (simp_all add: ram_dev_def)
  moreover obtain s1 where "parse_gpt_partitions ram_dev blank_state = (Inl InvalidData, s1)" using blank_parse by blast
  ultimately show ?thesis
    using whole_disk_partition_too_long[of ram_dev blank_state "Inl InvalidData" s1 InvalidData "fst blank_state"] by auto
qed

end
