(* ===== verification/Axfs_Root.thy ===== *)
theory Axfs_Root
  imports Axv_BTreeMap
begin

text \<open>
  The root directory of the file system, \<^verbatim>\<open>modules/axfs/src/root.rs\<close>: the mount table, the choice of the
  mounted file system for a path, the current directory, and the operations on paths.

  File systems and their nodes are trait objects of the \<^verbatim>\<open>axfs_vfs\<close> crate; their methods are the
  fields of the record \<open>vfs\<close>, on file systems \<open>'fs\<close>, nodes \<open>'n\<close> and the state \<open>'w\<close> of all files.
  The root directory is itself a node, so a node is either it or a node of a file system.
  \<^verbatim>\<open>axfs_vfs::path::canonicalize\<close> is a field too.
\<close>

section \<open>File systems\<close>

datatype VfsNodeType = NodeFile | NodeDir | NodeOther

record node_attr =
  attr_type :: VfsNodeType
  owner_readable :: bool
  owner_writable :: bool
  owner_executable :: bool
  attr_size :: u64

definition attr_is_dir :: "node_attr \<Rightarrow> bool" where
  "attr_is_dir a = (attr_type a = NodeDir)"

record ('fs, 'n, 'w) vfs =
  vfs_root_dir :: "'fs \<Rightarrow> 'n"
  vfs_mount :: "'fs \<Rightarrow> string \<Rightarrow> 'n \<Rightarrow> 'w \<Rightarrow> unit ax_result \<times> 'w"
  vfs_umount :: "'fs \<Rightarrow> 'w \<Rightarrow> 'w"
  node_lookup :: "'n \<Rightarrow> string \<Rightarrow> 'w \<Rightarrow> 'n ax_result"
  node_create :: "'n \<Rightarrow> string \<Rightarrow> VfsNodeType \<Rightarrow> 'w \<Rightarrow> unit ax_result \<times> 'w"
  node_remove :: "'n \<Rightarrow> string \<Rightarrow> 'w \<Rightarrow> unit ax_result \<times> 'w"
  node_rename :: "'n \<Rightarrow> string \<Rightarrow> string \<Rightarrow> 'w \<Rightarrow> unit ax_result \<times> 'w"
  node_get_attr :: "'n \<Rightarrow> 'w \<Rightarrow> node_attr ax_result"
  node_read_dir :: "'n \<Rightarrow> nat \<Rightarrow> nat \<Rightarrow> 'w \<Rightarrow> (string \<times> VfsNodeType) list ax_result"
  default_rename :: "string \<Rightarrow> string \<Rightarrow> 'w \<Rightarrow> unit ax_result \<times> 'w"
  canonicalize :: "string \<Rightarrow> string"

section \<open>The mount table\<close>

record 'fs MountPoint =
  mp_path :: string
  mp_fs :: 'fs

record 'fs RootDirectory =
  main_fs :: 'fs
  mounts :: "'fs MountPoint list"

definition RootDirectory_new :: "'fs \<Rightarrow> 'fs RootDirectory" where
  "RootDirectory_new fs = \<lparr>main_fs = fs, mounts = []\<rparr>"

definition root_contains :: "string \<Rightarrow> 'fs RootDirectory \<Rightarrow> bool" where
  "root_contains path r = list_ex (\<lambda>mp. mp_path mp = path) (mounts r)"

definition mount ::
    "('fs, 'n, 'w) vfs \<Rightarrow> string \<Rightarrow> 'fs \<Rightarrow> 'fs RootDirectory \<Rightarrow> 'w \<Rightarrow> unit ax_result \<times> 'fs RootDirectory \<times> 'w" where
  "mount V path fs r w =
     (if path = ''/'' then (Inl InvalidInput, r, w)
      else if \<not> starts_with path ''/'' then (Inl InvalidInput, r, w)
      else if root_contains path r then (Inl InvalidInput, r, w)
      else case node_create V (vfs_root_dir V (main_fs r)) path NodeDir w of
             (Inl e, w1) \<Rightarrow> (Inl e, r, w1)
           | (Inr _, w1) \<Rightarrow>
               (case node_lookup V (vfs_root_dir V (main_fs r)) path w1 of
                  Inl e \<Rightarrow> (Inl e, r, w1)
                | Inr node \<Rightarrow>
                    (case vfs_mount V fs path node w1 of
                       (Inl e, w2) \<Rightarrow> (Inl e, r, w2)
                     | (Inr _, w2) \<Rightarrow> (Inr (), r\<lparr>mounts := mounts r @ [\<lparr>mp_path = path, mp_fs = fs\<rparr>]\<rparr>, w2))))"

text \<open>A mount point that is dropped unmounts its file system.\<close>

definition umount :: "('fs, 'n, 'w) vfs \<Rightarrow> string \<Rightarrow> 'fs RootDirectory \<Rightarrow> 'w \<Rightarrow> 'fs RootDirectory \<times> 'w" where
  "umount V path r w =
     (r\<lparr>mounts := filter (\<lambda>mp. mp_path mp \<noteq> path) (mounts r)\<rparr>,
      fold (\<lambda>mp. vfs_umount V (mp_fs mp)) (filter (\<lambda>mp. mp_path mp = path) (mounts r)) w)"

definition normalize_path :: "string \<Rightarrow> string" where
  "normalize_path path =
     (let p = trim_matches (\<lambda>c. c = CHR ''/'') path
      in case strip_prefix_of ''./'' p of Some rest \<Rightarrow> rest | None \<Rightarrow> p)"

text \<open>The loop of \<^verbatim>\<open>find_best_mount\<close> over the mount points, with the best one so far.\<close>

fun best_mount :: "string \<Rightarrow> 'fs MountPoint list \<Rightarrow> nat \<Rightarrow> 'fs option \<Rightarrow> nat \<times> 'fs option" where
  "best_mount path [] max_len best = (max_len, best)"
| "best_mount path (mp # mps) max_len best =
     (if starts_with path (drop 1 (mp_path mp)) \<and> length (mp_path mp) - 1 > max_len
      then best_mount path mps (length (mp_path mp) - 1) (Some (mp_fs mp))
      else best_mount path mps max_len best)"

definition find_best_mount :: "'fs RootDirectory \<Rightarrow> string \<Rightarrow> ('fs \<times> string) option" where
  "find_best_mount r path =
     (case best_mount path (mounts r) 0 None of
        (max_len, Some fs) \<Rightarrow> Some (fs, drop max_len path)
      | (_, None) \<Rightarrow> None)"

definition lookup_mounted_fs :: "'fs RootDirectory \<Rightarrow> string \<Rightarrow> ('fs \<Rightarrow> string \<Rightarrow> 'a) \<Rightarrow> 'a" where
  "lookup_mounted_fs r path f =
     (let normalized_path = normalize_path path
      in case find_best_mount r normalized_path of
           Some (mount_fs, rest_path) \<Rightarrow> f mount_fs rest_path
         | None \<Rightarrow> f (main_fs r) normalized_path)"

section \<open>The root directory as a node\<close>

definition root_lookup :: "('fs, 'n, 'w) vfs \<Rightarrow> 'fs RootDirectory \<Rightarrow> string \<Rightarrow> 'w \<Rightarrow> 'n ax_result" where
  "root_lookup V r path w = lookup_mounted_fs r path (\<lambda>fs rest. node_lookup V (vfs_root_dir V fs) rest w)"

definition root_create ::
    "('fs, 'n, 'w) vfs \<Rightarrow> 'fs RootDirectory \<Rightarrow> string \<Rightarrow> VfsNodeType \<Rightarrow> 'w \<Rightarrow> unit ax_result \<times> 'w" where
  "root_create V r path ty w =
     lookup_mounted_fs r path (\<lambda>fs rest. if rest = [] then (Inr (), w) else node_create V (vfs_root_dir V fs) rest ty w)"

definition root_remove :: "('fs, 'n, 'w) vfs \<Rightarrow> 'fs RootDirectory \<Rightarrow> string \<Rightarrow> 'w \<Rightarrow> unit ax_result \<times> 'w" where
  "root_remove V r path w =
     lookup_mounted_fs r path
       (\<lambda>fs rest. if rest = [] then (Inl PermissionDenied, w) else node_remove V (vfs_root_dir V fs) rest w)"

text \<open>Mount points first, then up to 64 entries of the main file system; later entries replace earlier ones.\<close>

definition root_read_dir ::
    "('fs, 'n, 'w) vfs \<Rightarrow> 'fs RootDirectory \<Rightarrow> nat \<Rightarrow> nat \<Rightarrow> 'w \<Rightarrow> (string \<times> VfsNodeType) list ax_result" where
  "root_read_dir V r start_idx dirents_len w =
     (case node_read_dir V (vfs_root_dir V (main_fs r)) 0 64 w of
        Inl e \<Rightarrow> Inl e
      | Inr main_entries \<Rightarrow>
          (let all_entries = map (\<lambda>mp. (drop 1 (mp_path mp), NodeDir)) (mounts r) @
                             filter (\<lambda>(name, ty). name \<noteq> []) main_entries;
               unique = fold (\<lambda>(name, ty). bt_insert name ty) all_entries []
           in Inr (take dirents_len (drop start_idx (bt_entries unique)))))"

datatype 'n node = RootNode | FsNode 'n

record ('fs, 'n) root_state =
  ROOT_DIR :: "'fs RootDirectory"
  CURRENT_DIR :: "'n node"
  CURRENT_DIR_PATH :: string

definition lookup_in :: "('fs, 'n, 'w) vfs \<Rightarrow> 'fs RootDirectory \<Rightarrow> 'n node \<Rightarrow> string \<Rightarrow> 'w \<Rightarrow> 'n ax_result" where
  "lookup_in V r n path w =
     (case n of RootNode \<Rightarrow> root_lookup V r path w | FsNode m \<Rightarrow> node_lookup V m path w)"

definition create_in ::
    "('fs, 'n, 'w) vfs \<Rightarrow> 'fs RootDirectory \<Rightarrow> 'n node \<Rightarrow> string \<Rightarrow> VfsNodeType \<Rightarrow> 'w \<Rightarrow> unit ax_result \<times> 'w" where
  "create_in V r n path ty w =
     (case n of RootNode \<Rightarrow> root_create V r path ty w | FsNode m \<Rightarrow> node_create V m path ty w)"

definition remove_in ::
    "('fs, 'n, 'w) vfs \<Rightarrow> 'fs RootDirectory \<Rightarrow> 'n node \<Rightarrow> string \<Rightarrow> 'w \<Rightarrow> unit ax_result \<times> 'w" where
  "remove_in V r n path w =
     (case n of RootNode \<Rightarrow> root_remove V r path w | FsNode m \<Rightarrow> node_remove V m path w)"

section \<open>Operations on paths\<close>

definition parent_node_of :: "('fs, 'n) root_state \<Rightarrow> 'n option \<Rightarrow> string \<Rightarrow> 'n node" where
  "parent_node_of g dir path =
     (if starts_with path ''/'' then RootNode
      else case dir of Some d \<Rightarrow> FsNode d | None \<Rightarrow> CURRENT_DIR g)"

definition absolute_path :: "('fs, 'n, 'w) vfs \<Rightarrow> ('fs, 'n) root_state \<Rightarrow> string \<Rightarrow> string" where
  "absolute_path V g path =
     (if starts_with path ''/'' then canonicalize V path else canonicalize V (CURRENT_DIR_PATH g @ path))"

definition lookup ::
    "('fs, 'n, 'w) vfs \<Rightarrow> ('fs, 'n) root_state \<Rightarrow> 'n option \<Rightarrow> string \<Rightarrow> 'w \<Rightarrow> 'n ax_result" where
  "lookup V g dir path w =
     (if path = [] then Inl NotFound
      else case lookup_in V (ROOT_DIR g) (parent_node_of g dir path) path w of
             Inl e \<Rightarrow> Inl e
           | Inr node \<Rightarrow>
               if ends_with path ''/'' then
                 (case node_get_attr V node w of
                    Inl e \<Rightarrow> Inl e
                  | Inr attr \<Rightarrow> if attr_is_dir attr then Inr node else Inl NotADirectory)
               else Inr node)"

definition create_file ::
    "('fs, 'n, 'w) vfs \<Rightarrow> ('fs, 'n) root_state \<Rightarrow> 'n option \<Rightarrow> string \<Rightarrow> 'w \<Rightarrow> 'n ax_result \<times> 'w" where
  "create_file V g dir path w =
     (if path = [] then (Inl NotFound, w)
      else if ends_with path ''/'' then (Inl NotADirectory, w)
      else (let parent = parent_node_of g dir path
            in case create_in V (ROOT_DIR g) parent path NodeFile w of
                 (Inl e, w') \<Rightarrow> (Inl e, w')
               | (Inr _, w') \<Rightarrow> (lookup_in V (ROOT_DIR g) parent path w', w')))"

definition create_dir ::
    "('fs, 'n, 'w) vfs \<Rightarrow> ('fs, 'n) root_state \<Rightarrow> 'n option \<Rightarrow> string \<Rightarrow> 'w \<Rightarrow> unit ax_result \<times> 'w" where
  "create_dir V g dir path w =
     (case lookup V g dir path w of
        Inr _ \<Rightarrow> (Inl AlreadyExists, w)
      | Inl NotFound \<Rightarrow> create_in V (ROOT_DIR g) (parent_node_of g dir path) path NodeDir w
      | Inl e \<Rightarrow> (Inl e, w))"

definition remove_file ::
    "('fs, 'n, 'w) vfs \<Rightarrow> ('fs, 'n) root_state \<Rightarrow> 'n option \<Rightarrow> string \<Rightarrow> 'w \<Rightarrow> unit ax_result \<times> 'w" where
  "remove_file V g dir path w =
     (case lookup V g dir path w of
        Inl e \<Rightarrow> (Inl e, w)
      | Inr node \<Rightarrow>
          (case node_get_attr V node w of
             Inl e \<Rightarrow> (Inl e, w)
           | Inr attr \<Rightarrow>
               if attr_is_dir attr then (Inl IsADirectory, w)
               else if \<not> owner_writable attr then (Inl PermissionDenied, w)
               else remove_in V (ROOT_DIR g) (parent_node_of g dir path) path w))"

definition remove_dir ::
    "('fs, 'n, 'w) vfs \<Rightarrow> ('fs, 'n) root_state \<Rightarrow> 'n option \<Rightarrow> string \<Rightarrow> 'w \<Rightarrow> unit ax_result \<times> 'w" where
  "remove_dir V g dir path w =
     (let path_check = trim_matches (\<lambda>c. c = CHR ''/'') path
      in if path = [] then (Inl NotFound, w)
         else if path_check = [] then (Inl DirectoryNotEmpty, w)
         else if path_check = ''.'' \<or> path_check = ''..'' \<or> ends_with path_check ''/.'' \<or> ends_with path_check ''/..''
         then (Inl InvalidInput, w)
         else if root_contains (absolute_path V g path) (ROOT_DIR g) then (Inl PermissionDenied, w)
         else case lookup V g dir path w of
                Inl e \<Rightarrow> (Inl e, w)
              | Inr node \<Rightarrow>
                  (case node_get_attr V node w of
                     Inl e \<Rightarrow> (Inl e, w)
                   | Inr attr \<Rightarrow>
                       if \<not> attr_is_dir attr then (Inl NotADirectory, w)
                       else if \<not> owner_writable attr then (Inl PermissionDenied, w)
                       else remove_in V (ROOT_DIR g) (parent_node_of g dir path) path w))"

definition set_current_dir ::
    "('fs, 'n, 'w) vfs \<Rightarrow> string \<Rightarrow> ('fs, 'n) root_state \<Rightarrow> 'w \<Rightarrow> unit ax_result \<times> ('fs, 'n) root_state" where
  "set_current_dir V path g w =
     (let a = absolute_path V g path; abs_path = (if ends_with a ''/'' then a else a @ ''/'')
      in if abs_path = ''/'' then (Inr (), g\<lparr>CURRENT_DIR := RootNode, CURRENT_DIR_PATH := ''/''\<rparr>)
         else case lookup V g None abs_path w of
                Inl e \<Rightarrow> (Inl e, g)
              | Inr node \<Rightarrow>
                  (case node_get_attr V node w of
                     Inl e \<Rightarrow> (Inl e, g)
                   | Inr attr \<Rightarrow>
                       if \<not> attr_is_dir attr then (Inl NotADirectory, g)
                       else if \<not> owner_executable attr then (Inl PermissionDenied, g)
                       else (Inr (), g\<lparr>CURRENT_DIR := FsNode node, CURRENT_DIR_PATH := abs_path\<rparr>)))"

definition rename ::
    "('fs, 'n, 'w) vfs \<Rightarrow> string \<Rightarrow> string \<Rightarrow> ('fs, 'n) root_state \<Rightarrow> 'w \<Rightarrow> unit ax_result \<times> 'w" where
  "rename V old new g w =
     (let (r, w1) = (case lookup_in V (ROOT_DIR g) (parent_node_of g None new) new w of
                       Inr _ \<Rightarrow> remove_file V g None new w
                     | Inl _ \<Rightarrow> (Inr (), w))
      in case r of
           Inl e \<Rightarrow> (Inl e, w1)
         | Inr _ \<Rightarrow>
             (case parent_node_of g None old of
                RootNode \<Rightarrow> default_rename V old new w1
              | FsNode m \<Rightarrow> node_rename V m old new w1))"

text \<open>
  Setting up the global state: the virtual file systems are mounted, and a failure is a panic.
\<close>

definition mount_virtual_fs ::
    "('fs, 'n, 'w) vfs \<Rightarrow> 'fs \<Rightarrow> 'fs \<Rightarrow> 'fs RootDirectory \<Rightarrow> 'w \<Rightarrow> (('fs, 'n) root_state \<times> 'w) outcome" where
  "mount_virtual_fs V procfs sysfs r w =
     (case mount V ''/proc'' procfs r w of
        (Inl _, _) \<Rightarrow> Panic ''Failed to mount virtual filesystems''
      | (Inr _, r1, w1) \<Rightarrow>
          (case mount V ''/sys'' sysfs r1 w1 of
             (Inl _, _) \<Rightarrow> Panic ''Failed to mount virtual filesystems''
           | (Inr _, r2, w2) \<Rightarrow>
               Done (\<lparr>ROOT_DIR = r2, CURRENT_DIR = RootNode, CURRENT_DIR_PATH = ''/''\<rparr>, w2)))"


section \<open>The mount table stays well formed\<close>

definition mount_inv :: "'fs RootDirectory \<Rightarrow> bool" where
  "mount_inv r = (distinct (map mp_path (mounts r)) \<and> (\<forall>mp \<in> set (mounts r). \<exists>c m. mp_path mp = CHR ''/'' # c # m))"

definition mount_init :: "'fs RootDirectory \<Rightarrow> bool" where
  "mount_init r = (\<exists>fs. r = RootDirectory_new fs)"

definition mount_next :: "('fs, 'n, 'w) vfs \<Rightarrow> 'fs RootDirectory \<Rightarrow> 'fs RootDirectory \<Rightarrow> bool" where
  "mount_next V r r' =
     ((\<exists>path fs w. r' = fst (snd (mount V path fs r w))) \<or> (\<exists>path w. r' = fst (umount V path r w)))"

lemma starts_with_slash: "starts_with s ''/'' \<longleftrightarrow> (\<exists>t. s = CHR ''/'' # t)"
  by (auto simp: starts_with_prefix prefix_def)

lemma mount_cases:
  "fst (snd (mount V path fs r w)) = r \<or>
   (\<exists>c m. path = CHR ''/'' # c # m) \<and> \<not> root_contains path r \<and>
   fst (snd (mount V path fs r w)) = r\<lparr>mounts := mounts r @ [\<lparr>mp_path = path, mp_fs = fs\<rparr>]\<rparr>"
proof (cases "path = ''/'' \<or> \<not> starts_with path ''/'' \<or> root_contains path r")
  case True
  then show ?thesis by (auto simp: mount_def)
next
  case False
  then obtain t where "path = CHR ''/'' # t" "t \<noteq> []" by (auto simp: starts_with_slash)
  then have "\<exists>c m. path = CHR ''/'' # c # m" by (cases t) auto
  with False show ?thesis by (auto simp: mount_def split: sum.splits prod.splits)
qed

lemma mount_next_inv: "mount_inv r \<Longrightarrow> mount_next V r r' \<Longrightarrow> mount_inv r'"
proof -
  assume inv: "mount_inv r" and n: "mount_next V r r'"
  from n consider path fs w where "r' = fst (snd (mount V path fs r w))" | path w where "r' = fst (umount V path r w)"
    unfolding mount_next_def by blast
  then show ?thesis
  proof cases
    case 1
    have "\<not> root_contains path r \<Longrightarrow> path \<notin> mp_path ` set (mounts r)" by (auto simp: root_contains_def list_ex_iff)
    then show ?thesis using mount_cases[of V path fs r w] inv 1
      by (elim disjE) (auto simp: mount_inv_def)
  next
    case 2
    then show ?thesis using inv by (auto simp: mount_inv_def umount_def distinct_map inj_on_def)
  qed
qed

interpretation mount_table: transition_system mount_init "mount_next V" mount_inv for V
proof
  show "mount_init s \<Longrightarrow> mount_inv s" for s
    by (auto simp: mount_init_def RootDirectory_new_def mount_inv_def)
  show "mount_inv s \<Longrightarrow> mount_next V s t \<Longrightarrow> mount_inv t" for s t
    by (rule mount_next_inv)
qed

section \<open>Which file system a path is given to\<close>

definition matches :: "string \<Rightarrow> 'fs MountPoint \<Rightarrow> bool" where
  "matches p mp = prefix (drop 1 (mp_path mp)) p"

lemma best_mount_spec:
  assumes "best_mount p mps n b = (n', b')" "\<forall>mp \<in> set mps. 1 < length (mp_path mp)"
  shows "n \<le> n' \<and> (\<forall>mp \<in> set mps. matches p mp \<longrightarrow> length (mp_path mp) - 1 \<le> n') \<and>
    (n' = n \<and> b' = b \<or> n < n' \<and> (\<exists>mp \<in> set mps. matches p mp \<and> length (mp_path mp) - 1 = n' \<and> b' = Some (mp_fs mp)))"
  using assms
proof (induction p mps n b rule: best_mount.induct)
  case (2 path mp mps n b)
  show ?case
  proof (cases "starts_with path (drop 1 (mp_path mp)) \<and> length (mp_path mp) - 1 > n")
    case True
    with 2(1,3,4) have "length (mp_path mp) - 1 \<le> n' \<and> (\<forall>mp' \<in> set mps. matches path mp' \<longrightarrow> length (mp_path mp') - 1 \<le> n') \<and>
        (n' = length (mp_path mp) - 1 \<and> b' = Some (mp_fs mp) \<or> length (mp_path mp) - 1 < n' \<and>
          (\<exists>mp' \<in> set mps. matches path mp' \<and> length (mp_path mp') - 1 = n' \<and> b' = Some (mp_fs mp')))" by simp
    moreover have "matches path mp" using True by (simp add: matches_def starts_with_prefix)
    ultimately show ?thesis using True by auto
  next
    case False
    then have "best_mount path mps n b = (n', b')" using 2(3) by auto
    from 2(2)[OF False this] 2(4) have "n \<le> n' \<and> (\<forall>mp' \<in> set mps. matches path mp' \<longrightarrow> length (mp_path mp') - 1 \<le> n') \<and>
        (n' = n \<and> b' = b \<or> n < n' \<and>
          (\<exists>mp' \<in> set mps. matches path mp' \<and> length (mp_path mp') - 1 = n' \<and> b' = Some (mp_fs mp')))" by simp
    moreover have "matches path mp \<longrightarrow> length (mp_path mp) - 1 \<le> n"
      using False by (auto simp: matches_def starts_with_prefix)
    ultimately show ?thesis by auto
  qed
qed simp

lemma find_best_mount_spec:
  assumes "mount_inv r"
  shows "find_best_mount r p = None \<Longrightarrow> mp \<in> set (mounts r) \<Longrightarrow> \<not> matches p mp"
    "find_best_mount r p = Some (fs, rest) \<Longrightarrow>
     \<exists>mp \<in> set (mounts r). mp_fs mp = fs \<and> p = drop 1 (mp_path mp) @ rest \<and>
       (\<forall>mp' \<in> set (mounts r). matches p mp' \<longrightarrow> length (mp_path mp') \<le> length (mp_path mp))"
proof -
  have len: "\<forall>mp \<in> set (mounts r). 1 < length (mp_path mp)" using assms by (fastforce simp: mount_inv_def)
  obtain n b where nb: "best_mount p (mounts r) 0 None = (n, b)" by (rule prod.exhaust)
  note spec = best_mount_spec[OF nb len]
  show "find_best_mount r p = None \<Longrightarrow> mp \<in> set (mounts r) \<Longrightarrow> \<not> matches p mp"
    using spec nb len by (fastforce simp: find_best_mount_def split: option.splits)
  assume "find_best_mount r p = Some (fs, rest)"
  then have b: "b = Some fs" "rest = drop n p" using nb by (auto simp: find_best_mount_def split: option.splits)
  with spec obtain mp where mp: "mp \<in> set (mounts r)" "matches p mp" "length (mp_path mp) - 1 = n" "fs = mp_fs mp" by auto
  have "p = drop 1 (mp_path mp) @ rest" using mp(2,3) b(2) by (auto simp: matches_def prefix_def)
  moreover have "length (mp_path mp') \<le> length (mp_path mp)" if "mp' \<in> set (mounts r)" "matches p mp'" for mp'
    using spec that len mp by fastforce
  ultimately show "\<exists>mp \<in> set (mounts r). mp_fs mp = fs \<and> p = drop 1 (mp_path mp) @ rest \<and>
      (\<forall>mp' \<in> set (mounts r). matches p mp' \<longrightarrow> length (mp_path mp') \<le> length (mp_path mp))"
    using mp by auto
qed

lemma find_best_mount_exact:
  assumes "mount_inv r" "mp \<in> set (mounts r)"
  shows "find_best_mount r (drop 1 (mp_path mp)) = Some (mp_fs mp, [])"
proof (cases "find_best_mount r (drop 1 (mp_path mp))")
  case None
  then show ?thesis using find_best_mount_spec(1)[OF assms(1) None assms(2)] by (simp add: matches_def)
next
  case (Some p)
  obtain fs rest where p: "p = (fs, rest)" by force
  have "matches (drop 1 (mp_path mp)) mp" by (simp add: matches_def)
  with find_best_mount_spec(2)[OF assms(1) Some[unfolded p]] assms(2)
  obtain mp' where mp': "mp' \<in> set (mounts r)" "mp_fs mp' = fs" "drop 1 (mp_path mp) = drop 1 (mp_path mp') @ rest"
      "length (mp_path mp) \<le> length (mp_path mp')" by blast
  have slash: "\<exists>c m. mp_path x = CHR ''/'' # c # m" if "x \<in> set (mounts r)" for x
    using assms(1) that unfolding mount_inv_def by blast
  obtain c m c' m' where cm: "mp_path mp = CHR ''/'' # c # m" "mp_path mp' = CHR ''/'' # c' # m'"
    using slash[OF assms(2)] slash[OF mp'(1)] by blast
  then have "rest = []" "mp_path mp' = mp_path mp" using mp'(3,4) by auto
  then have "mp' = mp" using assms mp'(1) unfolding mount_inv_def distinct_map inj_on_def by blast
  then show ?thesis using Some p mp'(2) \<open>rest = []\<close> by simp
qed

text \<open>Names that normalization leaves alone: no slash at either end, no leading \<^verbatim>\<open>./\<close>.\<close>

definition plain_path :: "string \<Rightarrow> bool" where
  "plain_path p = (p \<noteq> [] \<and> hd p \<noteq> CHR ''/'' \<and> last p \<noteq> CHR ''/'' \<and> \<not> prefix ''./'' p)"

lemma normalize_plain: "plain_path p \<Longrightarrow> normalize_path (CHR ''/'' # p) = p \<and> normalize_path p = p"
proof -
  assume p: "plain_path p"
  then have "dropWhile (\<lambda>c. c = CHR ''/'') p = p" by (cases p) (auto simp: plain_path_def)
  moreover have "rev (dropWhile (\<lambda>c. c = CHR ''/'') (rev p)) = p"
    using p by (cases p rule: rev_cases) (auto simp: plain_path_def)
  moreover have "strip_prefix_of ''./'' p = None"
    using p by (simp add: plain_path_def strip_prefix_of_eq_None)
  ultimately show ?thesis
    by (simp add: normalize_path_def trim_matches_def trim_start_matches_def trim_end_matches_def Let_def)
qed

text \<open>
  \<^bold>\<open>C24\<close> (invariant). However file systems have been mounted and unmounted, the paths in the mount
  table are distinct and absolute; a path is given to the mounted file system with the longest
  mount path that is a prefix of it, with the rest of the path, and to the main file system, whole,
  only if there is none. A mount point itself cannot be removed.
\<close>

theorem mount_dispatch:
  assumes "mount_init r0" "(mount_next V)\<^sup>*\<^sup>* r0 r" "plain_path p"
  shows "((\<exists>mp \<in> set (mounts r). \<exists>rest. p = drop 1 (mp_path mp) @ rest \<and>
        (\<forall>mp' \<in> set (mounts r). prefix (drop 1 (mp_path mp')) p \<longrightarrow> length (mp_path mp') \<le> length (mp_path mp)) \<and>
        root_lookup V r (CHR ''/'' # p) w = node_lookup V (vfs_root_dir V (mp_fs mp)) rest w) \<or>
      (\<forall>mp \<in> set (mounts r). \<not> prefix (drop 1 (mp_path mp)) p) \<and>
        root_lookup V r (CHR ''/'' # p) w = node_lookup V (vfs_root_dir V (main_fs r)) p w) \<and>
    (root_contains (CHR ''/'' # p) r \<longrightarrow> root_remove V r (CHR ''/'' # p) w = (Inl PermissionDenied, w))"
proof (rule conjI)
  have inv: "mount_inv r" by (rule mount_table.reachable_inv[OF assms(1,2)])
  have n: "normalize_path (CHR ''/'' # p) = p" using normalize_plain[OF assms(3)] by simp
  show "(\<exists>mp \<in> set (mounts r). \<exists>rest. p = drop 1 (mp_path mp) @ rest \<and>
      (\<forall>mp' \<in> set (mounts r). prefix (drop 1 (mp_path mp')) p \<longrightarrow> length (mp_path mp') \<le> length (mp_path mp)) \<and>
      root_lookup V r (CHR ''/'' # p) w = node_lookup V (vfs_root_dir V (mp_fs mp)) rest w) \<or>
    (\<forall>mp \<in> set (mounts r). \<not> prefix (drop 1 (mp_path mp)) p) \<and>
      root_lookup V r (CHR ''/'' # p) w = node_lookup V (vfs_root_dir V (main_fs r)) p w"
  proof (cases "find_best_mount r p")
    case None
    have "root_lookup V r (CHR ''/'' # p) w = node_lookup V (vfs_root_dir V (main_fs r)) p w"
      using None by (simp add: root_lookup_def lookup_mounted_fs_def n)
    then show ?thesis using find_best_mount_spec(1)[OF inv None] unfolding matches_def by blast
  next
    case (Some q)
    obtain fs rest where q: "q = (fs, rest)" by force
    have "root_lookup V r (CHR ''/'' # p) w = node_lookup V (vfs_root_dir V fs) rest w"
      using Some q by (simp add: root_lookup_def lookup_mounted_fs_def n)
    then show ?thesis using find_best_mount_spec(2)[OF inv Some[unfolded q]] unfolding matches_def by blast
  qed
  show "root_contains (CHR ''/'' # p) r \<longrightarrow> root_remove V r (CHR ''/'' # p) w = (Inl PermissionDenied, w)"
  proof
    assume "root_contains (CHR ''/'' # p) r"
    then obtain mp where mp: "mp \<in> set (mounts r)" "mp_path mp = CHR ''/'' # p"
      by (auto simp: root_contains_def list_ex_iff)
    then show "root_remove V r (CHR ''/'' # p) w = (Inl PermissionDenied, w)"
      using find_best_mount_exact[OF inv mp(1)] by (simp add: root_remove_def lookup_mounted_fs_def n)
  qed
qed

text \<open>A small set of file systems for concrete runs: a node is a file system and a path in it.\<close>

definition toy_vfs :: "(nat, nat \<times> string, unit) vfs" where
  "toy_vfs = \<lparr>vfs_root_dir = (\<lambda>fs. (fs, [])), vfs_mount = (\<lambda>_ _ _ w. (Inr (), w)), vfs_umount = (\<lambda>_ w. w),
     node_lookup = (\<lambda>n p w. Inr (fst n, p)), node_create = (\<lambda>n p ty w. (Inr (), w)),
     node_remove = (\<lambda>n p w. (Inr (), w)), node_rename = (\<lambda>n p q w. (Inr (), w)),
     node_get_attr = (\<lambda>n w. Inr \<lparr>attr_type = NodeDir, owner_readable = True, owner_writable = True, owner_executable = True, attr_size = 0\<rparr>),
     node_read_dir = (\<lambda>n s l w. Inr []), default_rename = (\<lambda>p q w. (Inl Unsupported, w)),
     canonicalize = (\<lambda>p. p)\<rparr>"

definition toy_root :: "nat RootDirectory" where
  "toy_root = fst (snd (mount toy_vfs ''/proc'' 1 (RootDirectory_new 0) ()))"

lemma toy_root_mounts: "mounts toy_root = [\<lparr>mp_path = ''/proc'', mp_fs = 1\<rparr>]" "main_fs toy_root = 0"
  by (simp_all add: toy_root_def mount_def toy_vfs_def RootDirectory_new_def starts_with_def root_contains_def)

lemma toy_root_reach: "mount_init (RootDirectory_new 0)" "(mount_next toy_vfs)\<^sup>*\<^sup>* (RootDirectory_new 0) toy_root"
proof -
  show "mount_init (RootDirectory_new 0)" unfolding mount_init_def by blast
  have "mount_next toy_vfs (RootDirectory_new 0) toy_root" unfolding mount_next_def toy_root_def by blast
  then show "(mount_next toy_vfs)\<^sup>*\<^sup>* (RootDirectory_new 0) toy_root" by (rule r_into_rtranclp)
qed

theorem mount_dispatch_witness:
  "root_lookup toy_vfs toy_root ''/proc/self'' () = Inr (1, ''/self'') \<and>
   root_remove toy_vfs toy_root ''/proc'' () = (Inl PermissionDenied, ())"
proof -
  have "plain_path ''proc/self''" "plain_path ''proc''" by (simp_all add: plain_path_def)
  from mount_dispatch[OF toy_root_reach this(1), of "()"] mount_dispatch[OF toy_root_reach this(2), of "()"]
  show ?thesis by (simp add: toy_root_mounts root_contains_def) (simp add: toy_vfs_def)
qed

text \<open>
  The comparison with the mount paths is on characters, not on path components: a name
  that merely begins with the name of a mount point, such as \<^verbatim>\<open>/procfs\<close> next to \<^verbatim>\<open>/proc\<close>, is given to a
  mounted file system too, with its first characters cut off. A file of the main file system with
  such a name cannot be reached.
\<close>

theorem mount_prefix_confusion:
  assumes "mount_init r0" "(mount_next V)\<^sup>*\<^sup>* r0 r" "root_contains (CHR ''/'' # m) r" "plain_path (m @ x)"
  shows "\<exists>mp \<in> set (mounts r). \<exists>rest. length rest \<le> length x \<and> suffix rest (m @ x) \<and>
    root_lookup V r (CHR ''/'' # m @ x) w = node_lookup V (vfs_root_dir V (mp_fs mp)) rest w"
proof -
  have inv: "mount_inv r" by (rule mount_table.reachable_inv[OF assms(1,2)])
  have n: "normalize_path (CHR ''/'' # m @ x) = m @ x" using normalize_plain[OF assms(4)] by simp
  obtain mp where mp: "mp \<in> set (mounts r)" "mp_path mp = CHR ''/'' # m"
    using assms(3) by (auto simp: root_contains_def list_ex_iff)
  have m: "matches (m @ x) mp" by (simp add: matches_def mp(2))
  then obtain q where q: "find_best_mount r (m @ x) = Some q"
    using find_best_mount_spec(1)[OF inv _ mp(1)] by (cases "find_best_mount r (m @ x)") auto
  obtain fs rest where fr: "q = (fs, rest)" by force
  from find_best_mount_spec(2)[OF inv q[unfolded fr]] obtain mp' where
    mp': "mp' \<in> set (mounts r)" "mp_fs mp' = fs" "m @ x = drop 1 (mp_path mp') @ rest" "length (mp_path mp) \<le> length (mp_path mp')"
    using m mp(1) by blast
  have "length (m @ x) = length (mp_path mp') - 1 + length rest" using arg_cong[OF mp'(3), of length] by simp
  then have "length rest \<le> length x" using mp'(4) mp(2) by simp
  moreover have "suffix rest (m @ x)" unfolding mp'(3) by (rule suffixI) simp
  moreover have "root_lookup V r (CHR ''/'' # m @ x) w = node_lookup V (vfs_root_dir V fs) rest w"
    using q fr by (simp add: root_lookup_def lookup_mounted_fs_def n)
  ultimately show ?thesis using mp'(1,2) by blast
qed

theorem mount_prefix_confusion_witness:
  "root_lookup toy_vfs toy_root ''/procfs'' () = Inr (1, ''fs'') \<and>
   (\<exists>mp \<in> set (mounts toy_root). \<exists>rest. length rest \<le> 2 \<and>
     root_lookup toy_vfs toy_root ''/procfs'' () = node_lookup toy_vfs (vfs_root_dir toy_vfs (mp_fs mp)) rest ())"
proof -
  have "plain_path (''proc'' @ ''fs'')" "root_contains (CHR ''/'' # ''proc'') toy_root"
    by (simp_all add: plain_path_def root_contains_def toy_root_mounts)
  from mount_prefix_confusion[OF toy_root_reach this(2,1), of "()"] show ?thesis
    by (auto simp: toy_root_mounts root_lookup_def lookup_mounted_fs_def normalize_path_def find_best_mount_def
        starts_with_def trim_matches_def trim_start_matches_def trim_end_matches_def toy_vfs_def)
qed

section \<open>The current directory\<close>

fun set_current_dirs :: "('fs, 'n, 'w) vfs \<Rightarrow> (string \<times> 'w) list \<Rightarrow> ('fs, 'n) root_state \<Rightarrow> ('fs, 'n) root_state" where
  "set_current_dirs V [] g = g"
| "set_current_dirs V ((p, w) # ps) g = set_current_dirs V ps (snd (set_current_dir V p g w))"

definition cwd_ok :: "('fs, 'n) root_state \<Rightarrow> bool" where
  "cwd_ok g = (starts_with (CURRENT_DIR_PATH g) ''/'' \<and> ends_with (CURRENT_DIR_PATH g) ''/'' \<and>
     (CURRENT_DIR g = RootNode) = (CURRENT_DIR_PATH g = ''/''))"

lemma starts_with_append: "starts_with s p \<Longrightarrow> starts_with (s @ t) p"
  by (auto simp: starts_with_prefix prefix_def)

lemma absolute_path_absolute:
  assumes "\<forall>p. starts_with p ''/'' \<longrightarrow> starts_with (canonicalize V p) ''/''" "cwd_ok g"
  shows "starts_with (absolute_path V g path) ''/''"
  using assms starts_with_append[of "CURRENT_DIR_PATH g" "''/''" path]
  by (simp add: absolute_path_def cwd_ok_def)

lemma set_current_dir_ok:
  assumes "\<forall>p. starts_with p ''/'' \<longrightarrow> starts_with (canonicalize V p) ''/''" "cwd_ok g"
  shows "cwd_ok (snd (set_current_dir V path g w))"
proof -
  have "starts_with (absolute_path V g path @ ''/'') ''/''"
    by (rule starts_with_append) (rule absolute_path_absolute[OF assms])
  moreover have "starts_with (absolute_path V g path) ''/''" by (rule absolute_path_absolute[OF assms])
  moreover have "ends_with (t @ ''/'') ''/''" for t by (simp add: ends_with_suffix suffix_def)
  ultimately show ?thesis
    using assms(2) by (auto simp: set_current_dir_def Let_def cwd_ok_def starts_with_prefix ends_with_suffix
        split: sum.splits if_splits)
qed

lemma set_current_dirs_ok:
  assumes "\<forall>p. starts_with p ''/'' \<longrightarrow> starts_with (canonicalize V p) ''/''"
  shows "cwd_ok g \<Longrightarrow> cwd_ok (set_current_dirs V moves g)"
proof (induction moves arbitrary: g)
  case (Cons m ms)
  then show ?case using set_current_dir_ok[OF assms Cons.prems] by (cases m) simp
qed simp

text \<open>
  After boot and any sequence of changes of directory, successful or not, the path of
  the current directory begins and ends with a slash, and is the root's path exactly if the current
  directory is the root node; so a relative path joined to it is again an absolute path.
\<close>

theorem current_dir_path_invariant:
  assumes "\<forall>p. starts_with p ''/'' \<longrightarrow> starts_with (canonicalize V p) ''/''"
    "mount_virtual_fs V procfs sysfs r w = Done (g0, w0)" "g = set_current_dirs V moves g0"
  shows "starts_with (CURRENT_DIR_PATH g) ''/'' \<and> ends_with (CURRENT_DIR_PATH g) ''/'' \<and>
    (CURRENT_DIR g = RootNode) = (CURRENT_DIR_PATH g = ''/'') \<and> starts_with (absolute_path V g path) ''/''"
proof -
  have "cwd_ok g0"
    using assms(2) by (auto simp: mount_virtual_fs_def cwd_ok_def starts_with_def ends_with_def split: prod.splits sum.splits)
  then have "cwd_ok g" unfolding assms(3) by (rule set_current_dirs_ok[OF assms(1)])
  then show ?thesis using absolute_path_absolute[OF assms(1), of g path] by (simp add: cwd_ok_def)
qed

theorem current_dir_path_invariant_witness:
  "\<exists>g. mount_virtual_fs toy_vfs 1 2 (RootDirectory_new 0) () = Done (g, ()) \<and>
     CURRENT_DIR_PATH (set_current_dirs toy_vfs [(''/home'', ()), (''docs'', ())] g) = ''/home/docs/'' \<and>
     starts_with (CURRENT_DIR_PATH (set_current_dirs toy_vfs [(''/home'', ()), (''docs'', ())] g)) ''/''"
proof -
  let ?g = "\<lparr>ROOT_DIR = \<lparr>main_fs = 0, mounts = [\<lparr>mp_path = ''/proc'', mp_fs = 1\<rparr>, \<lparr>mp_path = ''/sys'', mp_fs = 2\<rparr>]\<rparr>,
    CURRENT_DIR = RootNode, CURRENT_DIR_PATH = ''/''\<rparr> :: (nat, nat \<times> string) root_state"
  have boot: "mount_virtual_fs toy_vfs 1 2 (RootDirectory_new 0) () = Done (?g, ())"
    by (simp add: mount_virtual_fs_def mount_def toy_vfs_def RootDirectory_new_def starts_with_def root_contains_def)
  have "\<forall>p. starts_with p ''/'' \<longrightarrow> starts_with (canonicalize toy_vfs p) ''/''" by (simp add: toy_vfs_def)
  from current_dir_path_invariant[OF this boot refl, of "[(''/home'', ()), (''docs'', ())]"] boot
  have "starts_with (CURRENT_DIR_PATH (set_current_dirs toy_vfs [(''/home'', ()), (''docs'', ())] ?g)) ''/''" by simp
  moreover have "CURRENT_DIR_PATH (set_current_dirs toy_vfs [(''/home'', ()), (''docs'', ())] ?g) = ''/home/docs/''"
    by (simp add: set_current_dir_def absolute_path_def Let_def lookup_def parent_node_of_def lookup_in_def root_lookup_def
        lookup_mounted_fs_def normalize_path_def find_best_mount_def attr_is_dir_def toy_vfs_def
        starts_with_def ends_with_def trim_matches_def trim_start_matches_def trim_end_matches_def)
  ultimately show ?thesis using boot by blast
qed

end
