(* ===== verification/Axfs_Boot.thy ===== *)
theory Axfs_Boot
  imports Axfs_Root Axfs_Partition
begin

text \<open>
  Choosing and mounting the root file system at boot: \<^verbatim>\<open>modules/axfs/src/lib.rs\<close> (the \<^verbatim>\<open>root=\<close> argument of
  the boot command line and the partition it names) and the initialisation part of
  \<^verbatim>\<open>modules/axfs/src/root.rs\<close>. Mounting FAT or ext4 on a partition and the virtual file systems are
  arguments, as in the theories of partitions and of the root directory.
\<close>

section \<open>The root argument\<close>

record RootSpec =
  partition_index :: "usize option"
  partuuid :: "string option"
  uuid :: "string option"
  partlabel :: "string option"

definition RootSpec_default :: RootSpec where
  "RootSpec_default = \<lparr>partition_index = None, partuuid = None, uuid = None, partlabel = None\<rparr>"

definition hexX :: "u8 \<Rightarrow> string" where
  "hexX b = to_uppercase (hex02 b)"

definition format_guid_as_partuuid :: "u8 list \<Rightarrow> string" where
  "format_guid_as_partuuid guid =
     (let h = (\<lambda>i. hexX (guid ! i))
      in h 3 @ h 2 @ h 1 @ h 0 @ ''-'' @ h 5 @ h 4 @ ''-'' @ h 7 @ h 6 @ ''-'' @ h 8 @ h 9 @ ''-'' @
         h 10 @ h 11 @ h 12 @ h 13 @ h 14 @ h 15)"

definition index_spec :: "string \<Rightarrow> RootSpec" where
  "index_spec num_str =
     (case parse_usize num_str of
        Some num \<Rightarrow> if num > 0 then RootSpec_default\<lparr>partition_index := Some (num - 1)\<rparr> else RootSpec_default
      | None \<Rightarrow> RootSpec_default)"

definition parse_device_path :: "string \<Rightarrow> string \<Rightarrow> RootSpec" where
  "parse_device_path path pre =
     (case strip_prefix_of pre path of Some part_num \<Rightarrow> index_spec part_num | None \<Rightarrow> RootSpec_default)"

definition parse_mmcblk_path :: "string \<Rightarrow> RootSpec" where
  "parse_mmcblk_path path =
     (case strip_prefix_of ''/dev/mmcblk'' path of
        Some remaining \<Rightarrow>
          (case str_find CHR ''p'' remaining of
             Some p_pos \<Rightarrow> index_spec (drop (p_pos + 1) remaining)
           | None \<Rightarrow> RootSpec_default)
      | None \<Rightarrow> RootSpec_default)"

definition parse_root_spec :: "string option \<Rightarrow> RootSpec" where
  "parse_root_spec bootargs =
     (case bootargs of
        None \<Rightarrow> RootSpec_default
      | Some args \<Rightarrow>
          (case find (\<lambda>arg. starts_with arg ''root='') (str_split_whitespace args) of
             None \<Rightarrow> RootSpec_default
           | Some root_arg \<Rightarrow>
               (let v = drop 5 root_arg
                in if starts_with v ''/dev/sda'' then parse_device_path v ''/dev/sda''
                   else if starts_with v ''/dev/mmcblk'' then parse_mmcblk_path v
                   else if starts_with v ''PARTUUID='' then RootSpec_default\<lparr>partuuid := Some (to_uppercase (drop 9 v))\<rparr>
                   else if starts_with v ''UUID='' then RootSpec_default\<lparr>uuid := Some (to_uppercase (drop 5 v))\<rparr>
                   else if starts_with v ''PARTLABEL='' then RootSpec_default\<lparr>partlabel := Some (drop 10 v)\<rparr>
                   else RootSpec_default)))"

section \<open>Finding the partition\<close>

definition partition_matches :: "RootSpec \<Rightarrow> PartitionInfo \<Rightarrow> bool" where
  "partition_matches spec p =
     (filesystem_type p \<noteq> None \<and>
      ((case partuuid spec of Some u \<Rightarrow> str_contains (format_guid_as_partuuid (unique_partition_guid p)) u | None \<Rightarrow> False) \<or>
       (case uuid spec of
          Some u \<Rightarrow> (case filesystem_uuid p of Some pu \<Rightarrow> to_uppercase pu = u | None \<Rightarrow> False)
        | None \<Rightarrow> False) \<or>
       (case partlabel spec of Some l \<Rightarrow> part_name p = l | None \<Rightarrow> False)))"

fun find_from :: "('a \<Rightarrow> bool) \<Rightarrow> nat \<Rightarrow> 'a list \<Rightarrow> nat option" where
  "find_from P i [] = None"
| "find_from P i (x # xs) = (if P x then Some i else find_from P (i + 1) xs)"

definition find_root_partition :: "PartitionInfo list \<Rightarrow> RootSpec \<Rightarrow> nat option" where
  "find_root_partition partitions spec =
     (case partition_index spec of
        Some i \<Rightarrow> if unat i < length partitions then Some (unat i) else None
      | None \<Rightarrow> find_from (partition_matches spec) 0 partitions)"

section \<open>Mounting the partitions\<close>

text \<open>How a file system is made for a partition of the disk.\<close>

type_synonym 'fs make_fs = "PartitionInfo \<Rightarrow> 'fs ax_result"

definition try_use_specified_partition :: "'fs make_fs \<Rightarrow> PartitionInfo list \<Rightarrow> nat \<Rightarrow> ('fs \<times> nat) option" where
  "try_use_specified_partition mk partitions i =
     (if i \<ge> length partitions then None
      else if filesystem_type (partitions ! i) = None then None
      else case mk (partitions ! i) of Inr fs \<Rightarrow> Some (fs, i) | Inl _ \<Rightarrow> None)"

fun find_first_supported :: "'fs make_fs \<Rightarrow> nat \<Rightarrow> PartitionInfo list \<Rightarrow> ('fs \<times> nat) option" where
  "find_first_supported mk i [] = None"
| "find_first_supported mk i (p # ps) =
     (if filesystem_type p \<noteq> None then
        (case mk p of Inr fs \<Rightarrow> Some (fs, i) | Inl _ \<Rightarrow> find_first_supported mk (i + 1) ps)
      else find_first_supported mk (i + 1) ps)"

definition find_first_supported_partition :: "'fs make_fs \<Rightarrow> PartitionInfo list \<Rightarrow> ('fs \<times> nat) option" where
  "find_first_supported_partition mk partitions = find_first_supported mk 0 partitions"

definition find_root_filesystem :: "'fs make_fs \<Rightarrow> PartitionInfo list \<Rightarrow> nat option \<Rightarrow> ('fs \<times> nat) option" where
  "find_root_filesystem mk partitions root_index =
     (case (case root_index of Some i \<Rightarrow> try_use_specified_partition mk partitions i | None \<Rightarrow> None) of
        Some r \<Rightarrow> Some r
      | None \<Rightarrow> find_first_supported_partition mk partitions)"

definition mount_path_of :: "PartitionInfo \<Rightarrow> string" where
  "mount_path_of p = (if str_contains (to_lowercase (part_name p)) ''boot'' then ''/boot'' else ''/'' @ part_name p)"

definition mount_single_partition ::
    "('fs, 'n, 'w) vfs \<Rightarrow> 'fs make_fs \<Rightarrow> PartitionInfo \<Rightarrow> 'fs RootDirectory \<Rightarrow> 'w \<Rightarrow> 'fs RootDirectory \<times> 'w" where
  "mount_single_partition V mk p r w =
     (case mk p of
        Inl _ \<Rightarrow> (r, w)
      | Inr fs \<Rightarrow>
          (case node_create V (vfs_root_dir V (main_fs r)) (mount_path_of p) NodeDir w of
             (Inl _, w1) \<Rightarrow> (r, w1)
           | (Inr _, w1) \<Rightarrow> snd (mount V (mount_path_of p) fs r w1)))"

fun mount_rest ::
    "('fs, 'n, 'w) vfs \<Rightarrow> 'fs make_fs \<Rightarrow> nat option \<Rightarrow> nat \<Rightarrow> PartitionInfo list \<Rightarrow> 'fs RootDirectory \<Rightarrow> 'w \<Rightarrow>
     'fs RootDirectory \<times> 'w" where
  "mount_rest V mk root_index i [] r w = (r, w)"
| "mount_rest V mk root_index i (p # ps) r w =
     (if Some i = root_index \<or> filesystem_type p = None then mount_rest V mk root_index (i + 1) ps r w
      else (let (r', w') = mount_single_partition V mk p r w in mount_rest V mk root_index (i + 1) ps r' w'))"

definition mount_additional_partitions ::
    "('fs, 'n, 'w) vfs \<Rightarrow> 'fs make_fs \<Rightarrow> nat option \<Rightarrow> PartitionInfo list \<Rightarrow> 'fs RootDirectory \<Rightarrow> 'w \<Rightarrow>
     'fs RootDirectory \<times> 'w" where
  "mount_additional_partitions V mk root_index partitions r w =
     mount_rest V mk root_index 0 partitions r
       (snd (node_create V (vfs_root_dir V (main_fs r)) ''/boot'' NodeDir w))"

definition init_rootfs_with_partitions ::
    "('fs, 'n, 'w) vfs \<Rightarrow> 'fs make_fs \<Rightarrow> 'fs \<Rightarrow> 'fs \<Rightarrow> 'fs \<Rightarrow> PartitionInfo list \<Rightarrow> nat option \<Rightarrow> 'w \<Rightarrow>
     (('fs, 'n) root_state \<times> 'w) outcome" where
  "init_rootfs_with_partitions V mk ramfs procfs sysfs partitions root_index w =
     (let (fs, actual) = (case find_root_filesystem mk partitions root_index of
                            Some (fs, i) \<Rightarrow> (fs, Some i)
                          | None \<Rightarrow> (ramfs, None));
          (r, w1) = mount_additional_partitions V mk actual partitions (RootDirectory_new fs) w
      in mount_virtual_fs V procfs sysfs r w1)"

definition init_rootfs_with_ramfs ::
    "('fs, 'n, 'w) vfs \<Rightarrow> 'fs \<Rightarrow> 'fs \<Rightarrow> 'fs \<Rightarrow> 'w \<Rightarrow> (('fs, 'n) root_state \<times> 'w) outcome" where
  "init_rootfs_with_ramfs V ramfs procfs sysfs w = mount_virtual_fs V procfs sysfs (RootDirectory_new ramfs) w"

text \<open>\<open>None\<close>: the function returns and the root directory is left uninitialised.\<close>

definition initialize_with_partitions ::
    "('fs, 'n, 'w) vfs \<Rightarrow> 'fs make_fs \<Rightarrow> 'fs \<Rightarrow> 'fs \<Rightarrow> 'fs \<Rightarrow> PartitionInfo list \<Rightarrow> RootSpec \<Rightarrow> 'w \<Rightarrow>
     (('fs, 'n) root_state \<times> 'w) option outcome" where
  "initialize_with_partitions V mk ramfs procfs sysfs partitions spec w =
     (if list_ex (\<lambda>p. filesystem_type p \<noteq> None) partitions then
        (case init_rootfs_with_partitions V mk ramfs procfs sysfs partitions (find_root_partition partitions spec) w of
           Panic m \<Rightarrow> Panic m
         | Done s \<Rightarrow> Done (Some s))
      else Done None)"

definition init_filesystems ::
    "('d, 'e) block_dev \<Rightarrow> ('fs, 'n, 'w) vfs \<Rightarrow> (Partition \<Rightarrow> 'fs) \<Rightarrow> (Partition \<Rightarrow> 'fs) \<Rightarrow> 'fs \<Rightarrow> 'fs \<Rightarrow> 'fs \<Rightarrow>
     'd option \<Rightarrow> string option \<Rightarrow> 'w \<Rightarrow> (('fs, 'n) root_state \<times> 'w) option outcome" where
  "init_filesystems B V fat ext4 ramfs procfs sysfs blk_dev bootargs w =
     (case blk_dev of
        None \<Rightarrow> Panic ''No block device found!''
      | Some d \<Rightarrow>
          (case Disk_new B d of
             Panic m \<Rightarrow> Panic m
           | Done dk \<Rightarrow>
               (let (scan, s) = scan_gpt_partitions B (dk, d)
                in case scan of
                     Inr partitions \<Rightarrow>
                       if partitions \<noteq> [] then
                         initialize_with_partitions V (create_filesystem_for_partition fat ext4 (fst s)) ramfs procfs sysfs
                           partitions (parse_root_spec bootargs) w
                       else (case init_rootfs_with_ramfs V ramfs procfs sysfs w of Panic m \<Rightarrow> Panic m | Done g \<Rightarrow> Done (Some g))
                   | Inl _ \<Rightarrow> Done None)))"


section \<open>What the boot arguments select\<close>

lemma show_nat_digits: "c \<in> set (show_nat n) \<Longrightarrow> \<exists>d < 10. c = char_of (48 + d :: nat)"
proof (induction n rule: show_nat.induct)
  case (1 n)
  show ?case
  proof (cases "n < 10")
    case True
    then have "show_nat n = [char_of (48 + n)]" by (subst show_nat.simps) simp
    then show ?thesis using True 1(2) by (intro exI[of _ n]) simp
  next
    case False
    then have "set (show_nat n) = insert (char_of (48 + n mod 10)) (set (show_nat (n div 10)))"
      by (subst show_nat.simps) simp
    then consider "c = char_of (48 + n mod 10)" | "c \<in> set (show_nat (n div 10))" using 1(2) by blast
    then show ?thesis using 1(1)[OF False] by cases (auto intro!: exI[of _ "n mod 10"])
  qed
qed

lemma digit_char: "d < 10 \<Longrightarrow> \<not> is_whitespace (char_of (48 + d :: nat)) \<and> char_of (48 + d :: nat) \<noteq> CHR ''p''"
proof -
  assume "d < 10"
  then have "of_char (char_of (48 + d) :: char) = 48 + d" by (simp add: of_char_of)
  with \<open>d < 10\<close> show ?thesis
    by (auto simp: is_whitespace_def dest: arg_cong[of _ _ "of_char :: char \<Rightarrow> nat"])
qed

lemma show_nat_plain: "\<forall>c \<in> set (show_nat n). \<not> is_whitespace c \<and> c \<noteq> CHR ''p''"
  using show_nat_digits digit_char by metis

definition word_ok :: "string \<Rightarrow> bool" where
  "word_ok w = (w \<noteq> [] \<and> (\<forall>c \<in> set w. \<not> is_whitespace c))"

lemma find_root_word:
  assumes "\<forall>w \<in> set pre. \<not> starts_with w ''root=''" "starts_with x ''root=''"
  shows "find (\<lambda>arg. starts_with arg ''root='') (pre @ x # post) = Some x"
  using assms by (induction pre) auto

definition index_of :: "nat \<Rightarrow> RootSpec" where
  "index_of n = RootSpec_default\<lparr>partition_index := Some (of_nat (n - 1))\<rparr>"

lemma index_spec_show: "0 < n \<Longrightarrow> n < 2 ^ 64 \<Longrightarrow> index_spec (show_nat n) = index_of n"
proof -
  assume n: "0 < n" "n < 2 ^ 64"
  then have "unat (of_nat n :: usize) = n" by (simp add: unat_of_nat take_bit_nat_eq_self)
  then have "(0 :: usize) < of_nat n" using n(1) by (simp add: word_less_nat_alt)
  then show ?thesis using n by (simp add: index_spec_def index_of_def parse_usize_show_nat of_nat_diff)
qed

text \<open>
  A boot command line, of any words, whose first \<^verbatim>\<open>root=\<close> word is \<^verbatim>\<open>root=/dev/sda<n>\<close>, or
  \<^verbatim>\<open>root=/dev/mmcblk<k>p<n>\<close>, with \<open>n\<close> written in decimal, asks for the partition with index \<open>n - 1\<close>.
\<close>

theorem root_argument_roundtrip:
  assumes "list_all word_ok (pre @ post)" "\<forall>w \<in> set pre. \<not> starts_with w ''root=''" "0 < n" "n < 2 ^ 64"
    "dev = ''sda'' \<or> dev = ''mmcblk'' @ show_nat k @ ''p''"
  shows "parse_root_spec (Some (str_join '' '' (pre @ (''root=/dev/'' @ dev @ show_nat n) # post))) =
    RootSpec_default\<lparr>partition_index := Some (of_nat (n - 1))\<rparr>"
proof -
  let ?x = "''root=/dev/'' @ dev @ show_nat n"
  have lits: "\<forall>c \<in> set w. \<not> is_whitespace c" if "w \<in> {''root=/dev/'', ''sda'', ''mmcblk'', ''p''}" for w
    using that by (elim insertE) (simp_all add: is_whitespace_def)
  have digits: "\<forall>c \<in> set (show_nat i). \<not> is_whitespace c" for i using show_nat_plain by blast
  have "word_ok ?x"
    using assms(5) by (elim disjE; simp only: word_ok_def set_append ball_Un append_is_Nil_conv list.distinct simp_thms;
      intro conjI digits lits; simp)
  then have "str_split_whitespace (str_join '' '' (pre @ ?x # post)) = pre @ ?x # post"
    using assms(1) by (intro split_whitespace_join) (auto simp: list_all_iff word_ok_def)
  moreover have "starts_with ?x ''root=''" by (simp add: starts_with_def)
  ultimately have f: "find (\<lambda>arg. starts_with arg ''root='') (str_split_whitespace (str_join '' '' (pre @ ?x # post))) = Some ?x"
    using find_root_word[OF assms(2)] by simp
  have root: "parse_root_spec (Some (str_join '' '' (pre @ ?x # post))) =
      (if starts_with (''/dev/'' @ dev @ show_nat n) ''/dev/sda'' then parse_device_path (''/dev/'' @ dev @ show_nat n) ''/dev/sda''
       else if starts_with (''/dev/'' @ dev @ show_nat n) ''/dev/mmcblk'' then parse_mmcblk_path (''/dev/'' @ dev @ show_nat n)
       else RootSpec_default)"
    using assms(5) unfolding parse_root_spec_def option.case f Let_def by (elim disjE) (simp_all add: starts_with_def)
  from assms(5) show ?thesis
  proof
    assume "dev = ''sda''"
    then show ?thesis unfolding root using index_spec_show[OF assms(3,4)]
      by (simp add: starts_with_def parse_device_path_def index_of_def)
  next
    assume dev: "dev = ''mmcblk'' @ show_nat k @ ''p''"
    have "str_find CHR ''p'' (show_nat k @ CHR ''p'' # show_nat n) = Some (length (show_nat k))"
      using show_nat_plain by (intro str_find_append) blast
    then have "parse_mmcblk_path (''/dev/mmcblk'' @ show_nat k @ CHR ''p'' # show_nat n) = index_of n"
      unfolding parse_mmcblk_path_def using index_spec_show[OF assms(3,4)] by simp
    then show ?thesis unfolding root using dev by (simp add: starts_with_def index_of_def)
  qed
qed

theorem root_argument_roundtrip_witness:
  "parse_root_spec (Some (str_join '' '' ([''console=ttyS0''] @ (''root=/dev/'' @ ''sda'' @ show_nat 3) # [''quiet'']))) =
    RootSpec_default\<lparr>partition_index := Some 2\<rparr>"
  using root_argument_roundtrip[of "[''console=ttyS0'']" "[''quiet'']" 3 "''sda''" 0]
  by (simp add: word_ok_def is_whitespace_def starts_with_def)

lemma find_from_lt_gen: "find_from P k xs = Some i \<Longrightarrow> k \<le> i \<and> i < k + length xs"
  by (induction P k xs rule: find_from.induct) (auto split: if_splits)

lemma find_from_lt: "find_from P 0 xs = Some i \<Longrightarrow> i < length xs"
  using find_from_lt_gen[of P 0 xs i] by simp

definition supported :: "PartitionInfo \<Rightarrow> bool" where
  "supported p = (filesystem_type p \<noteq> None)"

lemma find_first_supported_spec:
  assumes "\<forall>p \<in> set ps. supported p \<longrightarrow> (\<exists>fs. mk p = Inr fs)"
  shows "find_first_supported mk k ps = None \<and> list_all (\<lambda>p. \<not> supported p) ps \<or>
    (\<exists>i fs. find_first_supported mk k ps = Some (fs, k + i) \<and> i < length ps \<and> supported (ps ! i) \<and> mk (ps ! i) = Inr fs \<and>
      list_all (\<lambda>p. \<not> supported p) (take i ps))"
  using assms
proof (induction mk k ps rule: find_first_supported.induct)
  case (2 mk k p ps)
  show ?case
  proof (cases "supported p")
    case True
    then obtain fs where "mk p = Inr fs" using 2(3) by auto
    then show ?thesis using True by (intro disjI2 exI[of _ 0] exI[of _ fs]) (simp add: supported_def)
  next
    case False
    then have eq: "find_first_supported mk k (p # ps) = find_first_supported mk (k + 1) ps" by (simp add: supported_def)
    have "find_first_supported mk (k + 1) ps = None \<and> list_all (\<lambda>p. \<not> supported p) ps \<or>
      (\<exists>i fs. find_first_supported mk (k + 1) ps = Some (fs, k + 1 + i) \<and> i < length ps \<and> supported (ps ! i) \<and>
        mk (ps ! i) = Inr fs \<and> list_all (\<lambda>p. \<not> supported p) (take i ps))"
      using 2(2) False 2(3) by (simp add: supported_def)
    then show ?thesis
    proof (elim disjE exE conjE)
      fix i fs
      assume "find_first_supported mk (k + 1) ps = Some (fs, k + 1 + i)" "i < length ps" "supported (ps ! i)"
        "mk (ps ! i) = Inr fs" "list_all (\<lambda>p. \<not> supported p) (take i ps)"
      then show ?thesis using False by (intro disjI2 exI[of _ "Suc i"] exI[of _ fs]) (simp add: eq del: find_first_supported.simps)
    qed (use False in \<open>simp add: eq del: find_first_supported.simps\<close>)
  qed
qed simp

text \<open>
  The root file system is that of the partition which the boot argument names, if
  that has a supported file system, and otherwise that of the first partition in the table that has
  one; without a root only if no partition has one.
\<close>

theorem root_partition_choice:
  assumes "\<forall>p \<in> set ps. supported p \<longrightarrow> (\<exists>fs. mk p = Inr fs)" "root = find_root_partition ps spec"
  shows "find_root_filesystem mk ps root = None \<and> list_all (\<lambda>p. \<not> supported p) ps \<or>
    (\<exists>i fs. find_root_filesystem mk ps root = Some (fs, i) \<and> i < length ps \<and> supported (ps ! i) \<and> mk (ps ! i) = Inr fs \<and>
      (root = Some i \<or>
       (case root of Some j \<Rightarrow> j < length ps \<and> \<not> supported (ps ! j) | None \<Rightarrow> True) \<and>
       list_all (\<lambda>p. \<not> supported p) (take i ps)))"
proof (cases "\<exists>j. root = Some j \<and> supported (ps ! j)")
  have lt: "j < length ps" if "root = Some j" for j
    using that assms(2) find_from_lt by (auto simp: find_root_partition_def split: option.splits if_splits)
  {
    case True
    then obtain j where j: "root = Some j" "supported (ps ! j)" by blast
    moreover obtain fs where "mk (ps ! j) = Inr fs" using assms(1) j lt[OF j(1)] by auto
    ultimately show ?thesis using lt[OF j(1)]
      by (intro disjI2 exI[of _ j] exI[of _ fs]) (auto simp: find_root_filesystem_def try_use_specified_partition_def supported_def)
  next
    case False
    then have "find_root_filesystem mk ps root = find_first_supported mk 0 ps"
      using lt by (auto simp: find_root_filesystem_def try_use_specified_partition_def supported_def
          find_first_supported_partition_def split: option.splits)
    moreover have "case root of Some j \<Rightarrow> j < length ps \<and> \<not> supported (ps ! j) | None \<Rightarrow> True"
      using False lt by (auto split: option.splits)
    ultimately show ?thesis using find_first_supported_spec[OF assms(1), of 0] by auto
  }
qed

definition toy_part :: "string \<Rightarrow> FilesystemType option \<Rightarrow> PartitionInfo" where
  "toy_part n fs = \<lparr>index = 0, part_name = n, partition_type_guid = [], unique_partition_guid = replicate 16 0,
     filesystem_uuid = None, starting_lba = 0, ending_lba = 0, size_bytes = 512, filesystem_type = fs\<rparr>"

theorem root_partition_choice_witness:
  "find_root_filesystem (\<lambda>p. Inr (part_name p)) [toy_part ''a'' None, toy_part ''b'' (Some Fat), toy_part ''c'' (Some Ext4)]
     (find_root_partition [toy_part ''a'' None, toy_part ''b'' (Some Fat), toy_part ''c'' (Some Ext4)] (index_of 3)) = Some (''c'', 2)"
  using root_partition_choice[of "[toy_part ''a'' None, toy_part ''b'' (Some Fat), toy_part ''c'' (Some Ext4)]"
      "\<lambda>p. Inr (part_name p)" _ "index_of 3", OF _ refl]
  by (auto simp: find_root_partition_def index_of_def RootSpec_default_def supported_def toy_part_def
      find_root_filesystem_def try_use_specified_partition_def)

section \<open>A partition that takes the place of a virtual file system\<close>

definition vfs_never_fails :: "('fs, 'n, 'w) vfs \<Rightarrow> bool" where
  "vfs_never_fails V =
     ((\<forall>n p ty w. \<exists>w'. node_create V n p ty w = (Inr (), w')) \<and> (\<forall>n p w. \<exists>m. node_lookup V n p w = Inr m) \<and>
      (\<forall>fs p n w. \<exists>w'. vfs_mount V fs p n w = (Inr (), w')))"

lemma mount_contains_mono: "root_contains q r \<Longrightarrow> root_contains q (fst (snd (mount V path fs r w)))"
  using mount_cases[of V path fs r w] by (auto simp: root_contains_def)

lemma mount_contains:
  assumes "vfs_never_fails V" "path = CHR ''/'' # c # m"
  shows "root_contains path (fst (snd (mount V path fs r w)))"
proof (cases "root_contains path r")
  case True
  then show ?thesis by (rule mount_contains_mono)
next
  case False
  obtain w1 where w1: "node_create V (vfs_root_dir V (main_fs r)) path NodeDir w = (Inr (), w1)"
    using assms(1) unfolding vfs_never_fails_def by blast
  obtain n where n: "node_lookup V (vfs_root_dir V (main_fs r)) path w1 = Inr n"
    using assms(1) unfolding vfs_never_fails_def by blast
  obtain w2 where w2: "vfs_mount V fs path n w1 = (Inr (), w2)"
    using assms(1) unfolding vfs_never_fails_def by blast
  have "path \<noteq> ''/''" "starts_with path ''/''" using assms(2) by (simp_all add: starts_with_def)
  then show ?thesis using False w1 n w2 by (simp add: mount_def root_contains_def)
qed

lemma mount_single_contains:
  "root_contains q r \<Longrightarrow> root_contains q (fst (mount_single_partition V mk p r w))"
  using mount_contains_mono[of q r V "mount_path_of p"]
  by (auto simp: mount_single_partition_def split: sum.splits prod.splits)

lemma mount_rest_contains:
  "root_contains q r \<Longrightarrow> root_contains q (fst (mount_rest V mk ri i ps r w))"
proof (induction V mk ri i ps r w rule: mount_rest.induct)
  case (2 V mk ri i p ps r w)
  then show ?case using mount_single_contains[of q r V mk p w] by (auto simp: Let_def split: prod.splits)
qed simp

lemma mount_rest_at:
  assumes "vfs_never_fails V" "j < length ps" "ri \<noteq> Some (i + j)" "supported (ps ! j)" "mk (ps ! j) = Inr fs"
    "mount_path_of (ps ! j) = CHR ''/'' # c # m"
  shows "root_contains (CHR ''/'' # c # m) (fst (mount_rest V mk ri i ps r w))"
  using assms(2-)
proof (induction ps arbitrary: i j r w)
  case (Cons p ps)
  show ?case
  proof (cases j)
    case 0
    obtain w1 where "node_create V (vfs_root_dir V (main_fs r)) (mount_path_of p) NodeDir w = (Inr (), w1)"
      using assms(1) unfolding vfs_never_fails_def by blast
    then have "root_contains (CHR ''/'' # c # m) (fst (mount_single_partition V mk p r w))"
      using Cons.prems 0 mount_contains[OF assms(1), of "CHR ''/'' # c # m" c m fs r w1]
      by (simp add: mount_single_partition_def)
    then show ?thesis using Cons.prems 0
      by (auto simp: Let_def supported_def split: prod.splits intro: mount_rest_contains)
  next
    case (Suc k)
    have "root_contains (CHR ''/'' # c # m) (fst (mount_rest V mk ri (i + 1) ps r' w'))" for r' w'
      using Cons.IH[of k "i + 1" r' w'] Cons.prems Suc by simp
    then show ?thesis by (simp add: Let_def split: prod.splits)
  qed
qed simp

text \<open>
  A partition other than the root whose label is \<^verbatim>\<open>proc\<close> and whose file system is supported
  makes the boot panic: it is mounted at \<^verbatim>\<open>/proc\<close> first, and mounting the virtual file system there then
  fails, although no operation of any file system does.
\<close>

theorem partition_named_proc_panics:
  assumes "vfs_never_fails V" "find_root_filesystem mk ps root = Some (fs0, i)"
    "j < length ps" "j \<noteq> i" "supported (ps ! j)" "mk (ps ! j) = Inr fs" "part_name (ps ! j) = ''proc''"
  shows "init_rootfs_with_partitions V mk ramfs procfs sysfs ps root w = Panic ''Failed to mount virtual filesystems''"
proof -
  have path: "mount_path_of (ps ! j) = ''/proc''"
    using assms(7) by (simp add: mount_path_of_def to_lowercase_def char_lower_def starts_with_def)
  obtain r w1 where r: "mount_additional_partitions V mk (Some i) ps (RootDirectory_new fs0) w = (r, w1)" by (rule prod.exhaust)
  then have "root_contains ''/proc'' r"
    using mount_rest_at[OF assms(1,3), of "Some i" 0 mk fs "CHR ''p''" "''roc''"] assms(4-6) path
    by (simp add: mount_additional_partitions_def) (metis fst_conv)
  then have "mount V ''/proc'' procfs r w1 = (Inl InvalidInput, r, w1)" by (simp add: mount_def starts_with_def)
  then show ?thesis using assms(2) r by (simp add: init_rootfs_with_partitions_def mount_virtual_fs_def)
qed

theorem partition_named_proc_panics_witness:
  "init_rootfs_with_partitions toy_vfs (\<lambda>p. Inr 7) 9 1 2 [toy_part ''root'' (Some Ext4), toy_part ''proc'' (Some Fat)] None () =
     Panic ''Failed to mount virtual filesystems''"
proof -
  have "vfs_never_fails toy_vfs" by (simp add: vfs_never_fails_def toy_vfs_def)
  then show ?thesis
    using partition_named_proc_panics[of toy_vfs "\<lambda>p. Inr 7" "[toy_part ''root'' (Some Ext4), toy_part ''proc'' (Some Fat)]"
        None 7 0 1 7 9 1 2 "()"]
    by (simp add: find_root_filesystem_def find_first_supported_partition_def toy_part_def supported_def)
qed

end
