(* ===== verification/Axfs_Fops.thy ===== *)
theory Axfs_Fops
  imports Axfs_Root Axfs_Dev
begin

text \<open>
  Open files and directories, \<^verbatim>\<open>modules/axfs/src/fops.rs\<close>, and the iterator over a directory of
  \<^verbatim>\<open>modules/axfs/src/api/dir.rs\<close>.

  The rest of the node trait of \<^verbatim>\<open>axfs_vfs\<close> and the containment test of \<^verbatim>\<open>cap_access\<close> are the fields
  of the record \<open>fops_env\<close>; reading may change the state \<open>'w\<close> of all files too. A handle that goes
  out of scope releases its node (\<open>file_drop\<close>, \<open>dir_drop\<close>).
\<close>

section \<open>Rights and options\<close>

datatype Cap = CapRead | CapWrite | CapExecute

record ('fs, 'n, 'w) fops_env =
  fe_vfs :: "('fs, 'n, 'w) vfs"
  node_open :: "'n \<Rightarrow> 'w \<Rightarrow> unit ax_result \<times> 'w"
  node_release :: "'n \<Rightarrow> 'w \<Rightarrow> 'w"
  node_truncate :: "'n \<Rightarrow> u64 \<Rightarrow> 'w \<Rightarrow> unit ax_result \<times> 'w"
  node_read_at :: "'n \<Rightarrow> u64 \<Rightarrow> nat \<Rightarrow> 'w \<Rightarrow> u8 list ax_result \<times> 'w"
  node_write_at :: "'n \<Rightarrow> u64 \<Rightarrow> u8 list \<Rightarrow> 'w \<Rightarrow> nat ax_result \<times> 'w"
  node_fsync :: "'n \<Rightarrow> 'w \<Rightarrow> unit ax_result \<times> 'w"
  cap_contains :: "Cap set \<Rightarrow> Cap set \<Rightarrow> bool"
  dirent_default :: "string \<times> VfsNodeType"

text \<open>What \<^verbatim>\<open>cap_access\<close> documents: rights contain others if they are a superset.\<close>

definition cap_laws :: "('fs, 'n, 'w) fops_env \<Rightarrow> bool" where
  "cap_laws E = (\<forall>a b. cap_contains E a b \<longleftrightarrow> b \<subseteq> a)"

record OpenOptions =
  o_read :: bool
  o_write :: bool
  o_append :: bool
  o_truncate :: bool
  o_create :: bool
  o_create_new :: bool
  o_custom_flags :: "32 word"
  o_mode :: u32

definition OpenOptions_new :: OpenOptions where
  "OpenOptions_new = \<lparr>o_read = False, o_write = False, o_append = False, o_truncate = False, o_create = False,
     o_create_new = False, o_custom_flags = 0, o_mode = 0x1B6\<rparr>"

definition is_valid :: "OpenOptions \<Rightarrow> bool" where
  "is_valid opts =
     (if \<not> o_read opts \<and> \<not> o_write opts \<and> \<not> o_append opts then False
      else if o_append opts then \<not> (o_truncate opts \<and> \<not> o_create_new opts)
      else if o_write opts then True
      else \<not> (o_truncate opts \<or> o_create opts \<or> o_create_new opts))"

definition opts_cap :: "OpenOptions \<Rightarrow> Cap set" where
  "opts_cap opts =
     (if o_read opts then {CapRead} else {}) \<union> (if o_write opts \<or> o_append opts then {CapWrite} else {})"

definition perm_to_cap :: "node_attr \<Rightarrow> Cap set" where
  "perm_to_cap attr =
     (if owner_readable attr then {CapRead} else {}) \<union> (if owner_writable attr then {CapWrite} else {}) \<union>
     (if owner_executable attr then {CapExecute} else {})"

definition changing :: "OpenOptions \<Rightarrow> bool" where
  "changing opts = (o_create opts \<or> o_create_new opts \<or> o_write opts \<or> o_append opts \<or> o_truncate opts)"

section \<open>Files\<close>

record 'n File =
  f_node :: 'n
  f_cap :: "Cap set"
  is_append :: bool
  f_offset :: u64

definition file_access_node :: "('fs, 'n, 'w) fops_env \<Rightarrow> Cap set \<Rightarrow> 'n File \<Rightarrow> 'n ax_result" where
  "file_access_node E c f = (if cap_contains E (f_cap f) c then Inr (f_node f) else Inl PermissionDenied)"

definition file_open_node ::
    "('fs, 'n, 'w) fops_env \<Rightarrow> ('fs, 'n) root_state \<Rightarrow> 'n option \<Rightarrow> string \<Rightarrow> OpenOptions \<Rightarrow> 'w \<Rightarrow> 'n ax_result \<times> 'w" where
  "file_open_node E g dir path opts w =
     (let node_option = lookup (fe_vfs E) g dir path w
      in if o_create opts \<or> o_create_new opts then
           (case node_option of
              Inr node \<Rightarrow> if o_create_new opts then (Inl AlreadyExists, w) else (Inr node, w)
            | Inl NotFound \<Rightarrow> create_file (fe_vfs E) g dir path w
            | Inl e \<Rightarrow> (Inl e, w))
         else (node_option, w))"

definition file_open_at ::
    "('fs, 'n, 'w) fops_env \<Rightarrow> ('fs, 'n) root_state \<Rightarrow> 'n option \<Rightarrow> string \<Rightarrow> OpenOptions \<Rightarrow> 'w \<Rightarrow> 'n File ax_result \<times> 'w" where
  "file_open_at E g dir path opts w =
     (if \<not> is_valid opts then (Inl InvalidInput, w)
      else case file_open_node E g dir path opts w of
             (Inl e, w1) \<Rightarrow> (Inl e, w1)
           | (Inr node, w1) \<Rightarrow>
      (case node_get_attr (fe_vfs E) node w1 of
             Inl e \<Rightarrow> (Inl e, w1)
           | Inr attr \<Rightarrow>
               if attr_is_dir attr \<and> changing opts then (Inl IsADirectory, w1)
               else if \<not> cap_contains E (perm_to_cap attr) (opts_cap opts) then (Inl PermissionDenied, w1)
               else
      (case node_open E node w1 of
             (Inl e, w2) \<Rightarrow> (Inl e, w2)
           | (Inr _, w2) \<Rightarrow>
      (case (if o_truncate opts then node_truncate E node 0 w2 else (Inr (), w2)) of
             (Inl e, w3) \<Rightarrow> (Inl e, w3)
           | (Inr _, w3) \<Rightarrow>
               (Inr \<lparr>f_node = node, f_cap = opts_cap opts, is_append = o_append opts, f_offset = 0\<rparr>, w3)))))"

definition file_open ::
    "('fs, 'n, 'w) fops_env \<Rightarrow> ('fs, 'n) root_state \<Rightarrow> string \<Rightarrow> OpenOptions \<Rightarrow> 'w \<Rightarrow> 'n File ax_result \<times> 'w" where
  "file_open E g path opts w = file_open_at E g None path opts w"

definition file_truncate :: "('fs, 'n, 'w) fops_env \<Rightarrow> u64 \<Rightarrow> 'n File \<Rightarrow> 'w \<Rightarrow> unit ax_result \<times> 'w" where
  "file_truncate E sz f w =
     (case file_access_node E {CapWrite} f of Inl e \<Rightarrow> (Inl e, w) | Inr node \<Rightarrow> node_truncate E node sz w)"

definition file_read_at :: "('fs, 'n, 'w) fops_env \<Rightarrow> u64 \<Rightarrow> nat \<Rightarrow> 'n File \<Rightarrow> 'w \<Rightarrow> u8 list ax_result \<times> 'w" where
  "file_read_at E off n f w =
     (case file_access_node E {CapRead} f of Inl e \<Rightarrow> (Inl e, w) | Inr node \<Rightarrow> node_read_at E node off n w)"

definition file_read :: "('fs, 'n, 'w) fops_env \<Rightarrow> nat \<Rightarrow> 'n File \<Rightarrow> 'w \<Rightarrow> u8 list ax_result \<times> 'n File \<times> 'w" where
  "file_read E n f w =
     (case file_access_node E {CapRead} f of
        Inl e \<Rightarrow> (Inl e, f, w)
      | Inr node \<Rightarrow>
          (case node_read_at E node (f_offset f) n w of
             (Inl e, w') \<Rightarrow> (Inl e, f, w')
           | (Inr data, w') \<Rightarrow> (Inr data, f\<lparr>f_offset := f_offset f + of_nat (length data)\<rparr>, w')))"

definition file_get_attr :: "('fs, 'n, 'w) fops_env \<Rightarrow> 'n File \<Rightarrow> 'w \<Rightarrow> node_attr ax_result" where
  "file_get_attr E f w =
     (case file_access_node E {} f of Inl e \<Rightarrow> Inl e | Inr node \<Rightarrow> node_get_attr (fe_vfs E) node w)"

definition file_write :: "('fs, 'n, 'w) fops_env \<Rightarrow> u8 list \<Rightarrow> 'n File \<Rightarrow> 'w \<Rightarrow> nat ax_result \<times> 'n File \<times> 'w" where
  "file_write E buf f w =
     (case (if is_append f then map_sum id attr_size (file_get_attr E f w) else Inr (f_offset f)) of
        Inl e \<Rightarrow> (Inl e, f, w)
      | Inr off \<Rightarrow>
          (case file_access_node E {CapWrite} f of
             Inl e \<Rightarrow> (Inl e, f, w)
           | Inr node \<Rightarrow>
               (case node_write_at E node off buf w of
                  (Inl e, w') \<Rightarrow> (Inl e, f, w')
                | (Inr n, w') \<Rightarrow> (Inr n, f\<lparr>f_offset := off + of_nat n\<rparr>, w'))))"

definition file_write_at :: "('fs, 'n, 'w) fops_env \<Rightarrow> u64 \<Rightarrow> u8 list \<Rightarrow> 'n File \<Rightarrow> 'w \<Rightarrow> nat ax_result \<times> 'w" where
  "file_write_at E off buf f w =
     (case file_access_node E {CapWrite} f of Inl e \<Rightarrow> (Inl e, w) | Inr node \<Rightarrow> node_write_at E node off buf w)"

definition file_flush :: "('fs, 'n, 'w) fops_env \<Rightarrow> 'n File \<Rightarrow> 'w \<Rightarrow> unit ax_result \<times> 'w" where
  "file_flush E f w =
     (case file_access_node E {CapWrite} f of Inl e \<Rightarrow> (Inl e, w) | Inr node \<Rightarrow> node_fsync E node w)"

definition file_seek :: "('fs, 'n, 'w) fops_env \<Rightarrow> SeekFrom \<Rightarrow> 'n File \<Rightarrow> 'w \<Rightarrow> u64 ax_result \<times> 'n File" where
  "file_seek E pos f w =
     (case file_get_attr E f w of
        Inl e \<Rightarrow> (Inl e, f)
      | Inr attr \<Rightarrow>
          (case seek_target (f_offset f) (attr_size attr) pos of
             None \<Rightarrow> (Inl InvalidInput, f)
           | Some q \<Rightarrow> (Inr q, f\<lparr>f_offset := q\<rparr>)))"

definition file_drop :: "('fs, 'n, 'w) fops_env \<Rightarrow> 'n File \<Rightarrow> 'w \<Rightarrow> 'w" where
  "file_drop E f w = node_release E (f_node f) w"

section \<open>Directories\<close>

record 'n Directory =
  d_node :: 'n
  d_cap :: "Cap set"
  entry_idx :: nat

definition dir_access_node :: "('fs, 'n, 'w) fops_env \<Rightarrow> Cap set \<Rightarrow> 'n Directory \<Rightarrow> 'n ax_result" where
  "dir_access_node E c d = (if cap_contains E (d_cap d) c then Inr (d_node d) else Inl PermissionDenied)"

definition dir_open_at ::
    "('fs, 'n, 'w) fops_env \<Rightarrow> ('fs, 'n) root_state \<Rightarrow> 'n option \<Rightarrow> string \<Rightarrow> OpenOptions \<Rightarrow> 'w \<Rightarrow> 'n Directory ax_result \<times> 'w" where
  "dir_open_at E g dir path opts w =
     (if \<not> o_read opts then (Inl InvalidInput, w)
      else if changing opts then (Inl InvalidInput, w)
      else case lookup (fe_vfs E) g dir path w of
             Inl e \<Rightarrow> (Inl e, w)
           | Inr node \<Rightarrow>
      (case node_get_attr (fe_vfs E) node w of
             Inl e \<Rightarrow> (Inl e, w)
           | Inr attr \<Rightarrow>
               if \<not> attr_is_dir attr then (Inl NotADirectory, w)
               else if \<not> cap_contains E (perm_to_cap attr) (opts_cap opts) then (Inl PermissionDenied, w)
               else
      (case node_open E node w of
             (Inl e, w1) \<Rightarrow> (Inl e, w1)
           | (Inr _, w1) \<Rightarrow> (Inr \<lparr>d_node = node, d_cap = opts_cap opts, entry_idx = 0\<rparr>, w1))))"

definition dir_open ::
    "('fs, 'n, 'w) fops_env \<Rightarrow> ('fs, 'n) root_state \<Rightarrow> string \<Rightarrow> OpenOptions \<Rightarrow> 'w \<Rightarrow> 'n Directory ax_result \<times> 'w" where
  "dir_open E g path opts w = dir_open_at E g None path opts w"

definition dir_access_at :: "('fs, 'n, 'w) fops_env \<Rightarrow> string \<Rightarrow> 'n Directory \<Rightarrow> 'n option ax_result" where
  "dir_access_at E path d =
     (if starts_with path ''/'' then Inr None else map_sum id Some (dir_access_node E {CapExecute} d))"

definition dir_open_dir_at ::
    "('fs, 'n, 'w) fops_env \<Rightarrow> ('fs, 'n) root_state \<Rightarrow> 'n Directory \<Rightarrow> string \<Rightarrow> OpenOptions \<Rightarrow> 'w \<Rightarrow> 'n Directory ax_result \<times> 'w" where
  "dir_open_dir_at E g d path opts w =
     (case dir_access_at E path d of Inl e \<Rightarrow> (Inl e, w) | Inr dir \<Rightarrow> dir_open_at E g dir path opts w)"

definition dir_open_file_at ::
    "('fs, 'n, 'w) fops_env \<Rightarrow> ('fs, 'n) root_state \<Rightarrow> 'n Directory \<Rightarrow> string \<Rightarrow> OpenOptions \<Rightarrow> 'w \<Rightarrow> 'n File ax_result \<times> 'w" where
  "dir_open_file_at E g d path opts w =
     (case dir_access_at E path d of Inl e \<Rightarrow> (Inl e, w) | Inr dir \<Rightarrow> file_open_at E g dir path opts w)"

definition dir_create_file ::
    "('fs, 'n, 'w) fops_env \<Rightarrow> ('fs, 'n) root_state \<Rightarrow> 'n Directory \<Rightarrow> string \<Rightarrow> 'w \<Rightarrow> 'n ax_result \<times> 'w" where
  "dir_create_file E g d path w =
     (case dir_access_at E path d of Inl e \<Rightarrow> (Inl e, w) | Inr dir \<Rightarrow> create_file (fe_vfs E) g dir path w)"

definition dir_create_dir ::
    "('fs, 'n, 'w) fops_env \<Rightarrow> ('fs, 'n) root_state \<Rightarrow> 'n Directory \<Rightarrow> string \<Rightarrow> 'w \<Rightarrow> unit ax_result \<times> 'w" where
  "dir_create_dir E g d path w =
     (case dir_access_at E path d of Inl e \<Rightarrow> (Inl e, w) | Inr dir \<Rightarrow> create_dir (fe_vfs E) g dir path w)"

definition dir_remove_file ::
    "('fs, 'n, 'w) fops_env \<Rightarrow> ('fs, 'n) root_state \<Rightarrow> 'n Directory \<Rightarrow> string \<Rightarrow> 'w \<Rightarrow> unit ax_result \<times> 'w" where
  "dir_remove_file E g d path w =
     (case dir_access_at E path d of Inl e \<Rightarrow> (Inl e, w) | Inr dir \<Rightarrow> remove_file (fe_vfs E) g dir path w)"

definition dir_remove_dir ::
    "('fs, 'n, 'w) fops_env \<Rightarrow> ('fs, 'n) root_state \<Rightarrow> 'n Directory \<Rightarrow> string \<Rightarrow> 'w \<Rightarrow> unit ax_result \<times> 'w" where
  "dir_remove_dir E g d path w =
     (case dir_access_at E path d of Inl e \<Rightarrow> (Inl e, w) | Inr dir \<Rightarrow> remove_dir (fe_vfs E) g dir path w)"

text \<open>The entries read are the front of the caller's buffer of \<open>n\<close> entries.\<close>

definition dir_read_dir ::
    "('fs, 'n, 'w) fops_env \<Rightarrow> nat \<Rightarrow> 'n Directory \<Rightarrow> 'w \<Rightarrow> (string \<times> VfsNodeType) list ax_result \<times> 'n Directory" where
  "dir_read_dir E n d w =
     (case dir_access_node E {CapRead} d of
        Inl e \<Rightarrow> (Inl e, d)
      | Inr node \<Rightarrow>
          (case node_read_dir (fe_vfs E) node (entry_idx d) n w of
             Inl e \<Rightarrow> (Inl e, d)
           | Inr es \<Rightarrow> (Inr es, d\<lparr>entry_idx := entry_idx d + length es\<rparr>)))"

definition dir_drop :: "('fs, 'n, 'w) fops_env \<Rightarrow> 'n Directory \<Rightarrow> 'w \<Rightarrow> 'w" where
  "dir_drop E d w = node_release E (d_node d) w"

section \<open>Iterating over a directory\<close>

record DirEntry =
  dir_path :: string
  entry_name :: string
  entry_type :: VfsNodeType

record 'n ReadDir =
  rd_path :: string
  rd_inner :: "'n Directory"
  buf_pos :: nat
  buf_end :: nat
  end_of_stream :: bool
  dirent_buf :: "(string \<times> VfsNodeType) list"

definition ReadDir_new ::
    "('fs, 'n, 'w) fops_env \<Rightarrow> ('fs, 'n) root_state \<Rightarrow> string \<Rightarrow> 'w \<Rightarrow> 'n ReadDir ax_result \<times> 'w" where
  "ReadDir_new E g path w =
     (case dir_open E g path (OpenOptions_new\<lparr>o_read := True\<rparr>) w of
        (Inl e, w') \<Rightarrow> (Inl e, w')
      | (Inr d, w') \<Rightarrow>
          (Inr \<lparr>rd_path = path, rd_inner = d, buf_pos = 0, buf_end = 0, end_of_stream = False,
             dirent_buf = replicate 31 (dirent_default E)\<rparr>, w'))"

text \<open>
  The loop of \<^verbatim>\<open>ReadDir::next\<close>. It goes on as long as it meets \<^verbatim>\<open>.\<close> or \<^verbatim>\<open>..\<close>, which a file system could
  return for ever: the value is then \<open>None\<close>.
\<close>

partial_function (option) read_dir_loop ::
    "('fs, 'n, 'w) fops_env \<Rightarrow> 'n ReadDir \<Rightarrow> 'w \<Rightarrow> (DirEntry ax_result option \<times> 'n ReadDir) option" where
  "read_dir_loop E rd w =
     (let (stop, rd1) =
        (if buf_pos rd \<ge> buf_end rd then
           (case dir_read_dir E 31 (rd_inner rd) w of
              (Inl e, d) \<Rightarrow> (Some (Some (Inl e)), rd\<lparr>rd_inner := d, end_of_stream := True\<rparr>)
            | (Inr es, d) \<Rightarrow>
                if es = [] then (Some None, rd\<lparr>rd_inner := d, end_of_stream := True\<rparr>)
                else (None, rd\<lparr>rd_inner := d, buf_pos := 0, buf_end := length es,
                        dirent_buf := es @ drop (length es) (dirent_buf rd)\<rparr>))
         else (None, rd))
      in case stop of
           Some r \<Rightarrow> Some (r, rd1)
         | None \<Rightarrow>
             (let entry = dirent_buf rd1 ! buf_pos rd1; rd2 = rd1\<lparr>buf_pos := buf_pos rd1 + 1\<rparr>
              in if fst entry = ''.'' \<or> fst entry = ''..'' then read_dir_loop E rd2 w
                 else Some (Some (Inr \<lparr>dir_path = rd_path rd2, entry_name = fst entry, entry_type = snd entry\<rparr>), rd2)))"

definition ReadDir_next ::
    "('fs, 'n, 'w) fops_env \<Rightarrow> 'n ReadDir \<Rightarrow> 'w \<Rightarrow> (DirEntry ax_result option \<times> 'n ReadDir) option" where
  "ReadDir_next E rd w = (if end_of_stream rd then Some (None, rd) else read_dir_loop E rd w)"

definition DirEntry_path :: "DirEntry \<Rightarrow> string" where
  "DirEntry_path e = trim_end_matches (\<lambda>c. c = CHR ''/'') (dir_path e) @ ''/'' @ entry_name e"

definition DirBuilder_create ::
    "('fs, 'n, 'w) vfs \<Rightarrow> ('fs, 'n) root_state \<Rightarrow> bool \<Rightarrow> string \<Rightarrow> 'w \<Rightarrow> unit ax_result \<times> 'w" where
  "DirBuilder_create V g recursive path w =
     (if recursive then (Inl Unsupported, w) else create_dir V g None path w)"

section \<open>Shorthands for opening\<close>

definition api_file_open ::
    "('fs, 'n, 'w) fops_env \<Rightarrow> ('fs, 'n) root_state \<Rightarrow> string \<Rightarrow> 'w \<Rightarrow> 'n File ax_result \<times> 'w" where
  "api_file_open E g path w = file_open E g path (OpenOptions_new\<lparr>o_read := True\<rparr>) w"

definition api_file_create ::
    "('fs, 'n, 'w) fops_env \<Rightarrow> ('fs, 'n) root_state \<Rightarrow> string \<Rightarrow> 'w \<Rightarrow> 'n File ax_result \<times> 'w" where
  "api_file_create E g path w =
     file_open E g path (OpenOptions_new\<lparr>o_write := True, o_create := True, o_truncate := True\<rparr>) w"

definition api_file_create_new ::
    "('fs, 'n, 'w) fops_env \<Rightarrow> ('fs, 'n) root_state \<Rightarrow> string \<Rightarrow> 'w \<Rightarrow> 'n File ax_result \<times> 'w" where
  "api_file_create_new E g path w =
     file_open E g path (OpenOptions_new\<lparr>o_read := True, o_write := True, o_create_new := True\<rparr>) w"

text \<open>\<^verbatim>\<open>metadata\<close>: the handle is dropped at the end.\<close>

definition api_metadata ::
    "('fs, 'n, 'w) fops_env \<Rightarrow> ('fs, 'n) root_state \<Rightarrow> string \<Rightarrow> 'w \<Rightarrow> node_attr ax_result \<times> 'w" where
  "api_metadata E g path w =
     (case api_file_open E g path w of
        (Inl e, w') \<Rightarrow> (Inl e, w')
      | (Inr f, w') \<Rightarrow> (file_get_attr E f w', file_drop E f w'))"

section \<open>A handle does only what it was opened for\<close>

datatype file_op = OpRead nat | OpReadAt u64 nat | OpWrite "u8 list" | OpWriteAt u64 "u8 list"
  | OpTruncate u64 | OpFlush | OpSeek SeekFrom

fun op_needs :: "file_op \<Rightarrow> Cap set" where
  "op_needs (OpRead n) = {CapRead}"
| "op_needs (OpReadAt off n) = {CapRead}"
| "op_needs (OpWrite buf) = {CapWrite}"
| "op_needs (OpWriteAt off buf) = {CapWrite}"
| "op_needs (OpTruncate sz) = {CapWrite}"
| "op_needs OpFlush = {CapWrite}"
| "op_needs (OpSeek pos) = {}"

text \<open>An operation on a handle: the error it returns, if any, the handle and the files afterwards.\<close>

fun file_step :: "('fs, 'n, 'w) fops_env \<Rightarrow> file_op \<Rightarrow> 'n File \<Rightarrow> 'w \<Rightarrow> unit ax_result \<times> 'n File \<times> 'w" where
  "file_step E (OpRead n) f w = apfst (map_sum id (\<lambda>_. ())) (file_read E n f w)"
| "file_step E (OpReadAt off n) f w = (case file_read_at E off n f w of (r, w') \<Rightarrow> (map_sum id (\<lambda>_. ()) r, f, w'))"
| "file_step E (OpWrite buf) f w = apfst (map_sum id (\<lambda>_. ())) (file_write E buf f w)"
| "file_step E (OpWriteAt off buf) f w = (case file_write_at E off buf f w of (r, w') \<Rightarrow> (map_sum id (\<lambda>_. ()) r, f, w'))"
| "file_step E (OpTruncate sz) f w = (case file_truncate E sz f w of (r, w') \<Rightarrow> (r, f, w'))"
| "file_step E OpFlush f w = (case file_flush E f w of (r, w') \<Rightarrow> (r, f, w'))"
| "file_step E (OpSeek pos) f w = (case file_seek E pos f w of (r, f') \<Rightarrow> (map_sum id (\<lambda>_. ()) r, f', w))"

fun file_run :: "('fs, 'n, 'w) fops_env \<Rightarrow> file_op list \<Rightarrow> 'n File \<Rightarrow> 'w \<Rightarrow> unit ax_result list \<times> 'n File \<times> 'w" where
  "file_run E [] f w = ([], f, w)"
| "file_run E (x # xs) f w =
     (let (r, f1, w1) = file_step E x f w; (rs, f2, w2) = file_run E xs f1 w1 in (r # rs, f2, w2))"

definition handle_ok :: "OpenOptions \<Rightarrow> 'n \<Rightarrow> 'n File \<Rightarrow> bool" where
  "handle_ok opts n f = (f_node f = n \<and> f_cap f = opts_cap opts \<and> is_append f = o_append opts)"

lemmas file_op_defs = file_read_def file_read_at_def file_write_def file_write_at_def file_truncate_def
  file_flush_def file_seek_def file_get_attr_def file_access_node_def

lemma file_step_ok: "handle_ok opts n f \<Longrightarrow> handle_ok opts n (fst (snd (file_step E x f w)))"
  by (cases x) (auto simp: handle_ok_def file_op_defs split: sum.splits prod.splits option.splits)

lemma file_step_denied:
  assumes "cap_laws E" "handle_ok opts n f" "\<not> op_needs x \<subseteq> opts_cap opts"
  shows "file_step E x f w = (Inl PermissionDenied, f, w)"
proof -
  have c: "cap_contains E a b \<longleftrightarrow> b \<subseteq> a" for a b using assms(1) by (simp add: cap_laws_def)
  have f: "f_cap f = opts_cap opts" using assms(2) by (simp add: handle_ok_def)
  have "\<not> is_append f" if "op_needs x = {CapWrite}" using that assms(2,3) by (auto simp: handle_ok_def opts_cap_def)
  then show ?thesis using assms(3) by (cases x) (simp_all add: c f file_op_defs)
qed

lemma file_step_reads:
  assumes "\<forall>n off k w. P w \<longrightarrow> P (snd (node_read_at E n off k w))" "CapWrite \<notin> op_needs x" "P w"
  shows "P (snd (snd (file_step E x f w)))"
proof (cases x)
  case (OpRead k)
  obtain r w1 where r: "node_read_at E (f_node f) (f_offset f) k w = (r, w1)" by (rule prod.exhaust)
  then have "P w1" using assms(1,3) by (metis snd_conv)
  then show ?thesis using OpRead r assms(3) by (cases r) (simp_all add: file_read_def file_access_node_def)
next
  case (OpReadAt off k)
  obtain r w1 where r: "node_read_at E (f_node f) off k w = (r, w1)" by (rule prod.exhaust)
  then have "P w1" using assms(1,3) by (metis snd_conv)
  then show ?thesis using OpReadAt r assms(3) by (simp add: file_read_at_def file_access_node_def)
next
  case (OpSeek pos)
  then show ?thesis using assms(3) by (simp split: prod.splits)
qed (use assms(2) in simp_all)

lemma file_run_ok:
  assumes "cap_laws E" "handle_ok opts n f" "file_run E xs f w = (rs, f', w')"
  shows "handle_ok opts n f' \<and> length rs = length xs \<and>
    (\<forall>i < length xs. op_needs (xs ! i) \<subseteq> opts_cap opts \<or> rs ! i = Inl PermissionDenied)"
  using assms(2,3)
proof (induction xs arbitrary: f w rs)
  case (Cons x xs)
  obtain r f1 w1 where s: "file_step E x f w = (r, f1, w1)" by (metis prod.exhaust)
  obtain rs1 f2 w2 where t: "file_run E xs f1 w1 = (rs1, f2, w2)" by (metis prod.exhaust)
  have eq: "rs = r # rs1" "f' = f2" "w' = w2" using Cons.prems(2) s t by simp_all
  have "handle_ok opts n f1" using file_step_ok[OF Cons.prems(1), of E x w] s by simp
  from Cons.IH[OF this] t eq have IH: "handle_ok opts n f' \<and> length rs1 = length xs \<and>
    (\<forall>i < length xs. op_needs (xs ! i) \<subseteq> opts_cap opts \<or> rs1 ! i = Inl PermissionDenied)" by simp
  moreover have "op_needs x \<subseteq> opts_cap opts \<or> r = Inl PermissionDenied"
    using file_step_denied[OF assms(1) Cons.prems(1), of x w] s by auto
  ultimately show ?case using eq(1) by (auto simp: nth_Cons split: nat.splits)
qed simp

lemma file_run_reads:
  assumes "cap_laws E" "handle_ok opts n f" "CapWrite \<notin> opts_cap opts"
    "\<forall>n off k w. P w \<longrightarrow> P (snd (node_read_at E n off k w))" "P w"
  shows "P (snd (snd (file_run E xs f w)))"
  using assms(2,5)
proof (induction xs arbitrary: f w)
  case (Cons x xs)
  obtain r f1 w1 where s: "file_step E x f w = (r, f1, w1)" by (metis prod.exhaust)
  have "P w1"
  proof (cases "CapWrite \<in> op_needs x")
    case True
    then show ?thesis using file_step_denied[OF assms(1) Cons.prems(1), of x w] assms(3) s Cons.prems(2) by auto
  next
    case False
    then show ?thesis using file_step_reads[OF assms(4) _ Cons.prems(2), of x f] s by simp
  qed
  moreover have "handle_ok opts n f1" using file_step_ok[OF Cons.prems(1), of E x w] s by simp
  ultimately have "P (snd (snd (file_run E xs f1 w1)))" by (intro Cons.IH)
  then show ?case using s by (auto simp: Let_def split: prod.splits)
qed simp

lemma file_open_at_Done:
  assumes "file_open_at E g dir path opts w = (Inr f, w')"
  shows "is_valid opts \<and> handle_ok opts (f_node f) f \<and> f_offset f = 0 \<and>
    (\<exists>attr. node_get_attr (fe_vfs E) (f_node f) (snd (file_open_node E g dir path opts w)) = Inr attr \<and>
       cap_contains E (perm_to_cap attr) (opts_cap opts) \<and> \<not> (attr_is_dir attr \<and> changing opts))"
  using assms by (auto simp: file_open_at_def handle_ok_def split: if_splits sum.splits prod.splits)

text \<open>
  \<^bold>\<open>C34\<close> (type). What a file handle is good for is fixed when the file is opened. The rights asked for
  are among those that the attributes of the file give its owner. Whatever operations follow, in any
  order and with any answers of the file system, the handle keeps its node, its rights and its
  append flag, and an operation that needs a right the handle does not have answers
  \<^verbatim>\<open>PermissionDenied\<close>. A handle opened with neither \<^verbatim>\<open>write\<close> nor \<^verbatim>\<open>append\<close> keeps everything about the
  files that reading alone keeps.
\<close>

theorem file_handle_rights:
  assumes "cap_laws E" "file_open_at E g dir path opts w = (Inr f, w1)" "file_run E xs f w1 = (rs, f', w2)"
  shows "(\<exists>attr. node_get_attr (fe_vfs E) (f_node f) (snd (file_open_node E g dir path opts w)) = Inr attr \<and>
       f_cap f \<subseteq> perm_to_cap attr) \<and>
    f_node f' = f_node f \<and> f_cap f' = opts_cap opts \<and> is_append f' = o_append opts \<and> length rs = length xs \<and>
    (\<forall>i < length xs. op_needs (xs ! i) \<subseteq> opts_cap opts \<or> rs ! i = Inl PermissionDenied) \<and>
    (\<not> o_write opts \<and> \<not> o_append opts \<longrightarrow>
       (\<forall>P. (\<forall>n off k w. P w \<longrightarrow> P (snd (node_read_at E n off k w))) \<longrightarrow> P w1 \<longrightarrow> P w2))"
proof -
  note o = file_open_at_Done[OF assms(2)]
  then have ok: "handle_ok opts (f_node f) f" by blast
  have "\<exists>attr. node_get_attr (fe_vfs E) (f_node f) (snd (file_open_node E g dir path opts w)) = Inr attr \<and>
       f_cap f \<subseteq> perm_to_cap attr"
    using o assms(1) by (auto simp: cap_laws_def handle_ok_def)
  moreover have "P w2" if "\<not> o_write opts" "\<not> o_append opts" "\<forall>n off k w. P w \<longrightarrow> P (snd (node_read_at E n off k w))" "P w1" for P
    using file_run_reads[OF assms(1) ok _ that(3,4), of xs] assms(3) that(1,2) by (simp add: opts_cap_def)
  ultimately show ?thesis using file_run_ok[OF assms(1) ok assms(3)] unfolding handle_ok_def by blast
qed

section \<open>Iterating over a directory visits every entry\<close>

text \<open>All entries that the iterator yields until it ends; \<open>None\<close> if it never ends.\<close>

partial_function (option) read_dir_collect ::
    "('fs, 'n, 'w) fops_env \<Rightarrow> 'n ReadDir \<Rightarrow> 'w \<Rightarrow> DirEntry ax_result list option" where
  "read_dir_collect E rd w =
     Option.bind (ReadDir_next E rd w)
       (\<lambda>(r, rd1). case r of
          None \<Rightarrow> Some []
        | Some x \<Rightarrow> Option.bind (read_dir_collect E rd1 w) (\<lambda>rs. Some (x # rs)))"

definition dots :: "string \<times> VfsNodeType \<Rightarrow> bool" where
  "dots e = (fst e = ''.'' \<or> fst e = ''..'')"

text \<open>What the node trait documents of reading a directory with entries \<open>es\<close>.\<close>

definition lists_dir :: "('fs, 'n, 'w) fops_env \<Rightarrow> 'n \<Rightarrow> 'w \<Rightarrow> (string \<times> VfsNodeType) list \<Rightarrow> bool" where
  "lists_dir E n w es = (\<forall>start k. node_read_dir (fe_vfs E) n start k w = Inr (take k (drop start es)))"

definition rd_ok :: "'n \<Rightarrow> 'n ReadDir \<Rightarrow> bool" where
  "rd_ok n rd = (d_node (rd_inner rd) = n \<and> CapRead \<in> d_cap (rd_inner rd) \<and> \<not> end_of_stream rd \<and>
     buf_end rd \<le> length (dirent_buf rd))"

definition rd_rest :: "(string \<times> VfsNodeType) list \<Rightarrow> 'n ReadDir \<Rightarrow> (string \<times> VfsNodeType) list" where
  "rd_rest es rd = drop (buf_pos rd) (take (buf_end rd) (dirent_buf rd)) @ drop (entry_idx (rd_inner rd)) es"

definition entry_of :: "string \<Rightarrow> string \<times> VfsNodeType \<Rightarrow> DirEntry" where
  "entry_of path e = \<lparr>dir_path = path, entry_name = fst e, entry_type = snd e\<rparr>"

lemma read_dir_fetch:
  assumes "cap_laws E" "lists_dir E n w es" "rd_ok n rd"
  shows "rd_rest es rd = [] \<Longrightarrow> \<exists>rd'. read_dir_loop E rd w = Some (None, rd')"
    and "rd_rest es rd = x # xs \<Longrightarrow> \<exists>rd'. rd_ok n rd' \<and> rd_rest es rd' = xs \<and> rd_path rd' = rd_path rd \<and>
      read_dir_loop E rd w = (if dots x then read_dir_loop E rd' w else Some (Some (Inr (entry_of (rd_path rd) x)), rd'))"
proof -
  have acc: "dir_read_dir E 31 (rd_inner rd) w = (let es' = take 31 (drop (entry_idx (rd_inner rd)) es)
      in (Inr es', (rd_inner rd)\<lparr>entry_idx := entry_idx (rd_inner rd) + length es'\<rparr>))"
    using assms by (simp add: dir_read_dir_def dir_access_node_def cap_laws_def lists_dir_def rd_ok_def Let_def)
  have len: "buf_end rd \<le> length (dirent_buf rd)" and node: "d_node (rd_inner rd) = n" "CapRead \<in> d_cap (rd_inner rd)"
    "\<not> end_of_stream rd" using assms(3) by (simp_all add: rd_ok_def)
  show "\<exists>rd'. read_dir_loop E rd w = Some (None, rd')" if "rd_rest es rd = []"
  proof -
    have "buf_pos rd \<ge> buf_end rd" "drop (entry_idx (rd_inner rd)) es = []"
      using that len by (auto simp: rd_rest_def)
    then show ?thesis by (subst read_dir_loop.simps) (simp add: acc Let_def)
  qed
  assume rest: "rd_rest es rd = x # xs"
  show "\<exists>rd'. rd_ok n rd' \<and> rd_rest es rd' = xs \<and> rd_path rd' = rd_path rd \<and>
      read_dir_loop E rd w = (if dots x then read_dir_loop E rd' w else Some (Some (Inr (entry_of (rd_path rd) x)), rd'))"
  proof (cases "buf_pos rd < buf_end rd")
    case True
    let ?rd = "rd\<lparr>buf_pos := buf_pos rd + 1\<rparr>"
    have "drop (buf_pos rd) (take (buf_end rd) (dirent_buf rd)) =
        dirent_buf rd ! buf_pos rd # drop (buf_pos rd + 1) (take (buf_end rd) (dirent_buf rd))"
      using True len by (simp add: Cons_nth_drop_Suc[symmetric])
    then have "x = dirent_buf rd ! buf_pos rd" "rd_rest es ?rd = xs" using rest by (simp_all add: rd_rest_def)
    moreover have "rd_ok n ?rd" using assms(3) by (simp add: rd_ok_def)
    ultimately show ?thesis using True
      by (intro exI[of _ ?rd]) (subst read_dir_loop.simps, simp add: Let_def dots_def entry_of_def)
  next
    case False
    let ?es = "take 31 (drop (entry_idx (rd_inner rd)) es)"
    let ?d = "(rd_inner rd)\<lparr>entry_idx := entry_idx (rd_inner rd) + length ?es\<rparr>"
    let ?rd = "rd\<lparr>rd_inner := ?d, buf_end := length ?es, dirent_buf := ?es @ drop (length ?es) (dirent_buf rd), buf_pos := 1\<rparr>"
    have r: "drop (entry_idx (rd_inner rd)) es = x # xs" using rest False by (simp add: rd_rest_def)
    then have e: "?es = x # take 30 xs" by simp
    have "drop (entry_idx (rd_inner rd) + length ?es) es = drop (length ?es) (x # xs)"
      using r by (metis add.commute drop_drop)
    then have "drop (entry_idx (rd_inner rd) + length ?es) es = drop 30 xs"
      unfolding e by (cases "length xs \<le> 30") simp_all
    moreover have "take (min (length xs) 30) xs = take 30 xs" by (simp add: min_def)
    ultimately have "rd_rest es ?rd = xs" using e by (simp add: rd_rest_def)
    moreover have "rd_ok n ?rd" using node by (simp add: rd_ok_def)
    ultimately show ?thesis using False e
      by (intro exI[of _ ?rd]) (subst read_dir_loop.simps, simp add: acc Let_def dots_def entry_of_def)
  qed
qed

lemma read_dir_loop_rest:
  assumes "cap_laws E" "lists_dir E n w es" "rd_ok n rd" "filter (\<lambda>e. \<not> dots e) (rd_rest es rd) = ys"
  shows "ys = [] \<Longrightarrow> \<exists>rd'. read_dir_loop E rd w = Some (None, rd')"
    and "ys = y # zs \<Longrightarrow> \<exists>rd'. rd_ok n rd' \<and> filter (\<lambda>e. \<not> dots e) (rd_rest es rd') = zs \<and> rd_path rd' = rd_path rd \<and>
      read_dir_loop E rd w = Some (Some (Inr (entry_of (rd_path rd) y)), rd')"
proof -
  have "(ys = [] \<longrightarrow> (\<exists>rd'. read_dir_loop E rd w = Some (None, rd'))) \<and>
    (ys = y # zs \<longrightarrow> (\<exists>rd'. rd_ok n rd' \<and> filter (\<lambda>e. \<not> dots e) (rd_rest es rd') = zs \<and> rd_path rd' = rd_path rd \<and>
      read_dir_loop E rd w = Some (Some (Inr (entry_of (rd_path rd) y)), rd')))"
    using assms(3,4)
  proof (induction "rd_rest es rd" arbitrary: rd)
    case Nil
    then show ?case using read_dir_fetch(1)[OF assms(1,2) Nil(2)] by simp
  next
    case (Cons x xs)
    obtain rd' where rd': "rd_ok n rd'" "rd_rest es rd' = xs" "rd_path rd' = rd_path rd"
        "read_dir_loop E rd w = (if dots x then read_dir_loop E rd' w else Some (Some (Inr (entry_of (rd_path rd) x)), rd'))"
      using read_dir_fetch(2)[OF assms(1,2) Cons(3) Cons(2)[symmetric]] by blast
    have ys: "filter (\<lambda>e. \<not> dots e) (x # xs) = ys" using Cons(2,4) by simp
    show ?case
    proof (cases "dots x")
      case True
      then have "filter (\<lambda>e. \<not> dots e) (rd_rest es rd') = ys" using ys rd'(2) by simp
      from Cons(1)[OF rd'(2)[symmetric] rd'(1) this] True rd'(3,4) show ?thesis by simp
    next
      case False
      then show ?thesis using ys rd' by auto
    qed
  qed
  then show "ys = [] \<Longrightarrow> \<exists>rd'. read_dir_loop E rd w = Some (None, rd')"
    and "ys = y # zs \<Longrightarrow> \<exists>rd'. rd_ok n rd' \<and> filter (\<lambda>e. \<not> dots e) (rd_rest es rd') = zs \<and> rd_path rd' = rd_path rd \<and>
      read_dir_loop E rd w = Some (Some (Inr (entry_of (rd_path rd) y)), rd')" by blast+
qed

lemma read_dir_collect_rest:
  assumes "cap_laws E" "lists_dir E n w es" "rd_ok n rd"
  shows "read_dir_collect E rd w = Some (map (\<lambda>e. Inr (entry_of (rd_path rd) e)) (filter (\<lambda>e. \<not> dots e) (rd_rest es rd)))"
  using assms(3)
proof (induction "filter (\<lambda>e. \<not> dots e) (rd_rest es rd)" arbitrary: rd)
  case Nil
  then obtain rd' where "read_dir_loop E rd w = Some (None, rd')"
    using read_dir_loop_rest(1)[OF assms(1,2) Nil(2)] by force
  then show ?case using Nil
    by (subst read_dir_collect.simps) (simp add: ReadDir_next_def rd_ok_def)
next
  case (Cons y zs)
  obtain rd' where rd': "rd_ok n rd'" "filter (\<lambda>e. \<not> dots e) (rd_rest es rd') = zs" "rd_path rd' = rd_path rd"
      "read_dir_loop E rd w = Some (Some (Inr (entry_of (rd_path rd) y)), rd')"
    using read_dir_loop_rest(2)[OF assms(1,2) Cons(3) Cons(2)[symmetric] refl] by blast
  have "read_dir_collect E rd' w = Some (map (\<lambda>e. Inr (entry_of (rd_path rd) e)) zs)"
    using Cons(1)[OF rd'(2)[symmetric] rd'(1)] rd'(2,3) by simp
  then show ?case using rd'(4) Cons(2)[symmetric] Cons(3)
    by (subst read_dir_collect.simps) (simp add: ReadDir_next_def rd_ok_def)
qed

lemma dir_open_at_Done:
  assumes "dir_open_at E g dir path opts w = (Inr d, w')"
  shows "d_cap d = opts_cap opts \<and> entry_idx d = 0 \<and> o_read opts"
  using assms by (auto simp: dir_open_at_def split: if_splits sum.splits prod.splits)

text \<open>
  Iterating over a directory that was opened ends, however many entries it has
  and however they fall into the batches of 31: the iterator yields every entry except \<^verbatim>\<open>.\<close> and
  \<^verbatim>\<open>..\<close>, once, in the order of the file system, each with the path that was opened, and no error.
\<close>

theorem read_dir_visits_all:
  assumes "cap_laws E" "ReadDir_new E g path w = (Inr rd, w1)" "lists_dir E (d_node (rd_inner rd)) w1 es"
  shows "read_dir_collect E rd w1 = Some (map (\<lambda>e. Inr (entry_of path e)) (filter (\<lambda>e. \<not> dots e) es))"
proof -
  obtain d where d: "dir_open_at E g None path (OpenOptions_new\<lparr>o_read := True\<rparr>) w = (Inr d, w1)" and
    rd: "rd = \<lparr>rd_path = path, rd_inner = d, buf_pos = 0, buf_end = 0, end_of_stream = False,
             dirent_buf = replicate 31 (dirent_default E)\<rparr>"
    using assms(2) by (auto simp: ReadDir_new_def dir_open_def split: sum.splits prod.splits)
  have "rd_ok (d_node d) rd" "rd_rest es rd = es" using dir_open_at_Done[OF d] rd
    by (auto simp: rd_ok_def rd_rest_def opts_cap_def)
  with read_dir_collect_rest[OF assms(1,3), of rd] rd show ?thesis by simp
qed

section \<open>Directory handles cannot be used as a starting point\<close>

text \<open>
  Paths relative to an open directory need the right to execute on its handle, and no
  options give a handle that right. So every operation on a relative path through a directory
  handle, however it was opened and whatever its permissions, answers \<^verbatim>\<open>PermissionDenied\<close> and changes
  nothing.
\<close>

theorem relative_access_denied:
  assumes "cap_laws E" "dir_open_at E g dir path opts w = (Inr d, w1)" "\<not> starts_with p ''/''"
  shows "dir_open_dir_at E g' d p opts' w2 = (Inl PermissionDenied, w2) \<and>
    dir_open_file_at E g' d p opts' w2 = (Inl PermissionDenied, w2) \<and>
    dir_create_file E g' d p w2 = (Inl PermissionDenied, w2) \<and> dir_create_dir E g' d p w2 = (Inl PermissionDenied, w2) \<and>
    dir_remove_file E g' d p w2 = (Inl PermissionDenied, w2) \<and> dir_remove_dir E g' d p w2 = (Inl PermissionDenied, w2)"
proof -
  have "CapExecute \<notin> d_cap d" using dir_open_at_Done[OF assms(2)] by (simp add: opts_cap_def)
  then have "dir_access_at E p d = Inl PermissionDenied"
    using assms(1,3) by (simp add: dir_access_at_def dir_access_node_def cap_laws_def)
  then show ?thesis
    by (simp add: dir_open_dir_at_def dir_open_file_at_def dir_create_file_def dir_create_dir_def dir_remove_file_def
        dir_remove_dir_def)
qed

section \<open>Concrete runs\<close>

text \<open>One file system with a directory, node 0, and a file \<^verbatim>\<open>f\<close>, node 1, whose contents are the state.\<close>

definition one_file_vfs :: "(unit, nat, u8 list) vfs" where
  "one_file_vfs = \<lparr>vfs_root_dir = (\<lambda>_. 0), vfs_mount = (\<lambda>_ _ _ w. (Inr (), w)), vfs_umount = (\<lambda>_ w. w),
     node_lookup = (\<lambda>n p w. if p = ''f'' then Inr 1 else if p = [] then Inr 0 else Inl NotFound),
     node_create = (\<lambda>n p ty w. (Inr (), w)), node_remove = (\<lambda>n p w. (Inr (), [])),
     node_rename = (\<lambda>n p q w. (Inl Unsupported, w)),
     node_get_attr = (\<lambda>n w. Inr \<lparr>attr_type = (if n = 0 then NodeDir else NodeFile), owner_readable = True,
        owner_writable = True, owner_executable = True, attr_size = of_nat (length w)\<rparr>),
     node_read_dir = (\<lambda>n start k w. Inr (take k (drop start [(''.'', NodeDir), (''..'', NodeDir), (''f'', NodeFile)]))),
     default_rename = (\<lambda>p q w. (Inl Unsupported, w)), canonicalize = (\<lambda>p. p)\<rparr>"

definition one_file_env :: "(unit, nat, u8 list) fops_env" where
  "one_file_env = \<lparr>fe_vfs = one_file_vfs, node_open = (\<lambda>n w. (Inr (), w)), node_release = (\<lambda>n w. w),
     node_truncate = (\<lambda>n sz w. (Inr (), take (unat sz) w)),
     node_read_at = (\<lambda>n off k w. (Inr (take k (drop (unat off) w)), w)),
     node_write_at = (\<lambda>n off buf w. (Inr (length buf), take (unat off) w @ buf @ drop (unat off + length buf) w)),
     node_fsync = (\<lambda>n w. (Inr (), w)), cap_contains = (\<lambda>a b. b \<subseteq> a), dirent_default = ([], NodeFile)\<rparr>"

definition one_file_root :: "(unit, nat) root_state" where
  "one_file_root = \<lparr>ROOT_DIR = RootDirectory_new (), CURRENT_DIR = RootNode, CURRENT_DIR_PATH = ''/''\<rparr>"

lemma one_file_laws: "cap_laws one_file_env"
  by (simp add: cap_laws_def one_file_env_def)

lemma one_file_lookup:
  "lookup one_file_vfs one_file_root None ''/f'' w = Inr 1" "lookup one_file_vfs one_file_root None ''/'' w = Inr 0"
  by (simp_all add: lookup_def one_file_root_def parent_node_of_def lookup_in_def root_lookup_def lookup_mounted_fs_def
      normalize_path_def find_best_mount_def RootDirectory_new_def one_file_vfs_def starts_with_def ends_with_def
      trim_matches_def trim_start_matches_def trim_end_matches_def attr_is_dir_def)

lemma one_file_open:
  "file_open_at one_file_env one_file_root None ''/f'' (OpenOptions_new\<lparr>o_read := True\<rparr>) w =
     (Inr \<lparr>f_node = 1, f_cap = {CapRead}, is_append = False, f_offset = 0\<rparr>, w)"
proof -
  have "fe_vfs one_file_env = one_file_vfs" by (simp add: one_file_env_def)
  then show ?thesis using one_file_lookup(1)[of w]
    by (simp add: file_open_at_def file_open_node_def is_valid_def OpenOptions_new_def opts_cap_def perm_to_cap_def
        attr_is_dir_def)
      (simp add: one_file_env_def one_file_vfs_def opts_cap_def perm_to_cap_def attr_is_dir_def)
qed

lemma one_file_open_dir:
  "dir_open_at one_file_env one_file_root None ''/'' (OpenOptions_new\<lparr>o_read := True\<rparr>) w =
     (Inr \<lparr>d_node = 0, d_cap = {CapRead}, entry_idx = 0\<rparr>, w)"
proof -
  have "fe_vfs one_file_env = one_file_vfs" by (simp add: one_file_env_def)
  then show ?thesis using one_file_lookup(2)[of w]
    by (simp add: dir_open_at_def OpenOptions_new_def opts_cap_def perm_to_cap_def changing_def attr_is_dir_def)
      (simp add: one_file_env_def one_file_vfs_def opts_cap_def perm_to_cap_def attr_is_dir_def)
qed

theorem file_handle_rights_witness:
  "let f = \<lparr>f_node = 1 :: nat, f_cap = {CapRead}, is_append = False, f_offset = 0\<rparr>
   in \<exists>rs f'. file_run one_file_env [OpRead 2, OpWrite [9], OpTruncate 0] f [1, 2, 3] = (rs, f', [1, 2, 3]) \<and>
      f_cap f' = {CapRead} \<and> rs ! 1 = Inl PermissionDenied \<and> rs ! 2 = Inl PermissionDenied"
proof -
  let ?f = "\<lparr>f_node = 1 :: nat, f_cap = {CapRead}, is_append = False, f_offset = 0\<rparr>"
  let ?xs = "[OpRead 2, OpWrite [9], OpTruncate 0]"
  obtain rs f' w2 where r: "file_run one_file_env ?xs ?f [1, 2, 3] = (rs, f', w2)" by (metis prod.exhaust)
  note t = file_handle_rights[OF one_file_laws one_file_open r]
  have P: "\<forall>n off k w. w = [1, 2, 3] \<longrightarrow> snd (node_read_at one_file_env n off k w) = [1, 2, 3]"
    by (simp add: one_file_env_def)
  have ro: "\<not> o_write (OpenOptions_new\<lparr>o_read := True\<rparr>) \<and> \<not> o_append (OpenOptions_new\<lparr>o_read := True\<rparr>)"
    by (simp add: OpenOptions_new_def)
  have c: "opts_cap (OpenOptions_new\<lparr>o_read := True\<rparr>) = {CapRead}" by (simp add: opts_cap_def OpenOptions_new_def)
  have "\<forall>P. (\<forall>n off k w. P w \<longrightarrow> P (snd (node_read_at one_file_env n off k w))) \<longrightarrow> P [1, 2, 3] \<longrightarrow> P w2"
    using t ro by blast
  from spec[OF this, of "\<lambda>w. w = [1, 2, 3]"] P have "w2 = [1, 2, 3]" by simp
  moreover have "rs ! Suc 0 = Inl PermissionDenied" "rs ! 2 = Inl PermissionDenied" "f_cap f' = {CapRead}"
    using t c by (auto simp: All_less_Suc numeral_2_eq_2 numeral_3_eq_3)
  ultimately show ?thesis using r by (simp add: Let_def)
qed

theorem read_dir_visits_all_witness:
  "\<exists>rd. ReadDir_new one_file_env one_file_root ''/'' [] = (Inr rd, []) \<and>
     read_dir_collect one_file_env rd [] = Some [Inr (entry_of ''/'' (''f'', NodeFile))]"
proof -
  obtain rd where rd: "ReadDir_new one_file_env one_file_root ''/'' [] = (Inr rd, [])" "d_node (rd_inner rd) = 0"
    using one_file_open_dir[of "[]"] by (simp add: ReadDir_new_def dir_open_def)
  have "lists_dir one_file_env (d_node (rd_inner rd)) [] [(''.'', NodeDir), (''..'', NodeDir), (''f'', NodeFile)]"
    by (simp add: lists_dir_def one_file_env_def one_file_vfs_def)
  from read_dir_visits_all[OF one_file_laws rd(1) this] rd(1) show ?thesis by (simp add: dots_def)
qed

theorem relative_access_denied_witness:
  "dir_open_file_at one_file_env one_file_root \<lparr>d_node = 0, d_cap = {CapRead}, entry_idx = 0\<rparr> ''f''
     (OpenOptions_new\<lparr>o_read := True\<rparr>) [] = (Inl PermissionDenied, [])"
  using relative_access_denied[OF one_file_laws one_file_open_dir[of "[]"], of "''f''"] by (simp add: starts_with_def)

end
