(* ===== verification/Fdt_Device.thy ===== *)
theory Fdt_Device
  imports Axv_BTreeMap
begin

text \<open>
  Which host devices a guest gets, \<^verbatim>\<open>kernel/src/vmm/fdt/device.rs\<close>: the full paths of the nodes of a
  device tree, the table of phandles, the devices a device depends on, and the list of all devices
  that are passed through.

  A device tree is the list of its nodes in the order of the blob, as the \<^verbatim>\<open>fdt_parser\<close> crate returns
  them: name, depth (the root has depth 1), properties, and the addresses of \<^verbatim>\<open>reg\<close>. The value of a
  property as one number, \<^verbatim>\<open>Property::u32\<close>, and as text, \<^verbatim>\<open>Property::str\<close>, are part of this input.
\<close>

section \<open>Device trees\<close>

record FdtProp =
  prop_name :: string
  raw_value :: "u8 list"
  prop_u32 :: u32
  prop_str :: string

record FdtNode =
  node_name :: string
  level :: nat
  propertys :: "FdtProp list"
  reg_addresses :: "usize list option"

text \<open>A \<^verbatim>\<open>BTreeSet\<close> is a \<^verbatim>\<open>BTreeMap\<close> to the unit type.\<close>

type_synonym 'a btree_set = "('a, unit) btree"

definition bts_insert :: "'a::linorder \<Rightarrow> 'a btree_set \<Rightarrow> 'a btree_set" where
  "bts_insert x s = bt_insert x () s"

definition bts_contains :: "'a \<Rightarrow> 'a btree_set \<Rightarrow> bool" where
  "bts_contains x s = bt_contains_key x s"

definition bts_of_list :: "'a::linorder list \<Rightarrow> 'a btree_set" where
  "bts_of_list xs = fold bts_insert xs []"

definition bts_elems :: "'a btree_set \<Rightarrow> 'a list" where
  "bts_elems s = map fst (bt_entries s)"

section \<open>Paths\<close>

text \<open>
  The \<^verbatim>\<open>while\<close> loop that shortens the stack until it is shorter than \<open>n\<close>, which is at least 1; and the
  body of the loop over the nodes. At depth 0, which the parser does not produce, \<open>level - 1\<close> is the
  largest number and nothing is removed.
\<close>

function pop_below :: "nat \<Rightarrow> 'a list \<Rightarrow> 'a list" where
  "pop_below n st = (if st \<noteq> [] \<and> length st \<ge> n then pop_below n (butlast st) else st)"
  by pat_completeness auto
termination by (relation "measure (\<lambda>(n, st). length st)") auto

declare pop_below.simps [simp del]

definition path_step :: "FdtNode \<Rightarrow> string list \<Rightarrow> string list" where
  "path_step node st =
     (if level node = 1 then (if node_name node \<noteq> ''/'' then [node_name node] else [])
      else (if level node = 0 then st else pop_below (level node - 1) st) @ [node_name node])"

definition stack_path :: "string list \<Rightarrow> string" where
  "stack_path st = (if st = [] \<or> st = [''/''] then ''/'' else ''/'' @ str_join ''/'' st)"

definition build_node_path :: "FdtNode list \<Rightarrow> nat \<Rightarrow> string" where
  "build_node_path all_nodes i = stack_path (fold path_step (take (i + 1) all_nodes) [])"

definition with_paths :: "FdtNode list \<Rightarrow> (string \<times> FdtNode) list" where
  "with_paths all_nodes = map (\<lambda>i. (build_node_path all_nodes i, all_nodes ! i)) [0..<length all_nodes]"

definition cache_add :: "string \<times> FdtNode \<Rightarrow> (string, FdtNode list) btree \<Rightarrow> (string, FdtNode list) btree" where
  "cache_add pn c = (case pn of (path, node) \<Rightarrow>
     bt_insert path ((case bt_get path c of Some ns \<Rightarrow> ns | None \<Rightarrow> []) @ [node]) c)"

definition build_optimized_node_cache :: "FdtNode list \<Rightarrow> (string, FdtNode list) btree" where
  "build_optimized_node_cache all_nodes = fold cache_add (with_paths all_nodes) []"

section \<open>Phandles\<close>

type_synonym phandle_map = "(u32, string \<times> (string, u32) btree) btree"

definition cells_names :: "string list" where
  "cells_names = [''#address-cells'', ''#size-cells'', ''#clock-cells'', ''#reset-cells'', ''#gpio-cells'',
     ''#interrupt-cells'', ''#power-domain-cells'', ''#thermal-sensor-cells'', ''#phy-cells'', ''#dma-cells'',
     ''#sound-dai-cells'', ''#mbox-cells'', ''#pwm-cells'', ''#iommu-cells'']"

definition collect_prop :: "FdtProp \<Rightarrow> u32 option \<times> (string, u32) btree \<Rightarrow> u32 option \<times> (string, u32) btree" where
  "collect_prop p s = (case s of (phandle, cells) \<Rightarrow>
     if prop_name p = ''phandle'' \<or> prop_name p = ''linux,phandle'' then (Some (prop_u32 p), cells)
     else if prop_name p \<in> set cells_names then (phandle, bt_insert (prop_name p) (prop_u32 p) cells)
     else (phandle, cells))"

definition phandle_add :: "string \<times> FdtNode \<Rightarrow> phandle_map \<Rightarrow> phandle_map" where
  "phandle_add pn pm = (case pn of (path, node) \<Rightarrow>
     (case fold collect_prop (propertys node) (None, []) of
        (Some ph, cells) \<Rightarrow> bt_insert ph (path, cells) pm
      | (None, _) \<Rightarrow> pm))"

definition build_phandle_map :: "FdtNode list \<Rightarrow> phandle_map" where
  "build_phandle_map all_nodes = fold phandle_add (with_paths all_nodes) []"

definition get_cells_count_for_property :: "string \<Rightarrow> (string, u32) btree \<Rightarrow> nat" where
  "get_cells_count_for_property name cells =
     (let count = (\<lambda>p. case bt_get p cells of Some n \<Rightarrow> unat n | None \<Rightarrow> 0)
      in if name = ''clocks'' \<or> name = ''assigned-clocks'' then count ''#clock-cells''
         else if name = ''resets'' then count ''#reset-cells''
         else if name = ''power-domains'' then count ''#power-domain-cells''
         else if name = ''phys'' then count ''#phy-cells''
         else if name = ''interrupts'' \<or> name = ''interrupts-extended'' then count ''#interrupt-cells''
         else if name = ''gpios'' then count ''#gpio-cells''
         else if ends_with name ''-gpios'' \<or> ends_with name ''-gpio'' then count ''#gpio-cells''
         else if name = ''dmas'' then count ''#dma-cells''
         else if name = ''thermal-sensors'' then count ''#thermal-sensor-cells''
         else if name = ''sound-dai'' then count ''#sound-dai-cells''
         else if name = ''mboxes'' then count ''#mbox-cells''
         else if name = ''pwms'' then count ''#pwm-cells''
         else 0)"

text \<open>\<^verbatim>\<open>u32::from_be_bytes\<close> of every four bytes.\<close>

fun be_words :: "u8 list \<Rightarrow> u32 list" where
  "be_words (a # b # c # d # bs) =
     (push_bit 24 (ucast a) + push_bit 16 (ucast b) + push_bit 8 (ucast c) + ucast d) # be_words bs"
| "be_words _ = []"

text \<open>The \<^verbatim>\<open>while\<close> loop, on the values from index \<open>i\<close> on.\<close>

function phandle_refs :: "string \<Rightarrow> phandle_map \<Rightarrow> u32 list \<Rightarrow> (u32 \<times> u32 list) list" where
  "phandle_refs name pm [] = []"
| "phandle_refs name pm (v # vs) =
     (case bt_get v pm of
        Some (device, cells) \<Rightarrow>
          (let n = get_cells_count_for_property name cells
           in if n < length (v # vs) then (v, take n vs) # phandle_refs name pm (drop n vs) else [])
      | None \<Rightarrow> phandle_refs name pm vs)"
  by pat_completeness auto
termination by (relation "measure (\<lambda>(name, pm, vs). length vs)") auto

definition parse_phandle_property_with_cells :: "u8 list \<Rightarrow> string \<Rightarrow> phandle_map \<Rightarrow> (u32 \<times> u32 list) list" where
  "parse_phandle_property_with_cells data name pm =
     (if data = [] \<or> length data mod 4 \<noteq> 0 then [] else phandle_refs name pm (be_words data))"

definition parse_phandle_property :: "u8 list \<Rightarrow> string \<Rightarrow> phandle_map \<Rightarrow> string list" where
  "parse_phandle_property data name pm =
     concat (map (\<lambda>(ph, spec). case bt_get ph pm of Some (path, _) \<Rightarrow> [path] | None \<Rightarrow> [])
       (parse_phandle_property_with_cells data name pm))"

definition PHANDLE_PROPERTIES :: "string list" where
  "PHANDLE_PROPERTIES = [''clocks'', ''power-domains'', ''phys'', ''resets'', ''dmas'', ''thermal-sensors'', ''mboxes'',
     ''assigned-clocks'', ''interrupt-parent'', ''phy-handle'', ''msi-parent'', ''memory-region'', ''syscon'', ''regmap'',
     ''iommus'', ''interconnects'', ''nvmem-cells'', ''sound-dai'', ''pinctrl-0'', ''pinctrl-1'', ''pinctrl-2'',
     ''pinctrl-3'', ''pinctrl-4'']"

definition is_phandle_property :: "string \<Rightarrow> bool" where
  "is_phandle_property name =
     (name \<in> set PHANDLE_PROPERTIES \<or> ends_with name ''-supply'' \<or> name = ''gpios'' \<or> ends_with name ''-gpios'' \<or>
      ends_with name ''-gpio'' \<or> (str_contains name ''cells'' \<and> \<not> starts_with name ''#'' \<and> length name \<ge> 4))"

definition find_device_dependencies :: "phandle_map \<Rightarrow> (string, FdtNode list) btree \<Rightarrow> string \<Rightarrow> string list" where
  "find_device_dependencies pm cache path =
     (case bt_get path cache of
        None \<Rightarrow> []
      | Some nodes \<Rightarrow>
          concat (map (\<lambda>node. concat (map (\<lambda>p.
            if is_phandle_property (prop_name p) then parse_phandle_property (raw_value p) (prop_name p) pm else [])
            (propertys node))) nodes))"

definition get_descendant_nodes_by_path :: "(string, FdtNode list) btree \<Rightarrow> string \<Rightarrow> string list" where
  "get_descendant_nodes_by_path cache parent_path =
     (let search_prefix = (if parent_path = ''/'' then ''/'' else parent_path @ ''/'')
      in filter (\<lambda>path. starts_with path search_prefix \<and> length path > length search_prefix)
           (map fst (bt_entries cache)))"


section \<open>All devices that are passed through\<close>

definition bts_keys :: "'a btree_set \<Rightarrow> 'a set" where
  "bts_keys s = fst ` set s"

lemma bts_keys_simps [simp]:
  "bts_keys [] = {}" "bts_keys (bts_insert x s) = insert x (bts_keys s)" "set (bts_elems s) = bts_keys s"
  using bt_insert_keys[of x "()" s] by (auto simp: bts_keys_def bts_insert_def bts_elems_def bt_entries_def)

lemma bts_contains_keys [simp]: "bts_contains x s \<longleftrightarrow> x \<in> bts_keys s"
  by (auto simp: bts_contains_def bt_contains_key_def bts_keys_def bt_get_def map_of_eq_None_iff)

lemma bts_keys_fold: "bts_keys (fold bts_insert xs s) = set xs \<union> bts_keys s"
  by (induction xs arbitrary: s) auto

lemma bts_keys_of_list [simp]: "bts_keys (bts_of_list xs) = set xs"
  by (simp add: bts_of_list_def bts_keys_fold)

text \<open>Phases 1 and 3: the descendants of the given devices that are not known yet.\<close>

definition add_new :: "string \<Rightarrow> string btree_set \<times> string list \<Rightarrow> string btree_set \<times> string list" where
  "add_new path s = (case s of (known, found) \<Rightarrow>
     if bts_contains path known then (known, found) else (bts_insert path known, found @ [path]))"

definition add_descendants ::
    "(string, FdtNode list) btree \<Rightarrow> string list \<Rightarrow> string btree_set \<times> string list \<Rightarrow> string btree_set \<times> string list" where
  "add_descendants cache names s =
     fold (\<lambda>name. fold add_new (get_descendant_nodes_by_path cache name)) names s"

text \<open>Phase 2: one dependency of the device at hand, and the loop over the work queue.\<close>

definition add_dependency ::
    "string \<Rightarrow> string list \<times> string btree_set \<times> string list \<Rightarrow> string list \<times> string btree_set \<times> string list" where
  "add_dependency d s = (case s of (to_process, configured, found) \<Rightarrow>
     if bts_contains d configured then (to_process, configured, found)
     else (to_process @ [d], bts_insert d configured, found @ [d]))"

lemma add_dependency_fold:
  "\<exists>new. fold add_dependency ds (todo, conf, found) = (todo @ new, fold bts_insert new conf, found @ new) \<and>
     distinct new \<and> set new = set ds - bts_keys conf"
proof (induction ds arbitrary: todo conf found)
  case (Cons d ds)
  show ?case
  proof (cases "d \<in> bts_keys conf")
    case True
    then have "add_dependency d (todo, conf, found) = (todo, conf, found)" "set (d # ds) - bts_keys conf = set ds - bts_keys conf"
      by (auto simp: add_dependency_def)
    then show ?thesis using Cons.IH[of todo conf found] by (simp only: fold_simps)
  next
    case False
    obtain new where new: "fold add_dependency ds (todo @ [d], bts_insert d conf, found @ [d]) =
        ((todo @ [d]) @ new, fold bts_insert new (bts_insert d conf), (found @ [d]) @ new)"
        "distinct new" "set new = set ds - bts_keys (bts_insert d conf)"
      using Cons.IH[of "todo @ [d]" "bts_insert d conf" "found @ [d]"] by blast
    moreover have "add_dependency d (todo, conf, found) = (todo @ [d], bts_insert d conf, found @ [d])"
      using False by (simp add: add_dependency_def)
    moreover have "distinct (d # new)" "set (d # new) = set (d # ds) - bts_keys conf" using new False by auto
    ultimately show ?thesis by (intro exI[of _ "d # new"]) simp
  qed
qed simp

lemma add_new_fold:
  "\<exists>new. fold add_new ds (conf, found) = (fold bts_insert new conf, found @ new) \<and>
     distinct new \<and> set new = set ds - bts_keys conf"
proof (induction ds arbitrary: conf found)
  case (Cons d ds)
  show ?case
  proof (cases "d \<in> bts_keys conf")
    case True
    then have "add_new d (conf, found) = (conf, found)" "set (d # ds) - bts_keys conf = set ds - bts_keys conf"
      by (auto simp: add_new_def)
    then show ?thesis using Cons.IH[of conf found] by (simp only: fold_simps)
  next
    case False
    obtain new where new: "fold add_new ds (bts_insert d conf, found @ [d]) =
        (fold bts_insert new (bts_insert d conf), (found @ [d]) @ new)"
        "distinct new" "set new = set ds - bts_keys (bts_insert d conf)"
      using Cons.IH[of "bts_insert d conf" "found @ [d]"] by blast
    moreover have "add_new d (conf, found) = (bts_insert d conf, found @ [d])"
      using False by (simp add: add_new_def)
    moreover have "distinct (d # new)" "set (d # new) = set (d # ds) - bts_keys conf" using new False by auto
    ultimately show ?thesis by (intro exI[of _ "d # new"]) simp
  qed
qed simp

text \<open>Dependencies are among the paths of the table of phandles, which bounds the search.\<close>

definition phandle_paths :: "phandle_map \<Rightarrow> string set" where
  "phandle_paths pm = (fst \<circ> snd) ` set pm"

lemma parse_phandle_property_paths: "set (parse_phandle_property data name pm) \<subseteq> phandle_paths pm"
proof
  fix x assume "x \<in> set (parse_phandle_property data name pm)"
  then obtain ph cells where "bt_get ph pm = Some (x, cells)"
    by (auto simp: parse_phandle_property_def split: option.splits dest: sym)
  then have "(ph, x, cells) \<in> set pm" by (rule bt_get_in_set)
  then show "x \<in> phandle_paths pm" by (force simp: phandle_paths_def)
qed

lemma find_device_dependencies_paths: "set (find_device_dependencies pm cache path) \<subseteq> phandle_paths pm"
proof
  fix x assume "x \<in> set (find_device_dependencies pm cache path)"
  then obtain p :: FdtProp where "x \<in> set (parse_phandle_property (raw_value p) (prop_name p) pm)"
    by (auto simp: find_device_dependencies_def split: option.splits if_splits)
  then show "x \<in> phandle_paths pm" using parse_phandle_property_paths by blast
qed

function dependency_loop ::
    "phandle_map \<Rightarrow> (string, FdtNode list) btree \<Rightarrow> string list \<Rightarrow> string btree_set \<Rightarrow> string btree_set \<Rightarrow> string list \<Rightarrow>
     string list" where
  "dependency_loop pm cache to_process processed configured found =
     (if to_process = [] then found
      else (let path = last to_process; rest = butlast to_process
            in if bts_contains path processed then dependency_loop pm cache rest processed configured found
               else (let s = fold add_dependency (find_device_dependencies pm cache path) (rest, configured, found)
                     in dependency_loop pm cache (fst s) (bts_insert path processed) (fst (snd s)) (snd (snd s)))))"
  by pat_completeness auto
termination
proof (relation "inv_image (finite_psubset <*lex*> less_than)
    (\<lambda>(pm, cache, todo, processed, conf, found). (phandle_paths pm - bts_keys conf, length todo))", goal_cases)
  case (3 pm cache todo processed conf found path rest s)
  obtain new where new: "s = (rest @ new, fold bts_insert new conf, found @ new)"
      "set new = set (find_device_dependencies pm cache path) - bts_keys conf"
    using add_dependency_fold[of "find_device_dependencies pm cache path" rest conf found] 3(5) by blast
  have len: "length rest < length todo" using 3(1,3) by simp
  show ?case
  proof (cases "new = []")
    case True
    then show ?thesis using new(1) len by simp
  next
    case False
    then obtain d where "d \<in> set new" by fastforce
    then have "phandle_paths pm - (set new \<union> bts_keys conf) \<subset> phandle_paths pm - bts_keys conf"
      using new(2) find_device_dependencies_paths[of pm cache path] by blast
    then show ?thesis using new(1) by (simp add: finite_psubset_def phandle_paths_def bts_keys_fold)
  qed
qed auto

declare dependency_loop.simps [simp del]

definition find_all_passthrough_devices :: "string list \<Rightarrow> string list list \<Rightarrow> FdtNode list \<Rightarrow> string list" where
  "find_all_passthrough_devices initial excluded all_nodes =
     (let cache = build_optimized_node_cache all_nodes;
          (configured, additional) = add_descendants cache initial (bts_of_list initial, []);
          dependency = dependency_loop (build_phandle_map all_nodes) cache (bts_elems configured) [] configured [];
          excluded_paths = concat excluded;
          (_, all_excludes) = add_descendants cache excluded_paths (bts_of_list excluded_paths, excluded_paths);
          all_devices = initial @ additional @ dependency;
          kept = (if all_excludes \<noteq> [] then filter (\<lambda>d. \<not> bts_contains d (bts_of_list all_excludes)) all_devices
                  else all_devices)
      in filter (\<lambda>d. d \<noteq> ''/'') kept)"


subsection \<open>The search computes a closure\<close>

definition depends :: "phandle_map \<Rightarrow> (string, FdtNode list) btree \<Rightarrow> (string \<times> string) set" where
  "depends pm cache = {(a, b). b \<in> set (find_device_dependencies pm cache a)}"

lemma Image_closed_rtrancl: "r `` X \<subseteq> X \<Longrightarrow> r\<^sup>* `` X = X"
proof -
  assume r: "r `` X \<subseteq> X"
  have "y \<in> X" if "(x, y) \<in> r\<^sup>*" "x \<in> X" for x y
    using that by (induction rule: rtrancl_induct) (use r in blast)+
  then show ?thesis by auto
qed

definition loop_inv ::
    "(string \<times> string) set \<Rightarrow> string set \<Rightarrow> string list \<Rightarrow> string btree_set \<Rightarrow> string btree_set \<Rightarrow> string list \<Rightarrow> bool" where
  "loop_inv R C todo processed conf found =
     (bts_keys conf = bts_keys processed \<union> set todo \<and> R `` bts_keys processed \<subseteq> bts_keys conf \<and>
      bts_keys conf = C \<union> set found \<and> C \<inter> set found = {} \<and> distinct found \<and> bts_keys conf \<subseteq> R\<^sup>* `` C)"

lemma loop_inv_step:
  assumes "loop_inv R C (rest @ [path]) processed conf found" "set ds = R `` {path}"
    "fold add_dependency ds (rest, conf, found) = (todo', conf', found')"
  shows "loop_inv R C todo' (bts_insert path processed) conf' found'"
proof -
  note inv = assms(1)[unfolded loop_inv_def]
  obtain new where new: "todo' = rest @ new" "conf' = fold bts_insert new conf" "found' = found @ new"
      "distinct new" "set new = set ds - bts_keys conf"
    using add_dependency_fold[of ds rest conf found] assms(3) by auto
  have k: "bts_keys conf' = set new \<union> bts_keys conf" by (simp add: new(2) bts_keys_fold)
  have "path \<in> R\<^sup>* `` C" using inv by auto
  then have "set new \<subseteq> R\<^sup>* `` C" using new(5) assms(2) by (auto intro: rtrancl_into_rtrancl)
  then show ?thesis using inv new assms(2) unfolding loop_inv_def k by auto
qed

lemma dependency_loop_closure:
  assumes "loop_inv (depends pm cache) C todo processed conf found" "res = dependency_loop pm cache todo processed conf found"
  shows "C \<union> set res = (depends pm cache)\<^sup>* `` C \<and> C \<inter> set res = {} \<and> distinct res"
  using assms
proof (induction pm cache todo processed conf found rule: dependency_loop.induct)
  case (1 pm cache todo processed conf found)
  let ?R = "depends pm cache"
  note inv = "1.prems"(1)[unfolded loop_inv_def]
  show ?case
  proof (cases "todo = []")
    case True
    then have "?R `` (C \<union> set found) \<subseteq> C \<union> set found" using inv by auto
    then have "?R\<^sup>* `` (C \<union> set found) = C \<union> set found" by (rule Image_closed_rtrancl)
    then have "C \<union> set found = ?R\<^sup>* `` C" using inv by blast
    then show ?thesis using True inv "1.prems"(2) by (simp add: dependency_loop.simps)
  next
    case False
    let ?path = "last todo" and ?rest = "butlast todo"
    have todo: "todo = ?rest @ [?path]" using False by simp
    show ?thesis
    proof (cases "bts_contains ?path processed")
      case True
      have "set todo = insert ?path (set ?rest)" using todo by (metis Un_insert_right empty_set list.simps(15) set_append sup_bot.right_neutral)
      then have "loop_inv ?R C ?rest processed conf found" using inv True unfolding loop_inv_def by auto
      then show ?thesis using "1.IH"(1)[OF False refl refl True] "1.prems"(2) False True
        by (simp add: dependency_loop.simps[of pm cache todo] Let_def)
    next
      case notin: False
      let ?s = "fold add_dependency (find_device_dependencies pm cache ?path) (?rest, conf, found)"
      have "loop_inv ?R C (fst ?s) (bts_insert ?path processed) (fst (snd ?s)) (snd (snd ?s))"
        using loop_inv_step[of ?R C ?rest ?path processed conf found] "1.prems"(1) todo by (simp add: depends_def Image_def)
      then show ?thesis using "1.IH"(2)[OF False refl refl notin refl] "1.prems"(2) False notin
        by (simp add: dependency_loop.simps[of pm cache todo] Let_def)
    qed
  qed
qed

lemma add_descendants_spec:
  "\<exists>new. add_descendants cache names (conf, found) = (fold bts_insert new conf, found @ new) \<and> distinct new \<and>
     set new = (\<Union>n \<in> set names. set (get_descendant_nodes_by_path cache n)) - bts_keys conf"
proof -
  have "add_descendants cache names s = fold add_new (concat (map (get_descendant_nodes_by_path cache) names)) s" for s
    by (induction names arbitrary: s) (simp_all add: add_descendants_def)
  then show ?thesis using add_new_fold[of "concat (map (get_descendant_nodes_by_path cache) names)" conf found] by simp
qed

text \<open>The paths of the tree and those strictly below another.\<close>

definition tree_paths_of :: "FdtNode list \<Rightarrow> string set" where
  "tree_paths_of all_nodes = build_node_path all_nodes ` {..<length all_nodes}"

definition below :: "string \<Rightarrow> string \<Rightarrow> bool" where
  "below p q = (\<exists>r. r \<noteq> [] \<and> q = (if p = ''/'' then ''/'' else p @ ''/'') @ r)"

lemma cache_add_fold:
  "bt_inv c \<Longrightarrow> bt_inv (fold cache_add pns c) \<and> fst ` set (bt_entries (fold cache_add pns c)) = fst ` set pns \<union> fst ` set (bt_entries c)"
  by (induction pns arbitrary: c) (auto simp: cache_add_def bt.keys_ins split: prod.splits)

lemma cache_paths: "fst ` set (bt_entries (build_optimized_node_cache all_nodes)) = tree_paths_of all_nodes"
  using cache_add_fold[of "[]" "with_paths all_nodes"]
  by (simp add: build_optimized_node_cache_def with_paths_def tree_paths_of_def bt_entries_def image_image lessThan_atLeast0)

lemma descendants_set:
  "set (get_descendant_nodes_by_path (build_optimized_node_cache all_nodes) p) = {q \<in> tree_paths_of all_nodes. below p q}"
proof -
  have "starts_with q x \<and> length q > length x \<longleftrightarrow> (\<exists>r. r \<noteq> [] \<and> q = x @ r)" for q x
    by (auto simp: starts_with_prefix prefix_def)
  then show ?thesis unfolding get_descendant_nodes_by_path_def cache_paths[symmetric] below_def by (auto simp: Let_def)
qed

lemma count_list_filter_le: "count_list (filter P xs) x \<le> count_list xs x"
  by (induction xs) auto

lemma distinct_count_list: "distinct xs \<Longrightarrow> count_list xs x = (if x \<in> set xs then 1 else 0)"
  by (induction xs) auto

lemma retain_if_any:
  "(if ys \<noteq> [] then filter (\<lambda>d. \<not> bts_contains d (bts_of_list ys)) zs else zs) = filter (\<lambda>d. d \<notin> set ys) zs"
  by simp

text \<open>
  \<^bold>\<open>C9\<close> (refinement). The devices passed through, for any device tree and any configuration: take
  the configured devices and every node below one of them; close this set under the references by
  phandle in the properties of its nodes; leave out the excluded devices, every node below one of
  them, and the root. The search over the references always ends. No device is listed more often
  than the configuration lists it, and none that the search adds is listed twice.
\<close>

theorem passthrough_devices_closure:
  "let res = find_all_passthrough_devices initial excluded all_nodes;
       R = depends (build_phandle_map all_nodes) (build_optimized_node_cache all_nodes);
       with_below = (\<lambda>X. X \<union> {q \<in> tree_paths_of all_nodes. \<exists>p \<in> X. below p q})
   in set res = R\<^sup>* `` with_below (set initial) - with_below (set (concat excluded)) - {''/''} \<and>
      (\<forall>d. count_list res d \<le> max 1 (count_list initial d))"
proof -
  let ?cache = "build_optimized_node_cache all_nodes" and ?pm = "build_phandle_map all_nodes"
  let ?R = "depends ?pm ?cache" and ?ex = "concat excluded"
  let ?wb = "\<lambda>X. X \<union> {q \<in> tree_paths_of all_nodes. \<exists>p \<in> X. below p q}"
  obtain add where add: "add_descendants ?cache initial (bts_of_list initial, []) = (fold bts_insert add (bts_of_list initial), add)"
      "distinct add" "set add = (\<Union>n \<in> set initial. {q \<in> tree_paths_of all_nodes. below n q}) - set initial"
    using add_descendants_spec[of ?cache initial "bts_of_list initial" "[]"] by (auto simp: descendants_set)
  obtain exs where exs: "add_descendants ?cache ?ex (bts_of_list ?ex, ?ex) = (fold bts_insert exs (bts_of_list ?ex), ?ex @ exs)"
      "set exs = (\<Union>n \<in> set ?ex. {q \<in> tree_paths_of all_nodes. below n q}) - set ?ex"
    using add_descendants_spec[of ?cache ?ex "bts_of_list ?ex" ?ex] by (auto simp: descendants_set)
  let ?conf = "fold bts_insert add (bts_of_list initial)"
  let ?dep = "dependency_loop ?pm ?cache (bts_elems ?conf) [] ?conf []"
  have conf: "bts_keys ?conf = ?wb (set initial)" using add(3) by (auto simp: bts_keys_fold)
  have ini: "loop_inv ?R (bts_keys ?conf) (bts_elems ?conf) [] ?conf []" by (auto simp: loop_inv_def)
  have dep: "bts_keys ?conf \<union> set ?dep = ?R\<^sup>* `` bts_keys ?conf" "bts_keys ?conf \<inter> set ?dep = {}" "distinct ?dep"
    using dependency_loop_closure[OF ini refl] by simp_all
  let ?all = "initial @ add @ ?dep"
  have res: "find_all_passthrough_devices initial excluded all_nodes =
      filter (\<lambda>d. d \<noteq> ''/'') (filter (\<lambda>d. d \<notin> ?wb (set ?ex)) ?all)" (is "_ = ?res")
  proof -
    have "set (?ex @ exs) = ?wb (set ?ex)" using exs(2) by auto
    then show ?thesis using add(1) exs(1)
      by (simp only: find_all_passthrough_devices_def Let_def prod.case retain_if_any)
  qed
  have "set ?all = ?R\<^sup>* `` ?wb (set initial)"
  proof -
    have "set initial \<union> set add = bts_keys ?conf" by (auto simp: bts_keys_fold)
    then have "set ?all = bts_keys ?conf \<union> set ?dep" by (simp add: Un_assoc[symmetric])
    then show ?thesis using dep(1) conf by simp
  qed
  then have "set ?res = ?R\<^sup>* `` ?wb (set initial) - ?wb (set ?ex) - {''/''}" by auto
  moreover have "count_list ?res d \<le> max 1 (count_list initial d)" for d
  proof -
    have "set add \<inter> set initial = {}" "set ?dep \<inter> (set add \<union> set initial) = {}"
      using add(3) dep(2) by (auto simp: bts_keys_fold)
    then have "count_list add d + count_list ?dep d \<le> (if d \<in> set initial then 0 else 1)"
      using add(2) dep(3) by (auto simp: distinct_count_list)
    then have "count_list ?all d \<le> max 1 (count_list initial d)" by (cases "d \<in> set initial") auto
    then show ?thesis by (meson count_list_filter_le le_trans)
  qed
  ultimately show ?thesis unfolding Let_def res by blast
qed


section \<open>Paths are the paths of the tree\<close>

text \<open>
  A device tree as a tree; its nodes in the order of the blob, each with its depth; and the names on
  the way from the root to each node.
\<close>

datatype dtree = DNode (dt_name: string) (dt_props: "FdtProp list") (dt_reg: "usize list option") (dt_children: "dtree list")

fun flatten :: "nat \<Rightarrow> dtree \<Rightarrow> FdtNode list" where
  "flatten l (DNode n ps r ts) =
     \<lparr>node_name = n, level = l, propertys = ps, reg_addresses = r\<rparr> # concat (map (flatten (l + 1)) ts)"

fun stacks :: "string list \<Rightarrow> dtree \<Rightarrow> string list list" where
  "stacks anc (DNode n ps r ts) = (anc @ [n]) # concat (map (stacks (anc @ [n])) ts)"

definition root_stacks :: "dtree \<Rightarrow> string list list" where
  "root_stacks t = [] # concat (map (stacks []) (dt_children t))"

text \<open>A root named \<^verbatim>\<open>/\<close> whose children are not.\<close>

definition rooted :: "dtree \<Rightarrow> bool" where
  "rooted t = (dt_name t = ''/'' \<and> (\<forall>c \<in> set (dt_children t). dt_name c \<noteq> ''/''))"

lemma pop_below_take: "0 < n \<Longrightarrow> pop_below n st = take (n - 1) st"
proof (induction n st rule: pop_below.induct)
  case (1 n st)
  show ?case
  proof (cases "st \<noteq> [] \<and> length st \<ge> n")
    case True
    then have "pop_below n st = take (n - 1) (butlast st)" using 1 by (subst pop_below.simps) simp
    also have "\<dots> = take (n - 1) st" using diff_le_mono[of n "length st" 1] True by (simp add: butlast_conv_take min_def)
    finally show ?thesis .
  next
    case False
    then have "pop_below n st = st" by (subst pop_below.simps) auto
    moreover have "length st \<le> n - 1" using False by auto
    ultimately show ?thesis by simp
  qed
qed

text \<open>The stacks after each node of a list.\<close>

fun scan :: "FdtNode list \<Rightarrow> string list \<Rightarrow> string list list" where
  "scan [] st = []"
| "scan (x # xs) st = path_step x st # scan xs (path_step x st)"

lemma scan_append: "scan (xs @ ys) st = scan xs st @ scan ys (fold path_step xs st)"
  by (induction xs arbitrary: st) auto

lemma scan_length [simp]: "length (scan xs st) = length xs"
  by (induction xs arbitrary: st) auto

lemma scan_nth: "i < length xs \<Longrightarrow> scan xs st ! i = fold path_step (take (i + 1) xs) st"
proof (induction xs arbitrary: i st)
  case (Cons x xs)
  then show ?case by (cases i) auto
qed simp

lemma path_step_inner:
  assumes "2 \<le> level node" "take (level node - 2) st = anc"
  shows "path_step node st = anc @ [node_name node]"
  using assms pop_below_take[of "level node - 1" st] by (simp add: path_step_def numeral_2_eq_2)

lemma scan_flatten:
  "2 \<le> l \<Longrightarrow> length anc = l - 2 \<Longrightarrow> take (l - 2) st = anc \<Longrightarrow>
     scan (flatten l t) st = stacks anc t \<and> take (l - 2) (fold path_step (flatten l t) st) = anc"
proof (induction t arbitrary: l anc st)
  case (DNode n ps r ts)
  let ?x = "\<lparr>node_name = n, level = l, propertys = ps, reg_addresses = r\<rparr>"
  have step: "path_step ?x st = anc @ [n]" using path_step_inner[of ?x st anc] DNode.prems by simp
  have forest: "scan (concat (map (flatten (l + 1)) us)) st' = concat (map (stacks (anc @ [n])) us) \<and>
      take (l - 1) (fold path_step (concat (map (flatten (l + 1)) us)) st') = anc @ [n]"
    if "set us \<subseteq> set ts" "take (l - 1) st' = anc @ [n]" for us st'
    using that
  proof (induction us arbitrary: st')
    case (Cons u us)
    have u: "scan (flatten (l + 1) u) st' = stacks (anc @ [n]) u"
        "take (l - 1) (fold path_step (flatten (l + 1) u) st') = anc @ [n]"
      using DNode.IH[of u "l + 1" "anc @ [n]" st'] Cons.prems DNode.prems by simp_all
    show ?case using Cons.IH[OF _ u(2)] Cons.prems(1) u(1) by (simp add: scan_append)
  qed simp
  have "take (l - 1) (anc @ [n]) = anc @ [n]" using DNode.prems by simp
  from forest[OF subset_refl this] have
    f: "scan (concat (map (flatten (l + 1)) ts)) (anc @ [n]) = concat (map (stacks (anc @ [n])) ts)"
    "take (l - 1) (fold path_step (concat (map (flatten (l + 1)) ts)) (anc @ [n])) = anc @ [n]" by simp_all
  let ?fin = "fold path_step (concat (map (flatten (l + 1)) ts)) (anc @ [n])"
  have "take (l - 2) ?fin = take (l - 2) (take (l - 1) ?fin)" by (simp add: min_def)
  also have "\<dots> = anc" using f(2) DNode.prems(2) by simp
  finally show ?case using f(1) step by simp
qed

lemma scan_root:
  assumes "dt_name t = ''/''"
  shows "scan (flatten 1 t) [] = root_stacks t"
proof -
  obtain ps r ts where t: "t = DNode ''/'' ps r ts" using assms by (cases t) auto
  have "scan (concat (map (flatten 2) us)) st = concat (map (stacks []) us)" for us st
  proof (induction us arbitrary: st)
    case (Cons u us)
    then show ?case using scan_flatten[of 2 "[]" st u] by (simp add: scan_append)
  qed simp
  then show ?thesis by (simp add: t root_stacks_def path_step_def numeral_2_eq_2)
qed

lemma with_paths_fst:
  assumes "rooted t"
  shows "map fst (with_paths (flatten 1 t)) = map (\<lambda>st. ''/'' @ str_join ''/'' st) (root_stacks t)"
proof -
  have sc: "scan (flatten 1 t) [] = root_stacks t" using assms by (intro scan_root) (simp add: rooted_def)
  have len: "length (root_stacks t) = length (flatten 1 t)" by (simp add: sc[symmetric])
  have path: "stack_path st = ''/'' @ str_join ''/'' st" if st: "st \<in> set (root_stacks t)" for st
  proof -
    have "st \<noteq> [''/'']"
    proof
      assume "st = [''/'']"
      then obtain c where c: "c \<in> set (dt_children t)" "[''/''] \<in> set (stacks [] c)" using st by (auto simp: root_stacks_def)
      obtain n ps r ts where n: "c = DNode n ps r ts" by (cases c)
      have longer: "x \<in> set (stacks anc u) \<Longrightarrow> length anc < length x" for x anc u
        by (induction u arbitrary: anc) force
      have "n = ''/''" using c(2) longer[of "[''/'']" "[n]"] n by fastforce
      then show False using assms c(1) n by (auto simp: rooted_def)
    qed
    then show ?thesis by (simp add: stack_path_def)
  qed
  show ?thesis
  proof (rule nth_equalityI)
    show "length (map fst (with_paths (flatten 1 t))) = length (map (\<lambda>st. ''/'' @ str_join ''/'' st) (root_stacks t))"
      by (simp add: with_paths_def len)
    fix i assume "i < length (map fst (with_paths (flatten 1 t)))"
    then have i: "i < length (flatten 1 t)" by (simp add: with_paths_def)
    then have "build_node_path (flatten 1 t) i = stack_path (root_stacks t ! i)"
      using scan_nth[OF i, of "[]"] by (simp add: build_node_path_def sc[symmetric])
    then show "map fst (with_paths (flatten 1 t)) ! i = map (\<lambda>st. ''/'' @ str_join ''/'' st) (root_stacks t) ! i"
      using i len path[of "root_stacks t ! i"] by (simp add: with_paths_def)
  qed
qed

text \<open>
  From the flat list of the nodes of a tree with their depths, \<^verbatim>\<open>build_node_path\<close>
  recovers for every node the path from the root: the names on the way, joined by slashes.
\<close>

theorem node_paths_roundtrip:
  assumes "rooted t"
  shows "map fst (with_paths (flatten 1 t)) = map (\<lambda>st. ''/'' @ str_join ''/'' st) (root_stacks t)"
  using assms by (rule with_paths_fst)

definition small_tree :: dtree where
  "small_tree = DNode ''/'' [] None [DNode ''soc'' [] None [DNode ''uart@0'' [] None []], DNode ''memory@0'' [] None []]"

theorem node_paths_roundtrip_witness:
  "map fst (with_paths (flatten 1 small_tree)) = [''/'', ''/soc'', ''/soc/uart@0'', ''/memory@0'']"
proof -
  have "rooted small_tree" by (simp add: rooted_def small_tree_def)
  from node_paths_roundtrip[OF this] show ?thesis by (simp add: small_tree_def root_stacks_def)
qed

end
