(* ===== verification/Fdt_Create.thy ===== *)
theory Fdt_Create
  imports Fdt_Device
begin

text \<open>
  The device tree of a guest, \<^verbatim>\<open>kernel/src/vmm/fdt/create.rs\<close>: the tree made from the host's, the tree
  with the memory of the guest, the tree with the processors of the host, and where it is loaded.

  The writer of the \<^verbatim>\<open>vm_fdt\<close> crate is the sequence of calls that it receives; turning it into a blob,
  \<^verbatim>\<open>finish\<close>, is an argument where the size of the blob matters.
\<close>

section \<open>Writing a tree\<close>

datatype fdt_event = BeginNode string | Property string "u8 list" | PropertyString string string
  | PropertyArray string "u32 list" | EndNode

text \<open>The local variables of the loops: the calls so far, the open nodes, the depth of the last node.\<close>

record writer =
  calls :: "fdt_event list"
  node_stack :: "string list"
  previous_node_level :: nat

definition writer_new :: writer where
  "writer_new = \<lparr>calls = [], node_stack = [], previous_node_level = 0\<rparr>"

definition begin_node :: "string \<Rightarrow> writer \<Rightarrow> writer" where
  "begin_node name s = s\<lparr>calls := calls s @ [BeginNode name], node_stack := node_stack s @ [name]\<rparr>"

definition write_props :: "(FdtProp \<Rightarrow> fdt_event list) \<Rightarrow> FdtNode \<Rightarrow> writer \<Rightarrow> writer" where
  "write_props f node s = s\<lparr>calls := calls s @ concat (map f (propertys node))\<rparr>"

definition copy_prop :: "FdtProp \<Rightarrow> fdt_event list" where
  "copy_prop p = [Property (prop_name p) (raw_value p)]"

definition end_last :: "writer \<Rightarrow> writer" where
  "end_last s = (if node_stack s = [] then s else s\<lparr>calls := calls s @ [EndNode], node_stack := butlast (node_stack s)\<rparr>)"

definition handle_node_level_change :: "nat \<Rightarrow> writer \<Rightarrow> writer" where
  "handle_node_level_change current s =
     (if current \<le> previous_node_level s then (end_last ^^ (previous_node_level s - current + 1)) s else s)"

definition open_node :: "FdtNode \<Rightarrow> writer \<Rightarrow> writer" where
  "open_node node s = begin_node (node_name node) (handle_node_level_change (level node) s)"

definition set_level :: "FdtNode \<Rightarrow> writer \<Rightarrow> writer" where
  "set_level node s = s\<lparr>previous_node_level := level node\<rparr>"

text \<open>
  The end of every function: the open nodes are closed, each lowers the depth by one, and the depth
  must then be 0. (If there are more open nodes than the depth says, the subtraction fails or wraps
  around, and the assertion fails too.)
\<close>

definition close_all :: "(nat \<Rightarrow> fdt_event list) \<Rightarrow> writer \<Rightarrow> fdt_event list outcome" where
  "close_all after s =
     (if previous_node_level s = length (node_stack s)
      then Done (calls s @ concat (map (\<lambda>l. EndNode # after l) (rev [0..<length (node_stack s)])))
      else Panic ''assertion `left == right` failed'')"

section \<open>Which nodes a guest gets\<close>

datatype NodeAction = Skip | RootNode | CpuNode | IncludeAsPassthroughDevice | IncludeAsChildNode | IncludeAsAncestorNode

definition nth_char :: "string \<Rightarrow> nat \<Rightarrow> char option" where
  "nth_char s n = (if n < length s then Some (s ! n) else None)"

definition is_descendant_of_passthrough_device :: "string \<Rightarrow> nat \<Rightarrow> string list \<Rightarrow> bool" where
  "is_descendant_of_passthrough_device node_path node_level names =
     list_ex (\<lambda>p. starts_with node_path p \<and> length node_path > length p \<and>
       (p = ''/'' \<or> nth_char node_path (length p) = Some CHR ''/'') \<and>
       (p = ''/'' \<and> node_level \<ge> 2 \<or> p \<noteq> ''/'' \<and> node_level > count_list p CHR ''/'')) names"

definition is_ancestor_of_passthrough_device :: "string \<Rightarrow> string list \<Rightarrow> bool" where
  "is_ancestor_of_passthrough_device node_path names =
     list_ex (\<lambda>p. starts_with p node_path \<and> length p > length node_path \<and>
       (nth_char p (length node_path) = Some CHR ''/'' \<or> node_path = ''/'')) names"

definition determine_node_action :: "FdtNode \<Rightarrow> string \<Rightarrow> string list \<Rightarrow> NodeAction" where
  "determine_node_action node node_path names =
     (if node_name node = ''/'' then RootNode
      else if starts_with (node_name node) ''memory'' then Skip
      else if starts_with node_path ''/cpus'' then CpuNode
      else if node_path \<in> set names then IncludeAsPassthroughDevice
      else if is_descendant_of_passthrough_device node_path (level node) names then IncludeAsChildNode
      else if is_ancestor_of_passthrough_device node_path names then IncludeAsAncestorNode
      else Skip)"

definition need_cpu_node :: "usize list \<Rightarrow> FdtNode \<Rightarrow> string \<Rightarrow> bool" where
  "need_cpu_node ids node node_path =
     (if \<not> starts_with node_path ''/cpus/cpu@'' then True
      else case reg_addresses node of Some (a # _) \<Rightarrow> a \<in> set ids | _ \<Rightarrow> False)"

definition guest_node :: "usize list \<Rightarrow> string list \<Rightarrow> string \<times> FdtNode \<Rightarrow> writer \<Rightarrow> writer" where
  "guest_node ids names pn s = (case pn of (node_path, node) \<Rightarrow>
     (let included = (\<lambda>s1. write_props copy_prop node (set_level node s1))
      in case determine_node_action node node_path names of
           RootNode \<Rightarrow> included (begin_node [] s)
         | CpuNode \<Rightarrow> if need_cpu_node ids node node_path then included (open_node node s) else s
         | Skip \<Rightarrow> s
         | _ \<Rightarrow> included (open_node node s)))"

definition crate_guest_fdt :: "usize list option \<Rightarrow> string list \<Rightarrow> FdtNode list \<Rightarrow> fdt_event list outcome" where
  "crate_guest_fdt phys_cpu_ids names all_nodes =
     (case phys_cpu_ids of
        None \<Rightarrow> Panic ''ERROR: phys_cpu_ids is None''
      | Some ids \<Rightarrow> close_all (\<lambda>_. []) (fold (guest_node ids names) (with_paths all_nodes) writer_new))"

section \<open>Memory and boot arguments\<close>

text \<open>\<^verbatim>\<open>str::replace\<close>: every occurrence from the left, none inside what was replaced.\<close>

function str_replace :: "string \<Rightarrow> string \<Rightarrow> string \<Rightarrow> string" where
  "str_replace p q s =
     (if p = [] \<or> s = [] then s
      else case strip_prefix_of p s of
             Some r \<Rightarrow> q @ str_replace p q r
           | None \<Rightarrow> hd s # str_replace p q (tl s))"
  by pat_completeness auto
termination by (relation "measure (\<lambda>(p, q, s). length s)") auto

declare str_replace.simps [simp del]

definition add_memory_node :: "(usize \<times> usize) list \<Rightarrow> fdt_event list" where
  "add_memory_node regions =
     [PropertyArray ''reg'' (concat (map (\<lambda>(gpa, size).
        [ucast (drop_bit 32 gpa), ucast (and gpa 0xFFFFFFFF), ucast (drop_bit 32 size), ucast (and size 0xFFFFFFFF)]) regions)),
      PropertyString ''device_type'' ''memory'']"

definition chosen_prop :: "FdtProp \<Rightarrow> fdt_event list" where
  "chosen_prop p =
     (if starts_with (prop_name p) ''linux,initrd-'' then []
      else if prop_name p = ''bootargs'' then [PropertyString (prop_name p) (str_replace '' ro '' '' rw '' (prop_str p))]
      else copy_prop p)"

definition update_node :: "FdtNode \<Rightarrow> writer \<Rightarrow> writer" where
  "update_node node s =
     (let included = (\<lambda>s1. write_props (if node_name node = ''chosen'' then chosen_prop else copy_prop) node (set_level node s1))
      in if node_name node = ''/'' then included (begin_node [] s)
         else if starts_with (node_name node) ''memory'' then s
         else included (open_node node s))"

text \<open>The calls of \<^verbatim>\<open>update_fdt\<close>; its result is loaded at \<open>calculate_dtb_load_addr\<close>.\<close>

definition update_fdt :: "(usize \<times> usize) list \<Rightarrow> FdtNode list \<Rightarrow> fdt_event list outcome" where
  "update_fdt regions all_nodes =
     close_all (\<lambda>l. if l = 1 then BeginNode ''memory'' # add_memory_node regions @ [EndNode] else [])
       (fold update_node all_nodes writer_new)"

record main_memory =
  mm_gpa :: usize
  mm_size :: usize
  mm_identical :: bool

text \<open>\<^verbatim>\<open>align_down\<close> of the \<^verbatim>\<open>memory_addr\<close> crate is the argument \<open>align_down\<close>; the address is stored in the configuration.\<close>

definition calculate_dtb_load_addr ::
    "(usize \<Rightarrow> usize \<Rightarrow> usize) \<Rightarrow> main_memory list \<Rightarrow> usize \<Rightarrow> usize option \<Rightarrow> (usize \<times> usize option) outcome" where
  "calculate_dtb_load_addr align_down regions fdt_size dtb_load_gpa =
     (case regions of
        [] \<Rightarrow> Panic ''VM must have at least one memory region''
      | m # _ \<Rightarrow>
          (let dtb_addr = (case dtb_load_gpa of
                 Some addr \<Rightarrow> if \<not> mm_identical m then addr
                              else align_down (mm_gpa m + min (mm_size m) (512 * 0x100000) - fdt_size) (2 * 0x100000)
               | None \<Rightarrow> align_down (mm_gpa m + min (mm_size m) (512 * 0x100000) - fdt_size) (2 * 0x100000))
           in Done (dtb_addr, Some dtb_addr)))"

section \<open>Processors of the host in a given tree\<close>

definition other_node :: "string \<times> FdtNode \<Rightarrow> writer \<Rightarrow> writer" where
  "other_node pn s = (case pn of (node_path, node) \<Rightarrow>
     (let included = (\<lambda>s1. write_props copy_prop node (set_level node s1))
      in if node_name node = ''/'' then included (begin_node [] s)
         else if starts_with node_path ''/cpus'' then s
         else included (open_node node s)))"

definition host_cpu_node :: "usize list \<Rightarrow> string \<times> FdtNode \<Rightarrow> writer \<Rightarrow> writer" where
  "host_cpu_node ids pn s = (case pn of (node_path, node) \<Rightarrow>
     if starts_with node_path ''/cpus'' \<and> need_cpu_node ids node node_path
     then set_level node (write_props copy_prop node (open_node node s)) else s)"

definition update_cpu_node :: "usize list option \<Rightarrow> FdtNode list \<Rightarrow> FdtNode list \<Rightarrow> fdt_event list outcome" where
  "update_cpu_node phys_cpu_ids fdt_nodes host_nodes =
     (case phys_cpu_ids of
        None \<Rightarrow> Panic ''ERROR: phys_cpu_ids is None''
      | Some ids \<Rightarrow>
          close_all (\<lambda>_. [])
            (fold (host_cpu_node ids) (with_paths host_nodes) (fold other_node (with_paths fdt_nodes) writer_new)))"


section \<open>The guest gets a pruned copy of the host's tree\<close>

definition join_path :: "string list \<Rightarrow> string" where
  "join_path st = ''/'' @ str_join ''/'' st"

text \<open>The nodes of a tree with their paths, below the names \<open>anc\<close>.\<close>

fun annot :: "string list \<Rightarrow> nat \<Rightarrow> dtree \<Rightarrow> (string \<times> FdtNode) list" where
  "annot anc l (DNode n ps r ts) =
     (join_path (anc @ [n]), \<lparr>node_name = n, level = l, propertys = ps, reg_addresses = r\<rparr>) #
     concat (map (annot (anc @ [n]) (l + 1)) ts)"

lemma annot_fst: "map fst (annot anc l t) = map join_path (stacks anc t)"
proof (induction t arbitrary: anc l)
  case (DNode n ps r ts)
  then show ?case by (simp add: map_concat comp_def cong: map_cong)
qed

lemma annot_snd: "map snd (annot anc l t) = flatten l t"
proof (induction t arbitrary: anc l)
  case (DNode n ps r ts)
  then show ?case by (simp add: map_concat comp_def cong: map_cong)
qed

definition root_annot :: "dtree \<Rightarrow> (string \<times> FdtNode) list" where
  "root_annot t = (''/'', \<lparr>node_name = dt_name t, level = 1, propertys = dt_props t, reg_addresses = dt_reg t\<rparr>) #
     concat (map (annot [] 2) (dt_children t))"

lemma with_paths_annot: "rooted t \<Longrightarrow> with_paths (flatten 1 t) = root_annot t"
proof -
  assume t: "rooted t"
  have "map fst (with_paths (flatten 1 t)) = map fst (root_annot t)"
    unfolding with_paths_fst[OF t] root_annot_def root_stacks_def
    by (simp add: map_concat comp_def annot_fst join_path_def[abs_def])
  moreover have "map snd (with_paths xs) = xs" for xs by (simp add: with_paths_def comp_def map_nth)
  moreover have "map snd (root_annot t) = flatten 1 t"
    by (cases t) (simp add: root_annot_def map_concat comp_def annot_snd numeral_2_eq_2)
  ultimately show ?thesis by (metis zip_map_fst_snd)
qed

text \<open>The calls that write a tree; the part of a tree that \<open>keep\<close> keeps, where a node that is left out takes what is below it along.\<close>

fun tree_calls :: "dtree \<Rightarrow> fdt_event list" where
  "tree_calls (DNode n ps r ts) = BeginNode n # concat (map copy_prop ps) @ concat (map tree_calls ts) @ [EndNode]"

fun prune :: "(string \<times> FdtNode \<Rightarrow> bool) \<Rightarrow> string list \<Rightarrow> nat \<Rightarrow> dtree \<Rightarrow> dtree list" where
  "prune keep anc l (DNode n ps r ts) =
     (if keep (join_path (anc @ [n]), \<lparr>node_name = n, level = l, propertys = ps, reg_addresses = r\<rparr>)
      then [DNode n ps r (concat (map (prune keep (anc @ [n]) (l + 1)) ts))] else [])"

text \<open>Nothing is kept below a node that is left out.\<close>

fun keeps_parents :: "(string \<times> FdtNode \<Rightarrow> bool) \<Rightarrow> string list \<Rightarrow> nat \<Rightarrow> dtree \<Rightarrow> bool" where
  "keeps_parents keep anc l (DNode n ps r ts) =
     ((keep (join_path (anc @ [n]), \<lparr>node_name = n, level = l, propertys = ps, reg_addresses = r\<rparr>) \<and>
         list_all (keeps_parents keep (anc @ [n]) (l + 1)) ts) \<or>
      list_all (\<lambda>x. \<not> keep x) (annot anc l (DNode n ps r ts)))"

definition include_node :: "FdtNode \<Rightarrow> writer \<Rightarrow> writer" where
  "include_node node s = write_props copy_prop node (set_level node (open_node node s))"

definition filter_step :: "(string \<times> FdtNode \<Rightarrow> bool) \<Rightarrow> string \<times> FdtNode \<Rightarrow> writer \<Rightarrow> writer" where
  "filter_step keep pn s = (if keep pn then include_node (snd pn) s else s)"

definition writer_ok :: "nat \<Rightarrow> writer \<Rightarrow> bool" where
  "writer_ok l s = (length (node_stack s) = previous_node_level s \<and> l - 1 \<le> previous_node_level s)"

definition closed_to :: "nat \<Rightarrow> writer \<Rightarrow> fdt_event list" where
  "closed_to l s = calls s @ replicate (previous_node_level s - (l - 1)) EndNode"

lemma end_last_pow:
  "k \<le> length (node_stack s) \<Longrightarrow>
     (end_last ^^ k) s = s\<lparr>calls := calls s @ replicate k EndNode, node_stack := take (length (node_stack s) - k) (node_stack s)\<rparr>"
proof (induction k)
  case (Suc k)
  let ?n = "length (node_stack s)"
  have IH: "(end_last ^^ k) s = s\<lparr>calls := calls s @ replicate k EndNode, node_stack := take (?n - k) (node_stack s)\<rparr>"
    using Suc by simp
  have "take (?n - k) (node_stack s) \<noteq> []" using Suc.prems by (cases "node_stack s") auto
  moreover have "butlast (take (?n - k) (node_stack s)) = take (?n - Suc k) (node_stack s)"
    using Suc.prems by (simp add: butlast_take)
  ultimately have "end_last (s\<lparr>calls := calls s @ replicate k EndNode, node_stack := take (?n - k) (node_stack s)\<rparr>) =
      s\<lparr>calls := calls s @ replicate (Suc k) EndNode, node_stack := take (?n - Suc k) (node_stack s)\<rparr>"
    by (simp add: end_last_def replicate_append_same)
  then show ?case by (simp add: IH)
qed simp

lemma include_node_ok:
  assumes "writer_ok (level node) s" "1 \<le> level node"
  shows "writer_ok (level node + 1) (include_node node s) \<and> previous_node_level (include_node node s) = level node \<and>
    calls (include_node node s) = closed_to (level node) s @ BeginNode (node_name node) # concat (map copy_prop (propertys node))"
proof -
  let ?k = "previous_node_level s - (level node - 1)"
  have h: "handle_node_level_change (level node) s = s\<lparr>calls := calls s @ replicate ?k EndNode,
      node_stack := take (length (node_stack s) - ?k) (node_stack s)\<rparr>"
  proof (cases "level node \<le> previous_node_level s")
    case True
    then have "previous_node_level s - level node + 1 = ?k" using assms(2) by simp
    then show ?thesis using True end_last_pow[of ?k s] assms(1) by (simp add: handle_node_level_change_def writer_ok_def)
  next
    case False
    then have "?k = 0" using assms by (simp add: writer_ok_def)
    then show ?thesis using False by (simp add: handle_node_level_change_def)
  qed
  show ?thesis using assms
    by (auto simp: include_node_def open_node_def h begin_node_def write_props_def set_level_def closed_to_def writer_ok_def)
qed

lemma writer_ok_less: "writer_ok (l + 1) s \<Longrightarrow> writer_ok l s"
  by (auto simp: writer_ok_def)

lemma filter_skip: "list_all (\<lambda>x. \<not> keep x) xs \<Longrightarrow> fold (filter_step keep) xs s = s"
  by (induction xs arbitrary: s) (auto simp: filter_step_def)

lemma prune_none: "list_all (\<lambda>x. \<not> keep x) (annot anc l t) \<Longrightarrow> prune keep anc l t = []"
  by (cases t) simp

lemma filter_fold_tree:
  "keeps_parents keep anc l t \<Longrightarrow> 1 \<le> l \<Longrightarrow> writer_ok l s \<Longrightarrow>
     writer_ok l (fold (filter_step keep) (annot anc l t) s) \<and>
     closed_to l (fold (filter_step keep) (annot anc l t) s) = closed_to l s @ concat (map tree_calls (prune keep anc l t))"
proof (induction t arbitrary: anc l s)
  case (DNode n ps r ts)
  let ?node = "\<lparr>node_name = n, level = l, propertys = ps, reg_addresses = r\<rparr>"
  let ?pn = "(join_path (anc @ [n]), ?node)"
  show ?case
  proof (cases "list_all (\<lambda>x. \<not> keep x) (annot anc l (DNode n ps r ts))")
    case True
    then show ?thesis using filter_skip[OF True, of s] prune_none[OF True] DNode.prems(3) by simp
  next
    case False
    then have keep: "keep ?pn" and kids: "\<forall>u \<in> set ts. keeps_parents keep (anc @ [n]) (l + 1) u"
      using DNode.prems(1) by (auto simp: list_all_iff)
    let ?s1 = "include_node ?node s"
    have s1: "writer_ok (l + 1) ?s1" "previous_node_level ?s1 = l"
        "calls ?s1 = closed_to l s @ BeginNode n # concat (map copy_prop ps)"
      using include_node_ok[of ?node s] DNode.prems(2,3) by simp_all
    have forest: "writer_ok (l + 1) (fold (filter_step keep) (concat (map (annot (anc @ [n]) (l + 1)) us)) s') \<and>
        closed_to (l + 1) (fold (filter_step keep) (concat (map (annot (anc @ [n]) (l + 1)) us)) s') =
          closed_to (l + 1) s' @ concat (map tree_calls (concat (map (prune keep (anc @ [n]) (l + 1)) us)))"
      if "set us \<subseteq> set ts" "writer_ok (l + 1) s'" for us s'
      using that
    proof (induction us arbitrary: s')
      case (Cons u us)
      have u: "writer_ok (l + 1) (fold (filter_step keep) (annot (anc @ [n]) (l + 1) u) s')"
          "closed_to (l + 1) (fold (filter_step keep) (annot (anc @ [n]) (l + 1) u) s') =
            closed_to (l + 1) s' @ concat (map tree_calls (prune keep (anc @ [n]) (l + 1) u))"
        using DNode.IH[of u "anc @ [n]" "l + 1" s'] Cons.prems kids by auto
      show ?case using Cons.IH[OF _ u(1)] Cons.prems(1) u(2) by simp
    qed simp
    let ?s2 = "fold (filter_step keep) (concat (map (annot (anc @ [n]) (l + 1)) ts)) ?s1"
    let ?kids = "concat (map tree_calls (concat (map (prune keep (anc @ [n]) (l + 1)) ts)))"
    have s2: "writer_ok (l + 1) ?s2" "closed_to (l + 1) ?s2 = closed_to (l + 1) ?s1 @ ?kids"
      using forest[OF subset_refl s1(1)] by simp_all
    have "previous_node_level ?s2 - (l - 1) = Suc (previous_node_level ?s2 - l)"
      using s2(1) DNode.prems(2) by (auto simp: writer_ok_def)
    then have "closed_to l ?s2 = closed_to (l + 1) ?s2 @ [EndNode]"
      by (simp add: closed_to_def replicate_append_same)
    also have "\<dots> = closed_to l s @ tree_calls (DNode n ps r (concat (map (prune keep (anc @ [n]) (l + 1)) ts)))"
      using s2(2) s1(2,3) by (simp add: closed_to_def)
    finally have "closed_to l ?s2 = closed_to l s @ tree_calls (DNode n ps r (concat (map (prune keep (anc @ [n]) (l + 1)) ts)))" .
    moreover have "writer_ok l ?s2" using s2(1) by (rule writer_ok_less)
    moreover have "fold (filter_step keep) (annot anc l (DNode n ps r ts)) s = ?s2" using keep by (simp add: filter_step_def)
    ultimately show ?thesis using keep by simp
  qed
qed

definition guest_keeps :: "usize list \<Rightarrow> string list \<Rightarrow> string \<times> FdtNode \<Rightarrow> bool" where
  "guest_keeps ids names pn = (case determine_node_action (snd pn) (fst pn) names of
     Skip \<Rightarrow> False | CpuNode \<Rightarrow> need_cpu_node ids (snd pn) (fst pn) | _ \<Rightarrow> True)"

lemma guest_node_filter:
  "node_name (snd pn) \<noteq> ''/'' \<Longrightarrow> guest_node ids names pn = filter_step (guest_keeps ids names) pn"
  by (cases pn) (auto simp: guest_node_def filter_step_def guest_keeps_def include_node_def determine_node_action_def)

definition guest_tree :: "usize list \<Rightarrow> string list \<Rightarrow> dtree \<Rightarrow> dtree" where
  "guest_tree ids names t =
     DNode [] (dt_props t) (dt_reg t) (concat (map (prune (guest_keeps ids names) [] 2) (dt_children t)))"


text \<open>Names without slashes, as device trees have them.\<close>

fun plain_names :: "dtree \<Rightarrow> bool" where
  "plain_names (DNode n ps r ts) = (n \<noteq> [] \<and> CHR ''/'' \<notin> set n \<and> list_all plain_names ts)"

text \<open>When a memory node or a node of a processor is left out, so is everything below it.\<close>

fun skips_whole :: "(string \<times> FdtNode \<Rightarrow> bool) \<Rightarrow> string list \<Rightarrow> nat \<Rightarrow> dtree \<Rightarrow> bool" where
  "skips_whole keep anc l (DNode n ps r ts) =
     ((keep (join_path (anc @ [n]), \<lparr>node_name = n, level = l, propertys = ps, reg_addresses = r\<rparr>) \<or>
       \<not> starts_with n ''memory'' \<and> \<not> starts_with (join_path (anc @ [n])) ''/cpus'' \<or>
       list_all (\<lambda>x. \<not> keep x) (concat (map (annot (anc @ [n]) (l + 1)) ts))) \<and>
      list_all (skips_whole keep (anc @ [n]) (l + 1)) ts)"

lemma str_join_append: "xs \<noteq> [] \<Longrightarrow> ys \<noteq> [] \<Longrightarrow> str_join sep (xs @ ys) = str_join sep xs @ sep @ str_join sep ys"
proof (induction sep xs rule: str_join.induct)
  case (2 sep x)
  then show ?case by (cases ys) simp_all
qed simp_all

lemma join_path_below: "xs \<noteq> [] \<Longrightarrow> ys \<noteq> [] \<Longrightarrow> join_path (xs @ ys) = join_path xs @ ''/'' @ str_join ''/'' ys"
  by (simp add: join_path_def str_join_append)

lemma join_path_count:
  "st \<noteq> [] \<Longrightarrow> \<forall>n \<in> set st. CHR ''/'' \<notin> set n \<Longrightarrow> count_list (join_path st) CHR ''/'' = length st"
proof (induction st rule: rev_induct)
  case (snoc x xs)
  then show ?case by (cases "xs = []") (simp_all add: join_path_below, simp add: join_path_def)
qed simp

lemma nth_char_prefix: "prefix (p @ c # r) q \<Longrightarrow> nth_char q (length p) = Some c"
  by (auto simp: nth_char_def prefix_def)

text \<open>A device path that is left out because no device is at, above or below it: then neither is anything below it kept.\<close>

lemma device_skip_below:
  assumes q: "q = p @ ''/'' @ rest" and p: "p = ''/'' @ x" "x \<noteq> []" and l: "lp = count_list p CHR ''/'' + 1"
    and no: "\<not> starts_with p ''/cpus''" "p \<notin> set names" "\<not> is_descendant_of_passthrough_device p lp names"
      "\<not> is_ancestor_of_passthrough_device p names"
  shows "\<not> starts_with q ''/cpus'' \<and> q \<notin> set names \<and> \<not> is_descendant_of_passthrough_device q lq names \<and>
    \<not> is_ancestor_of_passthrough_device q names"
proof -
  have anc: "\<not> prefix (p @ [CHR ''/'']) d" if "d \<in> set names" for d
    using no(4) that nth_char_prefix[of p "CHR ''/''" "[]" d] prefix_length_le[of "p @ [CHR ''/'']" d]
    by (auto simp: is_ancestor_of_passthrough_device_def list_ex_iff starts_with_prefix dest: append_prefixD)
  have pq: "prefix (p @ [CHR ''/'']) q" by (simp add: q)
  have "q \<notin> set names" using anc pq by blast
  moreover have "\<not> is_ancestor_of_passthrough_device q names"
    using anc pq prefix_order.trans[OF pq] by (auto simp: is_ancestor_of_passthrough_device_def list_ex_iff starts_with_prefix)
  moreover have "\<not> starts_with q ''/cpus''"
  proof
    assume "starts_with q ''/cpus''"
    then have "prefix ''/cpus'' q" by (simp add: starts_with_prefix)
    then consider "prefix ''/cpus'' p" | "prefix (p @ [CHR ''/'']) ''/cpus''"
      using prefix_same_cases[of "''/cpus''" q "p @ [CHR ''/'']"] pq by (auto simp: prefix_snoc)
    then show False
    proof cases
      case 1
      then show False using no(1) by (simp add: starts_with_prefix)
    next
      case 2
      then show False using p by (auto simp: prefix_def Cons_eq_append_conv append_eq_Cons_conv)
    qed
  qed
  moreover have "\<not> is_descendant_of_passthrough_device q lq names"
  proof
    assume "is_descendant_of_passthrough_device q lq names"
    then obtain d where d: "d \<in> set names" "prefix d q" "length d < length q" "d = ''/'' \<or> nth_char q (length d) = Some CHR ''/''"
      by (auto simp: is_descendant_of_passthrough_device_def list_ex_iff starts_with_prefix)
    have desc: False if "prefix (d @ [CHR ''/'']) p" "d \<noteq> ''/''"
    proof -
      from that(1) obtain z where z: "p = d @ CHR ''/'' # z" by (auto simp: prefix_def)
      then have "lp > count_list d CHR ''/''" using l by simp
      then show False using no(3) d(1) z that(2) nth_char_prefix[of d "CHR ''/''" z p]
        by (auto simp: is_descendant_of_passthrough_device_def list_ex_iff starts_with_prefix)
    qed
    show False
    proof (cases "d = ''/''")
      case True
      then show False using no(3) d(1) p l by (auto simp: is_descendant_of_passthrough_device_def list_ex_iff starts_with_prefix)
    next
      case False
      then have dq: "prefix (d @ [CHR ''/'']) q" using d(2-4) by (auto simp: prefix_def nth_char_def nth_append split: if_splits) (metis Cons_nth_drop_Suc append.simps(1) drop0 gr0_conv_Suc length_greater_0_conv nth_Cons_0)
      from prefix_same_cases[OF dq pq] show False
      proof
        assume "prefix (d @ [CHR ''/'']) (p @ [CHR ''/''])"
        then consider "d = p" | "prefix (d @ [CHR ''/'']) p" by (auto simp: prefix_snoc)
        then show False using desc False no(2) d(1) by cases auto
      next
        assume "prefix (p @ [CHR ''/'']) (d @ [CHR ''/''])"
        then consider "d = p" | "prefix (p @ [CHR ''/'']) d" by (auto simp: prefix_snoc)
        then show False using anc d(1) no(2) by cases auto
      qed
    qed
  qed
  ultimately show ?thesis by blast
qed

lemma stacks_extend: "st \<in> set (stacks anc t) \<Longrightarrow> \<exists>m. m \<noteq> [] \<and> st = anc @ m"
proof (induction t arbitrary: anc)
  case (DNode n ps r ts)
  consider "st = anc @ [n]" | u where "u \<in> set ts" "st \<in> set (stacks (anc @ [n]) u)" using DNode.prems by auto
  then show ?case
  proof cases
    case 2
    then obtain m where "st = (anc @ [n]) @ m" using DNode.IH by blast
    then show ?thesis by simp
  qed simp
qed

lemma annot_path:
  assumes "pn \<in> set (annot anc l t)"
  shows "\<exists>m. m \<noteq> [] \<and> fst pn = join_path (anc @ m)"
proof -
  have "fst pn \<in> set (map fst (annot anc l t))" using assms by force
  then show ?thesis using stacks_extend unfolding annot_fst by force
qed

lemma annot_plain: "pn \<in> set (annot anc l t) \<Longrightarrow> plain_names t \<Longrightarrow> node_name (snd pn) \<noteq> ''/''"
  by (induction t arbitrary: anc l) (auto simp: list_all_iff)

lemma guest_keeps_parents:
  "plain_names t \<Longrightarrow> \<forall>n \<in> set anc. CHR ''/'' \<notin> set n \<Longrightarrow> l = length anc + 2 \<Longrightarrow>
     skips_whole (guest_keeps ids names) anc l t \<Longrightarrow> keeps_parents (guest_keeps ids names) anc l t"
proof (induction t arbitrary: anc l)
  case (DNode n ps r ts)
  let ?K = "guest_keeps ids names" and ?p = "join_path (anc @ [n])"
  let ?node = "\<lparr>node_name = n, level = l, propertys = ps, reg_addresses = r\<rparr>"
  let ?below = "concat (map (annot (anc @ [n]) (l + 1)) ts)"
  have n: "n \<noteq> []" "CHR ''/'' \<notin> set n" "n \<noteq> ''/''" and plain: "\<forall>u \<in> set ts. plain_names u"
    using DNode.prems(1) by (auto simp: list_all_iff)
  show ?case
  proof (cases "?K (?p, ?node)")
    case True
    have "keeps_parents ?K (anc @ [n]) (l + 1) u" if "u \<in> set ts" for u
      using DNode.IH[OF that, of "anc @ [n]" "l + 1"] plain that DNode.prems n(2) by (simp add: list_all_iff)
    then show ?thesis using True by (simp add: list_all_iff)
  next
    case False
    have "list_all (\<lambda>x. \<not> ?K x) ?below"
    proof (cases "starts_with n ''memory'' \<or> starts_with ?p ''/cpus''")
      case True
      then show ?thesis using DNode.prems(4) False by auto
    next
      case dev: False
      have no: "?p \<notin> set names" "\<not> is_descendant_of_passthrough_device ?p l names" "\<not> is_ancestor_of_passthrough_device ?p names"
        using False dev n(3) by (auto simp: guest_keeps_def determine_node_action_def split: if_splits)
      have l: "l = count_list ?p CHR ''/'' + 1" using join_path_count[of "anc @ [n]"] DNode.prems(2,3) n(2) by simp
      have p: "?p = ''/'' @ str_join ''/'' (anc @ [n])" "str_join ''/'' (anc @ [n]) \<noteq> []"
        using n(1) by (simp_all add: join_path_def) (cases "anc = []", simp_all add: str_join_append)
      have "\<not> ?K pn" if pn: "pn \<in> set ?below" for pn
      proof -
        obtain u where u: "u \<in> set ts" "pn \<in> set (annot (anc @ [n]) (l + 1) u)" using pn by auto
        obtain m where "m \<noteq> []" "fst pn = join_path ((anc @ [n]) @ m)" using annot_path[OF u(2)] by blast
        then have "fst pn = ?p @ ''/'' @ str_join ''/'' m" using join_path_below[of "anc @ [n]" m] by simp
        from device_skip_below[OF this p l _ no, of "level (snd pn)"] dev annot_plain[OF u(2)] plain u(1) show ?thesis
          by (simp add: guest_keeps_def determine_node_action_def)
      qed
      then show ?thesis by (simp add: list_all_iff)
    qed
    then show ?thesis using False by simp
  qed
qed

lemma guest_forest:
  assumes "list_all plain_names us" "list_all (skips_whole (guest_keeps ids names) [] 2) us" "writer_ok 2 s"
  shows "writer_ok 2 (fold (filter_step (guest_keeps ids names)) (concat (map (annot [] 2) us)) s) \<and>
    closed_to 2 (fold (filter_step (guest_keeps ids names)) (concat (map (annot [] 2) us)) s) =
      closed_to 2 s @ concat (map tree_calls (concat (map (prune (guest_keeps ids names) [] 2) us)))"
  using assms
proof (induction us arbitrary: s)
  case (Cons u us)
  let ?K = "guest_keeps ids names"
  have "keeps_parents ?K [] 2 u" using Cons.prems(1,2) by (intro guest_keeps_parents) simp_all
  from filter_fold_tree[OF this _ Cons.prems(3)] have u: "writer_ok 2 (fold (filter_step ?K) (annot [] 2 u) s)"
    "closed_to 2 (fold (filter_step ?K) (annot [] 2 u) s) = closed_to 2 s @ concat (map tree_calls (prune ?K [] 2 u))"
    by simp_all
  show ?case using Cons.IH[OF _ _ u(1)] Cons.prems(1,2) u(2) by simp
qed simp

lemma crate_guest_fdt_tree:
  assumes "dt_name t = ''/''" "list_all plain_names (dt_children t)"
    "list_all (skips_whole (guest_keeps ids names) [] 2) (dt_children t)"
  shows "crate_guest_fdt (Some ids) names (flatten 1 t) = Done (tree_calls (guest_tree ids names t))"
proof -
  let ?K = "guest_keeps ids names"
  let ?root = "\<lparr>node_name = dt_name t, level = 1, propertys = dt_props t, reg_addresses = dt_reg t\<rparr>"
  have "dt_name c \<noteq> ''/''" if "c \<in> set (dt_children t)" for c
    using that assms(2) by (cases c rule: dtree.exhaust) (auto simp: list_all_iff)
  then have paths: "with_paths (flatten 1 t) = root_annot t" using assms(1) by (intro with_paths_annot) (simp add: rooted_def)
  let ?s1 = "guest_node ids names (''/'', ?root) writer_new"
  have s1: "calls ?s1 = BeginNode [] # concat (map copy_prop (dt_props t))" "writer_ok 2 ?s1" "previous_node_level ?s1 = 1"
    using assms(1) by (simp_all add: guest_node_def determine_node_action_def write_props_def set_level_def begin_node_def
        writer_new_def writer_ok_def)
  have "fold (guest_node ids names) xs s = fold (filter_step ?K) xs s" if "\<forall>pn \<in> set xs. node_name (snd pn) \<noteq> ''/''" for xs s
    using that by (induction xs arbitrary: s) (simp_all add: guest_node_filter)
  moreover have "\<forall>pn \<in> set (concat (map (annot [] 2) (dt_children t))). node_name (snd pn) \<noteq> ''/''"
    using assms(2) annot_plain by (force simp: list_all_iff)
  ultimately have f: "fold (guest_node ids names) (root_annot t) writer_new = fold (filter_step ?K) (concat (map (annot [] 2) (dt_children t))) ?s1"
    by (simp add: root_annot_def)
  let ?s2 = "fold (filter_step ?K) (concat (map (annot [] 2) (dt_children t))) ?s1"
  have s2: "length (node_stack ?s2) = previous_node_level ?s2" "1 \<le> previous_node_level ?s2"
      "closed_to 2 ?s2 = closed_to 2 ?s1 @ concat (map tree_calls (concat (map (prune ?K [] 2) (dt_children t))))"
    using guest_forest[OF assms(2,3) s1(2)] by (simp_all add: writer_ok_def)
  have g: "fold (guest_node ids names) (with_paths (flatten 1 t)) writer_new = ?s2" unfolding paths f ..
  obtain k where k: "previous_node_level ?s2 = Suc k" using s2(2) by (cases "previous_node_level ?s2") simp_all
  have "crate_guest_fdt (Some ids) names (flatten 1 t) = Done (calls ?s2 @ replicate (Suc k) EndNode)"
    unfolding crate_guest_fdt_def option.case g close_all_def using s2(1) k
    by (simp add: map_replicate_const del: upt_Suc replicate.simps)
  also have "calls ?s2 @ replicate (Suc k) EndNode = closed_to 2 ?s2 @ [EndNode]"
    using k by (simp add: closed_to_def replicate_append_same)
  finally show ?thesis using s1(1,3) s2(3) by (simp add: guest_tree_def closed_to_def)
qed

text \<open>
  \<^bold>\<open>C10\<close> (refinement). The tree generated for a guest is the host's tree without the nodes that the
  guest does not get, whole: the calls to the writer are exactly those that write the pruned tree,
  properly nested, with every property of every node that is kept, and the final assertion holds.
  A node is kept if it is the root, a processor node that is wanted, a device to be passed through,
  or below or above one. This needs that names have no slashes, and that nothing is kept below a
  memory node or below a processor node that is left out; a device that is left out never has
  anything below it that is kept.
\<close>

theorem guest_fdt_is_pruned_tree:
  assumes "dt_name t = ''/''" "list_all plain_names (dt_children t)"
    "list_all (skips_whole (guest_keeps ids names) [] 2) (dt_children t)"
  shows "crate_guest_fdt (Some ids) names (flatten 1 t) = Done (tree_calls (guest_tree ids names t))"
  using assms by (rule crate_guest_fdt_tree)

text \<open>A host with a bus of two devices, two processors and memory; the guest gets one of the devices and processor 1.\<close>

definition host_tree :: dtree where
  "host_tree = DNode ''/'' [] None
     [DNode ''cpus'' [] None [DNode ''cpu@0'' [] (Some [0]) [], DNode ''cpu@1'' [] (Some [1]) []],
      DNode ''memory@0'' [] (Some [0]) [],
      DNode ''soc'' [] None [DNode ''uart@0'' [] None [DNode ''dma'' [] None []], DNode ''usb@1'' [] None []]]"

theorem guest_fdt_is_pruned_tree_witness:
  "crate_guest_fdt (Some [1]) [''/soc/uart@0''] (flatten 1 host_tree) =
     Done [BeginNode [], BeginNode ''cpus'', BeginNode ''cpu@1'', EndNode, EndNode,
           BeginNode ''soc'', BeginNode ''uart@0'', BeginNode ''dma'', EndNode, EndNode, EndNode, EndNode]"
proof -
  note defs = guest_keeps_def determine_node_action_def need_cpu_node_def join_path_def starts_with_def nth_char_def
    is_descendant_of_passthrough_device_def is_ancestor_of_passthrough_device_def
  have "dt_name host_tree = ''/''" "list_all plain_names (dt_children host_tree)" by (simp_all add: host_tree_def)
  moreover have "list_all (skips_whole (guest_keeps [1] [''/soc/uart@0'']) [] 2) (dt_children host_tree)"
    by (simp add: host_tree_def defs)
  moreover have "tree_calls (guest_tree [1] [''/soc/uart@0''] host_tree) =
     [BeginNode [], BeginNode ''cpus'', BeginNode ''cpu@1'', EndNode, EndNode,
      BeginNode ''soc'', BeginNode ''uart@0'', BeginNode ''dma'', EndNode, EndNode, EndNode, EndNode]"
    by (simp add: guest_tree_def host_tree_def defs)
  ultimately show ?thesis using guest_fdt_is_pruned_tree[of host_tree "[1]" "[''/soc/uart@0'']"] by simp
qed

end
