(* ===== verification/VM_Images.thy ===== *)
theory VM_Images
  imports Fdt_Create
begin

text \<open>
  Loading the images of a guest, \<^verbatim>\<open>kernel/src/vmm/images/mod.rs\<close>, and the header of a Linux kernel,
  \<^verbatim>\<open>kernel/src/vmm/images/linux.rs\<close>.

  An image is copied to the host memory behind a range of guest addresses, which the VM object of the
  \<^verbatim>\<open>axvm\<close> crate gives as a list of slices; a slice is a host address and a length. The methods of the
  VM object are the fields of \<open>vm_load\<close>, those of a file the fields of \<open>image_fs\<close>, and the parser and
  the writer of device trees the fields of \<open>fdt_lib\<close>.
\<close>

section \<open>The header of a kernel image\<close>

datatype PageSize = Unspecified | Size4K | Size16K | Size64K

datatype ImageArch = Riscv bool | Arm64 bool PageSize bool

record Header =
  hdr_text_offset :: u64
  hdr_image_size :: u64
  hdr_arch :: ImageArch

record ARM64Header =
  arm_code0 :: u32
  arm_code1 :: u32
  arm_text_offset :: u64
  arm_image_size :: u64
  arm_flags :: u64
  arm_res2 :: u64
  arm_res3 :: u64
  arm_res4 :: u64
  arm_magic :: u32
  arm_res5 :: u32

definition ARM64_MAGIC :: u32 where
  "ARM64_MAGIC = 0x644d5241"

text \<open>\<^verbatim>\<open>read_unaligned\<close> of the \<^verbatim>\<open>repr(C)\<close> structure on a little-endian machine.\<close>

definition ARM64_read :: "u8 list \<Rightarrow> ARM64Header" where
  "ARM64_read b = \<lparr>arm_code0 = le_u32 (slice 0 4 b), arm_code1 = le_u32 (slice 4 8 b),
     arm_text_offset = le_u64 (slice 8 16 b), arm_image_size = le_u64 (slice 16 24 b),
     arm_flags = le_u64 (slice 24 32 b), arm_res2 = le_u64 (slice 32 40 b),
     arm_res3 = le_u64 (slice 40 48 b), arm_res4 = le_u64 (slice 48 56 b),
     arm_magic = le_u32 (slice 56 60 b), arm_res5 = le_u32 (slice 60 64 b)\<rparr>"

definition ARM64Header_parse :: "u8 list \<Rightarrow> ARM64Header option" where
  "ARM64Header_parse buffer =
     (if length buffer < 64 then None
      else let hdr = ARM64_read buffer in if arm_magic hdr \<noteq> ARM64_MAGIC then None else Some hdr)"

definition kernel_is_be :: "u64 \<Rightarrow> bool" where
  "kernel_is_be flags = (and flags 0x1 \<noteq> 0)"

definition page_size :: "ARM64Header \<Rightarrow> PageSize" where
  "page_size h = (let f = and (drop_bit 1 (arm_flags h)) 0x3 in
     if f = 0 then Unspecified else if f = 1 then Size4K else if f = 2 then Size16K
     else if f = 3 then Size64K else Unspecified)"

definition phys_placement_48bit :: "ARM64Header \<Rightarrow> bool" where
  "phys_placement_48bit h = (and (drop_bit 3 (arm_flags h)) 0x1 \<noteq> 0)"

text \<open>
  The RISC-V structure is not \<^verbatim>\<open>repr(C)\<close>: where its fields are in the buffer is up to the compiler. The
  size and the reading of it are the parameter \<open>riscv_layout\<close>.
\<close>

record RiscvHeader =
  rv_text_offset :: u64
  rv_image_size :: u64
  rv_flags :: u64
  rv_magic :: u64
  rv_magic2 :: u32

record riscv_layout =
  rv_size :: nat
  rv_read :: "u8 list \<Rightarrow> RiscvHeader"

definition RISCV_MAGIC :: u64 where "RISCV_MAGIC = 0x5643534952"
definition RISCV_MAGIC2 :: u32 where "RISCV_MAGIC2 = 0x56534905"

definition RiscvHeader_parse :: "riscv_layout \<Rightarrow> u8 list \<Rightarrow> RiscvHeader option" where
  "RiscvHeader_parse L buffer =
     (if length buffer < rv_size L then None
      else let hdr = rv_read L buffer in
        if rv_magic hdr \<noteq> RISCV_MAGIC \<or> rv_magic2 hdr \<noteq> RISCV_MAGIC2 then None else Some hdr)"

definition Header_parse :: "riscv_layout \<Rightarrow> u8 list \<Rightarrow> Header option" where
  "Header_parse L img =
     (case ARM64Header_parse img of
        Some hdr \<Rightarrow> Some \<lparr>hdr_text_offset = arm_text_offset hdr, hdr_image_size = arm_image_size hdr,
          hdr_arch = Arm64 (kernel_is_be (arm_flags hdr)) (page_size hdr) (phys_placement_48bit hdr)\<rparr>
      | None \<Rightarrow>
          (case RiscvHeader_parse L img of
             Some hdr \<Rightarrow> Some \<lparr>hdr_text_offset = rv_text_offset hdr, hdr_image_size = rv_image_size hdr,
               hdr_arch = Riscv (kernel_is_be (rv_flags hdr))\<rparr>
           | None \<Rightarrow> None))"

definition hdr_size :: nat where
  "hdr_size = 64"

section \<open>Configurations, files and the VM object\<close>

text \<open>What the code reads of the configuration file of a VM, \<^verbatim>\<open>AxVMCrateConfig\<close>.\<close>

datatype VmMemMappingType = MapAlloc | MapIdentical | MapReserved

record VmMemConfig =
  mem_gpa :: usize
  mem_size :: usize
  map_type :: VmMemMappingType

record AxVMCrateConfig =
  base_id :: usize
  base_phys_cpu_ids :: "usize list option"
  image_location :: "string option"
  kernel_path :: string
  bios_path :: "string option"
  dtb_path :: "string option"
  ramdisk_path :: "string option"
  kernel_memory_regions :: "VmMemConfig list"

text \<open>An entry of \<^verbatim>\<open>get_memory_images\<close>, which the build generates.\<close>

record MemoryImage =
  mi_id :: usize
  mi_kernel :: "u8 list"
  mi_dtb :: "u8 list option"
  mi_bios :: "u8 list option"
  mi_ramdisk :: "u8 list option"

text \<open>The part of the configuration of a VM that \<^verbatim>\<open>with_config\<close> gives access to.\<close>

record vm_addresses =
  kernel_load_gpa :: usize
  bios_load_gpa :: "usize option"
  dtb_load_gpa :: "usize option"
  ramdisk_load_gpa :: "usize option"
  bsp_entry :: usize
  ap_entry :: usize

type_synonym region = "usize \<times> nat"

record 'v vm_load =
  vl_memory_regions :: "'v \<Rightarrow> main_memory list"
  vl_image_load_region :: "'v \<Rightarrow> usize \<Rightarrow> usize \<Rightarrow> region list ax_result"
  vl_config :: "'v \<Rightarrow> vm_addresses"
  vl_set_config :: "vm_addresses \<Rightarrow> 'v \<Rightarrow> 'v"

text \<open>
  Files: \<^verbatim>\<open>File::open\<close>, the size of the metadata, and \<^verbatim>\<open>read_exact\<close>, which returns whether it filled the
  buffer, the bytes it has put there, and the file after it.
\<close>

record 'f image_fs =
  if_open :: "string \<Rightarrow> 'f option"
  if_size :: "'f \<Rightarrow> usize option"
  if_read_exact :: "'f \<Rightarrow> nat \<Rightarrow> bool \<times> u8 list \<times> 'f"

text \<open>
  The parser gives the nodes of a blob with what it reads of their properties: the ranges of \<^verbatim>\<open>reg\<close> with
  their sizes, the ranges of a PCI bridge, and the interrupts. The writer gives the blob for its calls.
\<close>

datatype PciSpace = Configuration | IO | Memory32 | Memory64

record PciRange =
  pci_space :: PciSpace
  pci_cpu_address :: u64
  pci_size :: u64

record DevNode = FdtNode +
  node_reg :: "(u64 \<times> usize option) list option"
  node_pci_ranges :: "PciRange list option"
  node_interrupts :: "u32 list list option"

record fdt_lib =
  fl_from_bytes :: "u8 list \<Rightarrow> DevNode list option"
  fl_finish :: "fdt_event list \<Rightarrow> u8 list"
  fl_align_down :: "usize \<Rightarrow> usize \<Rightarrow> usize"

section \<open>Host memory\<close>

text \<open>The memory of the host, the ranges cleaned from the data cache so far, and the VM object.\<close>

record 'v load_state =
  hmem :: "usize \<Rightarrow> u8"
  cleaned :: "region list"
  the_vm :: 'v

definition write_bytes :: "usize \<Rightarrow> u8 list \<Rightarrow> (usize \<Rightarrow> u8) \<Rightarrow> usize \<Rightarrow> u8" where
  "write_bytes a bs m = (\<lambda>x. let i = unat (x - a) in if i < length bs then bs ! i else m x)"

definition fill_region :: "region \<Rightarrow> u8 list \<Rightarrow> 'v load_state \<Rightarrow> 'v load_state" where
  "fill_region r bs st = st\<lparr>hmem := write_bytes (fst r) bs (hmem st)\<rparr>"

definition dcache_clean :: "region \<Rightarrow> 'v load_state \<Rightarrow> 'v load_state" where
  "dcache_clean r st = st\<lparr>cleaned := cleaned st @ [r]\<rparr>"

section \<open>Loading one image\<close>

fun copy_regions :: "u8 list \<Rightarrow> nat \<Rightarrow> region list \<Rightarrow> 'v load_state \<Rightarrow> 'v load_state" where
  "copy_regions img pos [] st = st"
| "copy_regions img pos (r # rs) st =
     (let bytes_to_write = min (snd r) (length img - pos);
          st1 = dcache_clean r (fill_region r (take bytes_to_write (drop pos img)) st);
          pos1 = pos + bytes_to_write
      in if pos1 \<ge> length img then st1 else copy_regions img pos1 rs st1)"

definition load_vm_image_from_memory ::
    "'v vm_load \<Rightarrow> u8 list \<Rightarrow> usize \<Rightarrow> 'v load_state \<Rightarrow> unit ax_result \<times> 'v load_state" where
  "load_vm_image_from_memory V img load_addr st =
     (case vl_image_load_region V (the_vm st) load_addr (of_nat (length img)) of
        Inl e \<Rightarrow> (Inl e, st)
      | Inr rs \<Rightarrow> (Inr (), copy_regions img 0 rs st))"

definition open_image_file :: "'f image_fs \<Rightarrow> string \<Rightarrow> ('f \<times> usize) ax_result" where
  "open_image_file F file_name =
     (case if_open F file_name of
        None \<Rightarrow> Inl NotFound
      | Some file \<Rightarrow> (case if_size F file of None \<Rightarrow> Inl Io | Some n \<Rightarrow> Inr (file, n)))"

fun read_regions :: "'f image_fs \<Rightarrow> 'f \<Rightarrow> region list \<Rightarrow> 'v load_state \<Rightarrow> unit ax_result \<times> 'v load_state" where
  "read_regions F file [] st = (Inr (), st)"
| "read_regions F file (r # rs) st =
     (case if_read_exact F file (snd r) of
        (ok, bs, file1) \<Rightarrow>
          let st1 = fill_region r bs st
          in if \<not> ok then (Inl Io, st1) else read_regions F file1 rs (dcache_clean r st1))"

definition load_vm_image ::
    "'v vm_load \<Rightarrow> 'f image_fs \<Rightarrow> string \<Rightarrow> usize \<Rightarrow> 'v load_state \<Rightarrow> unit ax_result \<times> 'v load_state" where
  "load_vm_image V F image_path image_load_gpa st =
     (case open_image_file F image_path of
        Inl e \<Rightarrow> (Inl e, st)
      | Inr (file, image_size) \<Rightarrow>
          (case vl_image_load_region V (the_vm st) image_load_gpa image_size of
             Inl e \<Rightarrow> (Inl e, st)
           | Inr rs \<Rightarrow> read_regions F file rs st))"

definition kernal_read :: "'f image_fs \<Rightarrow> AxVMCrateConfig \<Rightarrow> nat \<Rightarrow> u8 list ax_result" where
  "kernal_read F config read_size =
     (case if_open F (kernel_path config) of
        None \<Rightarrow> Inl NotFound
      | Some file \<Rightarrow>
          (case if_read_exact F file read_size of (ok, bs, _) \<Rightarrow> if ok then Inr bs else Inl NotFound))"


section \<open>Loading the images of a VM\<close>

text \<open>
  The surroundings of the loader: the VM object, the files, the device tree crates, the images of the
  build, whether the target is AArch64 and the \<^verbatim>\<open>fs\<close> feature is on, and the identifier of the
  \<^verbatim>\<open>AxVMConfig\<close> made from a configuration file.
\<close>

record ('v, 'f) image_env =
  ie_vm :: "'v vm_load"
  ie_files :: "'f image_fs"
  ie_fdt :: fdt_lib
  ie_memory_images :: "MemoryImage list"
  ie_aarch64 :: bool
  ie_fs :: bool
  ie_config_id :: "AxVMCrateConfig \<Rightarrow> usize"
  ie_riscv :: riscv_layout

text \<open>The cache of generated trees is a \<^verbatim>\<open>LazyInit\<close>; before \<open>init_dtb_cache\<close> it is \<open>None\<close>.\<close>

type_synonym dtb_cache = "(usize, u8 list) btree option"

definition image_location_help :: string where
  "image_location_help = ''not implemented: Check your \"image_location\" in config.toml''"

definition missing_images :: string where
  "missing_images = ''VM images is missed, Perhaps add `VM_CONFIGS=PATH/CONFIGS/FILE` command.''"

definition with_memory_image :: "MemoryImage list \<Rightarrow> AxVMCrateConfig \<Rightarrow> (u8 list \<Rightarrow> 'r) \<Rightarrow> 'r outcome" where
  "with_memory_image images config func =
     (case find (\<lambda>v. mi_id v = base_id config) images of
        None \<Rightarrow> Panic missing_images
      | Some v \<Rightarrow> Done (func (mi_kernel v)))"

definition get_image_header :: "('v, 'f) image_env \<Rightarrow> AxVMCrateConfig \<Rightarrow> Header option outcome" where
  "get_image_header E config =
     (if image_location config = Some ''memory''
      then with_memory_image (ie_memory_images E) config (Header_parse (ie_riscv E))
      else if ie_fs E \<and> image_location config = Some ''fs''
      then (case kernal_read (ie_files E) config hdr_size of
              Inl _ \<Rightarrow> Done None
            | Inr data \<Rightarrow> Done (Header_parse (ie_riscv E) data))
      else Panic image_location_help)"

definition get_vm_dtb_arc :: "bool \<Rightarrow> dtb_cache \<Rightarrow> usize \<Rightarrow> u8 list option outcome" where
  "get_vm_dtb_arc aarch64 cache vm_id =
     (if \<not> aarch64 then Done None
      else case cache of None \<Rightarrow> Panic ''called `Option::unwrap()` on a `None` value'' | Some m \<Rightarrow> Done (bt_get vm_id m))"

definition expect_load :: "string \<Rightarrow> unit ax_result \<times> 'v load_state \<Rightarrow> 'v load_state outcome" where
  "expect_load msg r = (case fst r of Inl _ \<Rightarrow> Panic msg | Inr _ \<Rightarrow> Done (snd r))"

text \<open>All of \<^verbatim>\<open>update_fdt\<close>: the updated tree is placed and loaded.\<close>

definition update_fdt_and_load :: "fdt_lib \<Rightarrow> 'v vm_load \<Rightarrow> u8 list \<Rightarrow> 'v load_state \<Rightarrow> 'v load_state outcome" where
  "update_fdt_and_load L V dtb st =
     (case fl_from_bytes L dtb of
        None \<Rightarrow> Panic ''Failed to parse FDT''
      | Some nodes \<Rightarrow>
          (let regions = vl_memory_regions V (the_vm st); cfg = vl_config V (the_vm st) in
           outcome_bind (update_fdt (map (\<lambda>m. (mm_gpa m, mm_size m)) regions) (map FdtNode.truncate nodes)) (\<lambda>events.
             let new_fdt_bytes = fl_finish L events in
             outcome_bind (calculate_dtb_load_addr (fl_align_down L) regions (of_nat (length new_fdt_bytes)) (dtb_load_gpa cfg))
               (\<lambda>(dest_addr, stored).
                  expect_load ''Failed to load VM images''
                    (load_vm_image_from_memory V new_fdt_bytes dest_addr
                       (st\<lparr>the_vm := vl_set_config V (cfg\<lparr>dtb_load_gpa := stored\<rparr>) (the_vm st)\<rparr>))))))"

record ImageLoader =
  il_config :: AxVMCrateConfig
  il_kernel_load_gpa :: usize
  il_bios_load_gpa :: "usize option"
  il_dtb_load_gpa :: "usize option"
  il_ramdisk_load_gpa :: "usize option"

definition ImageLoader_new :: "AxVMCrateConfig \<Rightarrow> ImageLoader" where
  "ImageLoader_new config = \<lparr>il_config = config, il_kernel_load_gpa = 0, il_bios_load_gpa = None,
     il_dtb_load_gpa = None, il_ramdisk_load_gpa = None\<rparr>"

definition load_dtb :: "('v, 'f) image_env \<Rightarrow> dtb_cache \<Rightarrow> ImageLoader \<Rightarrow> 'v load_state \<Rightarrow> 'v load_state outcome" where
  "load_dtb E cache loader st =
     outcome_bind (get_vm_dtb_arc (ie_aarch64 E) cache (ie_config_id E (il_config loader)))
       (\<lambda>dtb. case dtb of None \<Rightarrow> Done st | Some b \<Rightarrow> update_fdt_and_load (ie_fdt E) (ie_vm E) b st)"

definition load_optional :: "'v vm_load \<Rightarrow> string \<Rightarrow> u8 list option \<Rightarrow> usize option \<Rightarrow> 'v load_state \<Rightarrow> 'v load_state outcome" where
  "load_optional V msg buffer gpa st =
     (case buffer of
        None \<Rightarrow> Done st
      | Some b \<Rightarrow>
          (case gpa of
             None \<Rightarrow> Panic ''called `Option::unwrap()` on a `None` value''
           | Some a \<Rightarrow> expect_load msg (load_vm_image_from_memory V b a st)))"

definition load_vm_images_from_memory ::
    "('v, 'f) image_env \<Rightarrow> dtb_cache \<Rightarrow> ImageLoader \<Rightarrow> 'v load_state \<Rightarrow> (unit ax_result \<times> 'v load_state) outcome" where
  "load_vm_images_from_memory E cache loader st =
     (case find (\<lambda>v. mi_id v = base_id (il_config loader)) (ie_memory_images E) of
        None \<Rightarrow> Panic missing_images
      | Some v \<Rightarrow>
          outcome_bind (expect_load ''Failed to load VM images''
              (load_vm_image_from_memory (ie_vm E) (mi_kernel v) (il_kernel_load_gpa loader) st)) (\<lambda>st1.
          outcome_bind (load_dtb E cache loader st1) (\<lambda>st2.
          outcome_bind (load_optional (ie_vm E) ''Failed to load BIOS images'' (mi_bios v) (il_bios_load_gpa loader) st2) (\<lambda>st3.
          outcome_bind (load_optional (ie_vm E) ''Failed to load Ramdisk images'' (mi_ramdisk v) (il_ramdisk_load_gpa loader) st3)
            (\<lambda>st4. Done (Inr (), st4))))))"

text \<open>An image that is loaded if the configuration names it; without an address that is an error.\<close>

definition load_named :: "('v, 'f) image_env \<Rightarrow> string option \<Rightarrow> usize option \<Rightarrow> 'v load_state \<Rightarrow> unit ax_result \<times> 'v load_state" where
  "load_named E path gpa st =
     (case path of
        None \<Rightarrow> (Inr (), st)
      | Some p \<Rightarrow> (case gpa of None \<Rightarrow> (Inl NotFound, st) | Some a \<Rightarrow> load_vm_image (ie_vm E) (ie_files E) p a st))"

definition load_vm_images_from_filesystem ::
    "('v, 'f) image_env \<Rightarrow> dtb_cache \<Rightarrow> ImageLoader \<Rightarrow> 'v load_state \<Rightarrow> (unit ax_result \<times> 'v load_state) outcome" where
  "load_vm_images_from_filesystem E cache loader st =
     (case load_vm_image (ie_vm E) (ie_files E) (kernel_path (il_config loader)) (il_kernel_load_gpa loader) st of
        (Inl e, st1) \<Rightarrow> Done (Inl e, st1)
      | (Inr _, st1) \<Rightarrow>
        (case load_named E (bios_path (il_config loader)) (il_bios_load_gpa loader) st1 of
           (Inl e, st2) \<Rightarrow> Done (Inl e, st2)
         | (Inr _, st2) \<Rightarrow>
           (case load_named E (ramdisk_path (il_config loader)) (il_ramdisk_load_gpa loader) st2 of
              (Inl e, st3) \<Rightarrow> Done (Inl e, st3)
            | (Inr _, st3) \<Rightarrow> outcome_bind (load_dtb E cache loader st3) (\<lambda>st4. Done (Inr (), st4)))))"

definition ImageLoader_load ::
    "('v, 'f) image_env \<Rightarrow> dtb_cache \<Rightarrow> ImageLoader \<Rightarrow> 'v load_state \<Rightarrow> (unit ax_result \<times> 'v load_state) outcome" where
  "ImageLoader_load E cache loader st =
     (let config = vl_config (ie_vm E) (the_vm st);
          loader1 = loader\<lparr>il_kernel_load_gpa := kernel_load_gpa config, il_dtb_load_gpa := dtb_load_gpa config,
            il_bios_load_gpa := bios_load_gpa config, il_ramdisk_load_gpa := ramdisk_load_gpa config\<rparr>
      in if image_location (il_config loader1) = Some ''memory'' then load_vm_images_from_memory E cache loader1 st
         else if ie_fs E \<and> image_location (il_config loader1) = Some ''fs'' then load_vm_images_from_filesystem E cache loader1 st
         else Panic image_location_help)"


section \<open>An image arrives where the guest sees it\<close>

text \<open>The host addresses of a list of slices, byte by byte.\<close>

definition region_bytes :: "region list \<Rightarrow> usize list" where
  "region_bytes rs = concat (map (\<lambda>r. map (\<lambda>i. fst r + of_nat i) [0..<snd r]) rs)"

text \<open>
  What \<^verbatim>\<open>get_image_load_region\<close> promises: the slices are the memory behind the guest range, in its order
  (\<open>translate\<close> is the translation of guest addresses), and as mutable slices they do not overlap.
\<close>

definition vm_load_laws :: "'v vm_load \<Rightarrow> ('v \<Rightarrow> usize \<Rightarrow> usize) \<Rightarrow> bool" where
  "vm_load_laws V translate =
     (\<forall>v a n rs. vl_image_load_region V v a n = Inr rs \<longrightarrow>
        region_bytes rs = map (\<lambda>k. translate v (a + of_nat k)) [0..<unat n] \<and> distinct (region_bytes rs))"

lemma region_bytes_Cons: "region_bytes (r # rs) = map (\<lambda>i. fst r + of_nat i) [0..<snd r] @ region_bytes rs"
  by (simp add: region_bytes_def)

lemma region_bytes_Nil [simp]: "region_bytes [] = []"
  by (simp add: region_bytes_def)

lemma distinct_addresses_bound:
  assumes "distinct (map (\<lambda>i. (a :: usize) + of_nat i) [0..<n])"
  shows "n \<le> 2 ^ 64"
proof -
  let ?xs = "map (\<lambda>i. a + of_nat i) [0..<n]"
  have "n = card (set ?xs)" using distinct_card[OF assms] by simp
  also have "\<dots> \<le> card (UNIV :: usize set)" by (rule card_mono) auto
  also have "\<dots> = 2 ^ 64" by (simp add: card_word)
  finally show ?thesis .
qed

lemma write_bytes_in:
  assumes "length bs \<le> 2 ^ 64" "i < length bs"
  shows "write_bytes a bs m (a + of_nat i) = bs ! i"
proof -
  have "unat (of_nat i :: usize) = i" using assms by (simp add: unat_of_nat take_bit_nat_eq_self)
  then show ?thesis using assms by (simp add: write_bytes_def)
qed

lemma write_bytes_out:
  assumes "x \<notin> set (map (\<lambda>i. a + of_nat i) [0..<length bs])"
  shows "write_bytes a bs m x = m x"
proof -
  have "\<not> unat (x - a) < length bs"
  proof
    assume "unat (x - a) < length bs"
    moreover have "x = a + of_nat (unat (x - a))" by simp
    ultimately show False using assms by (metis (no_types, lifting) atLeastLessThan_iff image_eqI list.set_map set_upt zero_le)
  qed
  then show ?thesis by (simp add: write_bytes_def Let_def)
qed

lemma write_region:
  assumes "distinct (map (\<lambda>i. a + of_nat i) [0..<length bs])"
  shows "map (write_bytes a bs m) (map (\<lambda>i. a + of_nat i) [0..<length bs]) = bs"
  using distinct_addresses_bound[OF assms] by (auto intro!: nth_equalityI simp: write_bytes_in)

lemma fill_clean [simp]:
  "hmem (fill_region r bs st) = write_bytes (fst r) bs (hmem st)" "hmem (dcache_clean r st) = hmem st"
  "cleaned (fill_region r bs st) = cleaned st" "cleaned (dcache_clean r st) = cleaned st @ [r]"
  "the_vm (fill_region r bs st) = the_vm st" "the_vm (dcache_clean r st) = the_vm st"
  by (simp_all add: fill_region_def dcache_clean_def)

lemma region_bytes_append: "region_bytes (xs @ ys) = region_bytes xs @ region_bytes ys"
  by (simp add: region_bytes_def)

lemma copy_regions_mem:
  "distinct (region_bytes rs) \<Longrightarrow> length (region_bytes rs) = length img - pos \<Longrightarrow> pos \<le> length img \<Longrightarrow>
     map (hmem (copy_regions img pos rs st)) (region_bytes rs) = drop pos img \<and>
     (\<forall>x. x \<notin> set (region_bytes rs) \<longrightarrow> hmem (copy_regions img pos rs st) x = hmem st x) \<and>
     set (region_bytes (cleaned (copy_regions img pos rs st))) = set (region_bytes (cleaned st)) \<union> set (region_bytes rs) \<and>
     the_vm (copy_regions img pos rs st) = the_vm st"
proof (induction rs arbitrary: pos st)
  case (Cons r rs)
  let ?as = "map (\<lambda>i. fst r + of_nat i) [0..<snd r]"
  let ?bs = "take (snd r) (drop pos img)"
  let ?st = "dcache_clean r (fill_region r ?bs st)"
  have len: "snd r + length (region_bytes rs) = length img - pos" "snd r \<le> length img - pos"
    using Cons.prems(2) by (simp_all add: region_bytes_Cons)
  have bs: "length ?bs = snd r" using len by simp
  have dist: "distinct ?as" "distinct (region_bytes rs)" "set ?as \<inter> set (region_bytes rs) = {}"
    using Cons.prems(1) by (simp_all add: region_bytes_Cons)
  have here: "map (hmem ?st) ?as = ?bs" using write_region[of "fst r" ?bs] dist(1) bs by simp
  have out: "hmem ?st x = hmem st x" if "x \<notin> set ?as" for x
    using write_bytes_out[of x "fst r" ?bs] that bs by simp
  have clean: "set (region_bytes (cleaned ?st)) = set (region_bytes (cleaned st)) \<union> set ?as"
    by (simp add: region_bytes_append region_bytes_Cons)
  show ?case
  proof (cases "pos + snd r \<ge> length img")
    case True
    then have "length (region_bytes rs) = 0" using len by linarith
    then have "region_bytes rs = []" by simp
    moreover have "copy_regions img pos (r # rs) st = ?st" using True len by (simp add: Let_def min_absorb1)
    moreover have "drop pos img = ?bs" using True by simp
    ultimately show ?thesis using here out clean by (simp add: region_bytes_Cons)
  next
    case False
    let ?fin = "copy_regions img (pos + snd r) rs ?st"
    have eq: "copy_regions img pos (r # rs) st = ?fin" using False len by (simp add: Let_def min_absorb1)
    have IH: "map (hmem ?fin) (region_bytes rs) = drop (pos + snd r) img"
        "\<And>x. x \<notin> set (region_bytes rs) \<Longrightarrow> hmem ?fin x = hmem ?st x"
        "set (region_bytes (cleaned ?fin)) = set (region_bytes (cleaned ?st)) \<union> set (region_bytes rs)"
        "the_vm ?fin = the_vm ?st"
      using Cons.IH[OF dist(2), of "pos + snd r" ?st] len False by auto
    have "map (hmem ?fin) ?as = map (hmem ?st) ?as" using IH(2) dist(3) by (intro map_cong) auto
    then have "map (hmem ?fin) (region_bytes (r # rs)) = ?bs @ drop (pos + snd r) img"
      by (simp only: region_bytes_Cons map_append here IH(1))
    also have "\<dots> = drop pos img" by (metis add.commute append_take_drop_id drop_drop)
    finally show ?thesis unfolding eq using IH(2,3,4) out clean by (auto simp: region_bytes_Cons)
  qed
qed simp


text \<open>
  What the code relies on of files: the size is the number of bytes, and \<^verbatim>\<open>read_exact\<close> takes the next
  bytes, \<open>content\<close> being what is still to be read, or fails if there are too few.
\<close>

definition file_laws :: "'f image_fs \<Rightarrow> ('f \<Rightarrow> u8 list) \<Rightarrow> bool" where
  "file_laws F content =
     ((\<forall>f. if_size F f = Some (of_nat (length (content f)))) \<and>
      (\<forall>f n. n \<le> length (content f) \<longrightarrow>
         (\<exists>f'. if_read_exact F f n = (True, take n (content f), f') \<and> content f' = drop n (content f))))"

lemma read_regions_copy:
  assumes F: "file_laws F content"
  shows "hmem st = hmem st' \<Longrightarrow> length (region_bytes rs) = length img - pos \<Longrightarrow> pos \<le> length img \<Longrightarrow> content f = drop pos img \<Longrightarrow>
     fst (read_regions F f rs st) = Inr () \<and>
     hmem (snd (read_regions F f rs st)) = hmem (copy_regions img pos rs st') \<and>
     the_vm (snd (read_regions F f rs st)) = the_vm st"
proof (induction rs arbitrary: pos f st st')
  case (Cons r rs)
  have len: "snd r + length (region_bytes rs) = length img - pos"
    using Cons.prems(2) by (simp add: region_bytes_Cons)
  then have le: "snd r \<le> length (content f)" using Cons.prems(4) by simp
  then obtain f' where f': "if_read_exact F f (snd r) = (True, take (snd r) (drop pos img), f')"
      "content f' = drop (pos + snd r) img"
    using F Cons.prems(4) unfolding file_laws_def by (metis add.commute drop_drop)
  let ?bs = "take (snd r) (drop pos img)"
  let ?s = "dcache_clean r (fill_region r ?bs st)" and ?s' = "dcache_clean r (fill_region r ?bs st')"
  have eq: "read_regions F f (r # rs) st = read_regions F f' rs ?s" by (simp add: f')
  have copy: "hmem (copy_regions img pos (r # rs) st') = hmem (copy_regions img (pos + snd r) rs ?s')"
  proof (cases "pos + snd r \<ge> length img")
    case True
    then have "length (region_bytes rs) = 0" using len by linarith
    then have "\<forall>q\<in>set rs. snd q = 0" by (auto simp: region_bytes_def)
    then have "copy_regions img (pos + snd r) rs ?s' = ?s' \<or> hmem (copy_regions img (pos + snd r) rs ?s') = hmem ?s'"
      using True by (cases rs) (auto simp: Let_def write_bytes_def)
    then show ?thesis using True len by (auto simp: Let_def min_absorb1)
  next
    case False
    then show ?thesis using len by (simp add: Let_def min_absorb1)
  qed
  have "length (region_bytes rs) = length img - (pos + snd r)" "pos + snd r \<le> length img"
    using len Cons.prems(3) by linarith+
  then show ?case
    unfolding eq copy using Cons.IH[of ?s ?s' "pos + snd r" f'] f'(2) Cons.prems(1) by simp
qed simp

lemma image_load_region_bytes:
  assumes "vm_load_laws V translate" "vl_image_load_region V v a (of_nat (length img)) = Inr rs" "length img < 2 ^ 64"
  shows "region_bytes rs = map (\<lambda>k. translate v (a + of_nat k)) [0..<length img]" "distinct (region_bytes rs)"
proof -
  have "unat (of_nat (length img) :: usize) = length img" using assms(3) by (simp add: unat_of_nat take_bit_nat_eq_self)
  then show "region_bytes rs = map (\<lambda>k. translate v (a + of_nat k)) [0..<length img]" "distinct (region_bytes rs)"
    using assms(1,2) unfolding vm_load_laws_def by metis+
qed

text \<open>
  \<^bold>\<open>C12\<close>: An image loaded from memory is, byte by byte, what the guest finds from the load address on;
  the rest of the host's memory and the VM object are unchanged, every byte written is cleaned from
  the data cache, and the only failure is that the VM has no memory there, in which case nothing is
  written.
\<close>

theorem image_loaded_exactly:
  assumes "vm_load_laws V translate" "length img < 2 ^ 64"
  shows "case vl_image_load_region V (the_vm st) a (of_nat (length img)) of
      Inl e \<Rightarrow> load_vm_image_from_memory V img a st = (Inl e, st)
    | Inr rs \<Rightarrow> \<exists>st'. load_vm_image_from_memory V img a st = (Inr (), st') \<and> the_vm st' = the_vm st \<and>
        (\<forall>k < length img. hmem st' (translate (the_vm st) (a + of_nat k)) = img ! k \<and>
           translate (the_vm st) (a + of_nat k) \<in> set (region_bytes (cleaned st'))) \<and>
        (\<forall>x. (\<forall>k < length img. x \<noteq> translate (the_vm st) (a + of_nat k)) \<longrightarrow> hmem st' x = hmem st x)"
proof (cases "vl_image_load_region V (the_vm st) a (of_nat (length img))")
  case (Inr rs)
  note rs = image_load_region_bytes[OF assms(1) Inr assms(2)]
  let ?st = "copy_regions img 0 rs st"
  have mem: "map (hmem ?st) (region_bytes rs) = img" "the_vm ?st = the_vm st"
      "\<And>x. x \<notin> set (region_bytes rs) \<Longrightarrow> hmem ?st x = hmem st x"
      "set (region_bytes (cleaned ?st)) = set (region_bytes (cleaned st)) \<union> set (region_bytes rs)"
    using copy_regions_mem[OF rs(2), of img 0 st] by (auto simp: rs(1))
  have "hmem ?st (translate (the_vm st) (a + of_nat k)) = img ! k" if "k < length img" for k
    using arg_cong[OF mem(1), of "\<lambda>xs. xs ! k"] that by (simp add: rs(1))
  moreover have "translate (the_vm st) (a + of_nat k) \<in> set (region_bytes (cleaned ?st))" if "k < length img" for k
    using that by (auto simp: mem(4) rs(1))
  moreover have "hmem ?st x = hmem st x" if "\<forall>k < length img. x \<noteq> translate (the_vm st) (a + of_nat k)" for x
    by (rule mem(3)) (use that in \<open>auto simp: rs(1)\<close>)
  ultimately show ?thesis using mem(2) by (simp add: Inr load_vm_image_from_memory_def)
qed (simp add: load_vm_image_from_memory_def)

text \<open>A VM whose memory is the host's 4096 bytes further on, given in two slices.\<close>

definition two_slices :: "unit vm_load" where
  "two_slices = \<lparr>vl_memory_regions = (\<lambda>_. []),
     vl_image_load_region = (\<lambda>_ a n. Inr [(a + 0x1000, min 2 (unat n)), (a + 0x1002, unat n - 2)]),
     vl_config = (\<lambda>_. \<lparr>kernel_load_gpa = 0, bios_load_gpa = None, dtb_load_gpa = None, ramdisk_load_gpa = None,
       bsp_entry = 0, ap_entry = 0\<rparr>),
     vl_set_config = (\<lambda>_ v. v)\<rparr>"

lemma two_slices_laws: "vm_load_laws two_slices (\<lambda>_ a. a + 0x1000)"
proof -
  have bytes: "region_bytes [(a + 0x1000, min 2 (unat n)), (a + 0x1002, unat n - 2)] =
      map (\<lambda>k. a + of_nat k + 0x1000) [0..<unat n]" for a n :: usize
  proof (intro nth_equalityI)
    fix i assume "i < length (region_bytes [(a + 0x1000, min 2 (unat n)), (a + 0x1002, unat n - 2)])"
    then have i: "i < unat n" by (simp add: region_bytes_def)
    show "region_bytes [(a + 0x1000, min 2 (unat n)), (a + 0x1002, unat n - 2)] ! i =
        map (\<lambda>k. a + of_nat k + 0x1000) [0..<unat n] ! i"
    proof (cases "i < 2")
      case False
      then have "(of_nat i :: usize) = of_nat (i - 2) + 2" by (metis le_add_diff_inverse2 not_less of_nat_add of_nat_numeral)
      then show ?thesis using i False by (simp add: region_bytes_def nth_append)
    qed (use i in \<open>simp add: region_bytes_def nth_append\<close>)
  qed (simp add: region_bytes_def)
  have "inj_on (\<lambda>k. a + of_nat k + 0x1000 :: usize) {0..<unat n}" for a n :: usize
  proof (rule inj_onI)
    fix x y assume xy: "x \<in> {0..<unat n}" "y \<in> {0..<unat n}" "a + of_nat x + 0x1000 = a + of_nat y + 0x1000"
    have "unat n < 2 ^ 64" using unsigned_less[of n] by simp
    then have "x < 2 ^ 64" "y < 2 ^ 64" using xy(1,2) by simp_all
    then show "x = y" using xy(3) by (simp add: word_of_nat_eq_iff take_bit_nat_eq_self)
  qed
  then show ?thesis unfolding vm_load_laws_def
    by (auto simp: two_slices_def bytes[simplified] distinct_map simp del: One_nat_def)
qed

definition blank_state :: "unit load_state" where
  "blank_state = \<lparr>hmem = (\<lambda>_. 0), cleaned = [], the_vm = ()\<rparr>"

theorem image_loaded_exactly_witness:
  "\<exists>st'. load_vm_image_from_memory two_slices [7, 8, 9] 0x40 blank_state = (Inr (), st') \<and>
     hmem st' 0x1040 = 7 \<and> hmem st' 0x1042 = 9 \<and> hmem st' 0x1043 = 0"
proof -
  have reg: "vl_image_load_region two_slices (the_vm blank_state) 0x40 (of_nat (length [7 :: u8, 8, 9])) =
      Inr [(0x1040, 2), (0x1042, 1)]"
    by (simp add: two_slices_def)
  from image_loaded_exactly[where img = "[7, 8, 9]" and st = blank_state and a = "0x40", OF two_slices_laws] obtain st'
    where st': "load_vm_image_from_memory two_slices [7, 8, 9] 0x40 blank_state = (Inr (), st')"
      and at: "\<forall>k < length [7 :: u8, 8, 9]. hmem st' (0x40 + of_nat k + 0x1000) = [7, 8, 9] ! k"
      and out: "\<forall>x. (\<forall>k < length [7 :: u8, 8, 9]. x \<noteq> 0x40 + of_nat k + 0x1000) \<longrightarrow> hmem st' x = hmem blank_state x"
    unfolding reg by auto
  have "hmem st' 0x1040 = 7" using at[rule_format, of 0] by simp
  moreover have "hmem st' 0x1042 = 9" using at[rule_format, of 2] by simp
  moreover have "hmem st' 0x1043 = 0"
  proof -
    have "\<forall>k < length [7 :: u8, 8, 9]. (0x1043 :: usize) \<noteq> 0x40 + of_nat k + 0x1000" by (auto simp: less_Suc_eq)
    then show ?thesis using out by (simp add: blank_state_def del: list.size)
  qed
  ultimately show ?thesis using st' by blast
qed

text \<open>
  An image loaded from a file gives the same result and leaves the same memory as the same bytes
  loaded from memory.
\<close>

theorem image_sources_agree:
  assumes "vm_load_laws V translate" "file_laws F content" "if_open F p = Some f" "length (content f) < 2 ^ 64"
  shows "fst (load_vm_image V F p a st) = fst (load_vm_image_from_memory V (content f) a st) \<and>
    hmem (snd (load_vm_image V F p a st)) = hmem (snd (load_vm_image_from_memory V (content f) a st)) \<and>
    the_vm (snd (load_vm_image V F p a st)) = the_vm (snd (load_vm_image_from_memory V (content f) a st))"
proof -
  have op: "open_image_file F p = Inr (f, of_nat (length (content f)))"
    using assms(2,3) by (simp add: open_image_file_def file_laws_def)
  show ?thesis
  proof (cases "vl_image_load_region V (the_vm st) a (of_nat (length (content f)))")
    case (Inr rs)
    note rs = image_load_region_bytes[OF assms(1) Inr assms(4)]
    show ?thesis
      using read_regions_copy[OF assms(2) refl, of rs "content f" 0 f st] copy_regions_mem[OF rs(2), of "content f" 0 st]
      by (simp add: load_vm_image_def op Inr load_vm_image_from_memory_def rs(1))
  qed (simp add: load_vm_image_def op load_vm_image_from_memory_def)
qed

definition byte_files :: "(string \<Rightarrow> u8 list option) \<Rightarrow> u8 list image_fs" where
  "byte_files d = \<lparr>if_open = d, if_size = (\<lambda>f. Some (of_nat (length f))),
     if_read_exact = (\<lambda>f n. (n \<le> length f, take n f, drop n f))\<rparr>"

lemma byte_files_laws: "file_laws (byte_files d) (\<lambda>f. f)"
  by (simp add: file_laws_def byte_files_def)

theorem image_sources_agree_witness:
  "hmem (snd (load_vm_image two_slices (byte_files [''/kernel'' \<mapsto> [7, 8, 9]]) ''/kernel'' 0x40 blank_state)) =
     hmem (snd (load_vm_image_from_memory two_slices [7, 8, 9] 0x40 blank_state)) \<and>
   if_open (byte_files [''/kernel'' \<mapsto> [7, 8, 9]]) ''/kernel'' = Some [7, 8, 9]"
  using image_sources_agree[OF two_slices_laws byte_files_laws, of "[''/kernel'' \<mapsto> [7, 8, 9]]" "''/kernel''" "[7, 8, 9]" "0x40" blank_state]
  by (simp add: byte_files_def)

end
