(* ===== verification/Fdt_Parser.thy ===== *)
theory Fdt_Parser
  imports VM_Images
begin

text \<open>
  From device trees to the configuration of a VM, \<^verbatim>\<open>kernel/src/vmm/fdt/parser.rs\<close> and
  \<^verbatim>\<open>kernel/src/vmm/fdt/mod.rs\<close>: the host's tree, the processors a VM may use, the tree of the guest and
  the cache that keeps it, the address ranges and the interrupts that are passed through.

  The configuration object \<^verbatim>\<open>AxVMConfig\<close> is of the \<^verbatim>\<open>axvm\<close> crate: its methods are the fields of
  \<open>axvm_config\<close>.
\<close>

section \<open>The configuration object\<close>

record PassThroughDeviceConfig =
  pt_name :: string
  pt_base_gpa :: usize
  pt_base_hpa :: usize
  pt_length :: usize
  pt_irq_id :: usize

record 'c axvm_config =
  ac_id :: "'c \<Rightarrow> usize"
  ac_devices :: "'c \<Rightarrow> PassThroughDeviceConfig list"
  ac_excluded :: "'c \<Rightarrow> string list list"
  ac_add_device :: "PassThroughDeviceConfig \<Rightarrow> 'c \<Rightarrow> 'c"
  ac_clear_devices :: "'c \<Rightarrow> 'c"
  ac_add_spi :: "u32 \<Rightarrow> 'c \<Rightarrow> 'c"
  ac_set_cpu_sets :: "usize list \<Rightarrow> 'c \<Rightarrow> 'c"

section \<open>The tree of the host\<close>

text \<open>
  The blob begins at the boot argument. Its header, of \<open>header_size\<close> bytes, is read by the parser,
  which gives the magic number and the total size; a wrong magic number is only logged.
\<close>

definition bytes_at :: "(usize \<Rightarrow> u8) \<Rightarrow> usize \<Rightarrow> nat \<Rightarrow> u8 list" where
  "bytes_at mem a n = map (\<lambda>i. mem (a + of_nat i)) [0..<n]"

definition get_host_fdt :: "nat \<Rightarrow> (u8 list \<Rightarrow> (u32 \<times> nat) option) \<Rightarrow> usize \<Rightarrow> (usize \<Rightarrow> u8) \<Rightarrow> u8 list outcome" where
  "get_host_fdt header_size parse_header bootarg mem =
     (case parse_header (bytes_at mem bootarg header_size) of
        None \<Rightarrow> Panic ''called `Result::unwrap()` on an `Err` value''
      | Some (magic, total_size) \<Rightarrow> Done (bytes_at mem bootarg total_size))"

section \<open>Processors\<close>

text \<open>The addresses of the processors, \<^verbatim>\<open>find_nodes("/cpus/cpu")\<close> being the list \<open>host_cpus\<close>.\<close>

definition cpu_nodes_info :: "FdtNode list \<Rightarrow> (string \<times> usize) list" where
  "cpu_nodes_info host_cpus = List.map_filter (\<lambda>n. case reg_addresses n of
      Some (a # _) \<Rightarrow> Some (node_name n, a) | _ \<Rightarrow> None) host_cpus"

fun unique_cpu_addresses :: "(string \<times> usize) list \<Rightarrow> usize list \<Rightarrow> usize list outcome" where
  "unique_cpu_addresses [] seen = Done seen"
| "unique_cpu_addresses ((_, a) # xs) seen =
     (if a \<notin> set seen then unique_cpu_addresses xs (seen @ [a]) else Panic ''Duplicate CPU address found'')"

fun position :: "('a \<Rightarrow> bool) \<Rightarrow> 'a list \<Rightarrow> nat option" where
  "position P [] = None"
| "position P (x # xs) = (if P x then Some 0 else map_option Suc (position P xs))"

text \<open>The shift is that of a 64-bit word, whose amount is taken modulo 64.\<close>

definition cpu_mask :: "usize list \<Rightarrow> usize \<Rightarrow> usize option" where
  "cpu_mask addresses phys_cpu_id = map_option (\<lambda>i. push_bit (i mod 64) 1) (position (\<lambda>a. a = phys_cpu_id) addresses)"

definition set_phys_cpu_sets :: "'c axvm_config \<Rightarrow> FdtNode list \<Rightarrow> AxVMCrateConfig \<Rightarrow> 'c \<Rightarrow> 'c outcome" where
  "set_phys_cpu_sets C host_cpus crate_config vm_cfg =
     (case base_phys_cpu_ids crate_config of
        None \<Rightarrow> Panic ''ERROR: phys_cpu_ids not found in config.toml''
      | Some phys_cpu_ids \<Rightarrow>
          outcome_bind (unique_cpu_addresses (cpu_nodes_info host_cpus) [])
            (\<lambda>addresses. Done (ac_set_cpu_sets C (List.map_filter (cpu_mask addresses) phys_cpu_ids) vm_cfg)))"

section \<open>Address ranges\<close>

definition add_device_address_config ::
    "'c axvm_config \<Rightarrow> string \<Rightarrow> usize \<Rightarrow> usize \<Rightarrow> nat \<Rightarrow> string option \<Rightarrow> 'c \<Rightarrow> 'c" where
  "add_device_address_config C name base_address sz index pre vm_cfg =
     (if sz = 0 then vm_cfg
      else let device_name =
             (if index = 0
              then (case pre of Some p \<Rightarrow> name @ ''-'' @ p | None \<Rightarrow> name)
              else (case pre of Some p \<Rightarrow> name @ ''-'' @ p @ ''-region'' @ show_nat index
                    | None \<Rightarrow> name @ ''-region'' @ show_nat index))
           in ac_add_device C \<lparr>pt_name = device_name, pt_base_gpa = base_address, pt_base_hpa = base_address,
                pt_length = sz, pt_irq_id = 0\<rparr> vm_cfg)"

fun space_name :: "PciSpace \<Rightarrow> string" where
  "space_name Configuration = ''config''"
| "space_name IO = ''io''"
| "space_name Memory32 = ''mem32''"
| "space_name Memory64 = ''mem64''"

definition add_pci_ranges_config :: "'c axvm_config \<Rightarrow> string \<Rightarrow> PciRange \<Rightarrow> nat \<Rightarrow> 'c \<Rightarrow> 'c" where
  "add_pci_ranges_config C name rng index vm_cfg =
     (let base_address = pci_cpu_address rng; sz = pci_size rng in
      if sz = 0 then vm_cfg
      else let pre = space_name (pci_space rng);
               device_name = (if index = 0 then name @ ''-'' @ pre
                              else name @ ''-'' @ pre @ ''-region'' @ show_nat index)
           in ac_add_device C \<lparr>pt_name = device_name, pt_base_gpa = base_address, pt_base_hpa = base_address,
                pt_length = sz, pt_irq_id = 0\<rparr> vm_cfg)"

text \<open>\<^verbatim>\<open>for (index, x) in xs.enumerate()\<close>.\<close>

definition for_enumerate :: "(nat \<Rightarrow> 'a \<Rightarrow> 's \<Rightarrow> 's) \<Rightarrow> 'a list \<Rightarrow> 's \<Rightarrow> 's" where
  "for_enumerate f xs s = fold (\<lambda>(i, x). f i x) (List.enumerate 0 xs) s"

definition add_reg :: "'c axvm_config \<Rightarrow> string option \<Rightarrow> DevNode \<Rightarrow> 'c \<Rightarrow> 'c" where
  "add_reg C pre node vm_cfg =
     (case node_reg node of
        None \<Rightarrow> vm_cfg
      | Some regs \<Rightarrow> for_enumerate (\<lambda>index (address, sz) c.
          add_device_address_config C (node_name node) address (case sz of None \<Rightarrow> 0 | Some s \<Rightarrow> s) index pre c) regs vm_cfg)"

definition add_pci :: "'c axvm_config \<Rightarrow> DevNode \<Rightarrow> 'c \<Rightarrow> 'c" where
  "add_pci C node vm_cfg =
     (case node_pci_ranges node of
        None \<Rightarrow> vm_cfg
      | Some ranges \<Rightarrow> for_enumerate (\<lambda>index rng c. add_pci_ranges_config C (node_name node) rng index c) ranges vm_cfg)"

definition node_addresses :: "'c axvm_config \<Rightarrow> DevNode \<Rightarrow> 'c \<Rightarrow> 'c" where
  "node_addresses C node vm_cfg =
     (if node_name node = ''/'' \<or> starts_with (node_name node) ''memory'' then vm_cfg
      else if starts_with (node_name node) ''pcie@'' \<or> str_contains (node_name node) ''pci''
      then add_reg C (Some ''ecam'') node (add_pci C node vm_cfg)
      else add_reg C None node vm_cfg)"

definition invalid_dtb :: string where
  "invalid_dtb = ''Failed to parse DTB image, perhaps the DTB is invalid or corrupted''"

definition parse_passthrough_devices_address :: "fdt_lib \<Rightarrow> 'c axvm_config \<Rightarrow> u8 list \<Rightarrow> 'c \<Rightarrow> 'c outcome" where
  "parse_passthrough_devices_address L C dtb vm_cfg =
     (let devices = ac_devices C vm_cfg in
      if devices \<noteq> [] \<and> pt_length (hd devices) \<noteq> 0
      then Done (for_enumerate (\<lambda>index device c.
             add_device_address_config C (pt_name device) (pt_base_gpa device) (pt_length device) index None c) devices vm_cfg)
      else case fl_from_bytes L dtb of
             None \<Rightarrow> Panic invalid_dtb
           | Some nodes \<Rightarrow> Done (fold (node_addresses C) nodes (ac_clear_devices C vm_cfg)))"

section \<open>Interrupts\<close>

text \<open>One interrupt: kind, number, mode; only shared peripheral interrupts, kind 0, are passed through.\<close>

fun interrupt_cells :: "'c axvm_config \<Rightarrow> nat \<Rightarrow> u32 list \<Rightarrow> 'c \<Rightarrow> 'c" where
  "interrupt_cells C k [] vm_cfg = vm_cfg"
| "interrupt_cells C k (v # vs) vm_cfg =
     (if k = 0 then (if v = 0 then interrupt_cells C (k + 1) vs vm_cfg else vm_cfg)
      else if k = 1 then interrupt_cells C (k + 1) vs (ac_add_spi C v vm_cfg)
      else interrupt_cells C (k + 1) vs vm_cfg)"

definition node_spis :: "'c axvm_config \<Rightarrow> DevNode \<Rightarrow> 'c \<Rightarrow> 'c" where
  "node_spis C node vm_cfg =
     (let name = node_name node in
      if starts_with name ''memory'' then vm_cfg
      else if starts_with name ''interrupt-controller'' \<or> starts_with name ''intc'' \<or> starts_with name ''its'' then vm_cfg
      else case node_interrupts node of
             None \<Rightarrow> vm_cfg
           | Some interrupts \<Rightarrow> fold (interrupt_cells C 0) interrupts vm_cfg)"

definition fake_node :: PassThroughDeviceConfig where
  "fake_node = \<lparr>pt_name = ''Fake Node'', pt_base_gpa = 0, pt_base_hpa = 0, pt_length = 0x200000, pt_irq_id = 0\<rparr>"

definition parse_vm_interrupt :: "fdt_lib \<Rightarrow> 'c axvm_config \<Rightarrow> u8 list \<Rightarrow> 'c \<Rightarrow> 'c outcome" where
  "parse_vm_interrupt L C dtb vm_cfg =
     (case fl_from_bytes L dtb of
        None \<Rightarrow> Panic invalid_dtb
      | Some nodes \<Rightarrow> Done (ac_add_device C fake_node (fold (node_spis C) nodes vm_cfg)))"

section \<open>The tree of the guest\<close>

definition init_dtb_cache :: "dtb_cache \<Rightarrow> dtb_cache outcome" where
  "init_dtb_cache cache = (case cache of None \<Rightarrow> Done (Some []) | Some _ \<Rightarrow> Panic ''Already initialized'')"

definition crate_guest_fdt_with_cache :: "u8 list \<Rightarrow> AxVMCrateConfig \<Rightarrow> dtb_cache \<Rightarrow> dtb_cache outcome" where
  "crate_guest_fdt_with_cache dtb_data crate_config cache =
     (case cache of
        None \<Rightarrow> Panic ''called `Option::unwrap()` on a `None` value''
      | Some m \<Rightarrow> Done (Some (bt_insert (base_id crate_config) dtb_data m)))"

definition setup_guest_fdt_from_vmm ::
    "fdt_lib \<Rightarrow> 'c axvm_config \<Rightarrow> u8 list \<Rightarrow> 'c \<Rightarrow> AxVMCrateConfig \<Rightarrow> dtb_cache \<Rightarrow> dtb_cache outcome" where
  "setup_guest_fdt_from_vmm L C fdt_bytes vm_cfg crate_config cache =
     (case fl_from_bytes L fdt_bytes of
        None \<Rightarrow> Panic ''Failed to parse FDT''
      | Some ns \<Rightarrow>
          (let nodes = map FdtNode.truncate ns;
               names = find_all_passthrough_devices (map pt_name (ac_devices C vm_cfg)) (ac_excluded C vm_cfg) nodes
           in outcome_bind (crate_guest_fdt (base_phys_cpu_ids crate_config) names nodes)
                (\<lambda>events. crate_guest_fdt_with_cache (fl_finish L events) crate_config cache)))"

definition update_provided_fdt ::
    "fdt_lib \<Rightarrow> u8 list \<Rightarrow> u8 list \<Rightarrow> AxVMCrateConfig \<Rightarrow> dtb_cache \<Rightarrow> dtb_cache outcome" where
  "update_provided_fdt L provided_dtb host_dtb crate_config cache =
     (case fl_from_bytes L provided_dtb of
        None \<Rightarrow> Panic invalid_dtb
      | Some provided \<Rightarrow>
          (case fl_from_bytes L host_dtb of
             None \<Rightarrow> Panic invalid_dtb
           | Some host \<Rightarrow>
               outcome_bind (update_cpu_node (base_phys_cpu_ids crate_config) (map FdtNode.truncate provided) (map FdtNode.truncate host))
                 (\<lambda>events. crate_guest_fdt_with_cache (fl_finish L events) crate_config cache)))"

definition result_unwrap :: string where
  "result_unwrap = ''called `Result::unwrap()` on an `Err` value''"

definition get_developer_provided_dtb :: "('v, 'f) image_env \<Rightarrow> usize \<Rightarrow> AxVMCrateConfig \<Rightarrow> u8 list option outcome" where
  "get_developer_provided_dtb E vm_id crate_config =
     (if image_location crate_config = Some ''memory''
      then Done (case find (\<lambda>v. mi_id v = vm_id) (ie_memory_images E) of None \<Rightarrow> None | Some v \<Rightarrow> mi_dtb v)
      else if ie_fs E \<and> image_location crate_config = Some ''fs''
      then (case dtb_path crate_config of
              None \<Rightarrow> Done None
            | Some path \<Rightarrow>
                (case open_image_file (ie_files E) path of
                   Inl _ \<Rightarrow> Panic result_unwrap
                 | Inr (file, dtb_size) \<Rightarrow>
                     (case if_read_exact (ie_files E) file (unat dtb_size) of
                        (ok, bytes, _) \<Rightarrow> if ok then Done (Some bytes) else Panic result_unwrap)))
      else Panic image_location_help)"

text \<open>\<open>find_cpus\<close> is \<^verbatim>\<open>Fdt::find_nodes\<close> for the processors, \<open>host_bytes\<close> the result of \<open>get_host_fdt\<close>.\<close>

definition handle_fdt_operations ::
    "('v, 'f) image_env \<Rightarrow> 'c axvm_config \<Rightarrow> (DevNode list \<Rightarrow> FdtNode list) \<Rightarrow> u8 list \<Rightarrow> AxVMCrateConfig \<Rightarrow>
     'c \<Rightarrow> dtb_cache \<Rightarrow> ('c \<times> dtb_cache) outcome" where
  "handle_fdt_operations E C find_cpus host_bytes crate_config vm_config cache =
     (case fl_from_bytes (ie_fdt E) host_bytes of
        None \<Rightarrow> Panic ''Failed to parse FDT''
      | Some host \<Rightarrow>
          outcome_bind (set_phys_cpu_sets C (find_cpus host) crate_config vm_config) (\<lambda>cfg1.
          outcome_bind (get_developer_provided_dtb E (ac_id C cfg1) crate_config) (\<lambda>provided.
          outcome_bind (case provided of
              Some dtb \<Rightarrow> update_provided_fdt (ie_fdt E) dtb host_bytes crate_config cache
            | None \<Rightarrow> setup_guest_fdt_from_vmm (ie_fdt E) C host_bytes cfg1 crate_config cache) (\<lambda>cache1.
          outcome_bind (get_vm_dtb_arc True cache1 (ac_id C cfg1)) (\<lambda>dtb.
            case dtb of
              None \<Rightarrow> Done (cfg1, cache1)
            | Some b \<Rightarrow>
                outcome_bind (parse_passthrough_devices_address (ie_fdt E) C b cfg1) (\<lambda>cfg2.
                outcome_bind (parse_vm_interrupt (ie_fdt E) C b cfg2) (\<lambda>cfg3. Done (cfg3, cache1))))))))"


section \<open>Processor masks\<close>

lemma position_Some: "position P xs = Some i \<Longrightarrow> i < length xs \<and> P (xs ! i)"
  by (induction xs arbitrary: i) (auto split: if_splits)

lemma position_None: "position P xs = None \<longleftrightarrow> (\<forall>x \<in> set xs. \<not> P x)"
  by (induction xs) auto

lemma unique_cpu_addresses_Done:
  "distinct (seen @ map snd xs) \<Longrightarrow> unique_cpu_addresses xs seen = Done (seen @ map snd xs)"
  by (induction xs seen rule: unique_cpu_addresses.induct) auto

lemma unique_cpu_addresses_duplicate:
  "distinct seen \<Longrightarrow> \<not> distinct (seen @ map snd xs) \<Longrightarrow> unique_cpu_addresses xs seen = Panic ''Duplicate CPU address found''"
  by (induction xs seen rule: unique_cpu_addresses.induct) auto

lemma map_filter_total: "\<forall>x \<in> set xs. f x \<noteq> None \<Longrightarrow> List.map_filter f xs = map (the \<circ> f) xs"
  by (induction xs) (auto simp: List.map_filter_simps)

lemma cpu_mask_bit:
  assumes "distinct addresses" "length addresses \<le> 64" "a \<in> set addresses"
  obtains w where "cpu_mask addresses a = Some w"
    "\<And>n. bit w n \<longleftrightarrow> n < length addresses \<and> addresses ! n = a"
proof -
  obtain i where i: "position (\<lambda>b. b = a) addresses = Some i" using assms(3) position_None[of "\<lambda>b. b = a" addresses] by fastforce
  then have at: "i < length addresses" "addresses ! i = a" using position_Some by fastforce+
  have "bit (push_bit (i mod 64) 1 :: usize) n \<longleftrightarrow> n < length addresses \<and> addresses ! n = a" for n
    using at assms(1,2) by (auto simp: bit_exp_iff nth_eq_iff_index_eq)
  then show thesis using that i by (simp add: cpu_mask_def)
qed

text \<open>
  \<^bold>\<open>C37\<close>: The processor sets of a VM: if the host lists at most 64 processors, no two with the same
  address, and every configured processor is among them, then each vCPU gets the mask that contains
  exactly the processor configured for it, by its position in the device tree.
\<close>

theorem vcpu_masks_select_cpus:
  assumes "base_phys_cpu_ids cc = Some ids" "addresses = map snd (cpu_nodes_info cpus)"
    "distinct addresses" "length addresses \<le> 64" "set ids \<subseteq> set addresses"
  shows "\<exists>masks. set_phys_cpu_sets C cpus cc cfg = Done (ac_set_cpu_sets C masks cfg) \<and> length masks = length ids \<and>
    (\<forall>j < length ids. \<forall>n. bit (masks ! j) n \<longleftrightarrow> n < length addresses \<and> addresses ! n = ids ! j)"
proof (intro exI conjI)
  let ?masks = "map (the \<circ> cpu_mask addresses) ids"
  have some: "\<forall>x \<in> set ids. cpu_mask addresses x \<noteq> None"
    using cpu_mask_bit[OF assms(3,4)] assms(5) by (metis option.distinct(1) subsetD)
  show "set_phys_cpu_sets C cpus cc cfg = Done (ac_set_cpu_sets C ?masks cfg)"
    using unique_cpu_addresses_Done[of "[]" "cpu_nodes_info cpus"] assms(1,2,3) map_filter_total[OF some]
    by (simp add: set_phys_cpu_sets_def)
  show "length ?masks = length ids" by simp
  show "\<forall>j < length ids. \<forall>n. bit (?masks ! j) n \<longleftrightarrow> n < length addresses \<and> addresses ! n = ids ! j"
  proof (intro allI impI)
    fix j n assume j: "j < length ids"
    then have "ids ! j \<in> set addresses" using assms(5) by auto
    then obtain w where "cpu_mask addresses (ids ! j) = Some w" "bit w n \<longleftrightarrow> n < length addresses \<and> addresses ! n = ids ! j"
      using cpu_mask_bit[OF assms(3,4)] by metis
    then show "bit (?masks ! j) n \<longleftrightarrow> n < length addresses \<and> addresses ! n = ids ! j" using j by simp
  qed
qed

text \<open>Four processors in two clusters; the vCPUs are on 0x100 and 0x001.\<close>

definition cpu_at :: "string \<Rightarrow> usize \<Rightarrow> FdtNode" where
  "cpu_at n a = \<lparr>node_name = n, level = 3, propertys = [], reg_addresses = Some [a]\<rparr>"

definition four_cpus :: "FdtNode list" where
  "four_cpus = [cpu_at ''cpu@0'' 0, cpu_at ''cpu@1'' 1, cpu_at ''cpu@100'' 0x100, cpu_at ''cpu@101'' 0x101]"

definition vm_file :: "usize list \<Rightarrow> AxVMCrateConfig" where
  "vm_file ids = \<lparr>base_id = 1, base_phys_cpu_ids = Some ids, image_location = Some ''memory'', kernel_path = [],
     bios_path = None, dtb_path = None, ramdisk_path = None, kernel_memory_regions = []\<rparr>"

text \<open>A configuration object as a record of its own.\<close>

record plain_config =
  pc_devices :: "PassThroughDeviceConfig list"
  pc_spis :: "u32 list"
  pc_cpu_sets :: "usize list"

definition plain_ops :: "plain_config axvm_config" where
  "plain_ops = \<lparr>ac_id = (\<lambda>_. 1), ac_devices = pc_devices, ac_excluded = (\<lambda>_. []),
     ac_add_device = (\<lambda>d c. c\<lparr>pc_devices := pc_devices c @ [d]\<rparr>), ac_clear_devices = (\<lambda>c. c\<lparr>pc_devices := []\<rparr>),
     ac_add_spi = (\<lambda>v c. c\<lparr>pc_spis := pc_spis c @ [v]\<rparr>), ac_set_cpu_sets = (\<lambda>m c. c\<lparr>pc_cpu_sets := m\<rparr>)\<rparr>"

definition empty_config :: plain_config where
  "empty_config = \<lparr>pc_devices = [], pc_spis = [], pc_cpu_sets = []\<rparr>"

theorem vcpu_masks_select_cpus_witness:
  "\<exists>masks. set_phys_cpu_sets plain_ops four_cpus (vm_file [0x100, 1]) empty_config =
      Done (empty_config\<lparr>pc_cpu_sets := masks\<rparr>) \<and> length masks = 2 \<and> bit (masks ! 0) 2 \<and> \<not> bit (masks ! 0) 0 \<and> bit (masks ! 1) 1"
proof -
  have a: "map snd (cpu_nodes_info four_cpus) = [0, 1, 0x100, 0x101]"
    by (simp add: cpu_nodes_info_def four_cpus_def cpu_at_def List.map_filter_simps)
  have "\<exists>masks. set_phys_cpu_sets plain_ops four_cpus (vm_file [0x100, 1]) empty_config = Done (ac_set_cpu_sets plain_ops masks empty_config) \<and>
      length masks = length [0x100 :: usize, 1] \<and> (\<forall>j < length [0x100 :: usize, 1]. \<forall>n. bit (masks ! j) n \<longleftrightarrow>
        n < length [0 :: usize, 1, 0x100, 0x101] \<and> [0 :: usize, 1, 0x100, 0x101] ! n = [0x100, 1] ! j)"
    by (rule vcpu_masks_select_cpus) (simp_all add: a vm_file_def)
  then obtain masks where m: "set_phys_cpu_sets plain_ops four_cpus (vm_file [0x100, 1]) empty_config = Done (ac_set_cpu_sets plain_ops masks empty_config)"
      "length masks = 2" and b: "\<forall>j < length [0x100 :: usize, 1]. \<forall>n. bit (masks ! j) n \<longleftrightarrow>
        n < length [0 :: usize, 1, 0x100, 0x101] \<and> [0 :: usize, 1, 0x100, 0x101] ! n = [0x100, 1] ! j" by auto
  show ?thesis using m b[rule_format, of 0 2] b[rule_format, of 0 0] b[rule_format, of 1 1] by (auto simp: plain_ops_def)
qed

text \<open>
  A configured processor that the host does not have is left out, so that the masks of the vCPUs after
  it move up: with two vCPUs for 5 and 1, the first gets the processor of the second.
\<close>

lemma missing_cpu_shifts_masks:
  "set_phys_cpu_sets plain_ops four_cpus (vm_file [5, 1]) empty_config = Done (empty_config\<lparr>pc_cpu_sets := [2]\<rparr>)"
  by (simp add: set_phys_cpu_sets_def vm_file_def cpu_nodes_info_def four_cpus_def cpu_at_def List.map_filter_simps
      cpu_mask_def plain_ops_def)

section \<open>What a guest gets from the host\<close>

text \<open>What the code relies on of the configuration object.\<close>

definition cfg_laws :: "'c axvm_config \<Rightarrow> bool" where
  "cfg_laws C =
     ((\<forall>d c. ac_devices C (ac_add_device C d c) = ac_devices C c @ [d] \<and> ac_id C (ac_add_device C d c) = ac_id C c) \<and>
      (\<forall>c. ac_devices C (ac_clear_devices C c) = [] \<and> ac_id C (ac_clear_devices C c) = ac_id C c) \<and>
      (\<forall>v c. ac_devices C (ac_add_spi C v c) = ac_devices C c \<and> ac_id C (ac_add_spi C v c) = ac_id C c) \<and>
      (\<forall>m c. ac_devices C (ac_set_cpu_sets C m c) = ac_devices C c \<and> ac_id C (ac_set_cpu_sets C m c) = ac_id C c \<and>
         ac_excluded C (ac_set_cpu_sets C m c) = ac_excluded C c))"

text \<open>The address ranges of a list of devices, and those that a node of a device tree stands for.\<close>

definition device_ranges :: "PassThroughDeviceConfig list \<Rightarrow> (usize \<times> usize) set" where
  "device_ranges ds = (\<lambda>d. (pt_base_gpa d, pt_length d)) ` set ds"

definition is_pci_node :: "DevNode \<Rightarrow> bool" where
  "is_pci_node n = (str_contains (node_name n) ''pci'')"

definition node_ranges :: "DevNode \<Rightarrow> (usize \<times> usize) set" where
  "node_ranges n =
     (if node_name n = ''/'' \<or> prefix ''memory'' (node_name n) then {}
      else {(a, l). l \<noteq> 0 \<and> (\<exists>regs. node_reg n = Some regs \<and> (a, Some l) \<in> set regs)} \<union>
           {(a, l). l \<noteq> 0 \<and> is_pci_node n \<and> (\<exists>rs. node_pci_ranges n = Some rs \<and> (\<exists>r \<in> set rs. pci_cpu_address r = a \<and> pci_size r = l))})"

text \<open>A step that adds devices with the ranges \<open>R\<close>, each at the same guest and host address.\<close>

definition adds :: "'c axvm_config \<Rightarrow> ('c \<Rightarrow> 'c) \<Rightarrow> (usize \<times> usize) set \<Rightarrow> bool" where
  "adds C f R = (\<forall>c. \<exists>ds. ac_devices C (f c) = ac_devices C c @ ds \<and> ac_id C (f c) = ac_id C c \<and>
     device_ranges ds = R \<and> (\<forall>d \<in> set ds. pt_base_hpa d = pt_base_gpa d))"

lemma device_ranges_simps [simp]:
  "device_ranges [] = {}" "device_ranges (d # ds) = insert (pt_base_gpa d, pt_length d) (device_ranges ds)"
  "device_ranges (xs @ ys) = device_ranges xs \<union> device_ranges ys"
  by (auto simp: device_ranges_def)

lemma adds_id: "adds C (\<lambda>c. c) {}"
  by (simp add: adds_def)

lemma adds_comp:
  assumes "adds C f A" "adds C g B"
  shows "adds C (\<lambda>c. g (f c)) (A \<union> B)"
  unfolding adds_def
proof
  fix c
  obtain xs where xs: "ac_devices C (f c) = ac_devices C c @ xs" "ac_id C (f c) = ac_id C c" "device_ranges xs = A"
      "\<forall>d \<in> set xs. pt_base_hpa d = pt_base_gpa d"
    using assms(1) by (auto simp: adds_def)
  obtain ys where ys: "ac_devices C (g (f c)) = ac_devices C (f c) @ ys" "ac_id C (g (f c)) = ac_id C (f c)" "device_ranges ys = B"
      "\<forall>d \<in> set ys. pt_base_hpa d = pt_base_gpa d"
    using assms(2) unfolding adds_def by blast
  show "\<exists>ds. ac_devices C (g (f c)) = ac_devices C c @ ds \<and> ac_id C (g (f c)) = ac_id C c \<and>
      device_ranges ds = A \<union> B \<and> (\<forall>d \<in> set ds. pt_base_hpa d = pt_base_gpa d)"
    using xs ys by (intro exI[of _ "xs @ ys"]) auto
qed

lemma adds_fold: "(\<And>x. x \<in> set xs \<Longrightarrow> adds C (f x) (A x)) \<Longrightarrow> adds C (fold f xs) (\<Union>x \<in> set xs. A x)"
proof (induction xs)
  case Nil
  then show ?case using adds_id by (simp add: id_def)
next
  case (Cons x xs)
  then show ?case using adds_comp[of C "f x" "A x" "fold f xs" "\<Union>x \<in> set xs. A x"] by (simp add: comp_def)
qed

lemma adds_for_enumerate:
  assumes "\<And>i x. adds C (f i x) (A x)"
  shows "adds C (for_enumerate f xs) (\<Union>x \<in> set xs. A x)"
proof -
  have "adds C (fold (\<lambda>(i, x). f i x) (List.enumerate 0 xs)) (\<Union>p \<in> set (List.enumerate 0 xs). A (snd p))"
    by (rule adds_fold) (auto simp: assms split: prod.splits)
  moreover have "(\<Union>p \<in> set (List.enumerate 0 xs). A (snd p)) = (\<Union>x \<in> set xs. A x)"
  proof -
    have "set xs = snd ` set (List.enumerate 0 xs)" by (metis list.set_map map_snd_enumerate)
    then show ?thesis by simp
  qed
  ultimately show ?thesis by (simp add: for_enumerate_def[abs_def])
qed

lemma adds_device: "cfg_laws C \<Longrightarrow> pt_base_hpa d = pt_base_gpa d \<Longrightarrow> adds C (ac_add_device C d) {(pt_base_gpa d, pt_length d)}"
  by (simp add: adds_def cfg_laws_def)

lemma adds_address: "cfg_laws C \<Longrightarrow> adds C (add_device_address_config C name a sz i pre) (if sz = 0 then {} else {(a, sz)})"
  using adds_device[of C "\<lparr>pt_name = _, pt_base_gpa = a, pt_base_hpa = a, pt_length = sz, pt_irq_id = 0\<rparr>"] adds_id[of C]
  by (auto simp: add_device_address_config_def[abs_def] Let_def)

lemma adds_pci_range: "cfg_laws C \<Longrightarrow>
    adds C (add_pci_ranges_config C name r i) (if pci_size r = 0 then {} else {(pci_cpu_address r, pci_size r)})"
  using adds_device[of C "\<lparr>pt_name = _, pt_base_gpa = pci_cpu_address r, pt_base_hpa = pci_cpu_address r, pt_length = pci_size r, pt_irq_id = 0\<rparr>"]
    adds_id[of C]
  by (auto simp: add_pci_ranges_config_def[abs_def] Let_def)

lemma adds_reg_entry:
  assumes "cfg_laws C"
  shows "adds C (add_device_address_config C name (fst x) (case snd x of None \<Rightarrow> 0 | Some s \<Rightarrow> s) i pre)
    {(a, l). l \<noteq> 0 \<and> (a, Some l) = x}"
proof (cases "snd x")
  case None
  then have e: "{(a, l). l \<noteq> 0 \<and> (a, Some l) = x} = {}" by auto
  show ?thesis unfolding e using adds_address[OF assms, of name "fst x" 0 i pre] None by simp
next
  case (Some s)
  then have e: "{(a, l). l \<noteq> 0 \<and> (a, Some l) = x} = (if s = 0 then {} else {(fst x, s)})" by (cases x) auto
  show ?thesis unfolding e using adds_address[OF assms, of name "fst x" s i pre] Some by simp
qed

lemma adds_reg: "cfg_laws C \<Longrightarrow>
    adds C (add_reg C pre n) {(a, l). l \<noteq> 0 \<and> (\<exists>regs. node_reg n = Some regs \<and> (a, Some l) \<in> set regs)}"
proof (cases "node_reg n")
  case None
  then show ?thesis using adds_id by (simp add: add_reg_def[abs_def])
next
  case (Some regs)
  assume C: "cfg_laws C"
  have "adds C (for_enumerate (\<lambda>i x. add_device_address_config C (node_name n) (fst x) (case snd x of None \<Rightarrow> 0 | Some s \<Rightarrow> s) i pre) regs)
      (\<Union>x \<in> set regs. {(a, l). l \<noteq> 0 \<and> (a, Some l) = x})"
    by (rule adds_for_enumerate) (rule adds_reg_entry[OF C])
  moreover have "(\<Union>x \<in> set regs. {(a, l). l \<noteq> 0 \<and> (a, Some l) = x}) = {(a, l). l \<noteq> 0 \<and> (\<exists>regs. node_reg n = Some regs \<and> (a, Some l) \<in> set regs)}"
    using Some by auto
  ultimately show ?thesis using Some by (simp add: add_reg_def[abs_def] case_prod_beta')
qed

lemma adds_pci: "cfg_laws C \<Longrightarrow> adds C (add_pci C n)
    {(a, l). l \<noteq> 0 \<and> (\<exists>rs. node_pci_ranges n = Some rs \<and> (\<exists>r \<in> set rs. pci_cpu_address r = a \<and> pci_size r = l))}"
proof (cases "node_pci_ranges n")
  case None
  then show ?thesis using adds_id by (simp add: add_pci_def[abs_def])
next
  case (Some rs)
  assume C: "cfg_laws C"
  have "adds C (for_enumerate (\<lambda>i r. add_pci_ranges_config C (node_name n) r i) rs)
      (\<Union>r \<in> set rs. if pci_size r = 0 then {} else {(pci_cpu_address r, pci_size r)})"
    by (rule adds_for_enumerate) (rule adds_pci_range[OF C])
  moreover have "(\<Union>r \<in> set rs. if pci_size r = 0 then {} else {(pci_cpu_address r, pci_size r)}) =
      {(a, l). l \<noteq> 0 \<and> (\<exists>r \<in> set rs. pci_cpu_address r = a \<and> pci_size r = l)}"
    by (auto split: if_splits)
  ultimately show ?thesis using Some by (simp add: add_pci_def[abs_def])
qed

lemma adds_node: "cfg_laws C \<Longrightarrow> adds C (node_addresses C n) (node_ranges n)"
proof -
  assume C: "cfg_laws C"
  have "str_contains (node_name n) ''pci''" if "starts_with (node_name n) ''pcie@''"
    using that by (auto simp: starts_with_prefix prefix_def str_contains_sublist sublist_def intro: exI[of _ "[]"])
  then have pci: "starts_with (node_name n) ''pcie@'' \<or> str_contains (node_name n) ''pci'' \<longleftrightarrow> is_pci_node n"
    by (auto simp: is_pci_node_def)
  show ?thesis
  proof (cases "node_name n = ''/'' \<or> starts_with (node_name n) ''memory''")
    case True
    then show ?thesis using adds_id by (auto simp: node_addresses_def[abs_def] node_ranges_def starts_with_prefix)
  next
    case False
    then have n: "node_addresses C n = (if is_pci_node n then (\<lambda>c. add_reg C (Some ''ecam'') n (add_pci C n c)) else add_reg C None n)"
      by (auto simp: fun_eq_iff node_addresses_def pci[symmetric])
    have "\<not> (node_name n = ''/'' \<or> prefix ''memory'' (node_name n))" using False by (simp add: starts_with_prefix)
    then show ?thesis unfolding n
      using adds_reg[OF C, of None n] adds_comp[OF adds_pci[OF C, of n] adds_reg[OF C, of "Some ''ecam''" n]]
      by (cases "is_pci_node n") (simp_all add: node_ranges_def Un_commute)
  qed
qed

lemma interrupt_cells_keep:
  "cfg_laws C \<Longrightarrow> ac_devices C (interrupt_cells C k vs c) = ac_devices C c \<and> ac_id C (interrupt_cells C k vs c) = ac_id C c"
  by (induction C k vs c rule: interrupt_cells.induct) (auto simp: cfg_laws_def)

lemma node_spis_keep:
  "cfg_laws C \<Longrightarrow> ac_devices C (node_spis C n c) = ac_devices C c \<and> ac_id C (node_spis C n c) = ac_id C c"
proof -
  assume C: "cfg_laws C"
  have "ac_devices C (fold (interrupt_cells C 0) xs c) = ac_devices C c \<and> ac_id C (fold (interrupt_cells C 0) xs c) = ac_id C c" for xs c
    by (induction xs arbitrary: c) (simp_all add: interrupt_cells_keep[OF C])
  then show ?thesis by (simp add: node_spis_def Let_def split: option.split)
qed

lemma fold_spis_keep:
  "cfg_laws C \<Longrightarrow> ac_devices C (fold (node_spis C) ns c) = ac_devices C c \<and> ac_id C (fold (node_spis C) ns c) = ac_id C c"
  by (induction ns arbitrary: c) (simp_all add: node_spis_keep)


text \<open>
  What is written is read back: names, depths and properties of the nodes, and the root, written with
  the empty name, as \<^verbatim>\<open>/\<close>.
\<close>

definition node_shape :: "'a FdtNode_scheme \<Rightarrow> string \<times> nat \<times> (string \<times> u8 list) list" where
  "node_shape n = (node_name n, level n, map (\<lambda>p. (prop_name p, raw_value p)) (propertys n))"

definition as_root :: "dtree \<Rightarrow> dtree" where
  "as_root t = DNode ''/'' (dt_props t) (dt_reg t) (dt_children t)"

definition reads_back :: "fdt_lib \<Rightarrow> dtree \<Rightarrow> bool" where
  "reads_back L t = (\<exists>ns. fl_from_bytes L (fl_finish L (tree_calls t)) = Some ns \<and>
     map node_shape ns = map node_shape (flatten 1 (as_root t)))"

lemma parse_addresses_ranges:
  assumes "cfg_laws C" "ac_devices C cfg = [] \<or> pt_length (hd (ac_devices C cfg)) = 0" "fl_from_bytes L b = Some ns"
  obtains cfg' where "parse_passthrough_devices_address L C b cfg = Done cfg'" "ac_id C cfg' = ac_id C cfg"
    "device_ranges (ac_devices C cfg') = (\<Union>n \<in> set ns. node_ranges n)"
    "\<forall>d \<in> set (ac_devices C cfg'). pt_base_hpa d = pt_base_gpa d"
proof -
  have "adds C (fold (node_addresses C) ns) (\<Union>n \<in> set ns. node_ranges n)"
    by (rule adds_fold) (rule adds_node[OF assms(1)])
  from this[unfolded adds_def, THEN spec, of "ac_clear_devices C cfg"]
  obtain ds where ds: "ac_devices C (fold (node_addresses C) ns (ac_clear_devices C cfg)) = ac_devices C (ac_clear_devices C cfg) @ ds"
      "ac_id C (fold (node_addresses C) ns (ac_clear_devices C cfg)) = ac_id C (ac_clear_devices C cfg)"
      "device_ranges ds = (\<Union>n \<in> set ns. node_ranges n)" "\<forall>d \<in> set ds. pt_base_hpa d = pt_base_gpa d"
    by (elim exE conjE)
  have "ac_devices C (ac_clear_devices C cfg) = []" "ac_id C (ac_clear_devices C cfg) = ac_id C cfg"
    using assms(1) by (simp_all add: cfg_laws_def)
  note eqs = ds(1,2)[unfolded this append_Nil]
  have dn: "parse_passthrough_devices_address L C b cfg = Done (fold (node_addresses C) ns (ac_clear_devices C cfg))"
    using assms(2) by (cases "ac_devices C cfg") (simp_all add: parse_passthrough_devices_address_def Let_def assms(3))
  show thesis by (rule that[OF dn eqs(2)]) (simp_all only: eqs(1) ds(3), rule ds(4))
qed

lemma parse_interrupt_devices:
  assumes "cfg_laws C" "fl_from_bytes L b = Some ns"
  obtains cfg' where "parse_vm_interrupt L C b cfg = Done cfg'" "ac_devices C cfg' = ac_devices C cfg @ [fake_node]"
  using assms fold_spis_keep[OF assms(1), of ns cfg] by (simp add: parse_vm_interrupt_def cfg_laws_def)

text \<open>
  \<^bold>\<open>C8\<close>: Preparing a VM on AArch64, end to end, for a VM whose configuration names its devices and gives
  neither addresses nor a device tree: the tree kept for it is the pruned copy of the host's tree for
  the closure of the named devices, and the configuration then passes through exactly the non-empty
  address ranges of the nodes of that tree, the root and memory nodes apart, and the range of the fake
  node, each at the same guest and host address.
\<close>

theorem guest_devices_from_guest_tree:
  fixes C :: "'c axvm_config" and E :: "('v, 'f) image_env"
  assumes C: "cfg_laws C" "ac_id C cfg = base_id cc"
    and unaddressed: "ac_devices C cfg = [] \<or> pt_length (hd (ac_devices C cfg)) = 0"
    and host: "fl_from_bytes (ie_fdt E) host_bytes = Some host" "map FdtNode.truncate host = flatten 1 t"
    and names: "names = find_all_passthrough_devices (map pt_name (ac_devices C cfg)) (ac_excluded C cfg) (flatten 1 t)"
    and tree: "dt_name t = ''/''" "list_all plain_names (dt_children t)"
      "list_all (skips_whole (guest_keeps ids names) [] 2) (dt_children t)"
    and cpus: "base_phys_cpu_ids cc = Some ids" "distinct (map snd (cpu_nodes_info (find_cpus host)))"
    and none: "get_developer_provided_dtb E (base_id cc) cc = Done None"
    and lib: "reads_back (ie_fdt E) (guest_tree ids names t)"
  shows "\<exists>cfg' m' blob ns. handle_fdt_operations E C find_cpus host_bytes cc cfg (Some m) = Done (cfg', Some m') \<and>
    bt_get (base_id cc) m' = Some blob \<and> blob = fl_finish (ie_fdt E) (tree_calls (guest_tree ids names t)) \<and>
    fl_from_bytes (ie_fdt E) blob = Some ns \<and> map node_shape ns = map node_shape (flatten 1 (as_root (guest_tree ids names t))) \<and>
    device_ranges (ac_devices C cfg') = insert (0, 0x200000) (\<Union>n \<in> set ns. node_ranges n) \<and>
    (\<forall>d \<in> set (ac_devices C cfg'). pt_base_hpa d = pt_base_gpa d)"
proof -
  let ?L = "ie_fdt E"
  let ?blob = "fl_finish ?L (tree_calls (guest_tree ids names t))"
  obtain masks where cfg1: "set_phys_cpu_sets C (find_cpus host) cc cfg = Done (ac_set_cpu_sets C masks cfg)"
    using unique_cpu_addresses_Done[of "[]" "cpu_nodes_info (find_cpus host)"] cpus by (simp add: set_phys_cpu_sets_def)
  let ?cfg1 = "ac_set_cpu_sets C masks cfg"
  have c1: "ac_devices C ?cfg1 = ac_devices C cfg" "ac_id C ?cfg1 = base_id cc" "ac_excluded C ?cfg1 = ac_excluded C cfg"
    using C by (simp_all add: cfg_laws_def)
  have sfdt: "setup_guest_fdt_from_vmm ?L C host_bytes ?cfg1 cc (Some m) = Done (Some (bt_insert (base_id cc) ?blob m))"
    unfolding setup_guest_fdt_from_vmm_def host c1 Let_def option.case names[symmetric] cpus(1) crate_guest_fdt_tree[OF tree]
    by (simp add: crate_guest_fdt_with_cache_def)
  obtain ns where ns: "fl_from_bytes ?L ?blob = Some ns"
      and sh: "map node_shape ns = map node_shape (flatten 1 (as_root (guest_tree ids names t)))" using lib by (auto simp: reads_back_def)
  from unaddressed have "ac_devices C ?cfg1 = [] \<or> pt_length (hd (ac_devices C ?cfg1)) = 0" by (simp add: c1)
  then obtain cfg2 where cfg2: "parse_passthrough_devices_address ?L C ?blob ?cfg1 = Done cfg2" "ac_id C cfg2 = ac_id C ?cfg1"
      "device_ranges (ac_devices C cfg2) = (\<Union>n \<in> set ns. node_ranges n)" "\<forall>d \<in> set (ac_devices C cfg2). pt_base_hpa d = pt_base_gpa d"
    by (rule parse_addresses_ranges[OF C(1) _ ns])
  obtain cfg3 where cfg3: "parse_vm_interrupt ?L C ?blob cfg2 = Done cfg3" "ac_devices C cfg3 = ac_devices C cfg2 @ [fake_node]"
    using parse_interrupt_devices[OF C(1) ns] .
  have "handle_fdt_operations E C find_cpus host_bytes cc cfg (Some m) = Done (cfg3, Some (bt_insert (base_id cc) ?blob m))"
    by (simp add: handle_fdt_operations_def host(1) cfg1 c1(2) none sfdt get_vm_dtb_arc_def cfg2(1) cfg3(1))
  then show ?thesis
  proof (intro exI conjI)
    show "bt_get (base_id cc) (bt_insert (base_id cc) ?blob m) = Some ?blob" by simp
    show "device_ranges (ac_devices C cfg3) = insert (0, 0x200000) (\<Union>n \<in> set ns. node_ranges n)"
      unfolding cfg3(2) device_ranges_simps cfg2(3) by (simp add: fake_node_def)
    show "\<forall>d \<in> set (ac_devices C cfg3). pt_base_hpa d = pt_base_gpa d"
      unfolding cfg3(2) using cfg2(4) by (simp add: fake_node_def ball_Un)
  qed (assumption | rule ns sh refl)+
qed

text \<open>The host of \<open>host_tree\<close>, whose serial device has a page of registers; the guest gets that device and processor 1.\<close>

definition dev_node :: "string \<Rightarrow> nat \<Rightarrow> usize list option \<Rightarrow> (u64 \<times> usize option) list option \<Rightarrow> DevNode" where
  "dev_node n l ra regs = \<lparr>node_name = n, level = l, propertys = [], reg_addresses = ra,
     node_reg = regs, node_pci_ranges = None, node_interrupts = None\<rparr>"

definition host_nodes :: "DevNode list" where
  "host_nodes = [dev_node ''/'' 1 None None, dev_node ''cpus'' 2 None None, dev_node ''cpu@0'' 3 (Some [0]) (Some [(0, None)]),
     dev_node ''cpu@1'' 3 (Some [1]) (Some [(1, None)]), dev_node ''memory@0'' 2 (Some [0]) (Some [(0, Some 0x40000000)]),
     dev_node ''soc'' 2 None None, dev_node ''uart@0'' 3 None (Some [(0x9000000, Some 0x1000)]), dev_node ''dma'' 4 None None,
     dev_node ''usb@1'' 3 None (Some [(0xA000000, Some 0x1000)])]"

definition guest_nodes :: "DevNode list" where
  "guest_nodes = [dev_node ''/'' 1 None None, dev_node ''cpus'' 2 None None, dev_node ''cpu@1'' 3 (Some [1]) (Some [(1, None)]),
     dev_node ''soc'' 2 None None, dev_node ''uart@0'' 3 None (Some [(0x9000000, Some 0x1000)]), dev_node ''dma'' 4 None None]"

definition two_blobs :: fdt_lib where
  "two_blobs = \<lparr>fl_from_bytes = (\<lambda>b. if b = [0] then Some host_nodes else if b = [1] then Some guest_nodes else None),
     fl_finish = (\<lambda>_. [1]), fl_align_down = (\<lambda>a n. a)\<rparr>"

definition uart_env :: "(unit, u8 list) image_env" where
  "uart_env = \<lparr>ie_vm = two_slices, ie_files = byte_files Map.empty, ie_fdt = two_blobs, ie_memory_images = [],
     ie_aarch64 = True, ie_fs = False, ie_config_id = base_id,
     ie_riscv = \<lparr>rv_size = 0, rv_read = (\<lambda>_. \<lparr>rv_text_offset = 0, rv_image_size = 0, rv_flags = 0, rv_magic = 0, rv_magic2 = 0\<rparr>)\<rparr>\<rparr>"

definition uart_config :: plain_config where
  "uart_config = empty_config\<lparr>pc_devices := [\<lparr>pt_name = ''/soc/uart@0'', pt_base_gpa = 0, pt_base_hpa = 0, pt_length = 0, pt_irq_id = 0\<rparr>]\<rparr>"

lemma host_nodes_tree: "map FdtNode.truncate host_nodes = flatten 1 host_tree"
  by (simp add: host_nodes_def host_tree_def dev_node_def FdtNode.truncate_def)

lemma uart_names: "find_all_passthrough_devices [''/soc/uart@0''] [] (flatten 1 host_tree) = [''/soc/uart@0'', ''/soc/uart@0/dma'']"
  by code_simp

lemma plain_ops_laws: "cfg_laws plain_ops"
  by (simp add: cfg_laws_def plain_ops_def)

lemma uart_guest_tree:
  "list_all (skips_whole (guest_keeps [1] [''/soc/uart@0'', ''/soc/uart@0/dma'']) [] 2) (dt_children host_tree)"
  "reads_back two_blobs (guest_tree [1] [''/soc/uart@0'', ''/soc/uart@0/dma''] host_tree)"
proof -
  note defs = guest_keeps_def determine_node_action_def need_cpu_node_def join_path_def starts_with_def nth_char_def
    is_descendant_of_passthrough_device_def is_ancestor_of_passthrough_device_def
  show "list_all (skips_whole (guest_keeps [1] [''/soc/uart@0'', ''/soc/uart@0/dma'']) [] 2) (dt_children host_tree)"
    by (simp add: host_tree_def defs)
  have "flatten 1 (as_root (guest_tree [1] [''/soc/uart@0'', ''/soc/uart@0/dma''] host_tree)) = map FdtNode.truncate guest_nodes"
    by (simp add: guest_tree_def as_root_def host_tree_def defs guest_nodes_def dev_node_def FdtNode.truncate_def)
  moreover have "node_shape (FdtNode.truncate n) = node_shape n" for n :: DevNode
    by (simp add: node_shape_def FdtNode.truncate_def)
  ultimately show "reads_back two_blobs (guest_tree [1] [''/soc/uart@0'', ''/soc/uart@0/dma''] host_tree)"
    unfolding reads_back_def by (simp add: two_blobs_def comp_def)
qed

theorem guest_devices_from_guest_tree_witness:
  "\<exists>cfg' m'. handle_fdt_operations uart_env plain_ops (\<lambda>_. [cpu_at ''cpu@0'' 0, cpu_at ''cpu@1'' 1]) [0] (vm_file [1]) uart_config (Some []) =
      Done (cfg', Some m') \<and>
    device_ranges (pc_devices cfg') = {(0, 0x200000), (0x9000000, 0x1000)} \<and> bt_get 1 m' = Some [1]"
proof -
  let ?names = "[''/soc/uart@0'', ''/soc/uart@0/dma'']"
  have names: "?names = find_all_passthrough_devices (map pt_name (ac_devices plain_ops uart_config)) (ac_excluded plain_ops uart_config) (flatten 1 host_tree)"
    using uart_names by (simp add: plain_ops_def uart_config_def)
  have "\<exists>cfg' m' blob ns. handle_fdt_operations uart_env plain_ops (\<lambda>_. [cpu_at ''cpu@0'' 0, cpu_at ''cpu@1'' 1]) [0] (vm_file [1]) uart_config (Some []) =
      Done (cfg', Some m') \<and> bt_get (base_id (vm_file [1])) m' = Some blob \<and>
    blob = fl_finish (ie_fdt uart_env) (tree_calls (guest_tree [1] ?names host_tree)) \<and>
    fl_from_bytes (ie_fdt uart_env) blob = Some ns \<and> map node_shape ns = map node_shape (flatten 1 (as_root (guest_tree [1] ?names host_tree))) \<and>
    device_ranges (ac_devices plain_ops cfg') = insert (0, 0x200000) (\<Union>n \<in> set ns. node_ranges n) \<and>
    (\<forall>d \<in> set (ac_devices plain_ops cfg'). pt_base_hpa d = pt_base_gpa d)"
    by (rule guest_devices_from_guest_tree[OF plain_ops_laws _ _ _ host_nodes_tree names _ _ uart_guest_tree(1)])
      (use uart_guest_tree(2) in \<open>simp_all add: plain_ops_def vm_file_def uart_config_def uart_env_def two_blobs_def host_tree_def
        cpu_nodes_info_def cpu_at_def List.map_filter_simps get_developer_provided_dtb_def\<close>)
  moreover have "(\<Union>n \<in> set guest_nodes. node_ranges n) = {(0x9000000, 0x1000)}"
    by (auto simp: guest_nodes_def dev_node_def node_ranges_def)
  ultimately show ?thesis by (auto simp: uart_env_def two_blobs_def plain_ops_def vm_file_def)
qed

end
