(* ===== verification/VM_Config.thy ===== *)
theory VM_Config
  imports VCpus Fdt_Parser
begin

text \<open>
  Creating the guest VMs, \<^verbatim>\<open>kernel/src/vmm/config.rs\<close>: the configuration files, the memory of a VM, where
  its kernel goes, and the whole of \<^verbatim>\<open>init_guest_vm\<close> from the text of a configuration to a loaded VM in
  the table. The parser of the configuration files and the VM object are of other crates: the record
  \<open>vm_make\<close> has what the code calls of them.
\<close>

section \<open>Configuration files\<close>

text \<open>
  The directory, \<^verbatim>\<open>fs::read_dir\<close>, gives the paths of its entries, an entry that cannot be read being
  \<open>None\<close>; \<open>from_utf8\<close> is \<^verbatim>\<open>String::from_utf8\<close>.
\<close>

definition config_dir :: string where
  "config_dir = ''/guest/vm_default''"

definition is_vm_config :: "string \<Rightarrow> bool" where
  "is_vm_config content = (str_contains content ''[base]'' \<and> str_contains content ''[kernel]'' \<and> str_contains content ''[devices]'')"

definition read_config :: "'f image_fs \<Rightarrow> (u8 list \<Rightarrow> string option) \<Rightarrow> string \<Rightarrow> string list outcome" where
  "read_config F from_utf8 path =
     (if \<not> ends_with path ''.toml'' then Done []
      else case if_open F path of
             None \<Rightarrow> Panic ''Failed to open file''
           | Some file \<Rightarrow>
               (case if_size F file of
                  None \<Rightarrow> Panic ''Failed to get file metadata''
                | Some file_size \<Rightarrow>
                    if file_size = 0 then Done []
                    else (case if_read_exact F file (unat file_size) of
                            (ok, buffer, _) \<Rightarrow>
                              if \<not> ok then Done []
                              else (case from_utf8 buffer of
                                      None \<Rightarrow> Panic ''Failed to convert bytes to UTF-8 string''
                                    | Some content \<Rightarrow> Done (if is_vm_config content then [content] else [])))))"

fun read_configs :: "'f image_fs \<Rightarrow> (u8 list \<Rightarrow> string option) \<Rightarrow> string option list \<Rightarrow> string list outcome" where
  "read_configs F from_utf8 [] = Done []"
| "read_configs F from_utf8 (None # es) = read_configs F from_utf8 es"
| "read_configs F from_utf8 (Some path # es) =
     outcome_bind (read_config F from_utf8 path) (\<lambda>cs.
     outcome_bind (read_configs F from_utf8 es) (\<lambda>ds. Done (cs @ ds)))"

definition filesystem_vm_configs ::
    "bool \<Rightarrow> 'f image_fs \<Rightarrow> (u8 list \<Rightarrow> string option) \<Rightarrow> (string \<Rightarrow> string option list option) \<Rightarrow> string list outcome" where
  "filesystem_vm_configs fs_feature F from_utf8 read_dir =
     (if \<not> fs_feature then Done []
      else case read_dir config_dir of None \<Rightarrow> Done [] | Some entries \<Rightarrow> read_configs F from_utf8 entries)"

section \<open>Memory and addresses of a VM\<close>

record ('c, 'v) vm_make =
  mk_from_toml :: "string \<Rightarrow> AxVMCrateConfig option"
  mk_config_from :: "AxVMCrateConfig \<Rightarrow> 'c"
  mk_vm_new :: "'c \<Rightarrow> 'v ax_result"
  mk_vm_id :: "'v \<Rightarrow> usize"
  mk_alloc_region :: "usize \<Rightarrow> usize option \<Rightarrow> 'v \<Rightarrow> unit ax_result \<times> 'v"
  mk_map_reserved :: "usize \<Rightarrow> usize option \<Rightarrow> 'v \<Rightarrow> unit ax_result \<times> 'v"
  mk_init :: "'v \<Rightarrow> unit ax_result \<times> 'v"
  mk_set_status :: "VMStatus \<Rightarrow> 'v \<Rightarrow> 'v"

text \<open>\<^verbatim>\<open>Layout::from_size_align\<close> for an alignment of 2 MiB: the size rounded up must not exceed \<^verbatim>\<open>isize::MAX\<close>.\<close>

definition layout_ok :: "usize \<Rightarrow> bool" where
  "layout_ok sz = (unat sz \<le> 2 ^ 63 - 0x200000)"

definition alloc_memory :: "('c, 'v) vm_make \<Rightarrow> VmMemConfig \<Rightarrow> 'v \<Rightarrow> 'v outcome" where
  "alloc_memory M memory vm =
     (if \<not> layout_ok (mem_size memory) then Panic ''called `Result::unwrap()` on an `Err` value''
      else case map_type memory of
        MapAlloc \<Rightarrow> (case mk_alloc_region M (mem_size memory) (Some (mem_gpa memory)) vm of
            (Inl _, _) \<Rightarrow> Panic ''Failed to allocate memory region for VM'' | (Inr _, vm1) \<Rightarrow> Done vm1)
      | MapIdentical \<Rightarrow> (case mk_alloc_region M (mem_size memory) None vm of
            (Inl _, _) \<Rightarrow> Panic ''Failed to allocate memory region for VM'' | (Inr _, vm1) \<Rightarrow> Done vm1)
      | MapReserved \<Rightarrow> (case mk_map_reserved M (mem_size memory) (Some (mem_gpa memory)) vm of
            (Inl _, _) \<Rightarrow> Panic ''Failed to map memory region for VM'' | (Inr _, vm1) \<Rightarrow> Done vm1))"

fun vm_alloc_memorys :: "('c, 'v) vm_make \<Rightarrow> VmMemConfig list \<Rightarrow> 'v \<Rightarrow> 'v outcome" where
  "vm_alloc_memorys M [] vm = Done vm"
| "vm_alloc_memorys M (m # ms) vm = outcome_bind (alloc_memory M m vm) (vm_alloc_memorys M ms)"

definition config_guest_address :: "'v vm_load \<Rightarrow> main_memory \<Rightarrow> 'v \<Rightarrow> 'v" where
  "config_guest_address V main_mem vm =
     (let config = vl_config V vm in
      if mm_identical main_mem
      then let kernel_addr = (if bios_load_gpa config \<noteq> None then mm_gpa main_mem + 0x100000 * 2 else mm_gpa main_mem)
           in vl_set_config V (config\<lparr>kernel_load_gpa := kernel_addr, bsp_entry := kernel_addr, ap_entry := kernel_addr\<rparr>) vm
      else vm)"

section \<open>From a configuration to a loaded VM\<close>

text \<open>
  VM objects are shared: the table holds references, numbers below \<open>cs_next\<close>, into the store \<open>cs_vms\<close>.
\<close>

record 'v config_state =
  cs_vms :: "nat \<Rightarrow> 'v"
  cs_next :: nat
  cs_list :: "nat VMList"
  cs_cache :: dtb_cache
  cs_mem :: "usize \<Rightarrow> u8"
  cs_cleaned :: "region list"

text \<open>The tree of the host and its processors, as \<open>handle_fdt_operations\<close> takes them.\<close>

record host_fdt =
  host_bytes :: "u8 list"
  host_find_cpus :: "DevNode list \<Rightarrow> FdtNode list"

definition make_config ::
    "('v, 'f) image_env \<Rightarrow> 'c axvm_config \<Rightarrow> ('c, 'v) vm_make \<Rightarrow> host_fdt \<Rightarrow> AxVMCrateConfig \<Rightarrow> dtb_cache \<Rightarrow> ('c \<times> dtb_cache) outcome" where
  "make_config E C M H cc cache =
     (if ie_aarch64 E then handle_fdt_operations E C (host_find_cpus H) (host_bytes H) cc (mk_config_from M cc) cache
      else Done (mk_config_from M cc, cache))"

definition load_and_init ::
    "('v, 'f) image_env \<Rightarrow> ('c, 'v) vm_make \<Rightarrow> AxVMCrateConfig \<Rightarrow> dtb_cache \<Rightarrow> 'v load_state \<Rightarrow> 'v load_state outcome" where
  "load_and_init E M cc cache ls =
     outcome_bind (ImageLoader_load E cache (ImageLoader_new cc) ls) (\<lambda>(res, ls1).
       case res of
         Inl _ \<Rightarrow> Panic ''Failed to load VM images''
       | Inr _ \<Rightarrow>
           (case mk_init M (the_vm ls1) of
              (Inl _, _) \<Rightarrow> Panic ''setup failed''
            | (Inr _, vm) \<Rightarrow> Done (ls1\<lparr>the_vm := mk_set_status M Loaded vm\<rparr>)))"

definition init_guest_vm ::
    "('v, 'f) image_env \<Rightarrow> 'c axvm_config \<Rightarrow> ('c, 'v) vm_make \<Rightarrow> host_fdt \<Rightarrow> string \<Rightarrow> 'v config_state \<Rightarrow>
     (usize ax_result \<times> 'v config_state) outcome" where
  "init_guest_vm E C M H raw_cfg st =
     (case mk_from_toml M raw_cfg of
        None \<Rightarrow> Panic ''Failed to resolve VM config''
      | Some cc \<Rightarrow>
          outcome_bind (get_image_header E cc) (\<lambda>_.
          outcome_bind (make_config E C M H cc (cs_cache st)) (\<lambda>(cfg, cache).
            case mk_vm_new M cfg of
              Inl _ \<Rightarrow> Panic ''Failed to create VM''
            | Inr vm \<Rightarrow>
                (let r = cs_next st;
                     st1 = st\<lparr>cs_vms := (cs_vms st)(r := vm), cs_next := r + 1,
                       cs_list := push_vm (\<lambda>i. mk_vm_id M (((cs_vms st)(r := vm)) i)) r (cs_list st), cs_cache := cache\<rparr>
                 in outcome_bind (vm_alloc_memorys M (kernel_memory_regions cc) vm) (\<lambda>vm1.
                    case vl_memory_regions (ie_vm E) vm1 of
                      [] \<Rightarrow> Panic ''VM must have at least one memory region''
                    | main_mem # _ \<Rightarrow>
                        outcome_bind (load_and_init E M cc cache
                            \<lparr>hmem = cs_mem st, cleaned = cs_cleaned st, the_vm = config_guest_address (ie_vm E) main_mem vm1\<rparr>)
                          (\<lambda>ls. Done (Inr (mk_vm_id M vm),
                             st1\<lparr>cs_vms := (cs_vms st1)(r := the_vm ls), cs_mem := hmem ls, cs_cleaned := cleaned ls\<rparr>)))))))"

fun init_each :: "(string \<Rightarrow> 's \<Rightarrow> (usize ax_result \<times> 's) outcome) \<Rightarrow> string list \<Rightarrow> 's \<Rightarrow> 's outcome" where
  "init_each f [] st = Done st"
| "init_each f (raw # raws) st = outcome_bind (f raw st) (\<lambda>(_, st1). init_each f raws st1)"

definition init_guest_vms ::
    "('v, 'f) image_env \<Rightarrow> 'c axvm_config \<Rightarrow> ('c, 'v) vm_make \<Rightarrow> host_fdt \<Rightarrow> string list outcome \<Rightarrow> string list \<Rightarrow>
     'v config_state \<Rightarrow> 'v config_state outcome" where
  "init_guest_vms E C M H fs_configs static_vm_configs st =
     outcome_bind (if ie_aarch64 E then init_dtb_cache (cs_cache st) else Done (cs_cache st)) (\<lambda>cache.
     outcome_bind fs_configs (\<lambda>configs.
       init_each (init_guest_vm E C M H) (if configs = [] then static_vm_configs else configs) (st\<lparr>cs_cache := cache\<rparr>)))"


section \<open>A VM that is created is loaded\<close>

text \<open>What the code relies on of the VM object; \<open>status\<close> is its status, \<open>translate\<close> its memory.\<close>

definition vm_make_laws ::
    "('c, 'v) vm_make \<Rightarrow> 'v vm_load \<Rightarrow> ('v \<Rightarrow> usize \<Rightarrow> usize) \<Rightarrow> ('v \<Rightarrow> VMStatus) \<Rightarrow> bool" where
  "vm_make_laws M V translate status =
     ((\<forall>c v. vl_config V (vl_set_config V c v) = c \<and> mk_vm_id M (vl_set_config V c v) = mk_vm_id M v) \<and>
      (\<forall>v v'. mk_init M v = (Inr (), v') \<longrightarrow> vl_config V v' = vl_config V v \<and> translate v' = translate v \<and> mk_vm_id M v' = mk_vm_id M v) \<and>
      (\<forall>s v. status (mk_set_status M s v) = s \<and> vl_config V (mk_set_status M s v) = vl_config V v \<and>
         translate (mk_set_status M s v) = translate v \<and> mk_vm_id M (mk_set_status M s v) = mk_vm_id M v) \<and>
      (\<forall>sz g v v'. mk_alloc_region M sz g v = (Inr (), v') \<longrightarrow> mk_vm_id M v' = mk_vm_id M v) \<and>
      (\<forall>sz g v v'. mk_map_reserved M sz g v = (Inr (), v') \<longrightarrow> mk_vm_id M v' = mk_vm_id M v))"

text \<open>The images of a VM with their addresses, in the order in which they are loaded; an image that is at its place.\<close>

definition image_plan :: "vm_addresses \<Rightarrow> MemoryImage \<Rightarrow> (usize \<times> u8 list) list" where
  "image_plan cfg v = (kernel_load_gpa cfg, mi_kernel v) #
     (case mi_bios v of None \<Rightarrow> [] | Some b \<Rightarrow> [(the (bios_load_gpa cfg), b)]) @
     (case mi_ramdisk v of None \<Rightarrow> [] | Some b \<Rightarrow> [(the (ramdisk_load_gpa cfg), b)])"

definition image_at :: "(usize \<Rightarrow> usize) \<Rightarrow> (usize \<Rightarrow> u8) \<Rightarrow> usize \<times> u8 list \<Rightarrow> bool" where
  "image_at tr m p = (\<forall>k < length (snd p). m (tr (fst p + of_nat k)) = snd p ! k)"

definition image_area :: "(usize \<Rightarrow> usize) \<Rightarrow> usize \<times> u8 list \<Rightarrow> usize set" where
  "image_area tr p = (\<lambda>k. tr (fst p + of_nat k)) ` {..<length (snd p)}"

text \<open>The images fit: each has memory, and no two share a byte.\<close>

fun images_fit :: "'v vm_load \<Rightarrow> ('v \<Rightarrow> usize \<Rightarrow> usize) \<Rightarrow> 'v \<Rightarrow> (usize \<times> u8 list) list \<Rightarrow> bool" where
  "images_fit V translate v [] = True"
| "images_fit V translate v (p # ps) =
     (length (snd p) < 2 ^ 64 \<and> (\<exists>rs. vl_image_load_region V v (fst p) (of_nat (length (snd p))) = Inr rs) \<and>
      (\<forall>q \<in> set ps. image_area (translate v) p \<inter> image_area (translate v) q = {}) \<and> images_fit V translate v ps)"

lemma load_image_place:
  assumes "vm_load_laws V translate" "length (snd p) < 2 ^ 64"
    "vl_image_load_region V (the_vm st) (fst p) (of_nat (length (snd p))) = Inr rs"
  obtains st' where "load_vm_image_from_memory V (snd p) (fst p) st = (Inr (), st')" "the_vm st' = the_vm st"
    "image_at (translate (the_vm st)) (hmem st') p"
    "\<And>x. x \<notin> image_area (translate (the_vm st)) p \<Longrightarrow> hmem st' x = hmem st x"
proof -
  note rs = image_load_region_bytes[OF assms(1,3,2)]
  let ?st = "copy_regions (snd p) 0 rs st"
  have mem: "map (hmem ?st) (region_bytes rs) = snd p" "the_vm ?st = the_vm st"
      "\<And>x. x \<notin> set (region_bytes rs) \<Longrightarrow> hmem ?st x = hmem st x"
    using copy_regions_mem[OF rs(2), of "snd p" 0 st] by (auto simp: rs(1))
  have "hmem ?st (translate (the_vm st) (fst p + of_nat k)) = snd p ! k" if "k < length (snd p)" for k
    using arg_cong[OF mem(1), of "\<lambda>xs. xs ! k"] that by (simp add: rs(1))
  moreover have "set (region_bytes rs) = image_area (translate (the_vm st)) p"
    by (auto simp: rs(1) image_area_def)
  ultimately show thesis using that[of ?st] mem(2,3) assms(3)
    by (simp add: load_vm_image_from_memory_def image_at_def)
qed

lemma image_at_keep:
  "image_at tr m p \<Longrightarrow> (\<And>x. x \<in> image_area tr p \<Longrightarrow> m' x = m x) \<Longrightarrow> image_at tr m' p"
  by (simp add: image_at_def image_area_def)

text \<open>The loads of the plan, one after the other.\<close>

fun load_plan :: "'v vm_load \<Rightarrow> (usize \<times> u8 list) list \<Rightarrow> 'v load_state \<Rightarrow> 'v load_state option" where
  "load_plan V [] st = Some st"
| "load_plan V (p # ps) st = (case load_vm_image_from_memory V (snd p) (fst p) st of
     (Inl _, _) \<Rightarrow> None | (Inr _, st1) \<Rightarrow> load_plan V ps st1)"

lemma load_plan_places:
  assumes V: "vm_load_laws V translate"
  shows "images_fit V translate (the_vm st) ps \<Longrightarrow> \<exists>st'. load_plan V ps st = Some st' \<and> the_vm st' = the_vm st \<and>
    (\<forall>p \<in> set ps. image_at (translate (the_vm st)) (hmem st') p) \<and>
    (\<forall>x. (\<forall>p \<in> set ps. x \<notin> image_area (translate (the_vm st)) p) \<longrightarrow> hmem st' x = hmem st x)"
proof (induction ps arbitrary: st)
  case (Cons p ps)
  let ?tr = "translate (the_vm st)"
  obtain st1 where st1: "load_vm_image_from_memory V (snd p) (fst p) st = (Inr (), st1)" "the_vm st1 = the_vm st"
      "image_at ?tr (hmem st1) p" "\<And>x. x \<notin> image_area ?tr p \<Longrightarrow> hmem st1 x = hmem st x"
    using Cons.prems load_image_place[OF V, of p st] by (metis images_fit.simps(2))
  obtain st2 where st2: "load_plan V ps st1 = Some st2" "the_vm st2 = the_vm st"
      "\<And>p. p \<in> set ps \<Longrightarrow> image_at ?tr (hmem st2) p"
      "\<And>x. (\<forall>p \<in> set ps. x \<notin> image_area ?tr p) \<Longrightarrow> hmem st2 x = hmem st1 x"
    using Cons.IH[of st1] Cons.prems unfolding st1(2) by auto
  have "image_at ?tr (hmem st2) p" using st1(3) by (rule image_at_keep) (rule st2(4), use Cons.prems in auto)
  then show ?case using st1 st2 by (intro exI[of _ st2]) auto
qed simp

lemma load_plan_append:
  "load_plan V (ps @ qs) st = Some st' \<longleftrightarrow> (\<exists>st1. load_plan V ps st = Some st1 \<and> load_plan V qs st1 = Some st')"
  by (induction ps arbitrary: st) (auto split: prod.splits sum.splits)

lemma load_optional_plan:
  assumes "load_plan V (case buffer of None \<Rightarrow> [] | Some b \<Rightarrow> [(the gpa, b)]) st = Some st'" "buffer = None \<or> gpa \<noteq> None"
  shows "load_optional V msg buffer gpa st = Done st'"
  using assms by (auto simp: load_optional_def expect_load_def split: option.splits sum.splits prod.splits)

lemma load_plan_loader:
  assumes "\<not> ie_aarch64 E" "image_location cc = Some ''memory''"
    "find (\<lambda>i. mi_id i = base_id cc) (ie_memory_images E) = Some v"
    "mi_bios v = None \<or> bios_load_gpa (vl_config (ie_vm E) (the_vm st)) \<noteq> None"
    "mi_ramdisk v = None \<or> ramdisk_load_gpa (vl_config (ie_vm E) (the_vm st)) \<noteq> None"
    "load_plan (ie_vm E) (image_plan (vl_config (ie_vm E) (the_vm st)) v) st = Some st'"
  shows "ImageLoader_load E cache (ImageLoader_new cc) st = Done (Inr (), st')"
proof -
  let ?V = "ie_vm E" and ?cfg = "vl_config (ie_vm E) (the_vm st)"
  have "image_plan ?cfg v = [(kernel_load_gpa ?cfg, mi_kernel v)] @
      (case mi_bios v of None \<Rightarrow> [] | Some b \<Rightarrow> [(the (bios_load_gpa ?cfg), b)]) @
      (case mi_ramdisk v of None \<Rightarrow> [] | Some b \<Rightarrow> [(the (ramdisk_load_gpa ?cfg), b)])" by (simp add: image_plan_def)
  from assms(6)[unfolded this load_plan_append]
  obtain st1 st2 where st: "load_plan ?V [(kernel_load_gpa ?cfg, mi_kernel v)] st = Some st1"
      "load_plan ?V (case mi_bios v of None \<Rightarrow> [] | Some b \<Rightarrow> [(the (bios_load_gpa ?cfg), b)]) st1 = Some st2"
      "load_plan ?V (case mi_ramdisk v of None \<Rightarrow> [] | Some b \<Rightarrow> [(the (ramdisk_load_gpa ?cfg), b)]) st2 = Some st'"
    by blast
  have "expect_load ''Failed to load VM images'' (load_vm_image_from_memory ?V (mi_kernel v) (kernel_load_gpa ?cfg) st) = Done st1"
    using st(1) by (auto simp: expect_load_def split: prod.splits sum.splits)
  then show ?thesis
    using assms(1,2,3) load_optional_plan[OF st(2) assms(4)] load_optional_plan[OF st(3) assms(5)]
    by (simp add: ImageLoader_load_def Let_def ImageLoader_new_def load_vm_images_from_memory_def load_dtb_def get_vm_dtb_arc_def)
qed

lemma vm_alloc_memorys_id:
  assumes "vm_make_laws M V translate status"
  shows "vm_alloc_memorys M ms vm = Done vm' \<Longrightarrow> mk_vm_id M vm' = mk_vm_id M vm"
proof (induction ms arbitrary: vm)
  case (Cons m ms)
  then obtain vm1 where vm1: "alloc_memory M m vm = Done vm1" "vm_alloc_memorys M ms vm1 = Done vm'" by auto
  have "mk_vm_id M vm1 = mk_vm_id M vm" using vm1(1) assms
    by (auto simp: alloc_memory_def vm_make_laws_def split: if_splits VmMemMappingType.splits sum.splits prod.splits)
  then show ?case using Cons.IH[OF vm1(2)] by simp
qed simp

lemma config_guest_address_laws:
  assumes "vm_make_laws M V translate status"
  shows "mk_vm_id M (config_guest_address V m v) = mk_vm_id M v"
    "mm_identical m \<Longrightarrow> bsp_entry (vl_config V (config_guest_address V m v)) = kernel_load_gpa (vl_config V (config_guest_address V m v)) \<and>
       ap_entry (vl_config V (config_guest_address V m v)) = kernel_load_gpa (vl_config V (config_guest_address V m v))"
  using assms by (auto simp: config_guest_address_def vm_make_laws_def Let_def)

lemma init_guest_vm_steps:
  assumes "mk_from_toml M raw = Some cc" "get_image_header E cc = Done h" "\<not> ie_aarch64 E"
    "mk_vm_new M (mk_config_from M cc) = Inr vm" "vm_alloc_memorys M (kernel_memory_regions cc) vm = Done vm1"
    "vl_memory_regions (ie_vm E) vm1 = m # ms"
    "load_and_init E M cc (cs_cache st) \<lparr>hmem = cs_mem st, cleaned = cs_cleaned st, the_vm = config_guest_address (ie_vm E) m vm1\<rparr> = Done ls"
  shows "init_guest_vm E C M H raw st = Done (Inr (mk_vm_id M vm),
    st\<lparr>cs_vms := (cs_vms st)(cs_next st := the_vm ls), cs_next := cs_next st + 1,
      cs_list := push_vm (\<lambda>i. mk_vm_id M (((cs_vms st)(cs_next st := vm)) i)) (cs_next st) (cs_list st),
      cs_mem := hmem ls, cs_cleaned := cleaned ls\<rparr>)"
  using assms by (simp add: init_guest_vm_def make_config_def Let_def)


text \<open>A VM object with identically mapped memory at 0x40; a kernel of three bytes and a RAM disk of one.\<close>

record toy_vm =
  tv_config :: vm_addresses
  tv_regions :: "main_memory list"
  tv_status :: VMStatus

definition toy_load :: "toy_vm vm_load" where
  "toy_load = \<lparr>vl_memory_regions = tv_regions, vl_image_load_region = (\<lambda>_. vl_image_load_region two_slices ()),
     vl_config = tv_config, vl_set_config = (\<lambda>c v. v\<lparr>tv_config := c\<rparr>)\<rparr>"

definition toy_file :: AxVMCrateConfig where
  "toy_file = (vm_file [])\<lparr>kernel_memory_regions := [\<lparr>mem_gpa = 0, mem_size = 0x200000, map_type = MapIdentical\<rparr>]\<rparr>"

definition toy_new :: toy_vm where
  "toy_new = \<lparr>tv_config = \<lparr>kernel_load_gpa = 0, bios_load_gpa = None, dtb_load_gpa = None, ramdisk_load_gpa = Some 0x100,
     bsp_entry = 0, ap_entry = 0\<rparr>, tv_regions = [], tv_status = Loading\<rparr>"

definition toy_make :: "(plain_config, toy_vm) vm_make" where
  "toy_make = \<lparr>mk_from_toml = [''vm'' \<mapsto> toy_file], mk_config_from = (\<lambda>_. empty_config), mk_vm_new = (\<lambda>_. Inr toy_new), mk_vm_id = (\<lambda>_. 1),
     mk_alloc_region = (\<lambda>sz _ v. (Inr (), v\<lparr>tv_regions := tv_regions v @ [\<lparr>mm_gpa = 0x40, mm_size = sz, mm_identical = True\<rparr>]\<rparr>)),
     mk_map_reserved = (\<lambda>_ _ v. (Inr (), v)), mk_init = (\<lambda>v. (Inr (), v)), mk_set_status = (\<lambda>s v. v\<lparr>tv_status := s\<rparr>)\<rparr>"

definition toy_image :: MemoryImage where
  "toy_image = \<lparr>mi_id = 1, mi_kernel = [7, 8, 9], mi_dtb = None, mi_bios = None, mi_ramdisk = Some [5]\<rparr>"

definition toy_env :: "(toy_vm, u8 list) image_env" where
  "toy_env = \<lparr>ie_vm = toy_load, ie_files = byte_files Map.empty, ie_fdt = two_blobs, ie_memory_images = [toy_image],
     ie_aarch64 = False, ie_fs = False, ie_config_id = base_id, ie_riscv = ie_riscv uart_env\<rparr>"

definition toy_vms :: "toy_vm config_state" where
  "toy_vms = \<lparr>cs_vms = (\<lambda>_. toy_new), cs_next = 0, cs_list = VMList_new, cs_cache = None, cs_mem = (\<lambda>_. 0), cs_cleaned = []\<rparr>"

lemma toy_laws:
  "vm_make_laws toy_make (ie_vm toy_env) (\<lambda>_ a. a + 0x1000) tv_status" "vm_load_laws (ie_vm toy_env) (\<lambda>_ a. a + 0x1000)"
proof -
  have r: "vl_image_load_region (ie_vm toy_env) v = vl_image_load_region two_slices ()" for v
    by (simp add: toy_env_def toy_load_def)
  show "vm_load_laws (ie_vm toy_env) (\<lambda>_ a. a + 0x1000)" using two_slices_laws unfolding vm_load_laws_def r by blast
qed (simp add: vm_make_laws_def toy_make_def toy_env_def toy_load_def)


text \<open>
  An error is never returned: what goes wrong ends in a panic, so that \<^verbatim>\<open>init_guest_vms\<close> and the shell never
  see a failure to create a VM.
\<close>

lemma init_guest_vm_no_error:
  assumes "init_guest_vm E C M H raw st = Done (res, st')"
  shows "\<exists>i. res = Inr i"
proof -
  obtain cc cfg cache where c: "mk_from_toml M raw = Some cc" "make_config E C M H cc (cs_cache st) = Done (cfg, cache)"
    using assms by (auto simp: init_guest_vm_def split: option.splits)
  then obtain vm where vm: "mk_vm_new M cfg = Inr vm"
    using assms by (cases "mk_vm_new M cfg") (auto simp: init_guest_vm_def)
  obtain vm1 where vm1: "vm_alloc_memorys M (kernel_memory_regions cc) vm = Done vm1"
    using assms c vm by (auto simp: init_guest_vm_def Let_def)
  show ?thesis
    using assms c vm vm1 by (cases "vl_memory_regions (ie_vm E) vm1") (auto simp: init_guest_vm_def Let_def)
qed

end
