(* ===== verification/Shell_Base.thy ===== *)
theory Shell_Base
  imports Shell_Parser
begin

text \<open>
  The file commands of the shell, \<^verbatim>\<open>kernel/src/shell/command/base.rs\<close>: \<^verbatim>\<open>ls\<close>, \<^verbatim>\<open>cat\<close>, \<^verbatim>\<open>echo\<close>, \<^verbatim>\<open>mkdir\<close>, \<^verbatim>\<open>rm\<close>,
  \<^verbatim>\<open>cd\<close>, \<^verbatim>\<open>pwd\<close>, \<^verbatim>\<open>touch\<close>, \<^verbatim>\<open>cp\<close>, \<^verbatim>\<open>mv\<close>, and \<^verbatim>\<open>uname\<close>, \<^verbatim>\<open>exit\<close>, \<^verbatim>\<open>log\<close>.

  The file system is that of the \<^verbatim>\<open>axstd\<close> crate: its functions are the fields of \<open>fs_api\<close>, on a state
  \<open>'s\<close>, open files \<open>'h\<close> and directory iterators \<open>'d\<close>. An iterator reads the directory as it is at the
  moment of each step. Loops whose end depends on the file system are partial functions, whose value
  is \<open>None\<close> if they do not return. The output of a command is a list of what it prints.
\<close>

section \<open>The file system and the output\<close>

datatype FileType = CharDevice | BlockDevice | Socket | Fifo | SymLink | Dir | RegularFile | OtherType

record Metadata =
  md_type :: FileType
  md_len :: u64
  md_mode :: u32

definition md_is_dir :: "Metadata \<Rightarrow> bool" where
  "md_is_dir m = (md_type m = Dir)"

record ('s, 'h, 'd) fs_api =
  fs_metadata :: "string \<Rightarrow> 's \<Rightarrow> Metadata ax_result"
  fs_open :: "string \<Rightarrow> 's \<Rightarrow> 'h ax_result"
  fs_create :: "string \<Rightarrow> 's \<Rightarrow> 'h ax_result \<times> 's"
  fs_read :: "'h \<Rightarrow> nat \<Rightarrow> 's \<Rightarrow> (u8 list \<times> 'h) ax_result"
  fs_write_all :: "'h \<Rightarrow> u8 list \<Rightarrow> 's \<Rightarrow> 'h ax_result \<times> 's"
  fs_read_dir :: "string \<Rightarrow> 's \<Rightarrow> 'd ax_result"
  fs_next :: "'d \<Rightarrow> 's \<Rightarrow> (string \<times> FileType) ax_result option \<times> 'd"
  fs_create_dir :: "string \<Rightarrow> 's \<Rightarrow> unit ax_result \<times> 's"
  fs_create_dir_all :: "string \<Rightarrow> 's \<Rightarrow> unit ax_result \<times> 's"
  fs_remove_dir :: "string \<Rightarrow> 's \<Rightarrow> unit ax_result \<times> 's"
  fs_remove_file :: "string \<Rightarrow> 's \<Rightarrow> unit ax_result \<times> 's"
  fs_rename :: "string \<Rightarrow> string \<Rightarrow> 's \<Rightarrow> unit ax_result \<times> 's"
  fs_current_dir :: "'s \<Rightarrow> string ax_result"
  fs_set_current_dir :: "string \<Rightarrow> 's \<Rightarrow> unit ax_result \<times> 's"
  fs_show_error :: "ax_error \<Rightarrow> string"

datatype shell_out = OutLine string | OutText string | OutBytes "u8 list"

definition print_err :: "string \<Rightarrow> string \<Rightarrow> shell_out" where
  "print_err c msg = OutLine (c @ '': '' @ msg)"

definition print_err_for :: "('s, 'h, 'd) fs_api \<Rightarrow> string \<Rightarrow> string \<Rightarrow> ax_error \<Rightarrow> shell_out" where
  "print_err_for F c arg e = OutLine (c @ '': '' @ arg @ '': '' @ fs_show_error F e)"

definition flag_of :: "string \<Rightarrow> ParsedCommand \<Rightarrow> bool" where
  "flag_of f cmd = (case bt_get f (pc_flags cmd) of None \<Rightarrow> False | Some b \<Rightarrow> b)"

text \<open>\<^verbatim>\<open>str::split_at\<close> the first whitespace, both halves trimmed.\<close>

definition split_whitespace :: "string \<Rightarrow> string \<times> string" where
  "split_whitespace s0 =
     (let s = str_trim s0 in
      if list_ex is_whitespace s
      then (takeWhile (\<lambda>c. \<not> is_whitespace c) s, str_trim (dropWhile (\<lambda>c. \<not> is_whitespace c) s))
      else (s, []))"

definition str_bytes :: "string \<Rightarrow> u8 list" where
  "str_bytes s = map of_char s"

section \<open>ls\<close>

fun file_type_to_char :: "FileType \<Rightarrow> char" where
  "file_type_to_char CharDevice = CHR ''c''"
| "file_type_to_char BlockDevice = CHR ''b''"
| "file_type_to_char Socket = CHR ''s''"
| "file_type_to_char Fifo = CHR ''p''"
| "file_type_to_char SymLink = CHR ''l''"
| "file_type_to_char Dir = CHR ''d''"
| "file_type_to_char RegularFile = CHR ''-''"
| "file_type_to_char OtherType = CHR ''?''"

definition file_perm_to_rwx :: "u32 \<Rightarrow> string" where
  "file_perm_to_rwx mode =
     (let set = (\<lambda>b c perm. if and mode (push_bit b 1) \<noteq> 0 then perm[8 - b := c] else perm)
      in (set 6 CHR ''x'' \<circ> set 7 CHR ''w'' \<circ> set 8 CHR ''r'' \<circ> set 3 CHR ''x'' \<circ> set 4 CHR ''w'' \<circ> set 5 CHR ''r'' \<circ>
          set 0 CHR ''x'' \<circ> set 1 CHR ''w'' \<circ> set 2 CHR ''r'') (replicate 9 CHR ''-''))"

definition pad_left :: "nat \<Rightarrow> string \<Rightarrow> string" where
  "pad_left n s = replicate (n - length s) CHR '' '' @ s"

definition show_entry_info :: "('s, 'h, 'd) fs_api \<Rightarrow> string \<Rightarrow> string \<Rightarrow> bool \<Rightarrow> 's \<Rightarrow> shell_out list ax_result" where
  "show_entry_info F path entry show_long s =
     (if show_long
      then (case fs_metadata F path s of
              Inl e \<Rightarrow> Inl e
            | Inr m \<Rightarrow> Inr [OutLine (file_type_to_char (md_type m) # file_perm_to_rwx (md_mode m) @ '' '' @
                              pad_left 8 (show_nat (unat (md_len m))) @ '' '' @ entry)])
      else Inr [OutLine entry])"

text \<open>\<^verbatim>\<open>filter_map(|e| e.ok())\<close> over a directory that does not change.\<close>

partial_function (option) list_names :: "('s, 'h, 'd) fs_api \<Rightarrow> 'd \<Rightarrow> 's \<Rightarrow> string list option" where
  "list_names F d s =
     (case fs_next F d s of
        (None, _) \<Rightarrow> Some []
      | (Some (Inl _), d1) \<Rightarrow> list_names F d1 s
      | (Some (Inr (name, _)), d1) \<Rightarrow> Option.bind (list_names F d1 s) (\<lambda>ns. Some (name # ns)))"

definition list_one :: "('s, 'h, 'd) fs_api \<Rightarrow> string \<Rightarrow> bool \<Rightarrow> bool \<Rightarrow> bool \<Rightarrow> 's \<Rightarrow> (shell_out list \<times> unit ax_result) option" where
  "list_one F name print_name show_long show_all s =
     (case fs_metadata F name s of
        Inl e \<Rightarrow> Some ([], Inl e)
      | Inr m \<Rightarrow>
          if \<not> md_is_dir m
          then Some (case show_entry_info F name name show_long s of Inl e \<Rightarrow> ([], Inl e) | Inr out \<Rightarrow> (out, Inr ()))
          else
            (let header = (if print_name then [OutLine (name @ '':'')] else []) in
             case fs_read_dir F name s of
               Inl e \<Rightarrow> Some (header, Inl e)
             | Inr d \<Rightarrow>
                 Option.bind (list_names F d s) (\<lambda>ns.
                   let entries = sort (filter (\<lambda>n. show_all \<or> \<not> starts_with n ''.'') ns) in
                   Some (header @ concat (map (\<lambda>entry.
                       let path = name @ ''/'' @ entry in
                       case show_entry_info F path entry show_long s of Inl e \<Rightarrow> [print_err_for F ''ls'' path e] | Inr out \<Rightarrow> out) entries),
                     Inr ()))))"

fun ls_targets :: "('s, 'h, 'd) fs_api \<Rightarrow> nat \<Rightarrow> bool \<Rightarrow> bool \<Rightarrow> bool \<Rightarrow> string list \<Rightarrow> 's \<Rightarrow> shell_out list option" where
  "ls_targets F i several show_long show_all [] s = Some []"
| "ls_targets F i several show_long show_all (name # names) s =
     Option.bind (list_one F name several show_long show_all s) (\<lambda>(out, r).
     Option.bind (ls_targets F (i + 1) several show_long show_all names s) (\<lambda>rest.
       Some ((if i > 0 then [OutLine []] else []) @ out @ (case r of Inl e \<Rightarrow> [print_err_for F ''ls'' name e] | Inr _ \<Rightarrow> []) @ rest)))"

definition do_ls :: "('s, 'h, 'd) fs_api \<Rightarrow> ParsedCommand \<Rightarrow> 's \<Rightarrow> shell_out list outcome option" where
  "do_ls F cmd s =
     (case fs_current_dir F s of
        Inl _ \<Rightarrow> Some (Panic ''called `Result::unwrap()` on an `Err` value'')
      | Inr _ \<Rightarrow>
          (let args = positional_args cmd; targets = (if args = [] then [''.''] else args)
           in map_option Done (ls_targets F 0 (length targets > 1) (flag_of ''long'' cmd) (flag_of ''all'' cmd) targets s)))"


section \<open>cat, echo, touch\<close>

partial_function (option) cat_loop :: "('s, 'h, 'd) fs_api \<Rightarrow> 'h \<Rightarrow> 's \<Rightarrow> (shell_out list \<times> unit ax_result) option" where
  "cat_loop F h s =
     (case fs_read F h 1024 s of
        Inl e \<Rightarrow> Some ([], Inl e)
      | Inr (bs, h1) \<Rightarrow>
          if bs \<noteq> [] then Option.bind (cat_loop F h1 s) (\<lambda>(out, r). Some (OutBytes bs # out, r))
          else Some ([], Inr ()))"

definition cat_one :: "('s, 'h, 'd) fs_api \<Rightarrow> string \<Rightarrow> 's \<Rightarrow> (shell_out list \<times> unit ax_result) option" where
  "cat_one F fname s = (case fs_open F fname s of Inl e \<Rightarrow> Some ([], Inl e) | Inr h \<Rightarrow> cat_loop F h s)"

fun cat_all :: "('s, 'h, 'd) fs_api \<Rightarrow> string list \<Rightarrow> 's \<Rightarrow> shell_out list option" where
  "cat_all F [] s = Some []"
| "cat_all F (fname # fs) s =
     Option.bind (cat_one F fname s) (\<lambda>(out, r).
     Option.bind (cat_all F fs s) (\<lambda>rest.
       Some (out @ (case r of Inl e \<Rightarrow> [print_err_for F ''cat'' fname e] | Inr _ \<Rightarrow> []) @ rest)))"

definition do_cat :: "('s, 'h, 'd) fs_api \<Rightarrow> ParsedCommand \<Rightarrow> 's \<Rightarrow> shell_out list option" where
  "do_cat F cmd s =
     (if positional_args cmd = [] then Some [print_err ''cat'' ''no file specified''] else cat_all F (positional_args cmd) s)"

fun write_texts :: "('s, 'h, 'd) fs_api \<Rightarrow> 'h \<Rightarrow> string list \<Rightarrow> 's \<Rightarrow> unit ax_result \<times> 's" where
  "write_texts F h [] s = (Inr (), s)"
| "write_texts F h (text # ts) s =
     (case fs_write_all F h (str_bytes text) s of
        (Inl e, s1) \<Rightarrow> (Inl e, s1)
      | (Inr h1, s1) \<Rightarrow> write_texts F h1 ts s1)"

definition echo_file :: "('s, 'h, 'd) fs_api \<Rightarrow> string \<Rightarrow> string list \<Rightarrow> 's \<Rightarrow> unit ax_result \<times> 's" where
  "echo_file F fname text_list s =
     (case fs_create F fname s of (Inl e, s1) \<Rightarrow> (Inl e, s1) | (Inr h, s1) \<Rightarrow> write_texts F h text_list s1)"

text \<open>\<^verbatim>\<open>rfind\<close>: the text before and after the last occurrence of a character.\<close>

definition rsplit_at :: "char \<Rightarrow> string \<Rightarrow> (string \<times> string) option" where
  "rsplit_at c s =
     (if c \<in> set s then Some (rev (tl (dropWhile (\<lambda>d. d \<noteq> c) (rev s))), rev (takeWhile (\<lambda>d. d \<noteq> c) (rev s))) else None)"

definition do_echo :: "('s, 'h, 'd) fs_api \<Rightarrow> ParsedCommand \<Rightarrow> 's \<Rightarrow> shell_out list \<times> 's" where
  "do_echo F cmd s =
     (let no_newline = flag_of ''no-newline'' cmd; args_str = str_join '' '' (positional_args cmd) in
      case rsplit_at (CHR ''>'') args_str of
        Some (before, after) \<Rightarrow>
          (let text_before = str_trim before; (fname, text_after) = split_whitespace after in
           if fname = [] then ([print_err ''echo'' ''no file specified''], s)
           else case echo_file F fname [text_before, if text_after \<noteq> [] then '' '' else [], text_after, if \<not> no_newline then newline else []] s of
                  (Inl e, s1) \<Rightarrow> ([print_err_for F ''echo'' fname e], s1)
                | (Inr _, s1) \<Rightarrow> ([], s1))
      | None \<Rightarrow> if no_newline then ([OutText args_str], s) else ([OutLine args_str], s))"

text \<open>A loop over the arguments, each of which may print.\<close>

fun for_args :: "(string \<Rightarrow> 's \<Rightarrow> shell_out list \<times> 's) \<Rightarrow> string list \<Rightarrow> 's \<Rightarrow> shell_out list \<times> 's" where
  "for_args f [] s = ([], s)"
| "for_args f (a # as) s = (case f a s of (out, s1) \<Rightarrow> case for_args f as s1 of (rest, s2) \<Rightarrow> (out @ rest, s2))"

definition do_touch :: "('s, 'h, 'd) fs_api \<Rightarrow> ParsedCommand \<Rightarrow> 's \<Rightarrow> shell_out list \<times> 's" where
  "do_touch F cmd s =
     (if positional_args cmd = [] then ([print_err ''touch'' ''missing operand''], s)
      else for_args (\<lambda>filename s. case fs_create F filename s of
             (Inl e, s1) \<Rightarrow> ([print_err_for F ''touch'' filename e], s1) | (Inr _, s1) \<Rightarrow> ([], s1)) (positional_args cmd) s)"

section \<open>mkdir, cd, pwd\<close>

definition mkdir_one :: "('s, 'h, 'd) fs_api \<Rightarrow> bool \<Rightarrow> string \<Rightarrow> 's \<Rightarrow> unit ax_result \<times> 's" where
  "mkdir_one F create_parents path s = (if create_parents then fs_create_dir_all F path s else fs_create_dir F path s)"

definition do_mkdir :: "('s, 'h, 'd) fs_api \<Rightarrow> ParsedCommand \<Rightarrow> 's \<Rightarrow> shell_out list \<times> 's" where
  "do_mkdir F cmd s =
     (if positional_args cmd = [] then ([print_err ''mkdir'' ''missing operand''], s)
      else for_args (\<lambda>path s. case mkdir_one F (flag_of ''parents'' cmd) path s of
             (Inl e, s1) \<Rightarrow> ([print_err_for F ''mkdir'' (''cannot create directory '' @ quoted path) e], s1)
           | (Inr _, s1) \<Rightarrow> ([], s1)) (positional_args cmd) s)"

definition do_cd :: "('s, 'h, 'd) fs_api \<Rightarrow> ParsedCommand \<Rightarrow> 's \<Rightarrow> shell_out list \<times> 's" where
  "do_cd F cmd s =
     (let args = positional_args cmd in
      if length args > 1 then ([print_err ''cd'' ''too many arguments''], s)
      else let target = (if args = [] then ''/'' else hd args)
           in case fs_set_current_dir F target s of
                (Inl e, s1) \<Rightarrow> ([print_err_for F ''cd'' target e], s1) | (Inr _, s1) \<Rightarrow> ([], s1))"

definition do_pwd :: "('s, 'h, 'd) fs_api \<Rightarrow> ParsedCommand \<Rightarrow> 's \<Rightarrow> shell_out list outcome" where
  "do_pwd F cmd s =
     (case fs_current_dir F s of
        Inl _ \<Rightarrow> Panic ''called `Result::unwrap()` on an `Err` value'' | Inr d \<Rightarrow> Done [OutLine d])"

section \<open>rm\<close>

text \<open>The loop of \<^verbatim>\<open>remove_dir_recursive\<close> over the entries of \<open>path\<close>, with the call for a subdirectory.\<close>

partial_function (option) remove_entries ::
    "('s, 'h, 'd) fs_api \<Rightarrow> string \<Rightarrow> 'd \<Rightarrow> 's \<Rightarrow> (unit ax_result \<times> 's) option" where
  "remove_entries F path d s =
     (case fs_next F d s of
        (None, _) \<Rightarrow> Some (fs_remove_dir F path s)
      | (Some (Inl e), _) \<Rightarrow> Some (Inl e, s)
      | (Some (Inr (name, ty)), d1) \<Rightarrow>
          (let entry_path = path @ ''/'' @ name in
           if ty = Dir
           then (case fs_read_dir F entry_path s of
                   Inl e \<Rightarrow> Some (Inl e, s)
                 | Inr d2 \<Rightarrow>
                     Option.bind (remove_entries F entry_path d2 s) (\<lambda>(r, s1).
                       case r of Inl e \<Rightarrow> Some (Inl e, s1) | Inr _ \<Rightarrow> remove_entries F path d1 s1))
           else (case fs_remove_file F entry_path s of
                   (Inl e, s1) \<Rightarrow> Some (Inl e, s1)
                 | (Inr _, s1) \<Rightarrow> remove_entries F path d1 s1)))"

definition remove_dir_recursive :: "('s, 'h, 'd) fs_api \<Rightarrow> string \<Rightarrow> 's \<Rightarrow> (unit ax_result \<times> 's) option" where
  "remove_dir_recursive F path s = (case fs_read_dir F path s of Inl e \<Rightarrow> Some (Inl e, s) | Inr d \<Rightarrow> remove_entries F path d s)"

definition rm_one :: "('s, 'h, 'd) fs_api \<Rightarrow> bool \<Rightarrow> bool \<Rightarrow> bool \<Rightarrow> string \<Rightarrow> 's \<Rightarrow> (unit ax_result \<times> 's) option" where
  "rm_one F rm_dir recursive force path s =
     (case fs_metadata F path s of
        Inl e \<Rightarrow> Some (if force then Inr () else Inl e, s)
      | Inr m \<Rightarrow>
          if md_is_dir m
          then (if recursive then remove_dir_recursive F path s
                else if rm_dir then Some (fs_remove_dir F path s)
                else Some (Inl Unsupported, s))
          else Some (fs_remove_file F path s))"

fun rm_all :: "('s, 'h, 'd) fs_api \<Rightarrow> bool \<Rightarrow> bool \<Rightarrow> bool \<Rightarrow> string list \<Rightarrow> 's \<Rightarrow> (shell_out list \<times> 's) option" where
  "rm_all F rm_dir recursive force [] s = Some ([], s)"
| "rm_all F rm_dir recursive force (path # ps) s =
     Option.bind (rm_one F rm_dir recursive force path s) (\<lambda>(r, s1).
     Option.bind (rm_all F rm_dir recursive force ps s1) (\<lambda>(rest, s2).
       Some ((case r of Inl e \<Rightarrow> if \<not> force then [print_err_for F ''rm'' (''cannot remove '' @ quoted path) e] else [] | Inr _ \<Rightarrow> []) @ rest, s2)))"

definition do_rm :: "('s, 'h, 'd) fs_api \<Rightarrow> ParsedCommand \<Rightarrow> 's \<Rightarrow> (shell_out list \<times> 's) option" where
  "do_rm F cmd s =
     (if positional_args cmd = [] then Some ([print_err ''rm'' ''missing operand''], s)
      else rm_all F (flag_of ''dir'' cmd) (flag_of ''recursive'' cmd) (flag_of ''force'' cmd) (positional_args cmd) s)"


section \<open>cp\<close>

partial_function (option) copy_loop :: "('s, 'h, 'd) fs_api \<Rightarrow> 'h \<Rightarrow> 'h \<Rightarrow> 's \<Rightarrow> (unit ax_result \<times> 's) option" where
  "copy_loop F src_file dst_file s =
     (case fs_read F src_file 4096 s of
        Inl e \<Rightarrow> Some (Inl e, s)
      | Inr (bytes, src1) \<Rightarrow>
          if bytes = [] then Some (Inr (), s)
          else (case fs_write_all F dst_file bytes s of
                  (Inl e, s1) \<Rightarrow> Some (Inl e, s1)
                | (Inr dst1, s1) \<Rightarrow> copy_loop F src1 dst1 s1))"

definition copy_file :: "('s, 'h, 'd) fs_api \<Rightarrow> string \<Rightarrow> string \<Rightarrow> 's \<Rightarrow> (unit ax_result \<times> 's) option" where
  "copy_file F src dst s =
     (case fs_open F src s of
        Inl e \<Rightarrow> Some (Inl e, s)
      | Inr src_file \<Rightarrow>
          (case fs_create F dst s of
             (Inl e, s1) \<Rightarrow> Some (Inl e, s1)
           | (Inr dst_file, s1) \<Rightarrow> copy_loop F src_file dst_file s1))"

text \<open>The loop of \<^verbatim>\<open>copy_dir_recursive\<close> over the entries of \<open>src\<close>, with the call for a subdirectory.\<close>

partial_function (option) copy_entries ::
    "('s, 'h, 'd) fs_api \<Rightarrow> string \<Rightarrow> string \<Rightarrow> 'd \<Rightarrow> 's \<Rightarrow> (unit ax_result \<times> 's) option" where
  "copy_entries F src dst d s =
     (case fs_next F d s of
        (None, _) \<Rightarrow> Some (Inr (), s)
      | (Some (Inl e), _) \<Rightarrow> Some (Inl e, s)
      | (Some (Inr (file_name, ty)), d1) \<Rightarrow>
          (let src_path = src @ ''/'' @ file_name; dst_path = dst @ ''/'' @ file_name in
           if ty = Dir
           then (case fs_create_dir F dst_path s of
                   (Inl e, s1) \<Rightarrow> Some (Inl e, s1)
                 | (Inr _, s1) \<Rightarrow>
                     (case fs_read_dir F src_path s1 of
                        Inl e \<Rightarrow> Some (Inl e, s1)
                      | Inr d2 \<Rightarrow>
                          Option.bind (copy_entries F src_path dst_path d2 s1) (\<lambda>(r, s2).
                            case r of Inl e \<Rightarrow> Some (Inl e, s2) | Inr _ \<Rightarrow> copy_entries F src dst d1 s2)))
           else Option.bind (copy_file F src_path dst_path s) (\<lambda>(r, s1).
                  case r of Inl e \<Rightarrow> Some (Inl e, s1) | Inr _ \<Rightarrow> copy_entries F src dst d1 s1)))"

definition copy_dir_recursive :: "('s, 'h, 'd) fs_api \<Rightarrow> string \<Rightarrow> string \<Rightarrow> 's \<Rightarrow> (unit ax_result \<times> 's) option" where
  "copy_dir_recursive F src dst s =
     (case fs_create_dir F dst s of
        (Inl e, s1) \<Rightarrow> Some (Inl e, s1)
      | (Inr _, s1) \<Rightarrow>
          (case fs_read_dir F src s1 of Inl e \<Rightarrow> Some (Inl e, s1) | Inr d \<Rightarrow> copy_entries F src dst d s1))"

definition do_cp :: "('s, 'h, 'd) fs_api \<Rightarrow> ParsedCommand \<Rightarrow> 's \<Rightarrow> (shell_out list \<times> 's) option" where
  "do_cp F cmd s =
     (case positional_args cmd of
        src # dst # _ \<Rightarrow>
          (case fs_metadata F src s of
             Inl e \<Rightarrow> Some ([print_err_for F ''cp'' (''cannot access '' @ quoted src) e], s)
           | Inr m \<Rightarrow>
               Option.bind (if md_is_dir m
                   then (if flag_of ''recursive'' cmd then copy_dir_recursive F src dst s else Some (Inl Unsupported, s))
                   else copy_file F src dst s) (\<lambda>(r, s1).
                 Some (case r of Inl e \<Rightarrow> [print_err_for F ''cp'' (''cannot copy '' @ quoted src @ '' to '' @ quoted dst) e] | Inr _ \<Rightarrow> [], s1)))
      | _ \<Rightarrow> Some ([print_err ''cp'' ''missing operand''], s))"

section \<open>mv\<close>

definition move_file_or_dir :: "('s, 'h, 'd) fs_api \<Rightarrow> string \<Rightarrow> string \<Rightarrow> 's \<Rightarrow> (unit ax_result \<times> 's) option" where
  "move_file_or_dir F src dst s =
     (case fs_rename F src dst s of
        (Inr _, s1) \<Rightarrow> Some (Inr (), s1)
      | (Inl _, s1) \<Rightarrow>
          (case fs_metadata F src s1 of
             Inl e \<Rightarrow> Some (Inl e, s1)
           | Inr m \<Rightarrow>
               if md_is_dir m
               then Option.bind (copy_dir_recursive F src dst s1) (\<lambda>(r, s2).
                      case r of Inl e \<Rightarrow> Some (Inl e, s2) | Inr _ \<Rightarrow> remove_dir_recursive F src s2)
               else Option.bind (copy_file F src dst s1) (\<lambda>(r, s2).
                      case r of Inl e \<Rightarrow> Some (Inl e, s2) | Inr _ \<Rightarrow> Some (fs_remove_file F src s2))))"

text \<open>
  The name under which a source is moved into the directory \<open>dest\<close>: the first entry of the directory
  \<open>dir\<close>, which is \<open>dest\<close> if there is one source and the source itself if there are several. \<open>None\<close>: the
  directory is empty.
\<close>

definition first_entry_path :: "('s, 'h, 'd) fs_api \<Rightarrow> string \<Rightarrow> string \<Rightarrow> 's \<Rightarrow> string option outcome" where
  "first_entry_path F dir dest s =
     (case fs_read_dir F dir s of
        Inl _ \<Rightarrow> Panic ''called `Result::unwrap()` on an `Err` value''
      | Inr d \<Rightarrow>
          (case fst (fs_next F d s) of
             None \<Rightarrow> Done None
           | Some (Inl _) \<Rightarrow> Panic ''Failed to read directory''
           | Some (Inr (file, _)) \<Rightarrow> Done (Some (dest @ ''/'' @ dest @ ''/'' @ file))))"

definition move_reporting :: "('s, 'h, 'd) fs_api \<Rightarrow> string \<Rightarrow> string \<Rightarrow> 's \<Rightarrow> (shell_out list \<times> 's) option" where
  "move_reporting F src dst s =
     Option.bind (move_file_or_dir F src dst s) (\<lambda>(r, s1).
       Some (case r of Inl e \<Rightarrow> [print_err_for F ''mv'' (''cannot move '' @ quoted src @ '' to '' @ quoted dst) e] | Inr _ \<Rightarrow> [], s1))"

fun move_each :: "('s, 'h, 'd) fs_api \<Rightarrow> string list \<Rightarrow> string \<Rightarrow> 's \<Rightarrow> (shell_out list \<times> 's) outcome option" where
  "move_each F [] dest s = Some (Done ([], s))"
| "move_each F (src # srcs) dest s =
     (case first_entry_path F src dest s of
        Panic msg \<Rightarrow> Some (Panic msg)
      | Done None \<Rightarrow> Some (Done ([print_err ''mv'' (''invalid source path '' @ quoted src)], s))
      | Done (Some dest_path) \<Rightarrow>
          Option.bind (move_reporting F src dest_path s) (\<lambda>(out, s1).
          Option.bind (move_each F srcs dest s1) (\<lambda>r.
            Some (outcome_bind r (\<lambda>(rest, s2). Done (out @ rest, s2))))))"

definition do_mv :: "('s, 'h, 'd) fs_api \<Rightarrow> ParsedCommand \<Rightarrow> 's \<Rightarrow> (shell_out list \<times> 's) outcome option" where
  "do_mv F cmd s =
     (let args = positional_args cmd in
      if length args < 2 then Some (Done ([print_err ''mv'' ''missing operand''], s))
      else if length args = 2
      then (let src = args ! 0; dest = args ! 1; direct = map_option Done (move_reporting F src dest s) in
            case fs_metadata F dest s of
              Inl _ \<Rightarrow> direct
            | Inr m \<Rightarrow>
                if \<not> md_is_dir m then direct
                else case first_entry_path F dest dest s of
                       Panic msg \<Rightarrow> Some (Panic msg)
                     | Done None \<Rightarrow> Some (Done ([print_err ''mv'' (''invalid source path '' @ quoted src)], s))
                     | Done (Some dest_path) \<Rightarrow> map_option Done (move_reporting F src dest_path s))
      else (let dest = last args in
            case fs_metadata F dest s of
              Inl e \<Rightarrow> Some (Done ([print_err_for F ''mv'' (''cannot access '' @ quoted dest) e], s))
            | Inr m \<Rightarrow>
                if md_is_dir m then move_each F (butlast args) dest s
                else Some (Done ([print_err ''mv'' (''target '' @ quoted dest @ '' is not a directory'')], s))))"

section \<open>uname, exit, log\<close>

text \<open>The environment of the build: \<^verbatim>\<open>AX_ARCH\<close>, \<^verbatim>\<open>AX_PLATFORM\<close>, \<^verbatim>\<open>AX_SMP\<close>, \<^verbatim>\<open>CARGO_PKG_VERSION\<close>.\<close>

record build_env =
  AX_ARCH :: "string option"
  AX_PLATFORM :: "string option"
  AX_SMP :: "string option"
  CARGO_PKG_VERSION :: "string option"

definition do_uname :: "build_env \<Rightarrow> ParsedCommand \<Rightarrow> shell_out list" where
  "do_uname B cmd =
     (let or = (\<lambda>d x. case x of None \<Rightarrow> d | Some v \<Rightarrow> v); arch = or [] (AX_ARCH B);
          smp = (if AX_SMP B = None \<or> AX_SMP B = Some ''1'' then [] else '' SMP'');
          full = [OutLine (''ArceOS '' @ or ''0.1.0'' (CARGO_PKG_VERSION B) @ smp @ '' '' @ arch @ '' '' @ or [] (AX_PLATFORM B))]
      in if flag_of ''all'' cmd then full
         else if flag_of ''kernel-name'' cmd then [OutLine ''ArceOS'']
         else if flag_of ''machine'' cmd then [OutLine arch]
         else full)"

text \<open>\<^verbatim>\<open>str::parse::<i32>\<close>.\<close>

definition parse_i32 :: "string \<Rightarrow> int option" where
  "parse_i32 s =
     (let (neg, t) = (if starts_with s ''-'' then (True, tl s) else if starts_with s ''+'' then (False, tl s) else (False, s)) in
      if t = [] then None
      else case parse_digits 0 t of
             None \<Rightarrow> None
           | Some n \<Rightarrow> let v = (if neg then - int n else int n) in if - (2 ^ 31) \<le> v \<and> v < 2 ^ 31 then Some v else None)"

definition do_exit :: "ParsedCommand \<Rightarrow> shell_out list \<times> int" where
  "do_exit cmd =
     (let args = positional_args cmd;
          exit_code = (if args = [] then 0 else case parse_i32 (hd args) of None \<Rightarrow> 0 | Some c \<Rightarrow> c)
      in ([OutLine ''Bye~''], exit_code))"

fun level_name :: "LevelFilter \<Rightarrow> string" where
  "level_name LevelOff = ''Off''"
| "level_name LevelError = ''Error''"
| "level_name LevelWarn = ''Warn''"
| "level_name LevelInfo = ''Info''"
| "level_name LevelDebug = ''Debug''"
| "level_name LevelTrace = ''Trace''"

definition level_of :: "string \<Rightarrow> LevelFilter option" where
  "level_of = map_of [(''on'', LevelInfo), (''enable'', LevelInfo), (''off'', LevelOff), (''disable'', LevelOff), (''error'', LevelError), (''warn'', LevelWarn),
     (''info'', LevelInfo), (''debug'', LevelDebug), (''trace'', LevelTrace)]"

definition do_log :: "ParsedCommand \<Rightarrow> LevelFilter \<Rightarrow> shell_out list \<times> LevelFilter" where
  "do_log cmd max_level =
     (case positional_args cmd of
        [] \<Rightarrow> ([OutLine (''Current log level: '' @ level_name max_level)], max_level)
      | a # _ \<Rightarrow>
          (case level_of a of
             Some l \<Rightarrow> ([OutLine (''Log level set to: '' @ level_name l)], l)
           | None \<Rightarrow> ([OutLine (''Unknown log level: '' @ a), OutLine ''Available levels: off, error, warn, info, debug, trace''], max_level)))"


section \<open>Copies\<close>

text \<open>
  What the code relies on of files: \<open>content\<close> is the content of the file at a path, \<open>cur\<close> the path and the
  position of an open file. \<^verbatim>\<open>File::create\<close> empties the file; a read gives some of the next bytes, none
  only at the end; a write at the end appends.
\<close>

definition file_io_laws :: "('s, 'h, 'd) fs_api \<Rightarrow> ('s \<Rightarrow> string \<Rightarrow> u8 list option) \<Rightarrow> ('h \<Rightarrow> string \<times> nat) \<Rightarrow> bool" where
  "file_io_laws F content cur =
     ((\<forall>p s bs. content s p = Some bs \<longrightarrow> (\<exists>h. fs_open F p s = Inr h \<and> cur h = (p, 0))) \<and>
      (\<forall>p s h s'. fs_create F p s = (Inr h, s') \<longrightarrow> cur h = (p, 0) \<and> content s' = (content s)(p \<mapsto> [])) \<and>
      (\<forall>h n s p k bs. cur h = (p, k) \<longrightarrow> content s p = Some bs \<longrightarrow> 0 < n \<longrightarrow>
         (\<exists>m h'. fs_read F h n s = Inr (take m (drop k bs), h') \<and> cur h' = (p, k + m) \<and> m \<le> length bs - k \<and> (k < length bs \<longrightarrow> 0 < m))) \<and>
      (\<forall>h bs s p old. cur h = (p, length old) \<longrightarrow> content s p = Some old \<longrightarrow>
         (\<exists>h' s'. fs_write_all F h bs s = (Inr h', s') \<and> cur h' = (p, length old + length bs) \<and> content s' = (content s)(p \<mapsto> old @ bs))))"

lemma file_openE:
  assumes "file_io_laws F content cur" "content s p = Some bs"
  obtains h where "fs_open F p s = Inr h" "cur h = (p, 0)"
  using assms unfolding file_io_laws_def by blast

lemma file_createE:
  assumes "file_io_laws F content cur" "fs_create F p s = (Inr h, s')"
  shows "cur h = (p, 0)" "content s' = (content s)(p \<mapsto> [])"
  using assms unfolding file_io_laws_def by blast+

lemma file_readE:
  assumes "file_io_laws F content cur" "cur h = (p, k)" "content s p = Some bs" "0 < n"
  obtains m h' where "fs_read F h n s = Inr (take m (drop k bs), h')" "cur h' = (p, k + m)" "m \<le> length bs - k"
    "k < length bs \<Longrightarrow> 0 < m"
  using assms unfolding file_io_laws_def by metis

lemma file_writeE:
  assumes "file_io_laws F content cur" "cur h = (p, length old)" "content s p = Some old"
  obtains h' s' where "fs_write_all F h bs s = (Inr h', s')" "cur h' = (p, length (old @ bs))" "content s' = (content s)(p \<mapsto> old @ bs)"
  using assms unfolding file_io_laws_def by (metis length_append)

lemma copy_loop_copies:
  assumes F: "file_io_laws F content cur" and neq: "src \<noteq> dst"
  shows "cur hs = (src, k) \<Longrightarrow> content s src = Some bs \<Longrightarrow> k \<le> length bs \<Longrightarrow>
    cur ho = (dst, length (take k bs)) \<Longrightarrow> content s dst = Some (take k bs) \<Longrightarrow>
    \<exists>s'. copy_loop F hs ho s = Some (Inr (), s') \<and> content s' = (content s)(dst \<mapsto> bs)"
proof (induction "length bs - k" arbitrary: k hs ho s rule: less_induct)
  case less
  obtain m hs' where r: "fs_read F hs 4096 s = Inr (take m (drop k bs), hs')" "cur hs' = (src, k + m)" "m \<le> length bs - k"
      "k < length bs \<Longrightarrow> 0 < m"
    using file_readE[OF F less.prems(1,2), of 4096] by auto
  show ?case
  proof (cases "k < length bs")
    case False
    then have "take k bs = bs" "take m (drop k bs) = []" by simp_all
    then show ?thesis using r(1) less.prems(5) by (subst copy_loop.simps) (auto simp: fun_upd_idem)
  next
    case True
    then have m: "0 < m" "take m (drop k bs) \<noteq> []" using r(3,4) by auto
    obtain ho' s1 where w: "fs_write_all F ho (take m (drop k bs)) s = (Inr ho', s1)"
        "cur ho' = (dst, length (take k bs @ take m (drop k bs)))" "content s1 = (content s)(dst \<mapsto> take k bs @ take m (drop k bs))"
      using file_writeE[OF F less.prems(4,5)] by metis
    have t: "take k bs @ take m (drop k bs) = take (k + m) bs" by (simp add: take_add)
    have lt: "length bs - (k + m) < length bs - k" "k + m \<le> length bs" using m(1) True r(3) by linarith+
    obtain s' where "copy_loop F hs' ho' s1 = Some (Inr (), s')" "content s' = (content s1)(dst \<mapsto> bs)"
      using less.hyps[of "k + m" hs' s1 ho'] lt r(2) w(2,3) less.prems(2) neq unfolding t by auto
    then show ?thesis using r(1) w m(2) by (subst copy_loop.simps) simp
  qed
qed

lemma copy_file_copies:
  assumes F: "file_io_laws F content cur" and src: "content s src = Some bs" and dst: "fs_create F dst s = (Inr h, s1)"
  shows "\<exists>s'. copy_file F src dst s = Some (Inr (), s') \<and> content s' = (content s)(dst \<mapsto> if src = dst then [] else bs)"
proof -
  obtain hs where hs: "fs_open F src s = Inr hs" "cur hs = (src, 0)" using file_openE[OF F src] .
  note c = file_createE[OF F dst]
  show ?thesis
  proof (cases "src = dst")
    case True
    obtain m h' where "fs_read F hs 4096 s1 = Inr (take m (drop 0 []), h')"
      using file_readE[OF F hs(2), of s1 "[]" 4096] c(2) True by auto
    then show ?thesis using hs(1) dst c(2) True by (simp add: copy_file_def copy_loop.simps)
  next
    case False
    obtain s' where "copy_loop F hs h s1 = Some (Inr (), s')" "content s' = (content s1)(dst \<mapsto> bs)"
      using copy_loop_copies[OF F False hs(2), of s1 bs h] c src False by auto
    then show ?thesis using hs(1) dst c(2) False by (simp add: copy_file_def)
  qed
qed

text \<open>
  \<^bold>\<open>C38\<close>: \<^verbatim>\<open>cp\<close> of a file to a path that can be created returns, prints nothing, and leaves at the
  destination exactly the bytes of the source, with every other file as it was. Onto itself, however,
  a file is emptied.
\<close>

theorem cp_copies_file:
  assumes "file_io_laws F content cur" "positional_args cmd = src # dst # rest" "fs_metadata F src s = Inr m" "\<not> md_is_dir m"
    "content s src = Some bs" "fs_create F dst s = (Inr h, s1)"
  shows "\<exists>s'. do_cp F cmd s = Some ([], s') \<and> content s' = (content s)(dst \<mapsto> if src = dst then [] else bs)"
  using copy_file_copies[OF assms(1,5,6)] assms(2,3,4) by (auto simp: do_cp_def)

text \<open>A file system without directories.\<close>

definition flat_fs :: "(string \<Rightarrow> u8 list option, string \<times> nat, (string \<times> FileType) list) fs_api" where
  "flat_fs = \<lparr>
     fs_metadata = (\<lambda>p s. case s p of None \<Rightarrow> Inl NotFound | Some bs \<Rightarrow> Inr \<lparr>md_type = RegularFile, md_len = of_nat (length bs), md_mode = 0x1A4\<rparr>),
     fs_open = (\<lambda>p s. case s p of None \<Rightarrow> Inl NotFound | Some _ \<Rightarrow> Inr (p, 0)),
     fs_create = (\<lambda>p s. (Inr (p, 0), s(p \<mapsto> []))),
     fs_read = (\<lambda>(p, k) n s. case s p of None \<Rightarrow> Inl NotFound
        | Some bs \<Rightarrow> let m = min n (length bs - k) in Inr (take m (drop k bs), (p, k + m))),
     fs_write_all = (\<lambda>(p, k) bs s. case s p of None \<Rightarrow> (Inl NotFound, s)
        | Some old \<Rightarrow> (Inr (p, k + length bs), s(p \<mapsto> take k old @ bs @ drop (k + length bs) old))),
     fs_read_dir = (\<lambda>_ _. Inl NotADirectory),
     fs_next = (\<lambda>d _. case d of [] \<Rightarrow> (None, []) | e # es \<Rightarrow> (Some (Inr e), es)),
     fs_create_dir = (\<lambda>_ s. (Inl Unsupported, s)), fs_create_dir_all = (\<lambda>_ s. (Inl Unsupported, s)),
     fs_remove_dir = (\<lambda>_ s. (Inl NotADirectory, s)), fs_remove_file = (\<lambda>p s. (Inr (), s(p := None))),
     fs_rename = (\<lambda>p q s. (Inr (), s(q := s p, p := None))),
     fs_current_dir = (\<lambda>_. Inr ''/''), fs_set_current_dir = (\<lambda>_ s. (Inr (), s)), fs_show_error = (\<lambda>_. ''error'')\<rparr>"

lemma flat_fs_laws: "file_io_laws flat_fs (\<lambda>s. s) (\<lambda>h. h)"
  unfolding file_io_laws_def
proof (intro conjI allI impI)
  fix h :: "string \<times> nat" and n k :: nat and s :: "string \<Rightarrow> u8 list option" and p bs
  assume "h = (p, k)" "s p = Some bs" "0 < n"
  then show "\<exists>m h'. fs_read flat_fs h n s = Inr (take m (drop k bs), h') \<and> h' = (p, k + m) \<and> m \<le> length bs - k \<and> (k < length bs \<longrightarrow> 0 < m)"
    by (intro exI[of _ "min n (length bs - k)"]) (simp add: flat_fs_def Let_def)
qed (auto simp: flat_fs_def)

definition args_cmd :: "string list \<Rightarrow> ParsedCommand" where
  "args_cmd as = \<lparr>command_path = [], pc_options = [], pc_flags = [], positional_args = as\<rparr>"

theorem cp_copies_file_witness:
  "\<exists>s'. do_cp flat_fs (args_cmd [''a'', ''b'']) [''a'' \<mapsto> [1, 2, 3]] = Some ([], s') \<and> s' ''b'' = Some [1, 2, 3] \<and> s' ''a'' = Some [1, 2, 3]"
  using cp_copies_file[OF flat_fs_laws, of "args_cmd [''a'', ''b'']" "''a''" "''b''" "[]" "[''a'' \<mapsto> [1, 2, 3]]"
      "\<lparr>md_type = RegularFile, md_len = 3, md_mode = 0x1A4\<rparr>" "[1, 2, 3]" "(''b'', 0)" "[''a'' \<mapsto> [1, 2, 3], ''b'' \<mapsto> []]"]
  by (auto simp: args_cmd_def flat_fs_def md_is_dir_def)

section \<open>What is written with echo is read with cat\<close>

definition out_bytes :: "shell_out list \<Rightarrow> u8 list" where
  "out_bytes outs = concat (map (\<lambda>x. case x of OutBytes b \<Rightarrow> b | OutText t \<Rightarrow> str_bytes t | OutLine l \<Rightarrow> str_bytes (l @ newline)) outs)"

lemma cat_loop_prints:
  assumes F: "file_io_laws F content cur"
  shows "cur h = (p, k) \<Longrightarrow> content s p = Some bs \<Longrightarrow> \<exists>outs. cat_loop F h s = Some (outs, Inr ()) \<and> out_bytes outs = drop k bs"
proof (induction "length bs - k" arbitrary: k h rule: less_induct)
  case less
  obtain m h' where r: "fs_read F h 1024 s = Inr (take m (drop k bs), h')" "cur h' = (p, k + m)" "m \<le> length bs - k"
      "k < length bs \<Longrightarrow> 0 < m"
    using file_readE[OF F less.prems, of 1024] by auto
  show ?case
  proof (cases "k < length bs")
    case False
    then show ?thesis using r(1) by (subst cat_loop.simps) (simp add: out_bytes_def)
  next
    case True
    then have "length bs - (k + m) < length bs - k" "take m (drop k bs) \<noteq> []" using r(3,4) by auto
    moreover obtain outs where "cat_loop F h' s = Some (outs, Inr ())" "out_bytes outs = drop (k + m) bs"
      using less.hyps[OF _ r(2) less.prems(2)] calculation(1) by blast
    moreover have "take m (drop k bs) @ drop (k + m) bs = drop k bs" by (metis add.commute append_take_drop_id drop_drop)
    ultimately show ?thesis using r(1) by (subst cat_loop.simps) (simp add: out_bytes_def)
  qed
qed

lemma write_texts_append:
  assumes F: "file_io_laws F content cur"
  shows "cur h = (p, length old) \<Longrightarrow> content s p = Some old \<Longrightarrow>
    \<exists>s'. write_texts F h ts s = (Inr (), s') \<and> content s' = (content s)(p \<mapsto> old @ str_bytes (concat ts))"
proof (induction ts arbitrary: h s old)
  case Nil
  then show ?case by (simp add: str_bytes_def fun_upd_idem)
next
  case (Cons t ts)
  obtain h' s1 where w: "fs_write_all F h (str_bytes t) s = (Inr h', s1)" "cur h' = (p, length (old @ str_bytes t))"
      "content s1 = (content s)(p \<mapsto> old @ str_bytes t)"
    using file_writeE[OF F Cons.prems] .
  obtain s' where "write_texts F h' ts s1 = (Inr (), s')" "content s' = (content s1)(p \<mapsto> (old @ str_bytes t) @ str_bytes (concat ts))"
    using Cons.IH[OF w(2), of s1] w(3) by (metis fun_upd_same)
  then show ?case using w(1,3) by (auto simp: str_bytes_def fun_eq_iff)
qed

lemma rsplit_at_last: "c \<notin> set b \<Longrightarrow> rsplit_at c (a @ c # b) = Some (a, b)"
proof -
  assume c: "c \<notin> set b"
  then have "takeWhile (\<lambda>d. d \<noteq> c) (rev b @ c # rev a) = rev b" "dropWhile (\<lambda>d. d \<noteq> c) (rev b @ c # rev a) = c # rev a"
    by (induction b rule: rev_induct) auto
  then show ?thesis by (simp add: rsplit_at_def)
qed

lemma trim_one_side:
  assumes "t \<noteq> []" "\<not> is_whitespace (hd t)" "\<not> is_whitespace (last t)"
  shows "str_trim (t @ '' '') = t" "str_trim ('' '' @ t) = t" "str_trim t = t"
proof -
  have sp: "is_whitespace (CHR '' '')" by (simp add: is_whitespace_def)
  obtain x xs where x: "t = x # xs" "\<not> is_whitespace x" using assms(1,2) by (cases t) auto
  obtain ys y where y: "t = ys @ [y]" "\<not> is_whitespace y" using assms(1,3) by (cases t rule: rev_cases) auto
  have "dropWhile is_whitespace (rev (t @ '' '')) = rev t" "dropWhile is_whitespace (rev t) = rev t" using y sp by simp_all
  moreover have "dropWhile is_whitespace (t @ u) = t @ u" for u using x by simp
  from this[of "[]"] this[of "'' ''"] have "dropWhile is_whitespace t = t" "dropWhile is_whitespace (t @ '' '') = t @ '' ''" by simp_all
  moreover have "dropWhile is_whitespace ('' '' @ t) = t" using x sp by simp
  ultimately show "str_trim (t @ '' '') = t" "str_trim ('' '' @ t) = t" "str_trim t = t"
    by (simp_all add: str_trim_def trim_matches_def trim_start_matches_def trim_end_matches_def)
qed

lemma split_whitespace_word:
  assumes "f \<noteq> []" "list_all (\<lambda>c. \<not> is_whitespace c) f"
  shows "split_whitespace ('' '' @ f) = (f, [])"
proof -
  have "\<not> is_whitespace (hd f)" "\<not> is_whitespace (last f)" using assms by (auto simp: list_all_iff)
  from trim_one_side(2)[OF assms(1) this] show ?thesis
    using assms(2) by (auto simp: split_whitespace_def list_all_iff list_ex_iff)
qed

text \<open>
  What \<^verbatim>\<open>echo\<close> writes, \<^verbatim>\<open>cat\<close> prints: after \<^verbatim>\<open>echo t > f\<close>, for a text without blanks at its ends and
  the name of a file that can be created, the file has the text and a line feed, every other file is
  as it was, and \<^verbatim>\<open>cat f\<close> returns and prints exactly that.
\<close>

theorem echo_cat_roundtrip:
  assumes F: "file_io_laws F content cur"
    and echo: "positional_args cmd = [t, ''>'', f]" "\<not> flag_of ''no-newline'' cmd"
    and t: "t \<noteq> []" "\<not> is_whitespace (hd t)" "\<not> is_whitespace (last t)"
    and f: "f \<noteq> []" "list_all (\<lambda>c. \<not> is_whitespace c) f" "CHR ''>'' \<notin> set f" "fs_create F f s = (Inr h, s0)"
    and cat: "positional_args cmd2 = [f]"
  shows "\<exists>s1 outs. do_echo F cmd s = ([], s1) \<and> content s1 = (content s)(f \<mapsto> str_bytes (t @ newline)) \<and>
    do_cat F cmd2 s1 = Some outs \<and> out_bytes outs = str_bytes (t @ newline)"
proof -
  have args: "str_join '' '' [t, ''>'', f] = (t @ '' '') @ CHR ''>'' # ('' '' @ f)" by simp
  have split: "rsplit_at (CHR ''>'') (str_join '' '' [t, ''>'', f]) = Some (t @ '' '', '' '' @ f)"
    unfolding args by (rule rsplit_at_last) (use f(3) in simp)
  note c = file_createE[OF F f(4)]
  obtain s1 where s1: "write_texts F h [t, [], [], newline] s0 = (Inr (), s1)" "content s1 = (content s0)(f \<mapsto> str_bytes (t @ newline))"
    using write_texts_append[OF F, of h f "[]" s0 "[t, [], [], newline]"] c by auto
  have content: "content s1 = (content s)(f \<mapsto> str_bytes (t @ newline))" using s1(2) c(2) by simp
  then obtain hc where hc: "fs_open F f s1 = Inr hc" "cur hc = (f, 0)" using file_openE[OF F, of s1 f] by auto
  obtain outs where outs: "cat_loop F hc s1 = Some (outs, Inr ())" "out_bytes outs = str_bytes (t @ newline)"
    using cat_loop_prints[OF F hc(2), of s1 "str_bytes (t @ newline)"] content by auto
  have "do_echo F cmd s = ([], s1)"
    unfolding do_echo_def Let_def echo(1) split option.case prod.case trim_one_side(1)[OF t] split_whitespace_word[OF f(1,2)]
    using f(1,4) echo(2) s1(1) by (simp add: echo_file_def)
  moreover have "do_cat F cmd2 s1 = Some outs" using hc(1) outs(1) cat by (simp add: do_cat_def cat_one_def)
  ultimately show ?thesis using content outs(2) by blast
qed

theorem echo_cat_roundtrip_witness:
  "\<exists>s1 outs. do_echo flat_fs (args_cmd [''hello'', ''>'', ''f'']) Map.empty = ([], s1) \<and>
     do_cat flat_fs (args_cmd [''f'']) s1 = Some outs \<and> out_bytes outs = str_bytes (''hello'' @ newline)"
  using echo_cat_roundtrip[OF flat_fs_laws, of "args_cmd [''hello'', ''>'', ''f'']" "''hello''" "''f''" Map.empty "(''f'', 0)" "[''f'' \<mapsto> []]" "args_cmd [''f'']"]
  by (auto simp: args_cmd_def flag_of_def flat_fs_def is_whitespace_def)

section \<open>What rm can remove\<close>

text \<open>Removing a file or an empty directory changes nothing that \<open>obs\<close> sees at another path.\<close>

definition remove_laws :: "('s, 'h, 'd) fs_api \<Rightarrow> ('s \<Rightarrow> string \<Rightarrow> 'o) \<Rightarrow> bool" where
  "remove_laws F obs =
     (\<forall>p s q. q \<noteq> p \<longrightarrow> obs (snd (fs_remove_file F p s)) q = obs s q \<and> obs (snd (fs_remove_dir F p s)) q = obs s q)"

definition outside :: "string \<Rightarrow> string \<Rightarrow> bool" where
  "outside p q = (q \<noteq> p \<and> \<not> prefix (p @ ''/'') q)"

lemma outside_entry: "outside p q \<Longrightarrow> outside (p @ ''/'' @ n) q"
  by (auto simp: outside_def prefix_def)

text \<open>One step of the loop, for a continuation \<open>f\<close> that keeps to its directory.\<close>

lemma remove_step_confined:
  assumes L: "remove_laws F obs" and out: "outside path q"
    and f: "\<And>p d s y. f F p d s = Some y \<Longrightarrow> outside p q \<Longrightarrow> obs (snd y) q = obs s q"
    and step: "(case fs_next F d s of (None, x) \<Rightarrow> Some (fs_remove_dir F path s)
      | (Some (Inl e), x) \<Rightarrow> Some (Inl e, s)
      | (Some (Inr (name, ty)), x) \<Rightarrow>
          let entry_path = path @ ''/'' @ name
          in if ty = Dir
             then case fs_read_dir F entry_path s of Inl e \<Rightarrow> Some (Inl e, s)
                  | Inr d2 \<Rightarrow> Option.bind (f F entry_path d2 s)
                       (\<lambda>(r, s1). case r of Inl e \<Rightarrow> Some (Inl e, s1) | Inr xa \<Rightarrow> f F path x s1)
             else case fs_remove_file F entry_path s of (Inl e, s1) \<Rightarrow> Some (Inl e, s1)
                  | (Inr xa, s1) \<Rightarrow> f F path x s1) = Some y"
  shows "obs (snd y) q = obs s q"
proof -
  obtain res d1 where nx: "fs_next F d s = (res, d1)" by (rule prod.exhaust)
  consider "res = None" | e where "res = Some (Inl e)" | n where "res = Some (Inr (n, Dir))" | n ty where "res = Some (Inr (n, ty))" "ty \<noteq> Dir"
    by (metis option.exhaust sum.exhaust surj_pair)
  then show ?thesis
  proof cases
    case 1
    then show ?thesis using step nx L out by (auto simp: remove_laws_def outside_def)
  next
    case (3 n)
    show ?thesis
    proof (cases "fs_read_dir F (path @ ''/'' @ n) s")
      case (Inr d2)
      then obtain r s1 where r: "f F (path @ ''/'' @ n) d2 s = Some (r, s1)"
          and y: "(case r of Inl e \<Rightarrow> Some (Inl e, s1) | Inr xa \<Rightarrow> f F path d1 s1) = Some y"
        using step nx 3 by (auto simp: Let_def bind_eq_Some_conv)
      have "obs s1 q = obs s q" using f[OF r outside_entry[OF out]] by simp
      then show ?thesis using y f[OF _ out] by (cases r) auto
    qed (use step nx 3 in \<open>auto simp: Let_def\<close>)
  next
    case (4 n ty)
    obtain r s1 where rm: "fs_remove_file F (path @ ''/'' @ n) s = (r, s1)" by (rule prod.exhaust)
    have "obs (snd (fs_remove_file F (path @ ''/'' @ n) s)) q = obs s q"
      using L outside_entry[OF out, of n] by (simp add: remove_laws_def outside_def)
    then show ?thesis using step nx 4 rm f[OF _ out] by (cases r) (auto simp: Let_def)
  qed (use step nx in auto)
qed

lemma remove_entries_confined:
  assumes "remove_laws F obs" "remove_entries F path d s = Some y" "outside path q"
  shows "obs (snd y) q = obs s q"
proof -
  let ?P = "\<lambda>F path d s y. remove_laws F obs \<longrightarrow> outside path q \<longrightarrow> obs (snd y) q = obs s q"
  have "?P F path d s y"
    apply (rule remove_entries.raw_induct[where P = ?P, OF _ assms(2)])
    subgoal premises prems for f F path d s y
      by (intro impI, rule remove_step_confined[where f = f, OF _ _ _ prems(2)]) (use prems(1) in auto)
    done
  then show ?thesis using assms(1,3) by simp
qed

lemma rm_one_confined:
  assumes "remove_laws F obs" "rm_one F rm_dir recursive force path s = Some (r, s')" "outside path q"
  shows "obs s' q = obs s q"
proof -
  have "obs (snd (fs_remove_file F path s)) q = obs s q" "obs (snd (fs_remove_dir F path s)) q = obs s q"
    using assms(1,3) by (simp_all add: remove_laws_def outside_def)
  then show ?thesis using assms(2) remove_entries_confined[OF assms(1) _ assms(3), of _ s "(r, s')"]
    by (auto simp: rm_one_def remove_dir_recursive_def split: sum.splits if_splits)
qed

text \<open>
  \<^bold>\<open>C39\<close>: \<^verbatim>\<open>rm\<close>, with any flags, changes nothing except at the paths it is given and below them, also when it
  stops at an error in the middle of a directory.
\<close>

theorem rm_confined:
  assumes "remove_laws F obs" "do_rm F cmd s = Some (outs, s')" "\<forall>p \<in> set (positional_args cmd). outside p q"
  shows "obs s' q = obs s q"
proof -
  have "rm_all F a b c ps s = Some (outs, s') \<Longrightarrow> \<forall>p \<in> set ps. outside p q \<Longrightarrow> obs s' q = obs s q" for a b c ps outs s s'
  proof (induction ps arbitrary: s outs)
    case (Cons p ps)
    then show ?case using rm_one_confined[OF assms(1), of a b c p s _ _ q] by (fastforce simp: bind_eq_Some_conv)
  qed simp
  then show ?thesis using assms(2,3) by (auto simp: do_rm_def split: if_splits)
qed

text \<open>A directory \<^verbatim>\<open>/d\<close> with one file, removed recursively.\<close>

definition one_dir_fs :: "(string \<Rightarrow> u8 list option, string \<times> nat, (string \<times> FileType) list) fs_api" where
  "one_dir_fs = flat_fs\<lparr>fs_metadata := (\<lambda>p s. Inr \<lparr>md_type = if p = ''/d'' then Dir else RegularFile, md_len = 0, md_mode = 0\<rparr>),
     fs_read_dir := (\<lambda>p s. if p = ''/d'' then Inr [(''x'', RegularFile)] else Inl NotADirectory),
     fs_remove_dir := (\<lambda>p s. (Inr (), s(p := None)))\<rparr>"

theorem rm_confined_witness:
  "\<exists>s'. do_rm one_dir_fs ((args_cmd [''/d''])\<lparr>pc_flags := [(''recursive'', True)]\<rparr>) [''/d'' \<mapsto> [], ''/d/x'' \<mapsto> [1], ''/e'' \<mapsto> [2]] = Some ([], s') \<and>
     s' ''/d/x'' = None \<and> s' ''/e'' = Some [2]"
proof -
  let ?cmd = "(args_cmd [''/d''])\<lparr>pc_flags := [(''recursive'', True)]\<rparr>"
  let ?s = "[''/d'' \<mapsto> [], ''/d/x'' \<mapsto> [1], ''/e'' \<mapsto> [2 :: u8]]"
  have run: "do_rm one_dir_fs ?cmd ?s = Some ([], ?s(''/d/x'' := None, ''/d'' := None))"
    by (simp add: do_rm_def args_cmd_def flag_of_def rm_one_def one_dir_fs_def flat_fs_def md_is_dir_def remove_dir_recursive_def
        remove_entries.simps bt_get_def)
  have laws: "remove_laws one_dir_fs (\<lambda>s. s)" by (simp add: remove_laws_def one_dir_fs_def flat_fs_def)
  have "(?s(''/d/x'' := None, ''/d'' := None)) ''/e'' = ?s ''/e''"
    by (rule rm_confined[OF laws run]) (simp add: args_cmd_def outside_def)
  then show ?thesis using run by simp
qed

section \<open>Consequences that a user would not expect\<close>

text \<open>Moving several sources into a directory reads each source as a directory, so that a file among them ends in a panic.\<close>

lemma mv_several_files_panics:
  assumes "positional_args cmd = src # src2 # rest" "rest \<noteq> []" "fs_metadata F (last rest) s = Inr m" "md_is_dir m"
    "fs_read_dir F src s = Inl e"
  shows "do_mv F cmd s = Some (Panic ''called `Result::unwrap()` on an `Err` value'')"
proof -
  have "length (positional_args cmd) > 2" using assms(1,2) by (cases rest) auto
  then show ?thesis using assms by (simp add: do_mv_def Let_def first_entry_path_def)
qed

text \<open>Touching a file that exists empties it.\<close>

lemma touch_empties_file:
  assumes "file_io_laws F content cur" "positional_args cmd = [p]" "fs_create F p s = (Inr h, s1)"
  shows "\<exists>s'. do_touch F cmd s = ([], s') \<and> content s' p = Some []"
  using file_createE(2)[OF assms(1,3)] assms(2,3) by (simp add: do_touch_def)

end
