(* ===== verification/Timer.thy ===== *)
theory Timer
  imports Axv_BTreeMap
begin

text \<open>
  The timers of the hypervisor, \<^verbatim>\<open>kernel/src/vmm/timer.rs\<close>: one list of timers per processor, and a
  global counter of tokens. The list is of the \<^verbatim>\<open>timer_list\<close> crate: its methods are the fields of
  \<open>timer_ops\<close>, on lists of type \<open>'l\<close>. Times are nanoseconds. A callback \<open>'cb\<close> is run by the argument
  \<open>call\<close>, which may change the whole state; \<open>clock n\<close> is the time of the \<open>n\<close>-th look at the clock.
\<close>

section \<open>Timers\<close>

record 'cb VmmTimerEvent =
  token :: usize
  timer_callback :: 'cb

record ('cb, 'l) timer_ops =
  tl_new :: 'l
  tl_set :: "nat \<Rightarrow> 'cb VmmTimerEvent \<Rightarrow> 'l \<Rightarrow> 'l"
  tl_cancel :: "('cb VmmTimerEvent \<Rightarrow> bool) \<Rightarrow> 'l \<Rightarrow> 'l"
  tl_expire_one :: "nat \<Rightarrow> 'l \<Rightarrow> (nat \<times> 'cb VmmTimerEvent) option \<times> 'l"

text \<open>The counter, the lists of the processors (\<open>None\<close> before \<open>init_percpu\<close>), and the rest of the system.\<close>

record ('l, 'w) timer_state =
  TOKEN :: usize
  TIMER_LIST :: "nat \<Rightarrow> 'l option"
  world :: 'w

definition VmmTimerEvent_new :: "usize \<Rightarrow> 'cb \<Rightarrow> 'cb VmmTimerEvent" where
  "VmmTimerEvent_new t f = \<lparr>token = t, timer_callback = f\<rparr>"

definition not_initialized :: string where
  "not_initialized = ''LazyInit: not initialized''"

definition set_list :: "nat \<Rightarrow> 'l \<Rightarrow> ('l, 'w) timer_state \<Rightarrow> ('l, 'w) timer_state" where
  "set_list cpu l st = st\<lparr>TIMER_LIST := (TIMER_LIST st)(cpu \<mapsto> l)\<rparr>"

definition register_timer ::
    "('cb, 'l) timer_ops \<Rightarrow> nat \<Rightarrow> u64 \<Rightarrow> 'cb \<Rightarrow> ('l, 'w) timer_state \<Rightarrow> (usize \<times> ('l, 'w) timer_state) outcome" where
  "register_timer T cpu deadline handler st =
     (case TIMER_LIST st cpu of
        None \<Rightarrow> Panic not_initialized
      | Some timers \<Rightarrow>
          (let t = TOKEN st; event = VmmTimerEvent_new t handler
           in Done (t, set_list cpu (tl_set T (unat deadline) event timers) (st\<lparr>TOKEN := t + 1\<rparr>))))"

definition cancel_timer :: "('cb, 'l) timer_ops \<Rightarrow> nat \<Rightarrow> usize \<Rightarrow> ('l, 'w) timer_state \<Rightarrow> ('l, 'w) timer_state outcome" where
  "cancel_timer T cpu t st =
     (case TIMER_LIST st cpu of
        None \<Rightarrow> Panic not_initialized
      | Some timers \<Rightarrow> Done (set_list cpu (tl_cancel T (\<lambda>event. token event = t) timers) st))"

partial_function (option) check_events_loop ::
    "('cb, 'l) timer_ops \<Rightarrow> ('cb \<Rightarrow> nat \<Rightarrow> ('l, 'w) timer_state \<Rightarrow> ('l, 'w) timer_state) \<Rightarrow> (nat \<Rightarrow> nat) \<Rightarrow> nat \<Rightarrow> nat \<Rightarrow>
     ('l, 'w) timer_state \<Rightarrow> ('l, 'w) timer_state outcome option" where
  "check_events_loop T call clock n cpu st =
     (case TIMER_LIST st cpu of
        None \<Rightarrow> Some (Panic not_initialized)
      | Some timers \<Rightarrow>
          (let now = clock n in
           case tl_expire_one T now timers of
             (None, l) \<Rightarrow> Some (Done (set_list cpu l st))
           | (Some (deadline, event), l) \<Rightarrow>
               check_events_loop T call clock (n + 1) cpu (call (timer_callback event) now (set_list cpu l st))))"

definition check_events ::
    "('cb, 'l) timer_ops \<Rightarrow> ('cb \<Rightarrow> nat \<Rightarrow> ('l, 'w) timer_state \<Rightarrow> ('l, 'w) timer_state) \<Rightarrow> (nat \<Rightarrow> nat) \<Rightarrow> nat \<Rightarrow>
     ('l, 'w) timer_state \<Rightarrow> ('l, 'w) timer_state outcome option" where
  "check_events T call clock cpu st = check_events_loop T call clock 0 cpu st"

definition init_percpu :: "('cb, 'l) timer_ops \<Rightarrow> nat \<Rightarrow> ('l, 'w) timer_state \<Rightarrow> ('l, 'w) timer_state outcome" where
  "init_percpu T cpu st =
     (case TIMER_LIST st cpu of None \<Rightarrow> Done (set_list cpu (tl_new T) st) | Some _ \<Rightarrow> Panic ''Already initialized'')"

section \<open>The contract of a list of timers\<close>

text \<open>
  What the \<^verbatim>\<open>timer_list\<close> crate documents, for the multiset \<open>events\<close> of deadlines and events in a list:
  \<^verbatim>\<open>cancel\<close> removes all events that meet the condition; \<^verbatim>\<open>expire_one\<close> takes the earliest event if its
  deadline has passed.
\<close>

definition timer_laws :: "('cb, 'l) timer_ops \<Rightarrow> ('l \<Rightarrow> (nat \<times> 'cb VmmTimerEvent) multiset) \<Rightarrow> bool" where
  "timer_laws T events =
     (events (tl_new T) = {#} \<and>
      (\<forall>d e l. events (tl_set T d e l) = add_mset (d, e) (events l)) \<and>
      (\<forall>P l. events (tl_cancel T P l) = filter_mset (\<lambda>x. \<not> P (snd x)) (events l)) \<and>
      (\<forall>now l. (case tl_expire_one T now l of
          (None, l') \<Rightarrow> events l' = events l \<and> (\<forall>x \<in># events l. now < fst x)
        | (Some x, l') \<Rightarrow> events l = add_mset x (events l') \<and> fst x \<le> now \<and> (\<forall>y \<in># events l. fst x \<le> fst y))))"

lemma expire_cases:
  assumes "timer_laws T events"
  obtains l' where "tl_expire_one T now l = (None, l')" "events l' = events l" "\<forall>x \<in># events l. now < fst x"
  | d e l' where "tl_expire_one T now l = (Some (d, e), l')" "events l = add_mset (d, e) (events l')" "d \<le> now"
      "\<forall>y \<in># events l. d \<le> fst y"
proof -
  obtain res l' where r: "tl_expire_one T now l = (res, l')" by (rule prod.exhaust)
  have law: "case tl_expire_one T now l of
      (None, l') \<Rightarrow> events l' = events l \<and> (\<forall>x \<in># events l. now < fst x)
    | (Some x, l') \<Rightarrow> events l = add_mset x (events l') \<and> fst x \<le> now \<and> (\<forall>y \<in># events l. fst x \<le> fst y)"
    using assms[unfolded timer_laws_def, THEN conjunct2, THEN conjunct2, THEN conjunct2] by (elim allE)
  show thesis
  proof (cases res)
    case None
    then show thesis using that(1)[of l'] law r by simp
  next
    case (Some x)
    then show thesis using that(2)[of "fst x" "snd x" l'] law r by simp
  qed
qed

section \<open>Due timers fire, in order, once\<close>

lemma check_events_loop_fires:
  assumes T: "timer_laws T events" and call: "\<And>cb now st. call cb now st = st\<lparr>world := effect cb now (world st)\<rparr>"
    and clock: "\<And>n. clock n = now"
  shows "TIMER_LIST st cpu = Some l \<Longrightarrow>
    \<exists>due l'. check_events_loop T call clock n cpu st =
        Some (Done (st\<lparr>TIMER_LIST := (TIMER_LIST st)(cpu \<mapsto> l'), world := fold (\<lambda>(d, e). effect (timer_callback e) now) due (world st)\<rparr>)) \<and>
      events l' = filter_mset (\<lambda>x. now < fst x) (events l) \<and> mset due = filter_mset (\<lambda>x. fst x \<le> now) (events l) \<and> sorted (map fst due)"
proof (induction "size (events l)" arbitrary: l n st rule: less_induct)
  case less
  show ?case
  proof (rule expire_cases[OF T, of now l])
    fix l' assume e: "tl_expire_one T now l = (None, l')" "events l' = events l" "\<forall>x \<in># events l. now < fst x"
    then have "filter_mset (\<lambda>x. now < fst x) (events l) = events l" by (simp add: filter_mset_eq_conv)
    moreover have "filter_mset (\<lambda>x. fst x \<le> now) (events l) = {#}"
      using e(3) by (auto simp: filter_mset_eq_mempty_iff)
    ultimately show ?thesis using less.prems e
      by (intro exI[of _ "[]"] exI[of _ l'], subst check_events_loop.simps) (simp add: clock set_list_def)
  next
    fix d e l' assume e: "tl_expire_one T now l = (Some (d, e), l')" "events l = add_mset (d, e) (events l')" "d \<le> now"
        "\<forall>y \<in># events l. d \<le> fst y"
    let ?st = "call (timer_callback e) now (set_list cpu l' st)"
    have st: "TIMER_LIST ?st cpu = Some l'" "size (events l') < size (events l)" by (simp_all add: call set_list_def e(2))
    obtain due l2 where IH: "check_events_loop T call clock (n + 1) cpu ?st =
          Some (Done (?st\<lparr>TIMER_LIST := (TIMER_LIST ?st)(cpu \<mapsto> l2), world := fold (\<lambda>(d, e). effect (timer_callback e) now) due (world ?st)\<rparr>))"
        "events l2 = filter_mset (\<lambda>x. now < fst x) (events l')" "mset due = filter_mset (\<lambda>x. fst x \<le> now) (events l')" "sorted (map fst due)"
      using less.hyps[OF st(2,1), of "n + 1"] by blast
    have "check_events_loop T call clock n cpu st = check_events_loop T call clock (n + 1) cpu ?st"
      using less.prems e(1) by (subst check_events_loop.simps) (simp add: clock)
    moreover have "sorted (map fst ((d, e) # due))" using IH(3,4) e(4) by (auto simp: e(2) dest!: arg_cong[of _ _ set_mset])
    ultimately show ?thesis using IH e(2,3)
      by (intro exI[of _ "(d, e) # due"] exI[of _ l2]) (simp add: call set_list_def)
  qed
qed


text \<open>A list of timers as a list; callbacks write their number into a log.\<close>

definition insert_timer :: "nat \<Rightarrow> 'cb VmmTimerEvent \<Rightarrow> (nat \<times> 'cb VmmTimerEvent) list \<Rightarrow> (nat \<times> 'cb VmmTimerEvent) list" where
  "insert_timer d e l = takeWhile (\<lambda>x. fst x \<le> d) l @ (d, e) # dropWhile (\<lambda>x. fst x \<le> d) l"

definition min_timer :: "(nat \<times> 'cb VmmTimerEvent) list \<Rightarrow> (nat \<times> 'cb VmmTimerEvent) option" where
  "min_timer l = (case l of [] \<Rightarrow> None | x # xs \<Rightarrow> Some (fold (\<lambda>y m. if fst y < fst m then y else m) xs x))"

definition list_timers :: "(nat, (nat \<times> nat VmmTimerEvent) list) timer_ops" where
  "list_timers = \<lparr>tl_new = [], tl_set = insert_timer, tl_cancel = (\<lambda>P. filter (\<lambda>x. \<not> P (snd x))),
     tl_expire_one = (\<lambda>now l. case min_timer l of
        Some x \<Rightarrow> if fst x \<le> now then (Some x, remove1 x l) else (None, l) | None \<Rightarrow> (None, l))\<rparr>"

lemma min_timer_least: "min_timer l = Some x \<Longrightarrow> x \<in> set l \<and> (\<forall>y \<in> set l. fst x \<le> fst y)"
proof -
  have "fold (\<lambda>y m. if fst y < fst m then y else m) xs (a :: nat \<times> 'a VmmTimerEvent) \<in> set (a # xs) \<and>
      (\<forall>y \<in> set (a # xs). fst (fold (\<lambda>y m. if fst y < fst m then y else m) xs a) \<le> fst y)" for xs a
  proof (induction xs arbitrary: a)
    case (Cons b xs)
    show ?case using Cons.IH[of "if fst b < fst a then b else a"] by (auto split: if_splits)
  qed simp
  then show "min_timer l = Some x \<Longrightarrow> x \<in> set l \<and> (\<forall>y \<in> set l. fst x \<le> fst y)"
    by (auto simp: min_timer_def split: list.splits)
qed

lemma list_timers_laws: "timer_laws list_timers mset"
proof -
  have exp: "case tl_expire_one list_timers now l of
      (None, l') \<Rightarrow> mset l' = mset l \<and> (\<forall>x \<in># mset l. now < fst x)
    | (Some x, l') \<Rightarrow> mset l = add_mset x (mset l') \<and> fst x \<le> now \<and> (\<forall>y \<in># mset l. fst x \<le> fst y)" for now l
  proof (cases "min_timer l")
    case None
    then have "l = []" by (simp add: min_timer_def split: list.splits)
    then show ?thesis by (simp add: list_timers_def min_timer_def)
  next
    case (Some x)
    with min_timer_least[OF Some] show ?thesis by (auto simp: list_timers_def)
  qed
  have ins: "mset (tl_set list_timers d e l) = add_mset (d, e) (mset l)" for d e l
    by (simp add: list_timers_def insert_timer_def flip: union_code) (metis mset_append takeWhile_dropWhile_id)
  show ?thesis unfolding timer_laws_def using exp ins by (simp add: list_timers_def)
qed


section \<open>Tokens\<close>

text \<open>The number of timers with a token on a processor.\<close>

definition timers_with :: "('l \<Rightarrow> (nat \<times> 'cb VmmTimerEvent) multiset) \<Rightarrow> ('l, 'w) timer_state \<Rightarrow> nat \<Rightarrow> usize \<Rightarrow> nat" where
  "timers_with events st cpu t =
     size (filter_mset (\<lambda>x. token (snd x) = t) (case TIMER_LIST st cpu of None \<Rightarrow> {#} | Some l \<Rightarrow> events l))"

text \<open>What can happen to the timers, until the counter wraps around.\<close>

inductive timer_step :: "('cb, 'l) timer_ops \<Rightarrow> ('l, 'w) timer_state \<Rightarrow> ('l, 'w) timer_state \<Rightarrow> bool" for T where
  "init_percpu T cpu st = Done st' \<Longrightarrow> timer_step T st st'"
| "register_timer T cpu deadline handler st = Done (t, st') \<Longrightarrow> TOKEN st + 1 \<noteq> 0 \<Longrightarrow> timer_step T st st'"
| "cancel_timer T cpu t st = Done st' \<Longrightarrow> timer_step T st st'"
| "TIMER_LIST st cpu = Some l \<Longrightarrow> tl_expire_one T now l = (Some x, l') \<Longrightarrow> timer_step T st (set_list cpu l' st)"
| "timer_step T st (st\<lparr>world := w\<rparr>)"

definition timers_init :: "('l, 'w) timer_state \<Rightarrow> bool" where
  "timers_init st = (TOKEN st = 0 \<and> TIMER_LIST st = Map.empty)"

definition timers_inv :: "('l \<Rightarrow> (nat \<times> 'cb VmmTimerEvent) multiset) \<Rightarrow> ('l, 'w) timer_state \<Rightarrow> bool" where
  "timers_inv events st =
     (\<forall>cpu t. timers_with events st cpu t \<le> 1 \<and> (timers_with events st cpu t \<noteq> 0 \<longrightarrow> t < TOKEN st) \<and>
        (\<forall>c. timers_with events st cpu t \<noteq> 0 \<longrightarrow> timers_with events st c t \<noteq> 0 \<longrightarrow> c = cpu))"

lemma timers_with_set_list:
  "timers_with events (set_list c l st) cpu t =
     (if cpu = c then size (filter_mset (\<lambda>x. token (snd x) = t) (events l)) else timers_with events st cpu t)"
  by (simp add: timers_with_def set_list_def)

lemma timers_with_updates [simp]:
  "timers_with events (st\<lparr>TOKEN := n\<rparr>) cpu t = timers_with events st cpu t"
  "timers_with events (st\<lparr>world := w\<rparr>) cpu t = timers_with events st cpu t"
  "TOKEN (set_list c l st) = TOKEN st"
  by (simp_all add: timers_with_def set_list_def)

lemma timers_inv_less:
  assumes "timers_inv events st" "\<And>cpu t. timers_with events st' cpu t \<le> timers_with events st cpu t" "TOKEN st' = TOKEN st"
  shows "timers_inv events st'"
  unfolding timers_inv_def
proof (intro allI conjI impI)
  fix cpu t c
  note le = assms(2)
  show "timers_with events st' cpu t \<le> 1" using le[of cpu t] assms(1) by (metis le_trans timers_inv_def)
  show "t < TOKEN st'" if "timers_with events st' cpu t \<noteq> 0"
    using that le[of cpu t] assms(1,3) unfolding timers_inv_def by (metis le_zero_eq)
  show "c = cpu" if "timers_with events st' cpu t \<noteq> 0" "timers_with events st' c t \<noteq> 0"
    using that le[of cpu t] le[of c t] assms(1) unfolding timers_inv_def by (metis le_zero_eq)
qed

lemma timers_inv_shrink:
  assumes "timers_inv events st" "TIMER_LIST st cpu = Some l" "events l' \<subseteq># events l"
  shows "timers_inv events (set_list cpu l' st)"
proof (rule timers_inv_less[OF assms(1)])
  fix c t
  have "size (filter_mset (\<lambda>x. token (snd x) = t) (events l')) \<le> timers_with events st cpu t"
    using assms(2,3) by (simp add: timers_with_def size_mset_mono multiset_filter_mono)
  then show "timers_with events (set_list cpu l' st) c t \<le> timers_with events st c t"
    unfolding timers_with_set_list by simp
qed simp

lemma timers_register_inv:
  assumes T: "timer_laws T events" and inv: "timers_inv events st" and r: "register_timer T cpu d h st = Done (t, st')" "TOKEN st + 1 \<noteq> 0"
  shows "timers_inv events st'"
proof -
  obtain l where l: "TIMER_LIST st cpu = Some l"
      "st' = set_list cpu (tl_set T (unat d) (VmmTimerEvent_new (TOKEN st) h) l) (st\<lparr>TOKEN := TOKEN st + 1\<rparr>)"
    using r(1) by (auto simp: register_timer_def Let_def split: option.splits)
  have ev: "events (tl_set T (unat d) (VmmTimerEvent_new (TOKEN st) h) l) = add_mset (unat d, VmmTimerEvent_new (TOKEN st) h) (events l)"
    using T by (simp add: timer_laws_def)
  have old: "timers_with events st c (TOKEN st) = 0" for c using inv unfolding timers_inv_def by (metis order_less_irrefl)
  have w: "timers_with events st' c u = (if u = TOKEN st then (if c = cpu then 1 else 0) else timers_with events st c u)" for c u
  proof -
    have "size (filter_mset (\<lambda>x. token (snd x) = u) (events l)) = timers_with events st cpu u" for u by (simp add: timers_with_def l(1))
    then show ?thesis using old unfolding l(2) timers_with_set_list ev by (simp add: VmmTimerEvent_new_def)
  qed
  have tok: "TOKEN st' = TOKEN st + 1" by (simp add: l(2))
  have suc: "unat (TOKEN st + 1) = Suc (unat (TOKEN st))" using r(2) unatSuc[of "TOKEN st"] by (simp add: add.commute)
  have less: "u < TOKEN st \<Longrightarrow> u < TOKEN st + 1" "TOKEN st < TOKEN st + 1" for u
    using suc by (simp_all add: word_less_nat_alt)
  show ?thesis unfolding timers_inv_def w tok using inv less by (auto simp: timers_inv_def)
qed

lemma timer_step_inv:
  assumes "timer_step T st st'" "timer_laws T events" "timers_inv events st"
  shows "timers_inv events st'"
  using assms
proof (cases rule: timer_step.cases)
  case (1 cpu)
  then have "st' = set_list cpu (tl_new T) st" by (auto simp: init_percpu_def split: option.splits)
  then show ?thesis using assms(2,3) by (intro timers_inv_less[OF assms(3)]) (auto simp: timers_with_set_list timer_laws_def)
next
  case (2 cpu d h t)
  from timers_register_inv[OF assms(2,3) this] show ?thesis .
next
  case (3 cpu t)
  then obtain l where l: "TIMER_LIST st cpu = Some l" "st' = set_list cpu (tl_cancel T (\<lambda>e. token e = t) l) st"
    by (auto simp: cancel_timer_def split: option.splits)
  have "events (tl_cancel T (\<lambda>e. token e = t) l) \<subseteq># events l" using assms(2) by (simp add: timer_laws_def)
  then show ?thesis unfolding l(2) by (rule timers_inv_shrink[OF assms(3) l(1)])
next
  case (4 cpu l now x l')
  have "events l' \<subseteq># events l" by (rule expire_cases[OF assms(2), of now l]) (use 4 in auto)
  then show ?thesis unfolding 4(1) by (rule timers_inv_shrink[OF assms(3) 4(2)])
next
  case (5 w)
  then show ?thesis using assms(3) by (simp add: timers_inv_def)
qed

interpretation timers: transition_system "\<lambda>st. timer_laws T events \<and> timers_init st" "timer_step T" "\<lambda>st. timer_laws T events \<and> timers_inv events st"
  for T :: "('cb, 'l) timer_ops" and events
proof
  show "timer_laws T events \<and> timers_init st \<Longrightarrow> timer_laws T events \<and> timers_inv events st" for st :: "('l, 'w) timer_state"
    by (simp add: timers_init_def timers_inv_def timers_with_def)
  show "timer_step T st st' \<Longrightarrow> timer_laws T events \<and> timers_inv events st \<Longrightarrow> timer_laws T events \<and> timers_inv events st'"
    for st st' :: "('l, 'w) timer_state"
    using timer_step_inv by blast
qed

text \<open>
  As long as the counter has not wrapped around, no two timers of the system have the same token, on
  one processor or on two; so a token cancels at most one timer. It cancels nothing on a processor other
  than the one that holds the timer.
\<close>

lemma timer_tokens_unique:
  assumes "timer_laws T events" "timers_init st" "(timer_step T)\<^sup>*\<^sup>* st st'"
  shows "timers_with events st' cpu t \<le> 1" "timers_with events st' cpu t = 1 \<Longrightarrow> c \<noteq> cpu \<Longrightarrow> timers_with events st' c t = 0"
proof -
  have inv: "timers_inv events st'" using timers.reachable_inv[of T events st st'] assms by simp
  then show "timers_with events st' cpu t \<le> 1" by (simp add: timers_inv_def)
  show "timers_with events st' c t = 0" if "timers_with events st' cpu t = 1" "c \<noteq> cpu"
    using inv that unfolding timers_inv_def by (metis zero_neq_one)
qed

lemma cancel_elsewhere:
  assumes "timers_with events st cpu t = 1" "c \<noteq> cpu" "cancel_timer T c t st = Done st'"
  shows "timers_with events st' cpu t = 1"
  using assms by (auto simp: cancel_timer_def timers_with_set_list split: option.splits)

end
