(* ===== verification/Axfs_Ext4.thy ===== *)
theory Axfs_Ext4
  imports Axfs_Fops
begin

text \<open>
  The ext4 file system as the root directory sees it, \<^verbatim>\<open>modules/axfs/src/fs/ext4fs.rs\<close>: a node is a path, and
  its methods call the ext4 library \<^verbatim>\<open>rsext4\<close> with paths it has put together. The library's functions are the
  fields of \<open>ext4_lib\<close>, on states \<open>'w\<close>, inodes \<open>'i\<close> and open files \<open>'o\<close>. Each method of the source is written
  twice, for a disk and for a partition, with the same calls; the record is the library at one of the two.
  The block device below the library is in \<open>Axfs_Dev\<close>.
\<close>

section \<open>The library\<close>

record ('w, 'i, 'o) ext4_lib =
  get_inode_with_num :: "string \<Rightarrow> 'w \<Rightarrow> 'i option option"
  inode_is_dir :: "'i \<Rightarrow> bool"
  inode_size :: "'i \<Rightarrow> u64"
  x4_mkdir :: "string \<Rightarrow> 'w \<Rightarrow> 'w"
  x4_mkfile :: "string \<Rightarrow> 'w \<Rightarrow> 'w"
  x4_delete_dir :: "string \<Rightarrow> 'w \<Rightarrow> 'w"
  x4_unlink :: "string \<Rightarrow> 'w \<Rightarrow> 'w"
  x4_mv :: "string \<Rightarrow> string \<Rightarrow> 'w \<Rightarrow> 'w"
  x4_truncate :: "string \<Rightarrow> u64 \<Rightarrow> 'w \<Rightarrow> 'w"
  x4_write_file :: "string \<Rightarrow> u64 \<Rightarrow> u8 list \<Rightarrow> 'w \<Rightarrow> bool \<times> 'w"
  x4_open :: "string \<Rightarrow> 'w \<Rightarrow> 'o option \<times> 'w"
  x4_lseek :: "u64 \<Rightarrow> 'o \<Rightarrow> 'o"
  x4_read_at :: "nat \<Rightarrow> 'o \<Rightarrow> 'w \<Rightarrow> u8 list option \<times> 'o \<times> 'w"
  x4_blocks :: "'i \<Rightarrow> 'w \<Rightarrow> nat list option"
  x4_load_block :: "nat \<Rightarrow> 'w \<Rightarrow> u8 list option"
  x4_list_entries :: "u8 list \<Rightarrow> (string option \<times> u8) list"

section \<open>Paths\<close>

text \<open>\<^verbatim>\<open>str::replace("//", "/")\<close>, from left to right and without overlaps.\<close>

fun replace_slashes :: "string \<Rightarrow> string" where
  "replace_slashes (a # b # s) =
     (if a = CHR ''/'' \<and> b = CHR ''/'' then CHR ''/'' # replace_slashes s else a # replace_slashes (b # s))"
| "replace_slashes s = s"

abbreviation is_slash :: "char \<Rightarrow> bool" where
  "is_slash c \<equiv> c = CHR ''/''"

lemma length_trim_end: "length (trim_end_matches P s) \<le> length s"
  using length_dropWhile_le[of P "rev s"] by (simp add: trim_end_matches_def)

lemma length_trim: "length (trim_matches P s) \<le> length s"
  using length_trim_end[of P "trim_start_matches P s"] length_dropWhile_le[of P s]
  by (simp add: trim_matches_def trim_start_matches_def)

lemma length_replace: "length (replace_slashes s) \<le> length s \<and> (replace_slashes s \<noteq> s \<longrightarrow> length (replace_slashes s) < length s)"
  by (induction s rule: replace_slashes.induct) auto

text \<open>\<open>path_deal_with\<close> of a node with path \<open>self\<close>.\<close>

function path_deal_with :: "string \<Rightarrow> string \<Rightarrow> string" where
  "path_deal_with self path =
     (let trim_path = trim_matches is_slash path
      in if trim_path = [] \<or> trim_path = ''.'' then self
         else case strip_prefix_of ''./'' trim_path of
                Some rest \<Rightarrow> path_deal_with self rest
              | None \<Rightarrow>
                  (let rest_p = replace_slashes trim_path
                   in if trim_path \<noteq> rest_p then path_deal_with self rest_p
                      else let base_path = trim_end_matches is_slash self
                           in if base_path = ''/'' then ''/'' @ trim_path else base_path @ ''/'' @ trim_path))"
  by pat_completeness auto
termination
proof (relation "measure (\<lambda>(self, path). length path)")
  fix self path trim_path rest
  assume t: "trim_path = trim_matches is_slash path" "strip_prefix_of ''./'' trim_path = Some rest"
  then have "length rest < length trim_path" by simp
  then show "((self, rest), self, path) \<in> measure (\<lambda>(self, path). length path)"
    using length_trim[of is_slash path] t(1) by simp
next
  fix self path trim_path rest_p
  assume "trim_path = trim_matches is_slash path" "rest_p = replace_slashes trim_path" "trim_path \<noteq> rest_p"
  then show "((self, rest_p), self, path) \<in> measure (\<lambda>(self, path). length path)"
    using length_trim[of is_slash path] length_replace[of trim_path] by simp
qed simp

declare path_deal_with.simps [simp del]

section \<open>Nodes\<close>

text \<open>A \<^verbatim>\<open>FileWrapper\<close>: its path, and the open file once it has been read.\<close>

record 'o FileWrapper =
  fw_path :: string
  fw_file :: "'o option"

definition FileWrapper_new :: "string \<Rightarrow> 'o FileWrapper" where
  "FileWrapper_new path = \<lparr>fw_path = path, fw_file = None\<rparr>"

definition ext4_root_dir :: "'o FileWrapper" where
  "ext4_root_dir = FileWrapper_new ''/''"

text \<open>The error handling of \<^verbatim>\<open>get_inode_with_num\<close>.\<close>

definition inode_of :: "('w, 'i, 'o) ext4_lib \<Rightarrow> string \<Rightarrow> 'w \<Rightarrow> 'i ax_result" where
  "inode_of L path w =
     (case get_inode_with_num L path w of
        None \<Rightarrow> Inl Io
      | Some None \<Rightarrow> Inl NotFound
      | Some (Some i) \<Rightarrow> Inr i)"

definition ext4_get_attr :: "('w, 'i, 'o) ext4_lib \<Rightarrow> 'o FileWrapper \<Rightarrow> 'w \<Rightarrow> node_attr ax_result" where
  "ext4_get_attr L n w =
     try_bind (inode_of L (fw_path n) w) (\<lambda>i.
       Inr \<lparr>attr_type = (if inode_is_dir L i then NodeDir else NodeFile),
            owner_readable = True, owner_writable = True, owner_executable = True, attr_size = inode_size L i\<rparr>)"

definition ext4_create ::
  "('w, 'i, 'o) ext4_lib \<Rightarrow> 'o FileWrapper \<Rightarrow> string \<Rightarrow> VfsNodeType \<Rightarrow> 'w \<Rightarrow> unit ax_result \<times> 'w" where
  "ext4_create L n path ty w =
     (let fpath = path_deal_with (fw_path n) path
      in if fpath = [] then (Inr (), w)
         else (Inr (), if ty = NodeDir then x4_mkdir L fpath w else x4_mkfile L fpath w))"

definition ext4_remove :: "('w, 'i, 'o) ext4_lib \<Rightarrow> 'o FileWrapper \<Rightarrow> string \<Rightarrow> 'w \<Rightarrow> (unit ax_result \<times> 'w) outcome" where
  "ext4_remove L n path w =
     (let fpath = path_deal_with (fw_path n) path
      in if fpath = [] then Panic ''assertion failed: !fpath.is_empty()''
         else case inode_of L fpath w of
                Inl e \<Rightarrow> Done (Inl e, w)
              | Inr i \<Rightarrow> Done (Inr (), if inode_is_dir L i then x4_delete_dir L fpath w else x4_unlink L fpath w))"

definition ext4_parent :: "'o FileWrapper \<Rightarrow> 'o FileWrapper option" where
  "ext4_parent n =
     (let path = trim_end_matches (\<lambda>c. c \<noteq> CHR ''/'') (trim_end_matches is_slash (fw_path n))
      in if path \<noteq> [] then Some (FileWrapper_new path) else None)"

fun load_blocks :: "('w, 'i, 'o) ext4_lib \<Rightarrow> nat list \<Rightarrow> 'w \<Rightarrow> u8 list ax_result" where
  "load_blocks L [] w = Inr []"
| "load_blocks L (b # bs) w =
     (case x4_load_block L b w of
        None \<Rightarrow> Inl Io
      | Some data \<Rightarrow> try_bind (load_blocks L bs w) (\<lambda>rest. Inr (data @ rest)))"

definition unique_entries :: "(string option \<times> u8) list \<Rightarrow> (string, u8) btree" where
  "unique_entries entries =
     fold (\<lambda>(name, ty) m. case name of
             Some s \<Rightarrow> if s \<noteq> ''.'' \<and> s \<noteq> ''..'' then bt_insert s ty m else m
           | None \<Rightarrow> m) entries []"

definition ext4_node_type :: "u8 \<Rightarrow> VfsNodeType" where
  "ext4_node_type file_type = (if file_type = 2 then NodeDir else NodeFile)"

definition ext4_read_dir ::
  "('w, 'i, 'o) ext4_lib \<Rightarrow> 'o FileWrapper \<Rightarrow> nat \<Rightarrow> nat \<Rightarrow> 'w \<Rightarrow> (string \<times> VfsNodeType) list ax_result" where
  "ext4_read_dir L n start_idx dirents_len w =
     try_bind (inode_of L (fw_path n) w) (\<lambda>i.
       if \<not> inode_is_dir L i then Inl Unsupported
       else try_bind (ok_or Io (x4_blocks L i w)) (\<lambda>blocks.
            try_bind (load_blocks L blocks w) (\<lambda>data.
              Inr (map (\<lambda>(name, ty). (name, ext4_node_type ty))
                     (take dirents_len (drop start_idx (bt_entries (unique_entries (x4_list_entries L data)))))))))"

definition ext4_lookup ::
  "('w, 'i, 'o) ext4_lib \<Rightarrow> 'o FileWrapper \<Rightarrow> string \<Rightarrow> 'w \<Rightarrow> 'o FileWrapper ax_result" where
  "ext4_lookup L n path w =
     (let fpath = path_deal_with (fw_path n) path
      in if fpath = [] then Inr n
         else case get_inode_with_num L fpath w of
                None \<Rightarrow> Inl Io
              | Some (Some i) \<Rightarrow> Inr (FileWrapper_new fpath)
              | Some None \<Rightarrow> Inl NotFound)"

definition ext4_read_at ::
  "('w, 'i, 'o) ext4_lib \<Rightarrow> u64 \<Rightarrow> nat \<Rightarrow> 'o FileWrapper \<Rightarrow> 'w \<Rightarrow> u8 list ax_result \<times> 'o FileWrapper \<times> 'w" where
  "ext4_read_at L off buf_len n w =
     (let (f, w1) = (case fw_file n of Some h \<Rightarrow> (Some h, w) | None \<Rightarrow> x4_open L (fw_path n) w)
      in case f of
           None \<Rightarrow> (Inl NotFound, n\<lparr>fw_file := None\<rparr>, w1)
         | Some h \<Rightarrow>
             (case x4_read_at L buf_len (x4_lseek L off h) w1 of
                (None, h', w2) \<Rightarrow> (Inl Io, n\<lparr>fw_file := Some h'\<rparr>, w2)
              | (Some data, h', w2) \<Rightarrow> (Inr (take buf_len data), n\<lparr>fw_file := Some h'\<rparr>, w2)))"

definition ext4_write_at ::
  "('w, 'i, 'o) ext4_lib \<Rightarrow> u64 \<Rightarrow> u8 list \<Rightarrow> 'o FileWrapper \<Rightarrow> 'w \<Rightarrow> nat ax_result \<times> 'w" where
  "ext4_write_at L off buf n w =
     (case x4_write_file L (fw_path n) off buf w of
        (True, w') \<Rightarrow> (Inr (length buf), w')
      | (False, w') \<Rightarrow> (Inl Io, w'))"

definition ext4_truncate :: "('w, 'i, 'o) ext4_lib \<Rightarrow> u64 \<Rightarrow> 'o FileWrapper \<Rightarrow> 'w \<Rightarrow> unit ax_result \<times> 'w" where
  "ext4_truncate L sz n w = (Inr (), x4_truncate L (fw_path n) sz w)"

definition ext4_rename ::
  "('w, 'i, 'o) ext4_lib \<Rightarrow> 'o FileWrapper \<Rightarrow> string \<Rightarrow> string \<Rightarrow> 'w \<Rightarrow> unit ax_result \<times> 'w" where
  "ext4_rename L n src_path dst_path w =
     (Inr (), x4_mv L (path_deal_with (fw_path n) src_path) (path_deal_with (fw_path n) dst_path) w)"


section \<open>Paths, by components\<close>

text \<open>The components of a path.\<close>

fun comps_acc :: "string \<Rightarrow> string \<Rightarrow> string list" where
  "comps_acc cur [] = (if cur = [] then [] else [rev cur])"
| "comps_acc cur (c # s) =
     (if c = CHR ''/'' then (if cur = [] then comps_acc [] s else rev cur # comps_acc [] s)
      else comps_acc (c # cur) s)"

definition path_comps :: "string \<Rightarrow> string list" where
  "path_comps s = comps_acc [] s"

lemma comps_acc_word: "CHR ''/'' \<notin> set u \<Longrightarrow> comps_acc cur (u @ s) = comps_acc (rev u @ cur) s"
  by (induction u arbitrary: cur) auto

lemma comps_acc_replace: "comps_acc cur (replace_slashes s) = comps_acc cur s"
  by (induction s arbitrary: cur rule: replace_slashes.induct) auto

lemma comps_drop_slashes: "path_comps (dropWhile is_slash s) = path_comps s"
  unfolding path_comps_def by (induction s) auto

lemma comps_acc_append_slashes: "\<forall>c \<in> set u. is_slash c \<Longrightarrow> comps_acc cur (s @ u) = comps_acc cur s"
proof (induction s arbitrary: cur)
  case Nil
  then show ?case by (induction u arbitrary: cur) auto
qed auto

lemma trim_end_split: "\<exists>u. (\<forall>c \<in> set u. P c) \<and> s = trim_end_matches P s @ u"
proof -
  have "rev s = takeWhile P (rev s) @ dropWhile P (rev s)" by simp
  then have "s = rev (dropWhile P (rev s)) @ rev (takeWhile P (rev s))" by (metis rev_append rev_rev_ident)
  then show ?thesis by (auto simp: trim_end_matches_def dest: set_takeWhileD intro!: exI[of _ "rev (takeWhile P (rev s))"])
qed

lemma comps_trim_end: "path_comps (trim_end_matches is_slash s) = path_comps s"
proof -
  obtain u where u: "\<forall>c \<in> set u. is_slash c" "s = trim_end_matches is_slash s @ u" using trim_end_split by blast
  show ?thesis unfolding path_comps_def by (subst (2) u(2)) (rule comps_acc_append_slashes[OF u(1), symmetric])
qed

lemma comps_trim: "path_comps (trim_matches is_slash s) = path_comps s"
  by (simp add: trim_matches_def comps_trim_end trim_start_matches_def comps_drop_slashes)

text \<open>A trimmed path without double slashes is its components with slashes between them.\<close>

fun tidy :: "string \<Rightarrow> bool" where
  "tidy (a # b # s) = (\<not> (a = CHR ''/'' \<and> b = CHR ''/'') \<and> tidy (b # s))"
| "tidy s = True"

lemma replace_id_tidy: "replace_slashes s = s \<longleftrightarrow> tidy s"
proof (induction s rule: replace_slashes.induct)
  case (1 a b s)
  then show ?case using length_replace[of s] by auto
qed auto

lemma comps_acc_tidy:
  "tidy s \<Longrightarrow> (cur = [] \<Longrightarrow> s \<noteq> [] \<and> hd s \<noteq> CHR ''/'') \<Longrightarrow> (s \<noteq> [] \<Longrightarrow> last s \<noteq> CHR ''/'') \<Longrightarrow>
   str_join ''/'' (comps_acc cur s) = rev cur @ s \<and> comps_acc cur s \<noteq> []"
proof (induction s arbitrary: cur)
  case (Cons c s)
  show ?case
  proof (cases "c = CHR ''/''")
    case True
    then obtain d t where s: "s = d # t" using Cons.prems(3) by (cases s) auto
    then have d: "d \<noteq> CHR ''/''" using Cons.prems(1) True by auto
    have ne: "cur \<noteq> []" using Cons.prems(2) True by auto
    have "str_join ''/'' (comps_acc [] s) = s \<and> comps_acc [] s \<noteq> []"
      using Cons.IH[of "[]"] Cons.prems(1,3) s d by auto
    then show ?thesis using True ne by (cases "comps_acc [] s") auto
  next
    case False
    have "tidy s" using Cons.prems(1) by (cases s) auto
    then show ?thesis using Cons.IH[of "c # cur"] Cons.prems(3) False by (cases "s = []") auto
  qed
qed (use list.exhaust in auto)

lemma trim_ends:
  assumes "trim_matches P s \<noteq> []"
  shows "\<not> P (hd (trim_matches P s))" "\<not> P (last (trim_matches P s))"
proof -
  let ?d = "dropWhile P s" let ?r = "dropWhile P (rev ?d)"
  have t: "trim_matches P s = rev ?r" by (simp add: trim_matches_def trim_end_matches_def trim_start_matches_def)
  have r: "?r \<noteq> []" using assms t by simp
  show "\<not> P (last (trim_matches P s))" using hd_dropWhile[OF r] t r by (simp add: last_rev)
  have d: "?d \<noteq> []" using r by (metis dropWhile.simps(1) rev.simps(1))
  have "last ?r = last (rev ?d)" using r by (metis dropWhile_eq_Nil_conv last_appendR takeWhile_dropWhile_id)
  then have "hd (rev ?r) = hd ?d" using r d by (simp add: hd_rev last_rev)
  then show "\<not> P (hd (trim_matches P s))" using hd_dropWhile[OF d] t by simp
qed


lemma comps_trimmed:
  assumes "trim_matches is_slash path \<noteq> []" "replace_slashes (trim_matches is_slash path) = trim_matches is_slash path"
  shows "str_join ''/'' (path_comps path) = trim_matches is_slash path" "path_comps path \<noteq> []"
  using comps_acc_tidy[of "trim_matches is_slash path" "[]"] trim_ends[OF assms(1)] assms comps_trim[of path]
  by (auto simp: replace_id_tidy path_comps_def)

lemma dot_first: "str_join ''/'' (''.'' # cs) = t \<Longrightarrow> t = ''.'' \<or> (\<exists>rest. t = ''./'' @ rest)"
  by (cases cs) auto

lemma path_deal_with_comps:
  "path_deal_with self path =
     (let cs = dropWhile (\<lambda>c. c = ''.'') (path_comps path)
      in if cs = [] then self else trim_end_matches is_slash self @ ''/'' @ str_join ''/'' cs)"
proof (induction self path rule: path_deal_with.induct)
  case (1 self path)
  let ?t = "trim_matches is_slash path" let ?D = "dropWhile (\<lambda>c. c = ''.'')"
  have base: "trim_end_matches is_slash self \<noteq> ''/''"
  proof
    assume "trim_end_matches is_slash self = ''/''"
    then have "dropWhile is_slash (rev self) = ''/''" by (simp add: trim_end_matches_def)
    then show False using hd_dropWhile[of is_slash "rev self"] by simp
  qed
  consider (empty) "?t = [] \<or> ?t = ''.''" | (dot) rest where "?t = ''./'' @ rest"
    | (dup) "?t \<noteq> []" "?t \<noteq> ''.''" "\<nexists>rest. ?t = ''./'' @ rest" "replace_slashes ?t \<noteq> ?t"
    | (plain) "?t \<noteq> []" "?t \<noteq> ''.''" "\<nexists>rest. ?t = ''./'' @ rest" "replace_slashes ?t = ?t" by blast
  then show ?case
  proof cases
    case empty
    then have "path_comps path = [] \<or> path_comps path = [''.'']" using comps_trim[of path] by (auto simp: path_comps_def)
    then have "?D (path_comps path) = []" by auto
    moreover have "path_deal_with self path = self" by (subst path_deal_with.simps) (use empty in \<open>simp add: Let_def\<close>)
    ultimately show ?thesis by simp
  next
    case dot
    have "path_comps path = ''.'' # path_comps rest" using comps_trim[of path] dot by (simp add: path_comps_def)
    moreover have "path_deal_with self path = path_deal_with self rest"
      by (subst path_deal_with.simps) (simp add: dot)
    moreover have "path_deal_with self rest = (let cs = ?D (path_comps rest)
        in if cs = [] then self else trim_end_matches is_slash self @ ''/'' @ str_join ''/'' cs)"
      by (rule 1(2)[OF refl]) (simp_all add: dot)
    ultimately show ?thesis by simp
  next
    case dup
    then have n: "strip_prefix_of ''./'' ?t = None" by (metis not_None_eq strip_prefix_of_eq_Some)
    have "path_comps (replace_slashes ?t) = path_comps path"
      using comps_acc_replace[of "[]" ?t] comps_trim[of path] by (simp add: path_comps_def)
    moreover have "path_deal_with self path = path_deal_with self (replace_slashes ?t)"
      by (subst path_deal_with.simps) (use dup n in \<open>simp add: Let_def\<close>)
    moreover have "path_deal_with self (replace_slashes ?t) = (let cs = ?D (path_comps (replace_slashes ?t))
        in if cs = [] then self else trim_end_matches is_slash self @ ''/'' @ str_join ''/'' cs)"
      by (rule 1(1)[OF refl _ n refl]) (use dup in simp_all)
    ultimately show ?thesis by simp
  next
    case plain
    then have n: "strip_prefix_of ''./'' ?t = None" by (metis not_None_eq strip_prefix_of_eq_Some)
    have j: "str_join ''/'' (path_comps path) = ?t" "path_comps path \<noteq> []"
      using comps_trimmed[of path] plain by simp_all
    have "?D (path_comps path) = path_comps path"
    proof (cases "path_comps path")
      case (Cons c cs)
      then have "c \<noteq> ''.''" using dot_first[of cs ?t] j(1) plain by auto
      then show ?thesis using Cons by simp
    qed simp
    moreover have "path_deal_with self path = trim_end_matches is_slash self @ ''/'' @ ?t"
      by (subst path_deal_with.simps) (use plain n base in \<open>simp add: Let_def\<close>)
    ultimately show ?thesis using j by simp
  qed
qed


text \<open>
  \<^bold>\<open>C35\<close>: the path that an ext4 node builds from its own path and a relative one is its own path followed by the
  components of the other, without empty components and without leading dots, whatever slashes there are; with no
  components left it is the node's own path. (Dots further inside, and double dots, stay.)
\<close>

theorem path_deal_with_components:
  "path_deal_with self path =
     (let cs = dropWhile (\<lambda>c. c = ''.'') (path_comps path)
      in if cs = [] then self else trim_end_matches is_slash self @ ''/'' @ str_join ''/'' cs)"
  by (rule path_deal_with_comps)

text \<open>A node with a path never gets an empty one, so that the code's tests for an empty path never succeed.\<close>

lemma path_deal_with_nonempty: "self \<noteq> [] \<Longrightarrow> path_deal_with self path \<noteq> []"
  by (simp add: path_deal_with_comps Let_def)

text \<open>
  Creating, truncating and renaming report success whatever the library does, and removing does so for every
  path that exists: failures of the library are lost.
\<close>

lemma ext4_failures_lost:
  "fst (ext4_create L n path ty w) = Inr ()" "fst (ext4_truncate L sz n w) = Inr ()"
  "fst (ext4_rename L n p q w) = Inr ()"
  "fw_path n \<noteq> [] \<Longrightarrow> inode_of L (path_deal_with (fw_path n) path) w = Inr i \<Longrightarrow> \<exists>w'. ext4_remove L n path w = Done (Inr (), w')"
  by (auto simp: ext4_create_def ext4_truncate_def ext4_rename_def ext4_remove_def Let_def path_deal_with_nonempty)

lemma unique_entries_inv: "bt_inv (unique_entries es)"
proof -
  have "bt_inv m \<Longrightarrow> bt_inv (fold (\<lambda>(name, ty) m. case name of
             Some s \<Rightarrow> if s \<noteq> ''.'' \<and> s \<noteq> ''..'' then bt_insert s ty m else m | None \<Rightarrow> m) es m)" for m
    by (induction es arbitrary: m) (auto simp: bt.inv_ins split: option.splits)
  then show ?thesis by (simp add: unique_entries_def bt.inv_empty)
qed

lemma sorted_wrt_take: "sorted_wrt P xs \<Longrightarrow> sorted_wrt P (take n xs)"
  by (metis append_take_drop_id sorted_wrt_append)

lemma sorted_wrt_drop: "sorted_wrt P xs \<Longrightarrow> sorted_wrt P (drop n xs)"
  by (metis append_take_drop_id sorted_wrt_append)

text \<open>A window of a directory: at most as many entries as asked for, in order and without duplicates.\<close>

lemma ext4_read_dir_sorted:
  assumes "ext4_read_dir L n start_idx len w = Inr xs"
  shows "sorted_wrt (<) (map fst xs)" "length xs \<le> len"
proof -
  obtain data where xs: "xs = map (\<lambda>(name, ty). (name, ext4_node_type ty))
      (take len (drop start_idx (bt_entries (unique_entries (x4_list_entries L data)))))"
    using assms by (auto simp: ext4_read_dir_def split: if_splits)
  let ?es = "bt_entries (unique_entries (x4_list_entries L data))"
  have "map fst xs = take len (drop start_idx (map fst ?es))"
    unfolding xs by (simp add: take_map drop_map split_def comp_def)
  then show "sorted_wrt (<) (map fst xs)"
    using bt.entries_sorted[OF unique_entries_inv] sorted_wrt_take sorted_wrt_drop by metis
  show "length xs \<le> len" unfolding xs by simp
qed

end
