(* ===== verification/Axfs_Fat.thy ===== *)
theory Axfs_Fat
  imports Axfs_Fops
begin

text \<open>
  The FAT file system as the root directory sees it, \<^verbatim>\<open>modules/axfs/src/fs/fatfs.rs\<close>: the nodes for files and
  directories, on top of the \<^verbatim>\<open>fatfs\<close> crate. Its methods are the fields of \<open>fat_file_ops\<close>, on open files \<open>'f\<close>, and of
  \<open>fat_dir_ops\<close>, on directories \<open>'d\<close> and the state \<open>'w\<close> of the volume. The stream below the crate is in \<open>Axfs_Dev\<close>.
\<close>

section \<open>The library\<close>

datatype fat_error =
    FatAlreadyExists | FatCorruptedFileSystem | FatDirectoryIsNotEmpty | FatInvalidInput | FatInvalidFileNameLength
  | FatUnsupportedFileNameCharacter | FatNotEnoughSpace | FatNotFound | FatUnexpectedEof | FatWriteZero | FatIo | FatOther

fun as_vfs_err :: "fat_error \<Rightarrow> ax_error" where
  "as_vfs_err FatAlreadyExists = AlreadyExists"
| "as_vfs_err FatCorruptedFileSystem = InvalidData"
| "as_vfs_err FatDirectoryIsNotEmpty = DirectoryNotEmpty"
| "as_vfs_err FatInvalidInput = InvalidInput"
| "as_vfs_err FatInvalidFileNameLength = InvalidInput"
| "as_vfs_err FatUnsupportedFileNameCharacter = InvalidInput"
| "as_vfs_err FatNotEnoughSpace = StorageFull"
| "as_vfs_err FatNotFound = NotFound"
| "as_vfs_err FatUnexpectedEof = UnexpectedEof"
| "as_vfs_err FatWriteZero = WriteZero"
| "as_vfs_err FatIo = Io"
| "as_vfs_err FatOther = Io"

record 'f fat_file_ops =
  fat_seek :: "SeekFrom \<Rightarrow> 'f \<Rightarrow> (fat_error + u64) \<times> 'f"
  fat_read :: "nat \<Rightarrow> 'f \<Rightarrow> (fat_error + u8 list) \<times> 'f"
  fat_write :: "u8 list \<Rightarrow> 'f \<Rightarrow> (fat_error + nat) \<times> 'f"
  fat_truncate_here :: "'f \<Rightarrow> (fat_error + unit) \<times> 'f"

record fat_entry =
  fe_name :: string
  fe_is_dir :: bool
  fe_is_file :: bool

record ('f, 'd, 'w) fat_dir_ops =
  fat_open_dir :: "'d \<Rightarrow> string \<Rightarrow> 'w \<Rightarrow> 'd option"
  fat_open_file :: "'d \<Rightarrow> string \<Rightarrow> 'w \<Rightarrow> 'f option"
  fat_create_file :: "'d \<Rightarrow> string \<Rightarrow> 'w \<Rightarrow> (fat_error + unit) \<times> 'w"
  fat_create_dir :: "'d \<Rightarrow> string \<Rightarrow> 'w \<Rightarrow> (fat_error + unit) \<times> 'w"
  fat_remove :: "'d \<Rightarrow> string \<Rightarrow> 'w \<Rightarrow> (fat_error + unit) \<times> 'w"
  fat_rename :: "'d \<Rightarrow> string \<Rightarrow> string \<Rightarrow> 'w \<Rightarrow> (fat_error + unit) \<times> 'w"
  fat_iter :: "'d \<Rightarrow> 'w \<Rightarrow> (fat_error + fat_entry) list"

definition map_fat_err :: "(fat_error + 'a) \<times> 's \<Rightarrow> 'a ax_result \<times> 's" where
  "map_fat_err x = map_prod (map_sum as_vfs_err id) id x"

section \<open>File nodes\<close>

definition FAT_BLOCK_SIZE :: u64 where "FAT_BLOCK_SIZE = 512"

definition div_ceil :: "u64 \<Rightarrow> u64 \<Rightarrow> u64" where
  "div_ceil a b = (let q = a div b in if a mod b > 0 then q + 1 else q)"

text \<open>The attributes, and the number of blocks.\<close>

definition fat_file_get_attr :: "'f fat_file_ops \<Rightarrow> 'f \<Rightarrow> (node_attr \<times> u64) ax_result \<times> 'f" where
  "fat_file_get_attr F f =
     (case map_fat_err (fat_seek F (SeekEnd 0) f) of
        (Inl e, f1) \<Rightarrow> (Inl e, f1)
      | (Inr sz, f1) \<Rightarrow>
          (Inr (\<lparr>attr_type = NodeFile, owner_readable = True, owner_writable = True, owner_executable = True, attr_size = sz\<rparr>,
                div_ceil sz FAT_BLOCK_SIZE), f1))"

definition fat_read_at :: "'f fat_file_ops \<Rightarrow> u64 \<Rightarrow> nat \<Rightarrow> 'f \<Rightarrow> u8 list ax_result \<times> 'f" where
  "fat_read_at F off n f =
     (case map_fat_err (fat_seek F (SeekStart off) f) of
        (Inl e, f1) \<Rightarrow> (Inl e, f1)
      | (Inr p, f1) \<Rightarrow> map_fat_err (fat_read F n f1))"

definition fat_write_at :: "'f fat_file_ops \<Rightarrow> u64 \<Rightarrow> u8 list \<Rightarrow> 'f \<Rightarrow> nat ax_result \<times> 'f" where
  "fat_write_at F off buf f =
     (case map_fat_err (fat_seek F (SeekStart off) f) of
        (Inl e, f1) \<Rightarrow> (Inl e, f1)
      | (Inr p, f1) \<Rightarrow> map_fat_err (fat_write F buf f1))"

text \<open>The loop that fills up with zeros: what is left to do goes down by what was asked for.\<close>

function fill_zeros :: "'f fat_file_ops \<Rightarrow> u64 \<Rightarrow> 'f \<Rightarrow> unit ax_result \<times> 'f" where
  "fill_zeros F zeros_needed f =
     (if zeros_needed > 0
      then let to_write = min zeros_needed 4096
           in case map_fat_err (fat_write F (replicate (unat to_write) 0) f) of
                (Inl e, f1) \<Rightarrow> (Inl e, f1)
              | (Inr n, f1) \<Rightarrow> fill_zeros F (zeros_needed - to_write) f1
      else (Inr (), f))"
  by pat_completeness auto
termination
proof (relation "measure (\<lambda>(F, z, f). unat z)")
  fix F :: "'f fat_file_ops" and z to_write :: u64 and f x a b n
  assume z: "0 < z" "to_write = min z 4096"
  then have "0 < to_write" "to_write \<le> z" by (auto simp: min_def)
  then show "((F, z - to_write, b), F, z, f) \<in> measure (\<lambda>(F, z, f). unat z)"
    by (auto simp: unat_minus_le word_le_nat_alt word_less_nat_alt)
qed simp

declare fill_zeros.simps [simp del]

definition fat_truncate :: "'f fat_file_ops \<Rightarrow> u64 \<Rightarrow> 'f \<Rightarrow> unit ax_result \<times> 'f" where
  "fat_truncate F sz f =
     (case map_fat_err (fat_seek F (SeekEnd 0) f) of
        (Inl e, f1) \<Rightarrow> (Inl e, f1)
      | (Inr current_size, f1) \<Rightarrow>
          if sz \<le> current_size
          then (case map_fat_err (fat_seek F (SeekStart sz) f1) of
                  (Inl e, f2) \<Rightarrow> (Inl e, f2)
                | (Inr p, f2) \<Rightarrow> map_fat_err (fat_truncate_here F f2))
          else fill_zeros F (sz - current_size) f1)"

section \<open>Directory nodes\<close>

datatype ('f, 'd) fat_node = FatFile 'f | FatDir 'd

definition fat_dir_attr :: "node_attr \<times> u64" where
  "fat_dir_attr =
     (\<lparr>attr_type = NodeDir, owner_readable = True, owner_writable = True, owner_executable = True, attr_size = FAT_BLOCK_SIZE\<rparr>, 1)"

definition fat_parent :: "('f, 'd, 'w) fat_dir_ops \<Rightarrow> 'd \<Rightarrow> 'w \<Rightarrow> 'd option" where
  "fat_parent D d w = fat_open_dir D d ''..'' w"

abbreviation fat_trim :: "string \<Rightarrow> string" where
  "fat_trim \<equiv> trim_matches (\<lambda>c. c = CHR ''/'')"

lemma length_fat_trim: "length (fat_trim s) \<le> length s"
  using length_dropWhile_le[of "\<lambda>c. c = CHR ''/''" s] length_dropWhile_le[of "\<lambda>c. c = CHR ''/''" "rev (dropWhile (\<lambda>c. c = CHR ''/'') s)"]
  by (simp add: trim_matches_def trim_end_matches_def trim_start_matches_def)

lemma fat_strip_shorter: "strip_prefix_of ''./'' (fat_trim path) = Some rest \<Longrightarrow> length rest < length path"
proof -
  assume "strip_prefix_of ''./'' (fat_trim path) = Some rest"
  then have "length rest < length (fat_trim path)" by simp
  then show ?thesis using length_fat_trim[of path] by simp
qed

function fat_lookup :: "('f, 'd, 'w) fat_dir_ops \<Rightarrow> 'd \<Rightarrow> string \<Rightarrow> 'w \<Rightarrow> ('f, 'd) fat_node ax_result" where
  "fat_lookup D d path w =
     (if fat_trim path = [] \<or> fat_trim path = ''.'' then Inr (FatDir d)
      else case strip_prefix_of ''./'' (fat_trim path) of
             Some rest \<Rightarrow> fat_lookup D d rest w
           | None \<Rightarrow>
               (case fat_open_file D d (fat_trim path) w of
                  Some f \<Rightarrow> Inr (FatFile f)
                | None \<Rightarrow> (case fat_open_dir D d (fat_trim path) w of Some d' \<Rightarrow> Inr (FatDir d') | None \<Rightarrow> Inl NotFound)))"
  by pat_completeness auto
termination
  by (relation "measure (\<lambda>(D, d, path, w). length path)") (simp_all del: strip_prefix_of_eq_Some add: fat_strip_shorter)

function fat_create :: "('f, 'd, 'w) fat_dir_ops \<Rightarrow> 'd \<Rightarrow> string \<Rightarrow> VfsNodeType \<Rightarrow> 'w \<Rightarrow> unit ax_result \<times> 'w" where
  "fat_create D d path ty w =
     (if fat_trim path = [] \<or> fat_trim path = ''.'' then (Inr (), w)
      else case strip_prefix_of ''./'' (fat_trim path) of
             Some rest \<Rightarrow> fat_create D d rest ty w
           | None \<Rightarrow>
               (case ty of
                  NodeFile \<Rightarrow> map_fat_err (fat_create_file D d (fat_trim path) w)
                | NodeDir \<Rightarrow> map_fat_err (fat_create_dir D d (fat_trim path) w)
                | NodeOther \<Rightarrow> (Inl Unsupported, w)))"
  by pat_completeness auto
termination
  by (relation "measure (\<lambda>(D, d, path, ty, w). length path)") (simp_all del: strip_prefix_of_eq_Some add: fat_strip_shorter)

function fat_remove_node :: "('f, 'd, 'w) fat_dir_ops \<Rightarrow> 'd \<Rightarrow> string \<Rightarrow> 'w \<Rightarrow> (unit ax_result \<times> 'w) outcome" where
  "fat_remove_node D d path w =
     (if fat_trim path = [] then Panic ''assertion failed: !path.is_empty()''
      else case strip_prefix_of ''./'' (fat_trim path) of
             Some rest \<Rightarrow> fat_remove_node D d rest w
           | None \<Rightarrow> Done (map_fat_err (fat_remove D d (fat_trim path) w)))"
  by pat_completeness auto
termination
  by (relation "measure (\<lambda>(D, d, path, w). length path)") (simp_all del: strip_prefix_of_eq_Some add: fat_strip_shorter)

declare fat_lookup.simps [simp del] fat_create.simps [simp del] fat_remove_node.simps [simp del]

text \<open>\<open>read_dir\<close>: one entry per slot, until the iterator ends or fails.\<close>

fun fat_fill_dirents :: "nat \<Rightarrow> (fat_error + fat_entry) list \<Rightarrow> (string \<times> VfsNodeType) list outcome" where
  "fat_fill_dirents 0 es = Done []"
| "fat_fill_dirents (Suc k) [] = Done []"
| "fat_fill_dirents (Suc k) (Inl e # es) = Done []"
| "fat_fill_dirents (Suc k) (Inr x # es) =
     (if fe_is_dir x then outcome_bind (fat_fill_dirents k es) (\<lambda>r. Done ((fe_name x, NodeDir) # r))
      else if fe_is_file x then outcome_bind (fat_fill_dirents k es) (\<lambda>r. Done ((fe_name x, NodeFile) # r))
      else Panic ''unreachable'')"

definition fat_read_dir :: "('f, 'd, 'w) fat_dir_ops \<Rightarrow> 'd \<Rightarrow> nat \<Rightarrow> nat \<Rightarrow> 'w \<Rightarrow> (string \<times> VfsNodeType) list ax_result outcome" where
  "fat_read_dir D d start_idx dirents_len w =
     outcome_bind (fat_fill_dirents dirents_len (drop start_idx (fat_iter D d w))) (\<lambda>r. Done (Inr r))"

definition fat_rename_node :: "('f, 'd, 'w) fat_dir_ops \<Rightarrow> 'd \<Rightarrow> string \<Rightarrow> string \<Rightarrow> 'w \<Rightarrow> unit ax_result \<times> 'w" where
  "fat_rename_node D d src_path dst_path w = map_fat_err (fat_rename D d src_path dst_path w)"

text \<open>The root directory is made once and kept (\<^verbatim>\<open>OnceCell\<close>).\<close>

definition fat_root_dir :: "'d \<Rightarrow> 'd option \<Rightarrow> 'd \<times> 'd option" where
  "fat_root_dir fresh cell = (case cell of Some d \<Rightarrow> (d, cell) | None \<Rightarrow> (fresh, Some fresh))"


section \<open>Truncating\<close>

text \<open>
  The laws of an open file, with its contents and its position: a successful seek to the end or to a position in the
  file, a successful truncation, and a successful write, which may write less than it was given.
\<close>

definition fat_file_laws :: "'f fat_file_ops \<Rightarrow> ('f \<Rightarrow> u8 list) \<Rightarrow> ('f \<Rightarrow> nat) \<Rightarrow> bool" where
  "fat_file_laws F data pos \<longleftrightarrow>
     (\<forall>f n f'. fat_seek F (SeekEnd 0) f = (Inr n, f') \<longrightarrow> unat n = length (data f) \<and> data f' = data f \<and> pos f' = length (data f)) \<and>
     (\<forall>p f n f'. fat_seek F (SeekStart p) f = (Inr n, f') \<and> unat p \<le> length (data f) \<longrightarrow> data f' = data f \<and> pos f' = unat p) \<and>
     (\<forall>f u f'. fat_truncate_here F f = (Inr u, f') \<longrightarrow> data f' = take (pos f) (data f)) \<and>
     (\<forall>buf f n f'. fat_write F buf f = (Inr n, f') \<longrightarrow> n \<le> length buf \<and> pos f' = pos f + n \<and>
        data f' = take (pos f) (data f) @ take n buf @ drop (pos f + n) (data f))"

definition full_writes :: "'f fat_file_ops \<Rightarrow> bool" where
  "full_writes F \<longleftrightarrow> (\<forall>buf f n f'. fat_write F buf f = (Inr n, f') \<longrightarrow> n = length buf)"

lemma fat_seek_endE:
  "fat_file_laws F data pos \<Longrightarrow> fat_seek F (SeekEnd 0) f = (Inr n, f') \<Longrightarrow>
   unat n = length (data f) \<and> data f' = data f \<and> pos f' = length (data f)"
  unfolding fat_file_laws_def by blast

lemma fat_seek_startE:
  "fat_file_laws F data pos \<Longrightarrow> fat_seek F (SeekStart p) f = (Inr n, f') \<Longrightarrow> unat p \<le> length (data f) \<Longrightarrow>
   data f' = data f \<and> pos f' = unat p"
  unfolding fat_file_laws_def by blast

lemma fat_truncate_hereE:
  "fat_file_laws F data pos \<Longrightarrow> fat_truncate_here F f = (Inr u, f') \<Longrightarrow> data f' = take (pos f) (data f)"
  unfolding fat_file_laws_def by blast

lemma fat_writeE:
  "fat_file_laws F data pos \<Longrightarrow> fat_write F buf f = (Inr n, f') \<Longrightarrow>
   n \<le> length buf \<and> pos f' = pos f + n \<and> data f' = take (pos f) (data f) @ take n buf @ drop (pos f + n) (data f)"
  unfolding fat_file_laws_def by blast

lemma map_fat_err_Inr: "map_fat_err x = (Inr v, s) \<longleftrightarrow> x = (Inr v, s)"
  by (cases x; cases "fst x") (auto simp: map_fat_err_def)

lemma fill_zeros_data:
  assumes "fat_file_laws F data pos" "pos f = length (data f)" "fill_zeros F z f = (Inr (), f')"
  shows "\<exists>m \<le> unat z. data f' = data f @ replicate m 0 \<and> (full_writes F \<longrightarrow> m = unat z)"
  using assms
proof (induction F z f rule: fill_zeros.induct)
  case (1 F z f)
  show ?case
  proof (cases "z > 0")
    case False
    then have "z = 0" by (simp add: word_neq_0_conv[symmetric])
    then show ?thesis using 1(4) by (subst (asm) fill_zeros.simps) auto
  next
    case True
    let ?k = "min z 4096"
    obtain r f1 where w: "map_fat_err (fat_write F (replicate (unat ?k) 0) f) = (r, f1)" by (rule prod.exhaust)
    then obtain n where r: "r = Inr n" and rest: "fill_zeros F (z - ?k) f1 = (Inr (), f')"
      using 1(4) True by (subst (asm) fill_zeros.simps) (cases r; auto simp: Let_def)
    have wr: "fat_write F (replicate (unat ?k) 0) f = (Inr n, f1)" using w r by (simp add: map_fat_err_Inr)
    note W = fat_writeE[OF 1(2) wr]
    have k: "unat (z - ?k) = unat z - unat ?k" "unat ?k \<le> unat z"
      by (auto simp: unat_minus_le word_le_nat_alt min_def)
    have n: "n \<le> unat ?k" using W by simp
    have d1: "data f1 = data f @ replicate n 0" using W 1(3) n by (simp add: min_def)
    have "pos f1 = length (data f1)" using W d1 1(3) by simp
    then obtain m where m: "m \<le> unat (z - ?k)" "data f' = data f1 @ replicate m 0" "full_writes F \<longrightarrow> m = unat (z - ?k)"
      using 1(1)[OF True refl w[unfolded r, symmetric] refl 1(2) _ rest] by blast
    have "full_writes F \<longrightarrow> n = unat ?k" using wr unfolding full_writes_def by fastforce
    then show ?thesis using m d1 n k
      by (intro exI[of _ "n + m"]) (auto simp: replicate_add)
  qed
qed


text \<open>A file that is written up to the end of the current cluster of 512 bytes only.\<close>

definition cluster_file :: "(u8 list \<times> nat) fat_file_ops" where
  "cluster_file = \<lparr>
     fat_seek = (\<lambda>s (d, p). case s of
        SeekStart q \<Rightarrow> (Inr q, d, min (unat q) (length d))
      | _ \<Rightarrow> (if length d < 2 ^ 63 then Inr (of_nat (length d)) else Inl FatIo, d, length d)),
     fat_read = (\<lambda>n (d, p). (Inr (take n (drop p d)), d, p + length (take n (drop p d)))),
     fat_write = (\<lambda>buf (d, p). let n = min (length buf) (512 - p mod 512) in (Inr n, take p d @ take n buf @ drop (p + n) d, p + n)),
     fat_truncate_here = (\<lambda>(d, p). (Inr (), take p d, p))\<rparr>"

lemma cluster_file_laws: "fat_file_laws cluster_file fst snd"
  by (auto simp: fat_file_laws_def cluster_file_def Let_def unat_of_nat take_bit_nat_eq_self min_def split: if_splits)

lemma cluster_file_short:
  "fat_truncate cluster_file 4096 ([], 0) = (Inr (), replicate 512 0, 512)"
  by (simp add: fat_truncate_def cluster_file_def map_fat_err_def fill_zeros.simps[of _ 4096] fill_zeros.simps[of _ 0] Let_def)


section \<open>Directories\<close>

text \<open>A window of a directory: the entries in the order of the crate, up to the first one that cannot be read.\<close>

lemma fat_fill_dirents_eq:
  assumes "\<forall>x. Inr x \<in> set es \<longrightarrow> fe_is_dir x \<or> fe_is_file x"
  shows "fat_fill_dirents k es =
    Done (map (\<lambda>e. (fe_name (projr e), if fe_is_dir (projr e) then NodeDir else NodeFile)) (take k (takeWhile (\<lambda>e. \<not> isl e) es)))"
  using assms by (induction k es rule: fat_fill_dirents.induct) (auto simp: isl_def)

end
