(* ===== verification/Axfs_Api.thy ===== *)
theory Axfs_Api
  imports Axfs_Ext4
begin

text \<open>
  What remains of the file system's interface: setting and printing the options for opening
  (\<^verbatim>\<open>modules/axfs/src/fops.rs\<close>, \<^verbatim>\<open>api/file.rs\<close>), reading and writing whole files (\<^verbatim>\<open>api/mod.rs\<close>), and the contents
  of the virtual file systems \<^verbatim>\<open>/proc\<close> and \<^verbatim>\<open>/sys\<close> (\<^verbatim>\<open>mounts.rs\<close>). The loops of the \<^verbatim>\<open>axio\<close> crate over single reads and
  writes, and the file system in memory of \<^verbatim>\<open>axfs_ramfs\<close>, are parameters.
\<close>

section \<open>Options\<close>

definition opt_read :: "bool \<Rightarrow> OpenOptions \<Rightarrow> OpenOptions" where "opt_read b opts = opts\<lparr>o_read := b\<rparr>"
definition opt_write :: "bool \<Rightarrow> OpenOptions \<Rightarrow> OpenOptions" where "opt_write b opts = opts\<lparr>o_write := b\<rparr>"
definition opt_append :: "bool \<Rightarrow> OpenOptions \<Rightarrow> OpenOptions" where "opt_append b opts = opts\<lparr>o_append := b\<rparr>"
definition opt_truncate :: "bool \<Rightarrow> OpenOptions \<Rightarrow> OpenOptions" where "opt_truncate b opts = opts\<lparr>o_truncate := b\<rparr>"
definition opt_create :: "bool \<Rightarrow> OpenOptions \<Rightarrow> OpenOptions" where "opt_create b opts = opts\<lparr>o_create := b\<rparr>"
definition opt_create_new :: "bool \<Rightarrow> OpenOptions \<Rightarrow> OpenOptions" where "opt_create_new b opts = opts\<lparr>o_create_new := b\<rparr>"

text \<open>The text of \<^verbatim>\<open>Debug\<close>: the labels of the options that are set.\<close>

definition opts_debug :: "OpenOptions \<Rightarrow> string" where
  "opts_debug opts =
     str_join '' | '' (map snd (filter fst
       [(o_read opts, ''READ''), (o_write opts, ''WRITE''), (o_append opts, ''APPEND''), (o_truncate opts, ''TRUNC''),
        (o_create opts, ''CREATE''), (o_create_new opts, ''CREATE_NEW'')]))"

definition api_options_open ::
  "('fs, 'n, 'w) fops_env \<Rightarrow> ('fs, 'n) root_state \<Rightarrow> string \<Rightarrow> OpenOptions \<Rightarrow> 'w \<Rightarrow> 'n File ax_result \<times> 'w" where
  "api_options_open E g path opts w = file_open E g path opts w"

section \<open>Whole files\<close>

text \<open>\<open>to_end\<close> and \<open>all\<close> are the loops of \<^verbatim>\<open>Read::read_to_end\<close> and \<^verbatim>\<open>Write::write_all\<close> over one read or write; the
  size that is asked for first only reserves memory.\<close>

type_synonym ('n, 'w) read_loop =
  "(nat \<Rightarrow> 'n File \<Rightarrow> 'w \<Rightarrow> u8 list ax_result \<times> 'n File \<times> 'w) \<Rightarrow> 'n File \<Rightarrow> 'w \<Rightarrow> u8 list ax_result \<times> 'n File \<times> 'w"

type_synonym ('n, 'w) write_loop =
  "(u8 list \<Rightarrow> 'n File \<Rightarrow> 'w \<Rightarrow> nat ax_result \<times> 'n File \<times> 'w) \<Rightarrow> u8 list \<Rightarrow> 'n File \<Rightarrow> 'w \<Rightarrow> unit ax_result \<times> 'n File \<times> 'w"

definition api_read ::
  "('fs, 'n, 'w) fops_env \<Rightarrow> ('n, 'w) read_loop \<Rightarrow> ('fs, 'n) root_state \<Rightarrow> string \<Rightarrow> 'w \<Rightarrow> u8 list ax_result \<times> 'w" where
  "api_read E to_end g path w =
     (case api_file_open E g path w of
        (Inl e, w1) \<Rightarrow> (Inl e, w1)
      | (Inr f, w1) \<Rightarrow> (case to_end (file_read E) f w1 of (r, f', w2) \<Rightarrow> (r, file_drop E f' w2)))"

text \<open>\<open>utf8\<close> checks the bytes.\<close>

definition api_read_to_string ::
  "('fs, 'n, 'w) fops_env \<Rightarrow> ('n, 'w) read_loop \<Rightarrow> (u8 list \<Rightarrow> string option) \<Rightarrow> ('fs, 'n) root_state \<Rightarrow> string \<Rightarrow> 'w
   \<Rightarrow> string ax_result \<times> 'w" where
  "api_read_to_string E to_end utf8 g path w =
     (case api_read E to_end g path w of
        (Inl e, w1) \<Rightarrow> (Inl e, w1)
      | (Inr bs, w1) \<Rightarrow> (ok_or InvalidData (utf8 bs), w1))"

definition api_write ::
  "('fs, 'n, 'w) fops_env \<Rightarrow> ('n, 'w) write_loop \<Rightarrow> ('fs, 'n) root_state \<Rightarrow> string \<Rightarrow> u8 list \<Rightarrow> 'w \<Rightarrow> unit ax_result \<times> 'w" where
  "api_write E all g path contents w =
     (case api_file_create E g path w of
        (Inl e, w1) \<Rightarrow> (Inl e, w1)
      | (Inr f, w1) \<Rightarrow> (case all (file_write E) contents f w1 of (r, f', w2) \<Rightarrow> (r, file_drop E f' w2)))"

section \<open>Paths and handles\<close>

definition api_canonicalize :: "('fs, 'n, 'w) vfs \<Rightarrow> ('fs, 'n) root_state \<Rightarrow> string \<Rightarrow> string ax_result" where
  "api_canonicalize V g path = Inr (absolute_path V g path)"

definition api_current_dir :: "('fs, 'n) root_state \<Rightarrow> string ax_result" where
  "api_current_dir g = Inr (CURRENT_DIR_PATH g)"

definition api_set_current_dir ::
  "('fs, 'n, 'w) vfs \<Rightarrow> string \<Rightarrow> ('fs, 'n) root_state \<Rightarrow> 'w \<Rightarrow> unit ax_result \<times> ('fs, 'n) root_state" where
  "api_set_current_dir V path g w = set_current_dir V path g w"

definition api_create_dir :: "('fs, 'n, 'w) vfs \<Rightarrow> ('fs, 'n) root_state \<Rightarrow> string \<Rightarrow> 'w \<Rightarrow> unit ax_result \<times> 'w" where
  "api_create_dir V g path w = DirBuilder_create V g False path w"

definition api_create_dir_all :: "('fs, 'n, 'w) vfs \<Rightarrow> ('fs, 'n) root_state \<Rightarrow> string \<Rightarrow> 'w \<Rightarrow> unit ax_result \<times> 'w" where
  "api_create_dir_all V g path w = DirBuilder_create V g True path w"

definition api_remove_dir :: "('fs, 'n, 'w) vfs \<Rightarrow> ('fs, 'n) root_state \<Rightarrow> string \<Rightarrow> 'w \<Rightarrow> unit ax_result \<times> 'w" where
  "api_remove_dir V g path w = remove_dir V g None path w"

definition api_remove_file :: "('fs, 'n, 'w) vfs \<Rightarrow> ('fs, 'n) root_state \<Rightarrow> string \<Rightarrow> 'w \<Rightarrow> unit ax_result \<times> 'w" where
  "api_remove_file V g path w = remove_file V g None path w"

definition api_rename :: "('fs, 'n, 'w) vfs \<Rightarrow> string \<Rightarrow> string \<Rightarrow> ('fs, 'n) root_state \<Rightarrow> 'w \<Rightarrow> unit ax_result \<times> 'w" where
  "api_rename V old new_path g w = rename V old new_path g w"

definition dir_rename ::
  "('fs, 'n, 'w) vfs \<Rightarrow> 'n Directory \<Rightarrow> string \<Rightarrow> string \<Rightarrow> ('fs, 'n) root_state \<Rightarrow> 'w \<Rightarrow> unit ax_result \<times> 'w" where
  "dir_rename V d old new_path g w = rename V old new_path g w"

definition api_set_len :: "('fs, 'n, 'w) fops_env \<Rightarrow> u64 \<Rightarrow> 'n File \<Rightarrow> 'w \<Rightarrow> unit ax_result \<times> 'w" where
  "api_set_len E sz f w = file_truncate E sz f w"

section \<open>Virtual file systems\<close>

record ('r, 'n) ramfs_ops =
  ram_new :: 'r
  ram_create :: "string \<Rightarrow> VfsNodeType \<Rightarrow> 'r \<Rightarrow> unit ax_result \<times> 'r"
  ram_lookup :: "string \<Rightarrow> 'r \<Rightarrow> 'n ax_result"
  ram_write_at :: "'n \<Rightarrow> u64 \<Rightarrow> u8 list \<Rightarrow> 'r \<Rightarrow> nat ax_result \<times> 'r"

text \<open>The calls that fill a file system: a directory, an empty file, or text for a file that is looked up.\<close>

datatype fill_call = MakeDir string | MakeFile string | WriteText string string

definition text_bytes :: "string \<Rightarrow> u8 list" where
  "text_bytes s = map (\<lambda>c. of_nat (of_char c)) s"

fun fill_one :: "('r, 'n) ramfs_ops \<Rightarrow> fill_call \<Rightarrow> 'r \<Rightarrow> unit ax_result \<times> 'r" where
  "fill_one R (MakeDir p) r = ram_create R p NodeDir r"
| "fill_one R (MakeFile p) r = ram_create R p NodeFile r"
| "fill_one R (WriteText p s) r =
     (case ram_lookup R p r of
        Inl e \<Rightarrow> (Inl e, r)
      | Inr n \<Rightarrow> (case ram_write_at R n 0 (text_bytes s) r of (Inl e, r') \<Rightarrow> (Inl e, r') | (Inr k, r') \<Rightarrow> (Inr (), r')))"

fun fill_all :: "('r, 'n) ramfs_ops \<Rightarrow> fill_call list \<Rightarrow> 'r \<Rightarrow> 'r ax_result" where
  "fill_all R [] r = Inr r"
| "fill_all R (c # cs) r = (case fill_one R c r of (Inl e, r') \<Rightarrow> Inl e | (Inr u, r') \<Rightarrow> fill_all R cs r')"

definition lf :: string where "lf = [CHR 0x0A]"

definition procfs_calls :: "fill_call list" where
  "procfs_calls =
     [MakeDir ''sys'', MakeDir ''sys/net'', MakeDir ''sys/net/core'', MakeFile ''sys/net/core/somaxconn'',
      WriteText ''./sys/net/core/somaxconn'' (''4096'' @ lf),
      MakeDir ''sys/vm'', MakeFile ''sys/vm/overcommit_memory'', WriteText ''./sys/vm/overcommit_memory'' (''0'' @ lf),
      MakeDir ''self'', MakeFile ''self/stat'']"

definition procfs :: "('r, 'n) ramfs_ops \<Rightarrow> 'r ax_result" where
  "procfs R = fill_all R procfs_calls (ram_new R)"

definition sysfs_calls :: "fill_call list" where
  "sysfs_calls =
     [MakeDir ''kernel'', MakeDir ''kernel/mm'', MakeDir ''kernel/mm/transparent_hugepage'',
      MakeFile ''kernel/mm/transparent_hugepage/enabled'',
      WriteText ''./kernel/mm/transparent_hugepage/enabled'' (''always [madvise] never'' @ lf),
      MakeDir ''devices'', MakeDir ''devices/system'', MakeDir ''devices/system/clocksource'',
      MakeDir ''devices/system/clocksource/clocksource0'',
      MakeFile ''devices/system/clocksource/clocksource0/current_clocksource'',
      WriteText ''devices/system/clocksource/clocksource0/current_clocksource'' (''tsc'' @ lf)]"

definition sysfs :: "('r, 'n) ramfs_ops \<Rightarrow> 'r ax_result" where
  "sysfs R = fill_all R sysfs_calls (ram_new R)"

section \<open>What the virtual file systems contain\<close>

datatype ram_entry = RamDir | RamFile "u8 list"

definition ram_path :: "string \<Rightarrow> string list" where
  "ram_path p = filter (\<lambda>c. c \<noteq> ''.'') (path_comps p)"

text \<open>The laws of the file system in memory, on the tree of its entries by path.\<close>

definition ramfs_laws :: "('r, 'n) ramfs_ops \<Rightarrow> ('r \<Rightarrow> string list \<Rightarrow> ram_entry option) \<Rightarrow> ('n \<Rightarrow> string list) \<Rightarrow> bool" where
  "ramfs_laws R tree at \<longleftrightarrow>
     tree (ram_new R) = [[] \<mapsto> RamDir] \<and>
     (\<forall>p ty r. ram_path p \<noteq> [] \<and> ty \<noteq> NodeOther \<and> tree r (butlast (ram_path p)) = Some RamDir \<and> tree r (ram_path p) = None \<longrightarrow>
        (\<exists>r'. ram_create R p ty r = (Inr (), r') \<and>
           tree r' = (tree r)(ram_path p \<mapsto> (if ty = NodeDir then RamDir else RamFile [])))) \<and>
     (\<forall>p r. tree r (ram_path p) \<noteq> None \<longrightarrow> (\<exists>n. ram_lookup R p r = Inr n \<and> at n = ram_path p)) \<and>
     (\<forall>n bs r. tree r (at n) = Some (RamFile []) \<longrightarrow>
        (\<exists>r'. ram_write_at R n 0 bs r = (Inr (length bs), r') \<and> tree r' = (tree r)(at n \<mapsto> RamFile bs)))"

fun abs_fill :: "fill_call \<Rightarrow> (string list \<Rightarrow> ram_entry option) \<Rightarrow> (string list \<Rightarrow> ram_entry option) option" where
  "abs_fill (MakeDir p) t =
     (if ram_path p \<noteq> [] \<and> t (butlast (ram_path p)) = Some RamDir \<and> t (ram_path p) = None
      then Some (t(ram_path p \<mapsto> RamDir)) else None)"
| "abs_fill (MakeFile p) t =
     (if ram_path p \<noteq> [] \<and> t (butlast (ram_path p)) = Some RamDir \<and> t (ram_path p) = None
      then Some (t(ram_path p \<mapsto> RamFile [])) else None)"
| "abs_fill (WriteText p s) t =
     (if t (ram_path p) = Some (RamFile []) then Some (t(ram_path p \<mapsto> RamFile (text_bytes s))) else None)"

fun abs_fill_all :: "fill_call list \<Rightarrow> (string list \<Rightarrow> ram_entry option) \<Rightarrow> (string list \<Rightarrow> ram_entry option) option" where
  "abs_fill_all [] t = Some t"
| "abs_fill_all (c # cs) t = (case abs_fill c t of None \<Rightarrow> None | Some t' \<Rightarrow> abs_fill_all cs t')"

lemma ram_createE:
  assumes "ramfs_laws R tree at" "ram_path p \<noteq> []" "ty \<noteq> NodeOther"
    "tree r (butlast (ram_path p)) = Some RamDir" "tree r (ram_path p) = None"
  obtains r' where "ram_create R p ty r = (Inr (), r')"
    "tree r' = (tree r)(ram_path p \<mapsto> (if ty = NodeDir then RamDir else RamFile []))"
  using assms unfolding ramfs_laws_def by blast

lemma fill_one_abs:
  assumes "ramfs_laws R tree at" "abs_fill c (tree r) = Some t"
  shows "\<exists>r'. fill_one R c r = (Inr (), r') \<and> tree r' = t"
proof (cases c)
  case (MakeDir p)
  then show ?thesis using assms(2) by (auto split: if_splits intro: ram_createE[OF assms(1), of p NodeDir r])
next
  case (MakeFile p)
  then show ?thesis using assms(2) by (auto split: if_splits intro: ram_createE[OF assms(1), of p NodeFile r])
next
  case (WriteText p s)
  then have t: "tree r (ram_path p) = Some (RamFile [])" "t = (tree r)(ram_path p \<mapsto> RamFile (text_bytes s))"
    using assms(2) by (auto split: if_splits)
  then obtain n where n: "ram_lookup R p r = Inr n" "at n = ram_path p"
    using assms(1) unfolding ramfs_laws_def by (metis option.distinct(1))
  then obtain r' where "ram_write_at R n 0 (text_bytes s) r = (Inr (length (text_bytes s)), r')"
    "tree r' = (tree r)(at n \<mapsto> RamFile (text_bytes s))"
    using assms(1) t(1) unfolding ramfs_laws_def by metis
  then show ?thesis using WriteText n t(2) by auto
qed

lemma fill_all_abs:
  assumes "ramfs_laws R tree at" "abs_fill_all cs (tree r) = Some t"
  shows "\<exists>r'. fill_all R cs r = Inr r' \<and> tree r' = t"
  using assms(2)
proof (induction cs arbitrary: r)
  case (Cons c cs)
  then obtain t1 where t1: "abs_fill c (tree r) = Some t1" "abs_fill_all cs t1 = Some t" by (auto split: option.splits)
  obtain r1 where "fill_one R c r = (Inr (), r1)" "tree r1 = t1" using fill_one_abs[OF assms(1) t1(1)] by blast
  then show ?case using Cons.IH[of r1] t1(2) by simp
qed simp

definition procfs_tree :: "string list \<Rightarrow> ram_entry option" where
  "procfs_tree = map_of
     [([], RamDir), ([''sys''], RamDir), ([''sys'', ''net''], RamDir), ([''sys'', ''net'', ''core''], RamDir),
      ([''sys'', ''net'', ''core'', ''somaxconn''], RamFile (text_bytes (''4096'' @ lf))),
      ([''sys'', ''vm''], RamDir), ([''sys'', ''vm'', ''overcommit_memory''], RamFile (text_bytes (''0'' @ lf))),
      ([''self''], RamDir), ([''self'', ''stat''], RamFile [])]"

definition sysfs_tree :: "string list \<Rightarrow> ram_entry option" where
  "sysfs_tree = map_of
     [([], RamDir), ([''kernel''], RamDir), ([''kernel'', ''mm''], RamDir), ([''kernel'', ''mm'', ''transparent_hugepage''], RamDir),
      ([''kernel'', ''mm'', ''transparent_hugepage'', ''enabled''], RamFile (text_bytes (''always [madvise] never'' @ lf))),
      ([''devices''], RamDir), ([''devices'', ''system''], RamDir), ([''devices'', ''system'', ''clocksource''], RamDir),
      ([''devices'', ''system'', ''clocksource'', ''clocksource0''], RamDir),
      ([''devices'', ''system'', ''clocksource'', ''clocksource0'', ''current_clocksource''], RamFile (text_bytes (''tsc'' @ lf)))]"

lemma procfs_abs: "abs_fill_all procfs_calls [[] \<mapsto> RamDir] = Some procfs_tree"
  by (simp add: procfs_calls_def procfs_tree_def ram_path_def path_comps_def fun_eq_iff)

lemma sysfs_abs: "abs_fill_all sysfs_calls [[] \<mapsto> RamDir] = Some sysfs_tree"
  by (simp add: sysfs_calls_def sysfs_tree_def ram_path_def path_comps_def fun_eq_iff)

lemma virtual_file_systems:
  assumes "ramfs_laws R tree at"
  shows "\<exists>r. procfs R = Inr r \<and> tree r = procfs_tree" "\<exists>r. sysfs R = Inr r \<and> tree r = sysfs_tree"
proof -
  have new: "tree (ram_new R) = [[] \<mapsto> RamDir]" using assms by (simp add: ramfs_laws_def)
  show "\<exists>r. procfs R = Inr r \<and> tree r = procfs_tree"
    unfolding procfs_def by (rule fill_all_abs[OF assms]) (simp only: new procfs_abs)
  show "\<exists>r. sysfs R = Inr r \<and> tree r = sysfs_tree"
    unfolding sysfs_def by (rule fill_all_abs[OF assms]) (simp only: new sysfs_abs)
qed

end
