(* ===== verification/Boot.thy ===== *)
theory Boot
  imports Axv_BTreeMap
begin

text \<open>
  The boot of the machine: \<^verbatim>\<open>modules/axruntime/src/lib.rs\<close> (the entry of the primary core, the choice
  of the heap, the periodic timer), \<^verbatim>\<open>modules/axruntime/src/mp.rs\<close> (the secondary cores),
  \<^verbatim>\<open>kernel/src/main.rs\<close> and \<^verbatim>\<open>enable_virtualization\<close> of \<^verbatim>\<open>kernel/src/hal/mod.rs\<close>.

  The cores and the threads of \<^verbatim>\<open>enable_virtualization\<close> run interleaved and meet at three atomic
  counters. The code of each of them has no branch that depends on what the others do, so it is a list
  of operations, built from the build features and the number of cores; \<open>boot_step\<close> lets any task do its
  next operation. An operation \<open>Call\<close> is a call into another component; the environment says whether it
  returns, panics or never returns. A task in a call or a spin loop that does not return stays there, and
  the trace holds the operations that have completed. A panic of any core ends in \<^verbatim>\<open>system_off\<close>.
\<close>

section \<open>Programs\<close>

record boot_features =
  f_alloc :: bool
  f_paging :: bool
  f_driver_dyn :: bool
  f_multitask :: bool
  f_fs :: bool
  f_net :: bool
  f_display :: bool
  f_smp :: bool
  f_irq :: bool
  f_tls :: bool
  f_ipi :: bool

datatype boot_counter = ENTERED_CPUS | INITED_CPUS | CORES

datatype boot_call =
    Clear_bss | Percpu_init_primary | Init_early | Log_init | Mem_init | Init_allocator
  | Init_memory_management | Axdriver_setup | Init_later | Init_scheduler | Init_drivers
  | Init_filesystems | Init_network | Init_display | Init_interrupt | Init_tls | Call_ctors
  | Percpu_init_secondary | Init_early_secondary | Init_memory_management_secondary
  | Init_later_secondary | Init_scheduler_secondary | Axipi_init | Enable_irqs | Run_idle
  | Wait_for_irqs | Print_logo | Hardware_check | Set_affinity | Init_timer_percpu | Percpu_init
  | Hardware_enable | Vmm_init | Vmm_start | Console_init | Task_exit | System_off

text \<open>\<open>Wait_gt\<close> spins while the counter is at most the number, \<open>Wait_eq\<close> until it is equal to it.\<close>

datatype boot_op =
    Call boot_call
  | Fetch_add boot_counter
  | Wait_gt boot_counter nat
  | Wait_eq boot_counter nat
  | Cpu_boot nat nat
  | Spawn nat

datatype boot_task = Core nat | Thread nat

definition cfg_on :: "bool \<Rightarrow> 'a list \<Rightarrow> 'a list" where
  "cfg_on b xs = (if b then xs else [])"

text \<open>The number of cores: what the platform reports, capped by the build variable \<^verbatim>\<open>AXVISOR_SMP\<close>.\<close>

definition smp :: "string option \<Rightarrow> usize option" where
  "smp s = (case s of None \<Rightarrow> None | Some v \<Rightarrow> parse_usize v)"

definition cpu_count :: "string option \<Rightarrow> usize \<Rightarrow> usize" where
  "cpu_count s plat = (case smp s of Some n \<Rightarrow> min n plat | None \<Rightarrow> plat)"

text \<open>\<open>start_secondary_cpus\<close>: the loop over the core numbers, with the number of the next free boot stack.\<close>

definition MAX_CPU_NUM :: nat where "MAX_CPU_NUM = 8"

fun start_loop :: "nat \<Rightarrow> nat \<Rightarrow> nat list \<Rightarrow> nat \<Rightarrow> boot_op list" where
  "start_loop n p [] k = []"
| "start_loop n p (i # is) k =
     (if i \<noteq> p \<and> k < n - 1
      then Cpu_boot i k # Wait_gt ENTERED_CPUS (k + 1) # start_loop n p is (k + 1)
      else start_loop n p is k)"

definition start_secondary_cpus :: "nat \<Rightarrow> nat \<Rightarrow> boot_op list" where
  "start_secondary_cpus n p = start_loop n p [0..<n] 0"

definition rust_main_secondary :: "boot_features \<Rightarrow> nat \<Rightarrow> boot_op list" where
  "rust_main_secondary F n =
     [Call Percpu_init_secondary, Call Init_early_secondary, Fetch_add ENTERED_CPUS]
     @ cfg_on (f_paging F) [Call Init_memory_management_secondary]
     @ [Call Init_later_secondary]
     @ cfg_on (f_multitask F) [Call Init_scheduler_secondary]
     @ cfg_on (f_ipi F) [Call Axipi_init]
     @ [Fetch_add INITED_CPUS, Wait_eq INITED_CPUS n]
     @ cfg_on (f_irq F) [Call Enable_irqs]
     @ cfg_on (f_tls F \<and> \<not> f_multitask F) [Call Init_tls]
     @ [Call (if f_multitask F then Run_idle else Wait_for_irqs)]"

text \<open>\<open>enable_virtualization\<close>: one thread per core, and the wait for all of them.\<close>

definition virtualization_thread :: "boot_op list" where
  "virtualization_thread =
     [Call Set_affinity, Call Init_timer_percpu, Call Percpu_init, Call Hardware_enable, Fetch_add CORES]"

definition enable_virtualization :: "nat \<Rightarrow> boot_op list" where
  "enable_virtualization n = [Call Hardware_check] @ map Spawn [0..<n] @ [Wait_eq CORES n]"

definition kernel_main :: "nat \<Rightarrow> boot_op list" where
  "kernel_main n =
     [Call Print_logo] @ enable_virtualization n @ [Call Vmm_init, Call Vmm_start, Call Console_init]"

definition rust_main_early :: "boot_features \<Rightarrow> boot_op list" where
  "rust_main_early F =
     [Call Clear_bss, Call Percpu_init_primary, Call Init_early, Call Log_init, Call Mem_init]
     @ cfg_on (f_alloc F) [Call Init_allocator]
     @ cfg_on (f_paging F) [Call Init_memory_management]
     @ cfg_on (f_driver_dyn F) [Call Axdriver_setup]
     @ [Call Init_later]
     @ cfg_on (f_multitask F) [Call Init_scheduler]
     @ cfg_on (f_fs F \<or> f_net F \<or> f_display F) [Call Init_drivers]
     @ cfg_on (f_fs F) [Call Init_filesystems]
     @ cfg_on (f_net F) [Call Init_network]
     @ cfg_on (f_display F) [Call Init_display]"

definition rust_main :: "boot_features \<Rightarrow> nat \<Rightarrow> nat \<Rightarrow> boot_op list" where
  "rust_main F n p =
     rust_main_early F
     @ cfg_on (f_smp F) (start_secondary_cpus n p)
     @ cfg_on (f_irq F) [Call Init_interrupt]
     @ cfg_on (f_tls F \<and> \<not> f_multitask F) [Call Init_tls]
     @ [Call Call_ctors, Fetch_add INITED_CPUS, Wait_eq INITED_CPUS n]
     @ kernel_main n
     @ [Call (if f_multitask F then Task_exit else System_off)]"

section \<open>The machine\<close>

datatype call_result = Returns | Panics | Never_returns

text \<open>\<open>be_boots i\<close>: core \<open>i\<close> reaches \<open>rust_main_secondary\<close> after \<^verbatim>\<open>cpu_boot(i, _)\<close>.\<close>

record boot_env =
  be_features :: boot_features
  be_cpus :: usize
  be_primary :: nat
  be_boots :: "nat \<Rightarrow> bool"
  be_result :: "boot_task \<Rightarrow> boot_call \<Rightarrow> call_result"

record boot_state =
  counters :: "boot_counter \<Rightarrow> usize"
  progs :: "boot_task \<Rightarrow> boot_op list"
  trace :: "(boot_task \<times> boot_op) list"
  powered_off :: bool

definition cpus :: "boot_env \<Rightarrow> nat" where
  "cpus E = unat (be_cpus E)"

fun program :: "boot_env \<Rightarrow> boot_task \<Rightarrow> boot_op list" where
  "program E (Core i) =
     (if i = be_primary E then rust_main (be_features E) (cpus E) (be_primary E)
      else rust_main_secondary (be_features E) (cpus E))"
| "program E (Thread c) = virtualization_thread"

definition is_init_ok :: "boot_env \<Rightarrow> boot_state \<Rightarrow> bool" where
  "is_init_ok E s = (counters s INITED_CPUS = be_cpus E)"

fun boot_exec :: "boot_env \<Rightarrow> boot_task \<Rightarrow> boot_op \<Rightarrow> boot_state \<Rightarrow> boot_state option" where
  "boot_exec E t (Call c) s =
     (case be_result E t c of
        Returns \<Rightarrow> Some s
      | Panics \<Rightarrow> Some (s\<lparr>powered_off := True\<rparr>)
      | Never_returns \<Rightarrow> None)"
| "boot_exec E t (Fetch_add k) s = Some (s\<lparr>counters := (counters s)(k := counters s k + 1)\<rparr>)"
| "boot_exec E t (Wait_gt k n) s = (if n < unat (counters s k) then Some s else None)"
| "boot_exec E t (Wait_eq k n) s = (if unat (counters s k) = n then Some s else None)"
| "boot_exec E t (Cpu_boot i k) s =
     (if k < MAX_CPU_NUM - 1
      then Some (if be_boots E i then s\<lparr>progs := (progs s)(Core i := program E (Core i))\<rparr> else s)
      else Some (s\<lparr>powered_off := True\<rparr>))"
| "boot_exec E t (Spawn c) s = Some (s\<lparr>progs := (progs s)(Thread c := program E (Thread c))\<rparr>)"

definition boot_advance :: "boot_task \<Rightarrow> boot_state \<Rightarrow> boot_state" where
  "boot_advance t s =
     s\<lparr>progs := (progs s)(t := tl (progs s t)), trace := trace s @ [(t, hd (progs s t))]\<rparr>"

inductive boot_step :: "boot_env \<Rightarrow> boot_state \<Rightarrow> boot_state \<Rightarrow> bool" for E where
  "\<not> powered_off s \<Longrightarrow> progs s t = op # ops \<Longrightarrow> boot_exec E t op (boot_advance t s) = Some s' \<Longrightarrow> boot_step E s s'"

definition boot_init :: "boot_env \<Rightarrow> boot_state" where
  "boot_init E =
     \<lparr>counters = (\<lambda>k. if k = ENTERED_CPUS then 1 else 0),
      progs = (\<lambda>t. if t = Core (be_primary E) then program E t else []),
      trace = [], powered_off = False\<rparr>"


section \<open>The programs\<close>

lemma cfg_on_simps [simp]:
  "set (cfg_on b xs) = {x \<in> set xs. b}" "distinct (cfg_on b xs) \<longleftrightarrow> (b \<longrightarrow> distinct xs)"
  "cfg_on True xs = xs" "cfg_on False xs = []"
  by (auto simp: cfg_on_def)

text \<open>The cores that are booted, in their order.\<close>

definition secondary_order :: "nat \<Rightarrow> nat \<Rightarrow> nat list" where
  "secondary_order n p = take (n - 1) (filter (\<lambda>i. i \<noteq> p) [0..<n])"

definition secondaries :: "boot_env \<Rightarrow> nat list" where
  "secondaries E = cfg_on (f_smp (be_features E)) (secondary_order (cpus E) (be_primary E))"

definition boot_pair :: "nat \<times> nat \<Rightarrow> boot_op list" where
  "boot_pair x = [Cpu_boot (snd x) (fst x), Wait_gt ENTERED_CPUS (fst x + 1)]"

definition boot_pairs :: "nat \<Rightarrow> nat list \<Rightarrow> boot_op list" where
  "boot_pairs k is = concat (map boot_pair (enumerate k is))"

lemma start_loop_pairs:
  "start_loop n p is k = boot_pairs k (take (n - 1 - k) (filter (\<lambda>i. i \<noteq> p) is))"
proof (induction n p "is" k rule: start_loop.induct)
  case (2 n p i "is" k)
  show ?case
  proof (cases "i \<noteq> p \<and> k < n - 1")
    case True
    then have "n - 1 - k = Suc (n - 1 - (k + 1))" by arith
    with True 2 show ?thesis by (simp add: boot_pairs_def boot_pair_def)
  next
    case False
    with 2 show ?thesis by (cases "i = p") (auto simp: boot_pairs_def)
  qed
qed (simp add: boot_pairs_def)

lemma start_secondary_pairs: "start_secondary_cpus n p = boot_pairs 0 (secondary_order n p)"
  by (simp add: start_secondary_cpus_def start_loop_pairs secondary_order_def)

lemma secondary_order_props:
  "distinct (secondary_order n p)" "p \<notin> set (secondary_order n p)" "length (secondary_order n p) = n - 1"
proof -
  show "distinct (secondary_order n p)" by (simp add: secondary_order_def)
  show "p \<notin> set (secondary_order n p)" by (auto simp: secondary_order_def dest: in_set_takeD)
  have "{i. i < n \<and> i \<noteq> p} = {..<n} - {p}" by auto
  then have "length (filter (\<lambda>i. i \<noteq> p) [0..<n]) \<ge> n - 1"
    by (simp add: distinct_length_filter Int_def conj_commute card_Diff_singleton_if)
  then show "length (secondary_order n p) = n - 1" by (simp add: secondary_order_def min_def)
qed

lemma boot_pairs_set:
  "set (boot_pairs k is) = (\<Union>j<length is. {Cpu_boot (is ! j) (k + j), Wait_gt ENTERED_CPUS (k + j + 1)})"
proof (intro set_eqI iffI)
  fix x assume "x \<in> set (boot_pairs k is)"
  then obtain y where "y \<in> set (enumerate k is)" "x \<in> set (boot_pair y)" by (auto simp: boot_pairs_def)
  then show "x \<in> (\<Union>j<length is. {Cpu_boot (is ! j) (k + j), Wait_gt ENTERED_CPUS (k + j + 1)})"
    by (intro UN_I[of "fst y - k"]) (auto simp: in_set_enumerate_eq boot_pair_def)
next
  fix x assume "x \<in> (\<Union>j<length is. {Cpu_boot (is ! j) (k + j), Wait_gt ENTERED_CPUS (k + j + 1)})"
  then obtain j where j: "j < length is" "x \<in> set (boot_pair (k + j, is ! j))" by (auto simp: boot_pair_def)
  then have "(k + j, is ! j) \<in> set (enumerate k is)" by (simp add: in_set_enumerate_eq)
  with j(2) show "x \<in> set (boot_pairs k is)" unfolding boot_pairs_def by auto
qed

lemma boot_pairs_Cons: "boot_pairs k (i # is) = Cpu_boot i k # Wait_gt ENTERED_CPUS (k + 1) # boot_pairs (k + 1) is"
  by (simp add: boot_pairs_def boot_pair_def)

lemma boot_pairs_append: "boot_pairs k (xs @ ys) = boot_pairs k xs @ boot_pairs (k + length xs) ys"
  by (simp add: boot_pairs_def enumerate_append_eq)

lemma boot_pairs_distinct: "distinct (boot_pairs k is)"
proof (induction "is" arbitrary: k)
  case (Cons i "is")
  then show ?case by (auto simp: boot_pairs_Cons boot_pairs_set)
qed (simp add: boot_pairs_def)


lemma program_distinct: "distinct (program E t)"
proof (cases t)
  case (Core i)
  have "distinct (rust_main F n p)" for F n p
    unfolding rust_main_def rust_main_early_def kernel_main_def enable_virtualization_def start_secondary_pairs
    by (auto simp: boot_pairs_distinct boot_pairs_set distinct_map inj_on_def)
  moreover have "distinct (rust_main_secondary F n)" for F n
    unfolding rust_main_secondary_def by auto
  ultimately show ?thesis using Core by simp
qed (simp add: virtualization_thread_def)

lemma rust_main_split:
  "rust_main F n p = (rust_main_early F @ cfg_on (f_smp F) (start_secondary_cpus n p) @ cfg_on (f_irq F) [Call Init_interrupt]
     @ cfg_on (f_tls F \<and> \<not> f_multitask F) [Call Init_tls] @ [Call Call_ctors, Fetch_add INITED_CPUS, Wait_eq INITED_CPUS n])
   @ ([Call Print_logo, Call Hardware_check] @ map Spawn [0..<n] @ [Wait_eq CORES n])
   @ [Call Vmm_init, Call Vmm_start, Call Console_init, Call (if f_multitask F then Task_exit else System_off)]"
  by (simp add: rust_main_def kernel_main_def enable_virtualization_def)

lemma secondary_split:
  "rust_main_secondary F n =
     ([Call Percpu_init_secondary, Call Init_early_secondary, Fetch_add ENTERED_CPUS]
      @ cfg_on (f_paging F) [Call Init_memory_management_secondary] @ [Call Init_later_secondary]
      @ cfg_on (f_multitask F) [Call Init_scheduler_secondary] @ cfg_on (f_ipi F) [Call Axipi_init])
     @ [Fetch_add INITED_CPUS, Wait_eq INITED_CPUS n] @ cfg_on (f_irq F) [Call Enable_irqs]
     @ cfg_on (f_tls F \<and> \<not> f_multitask F) [Call Init_tls] @ [Call (if f_multitask F then Run_idle else Wait_for_irqs)]"
  by (simp add: rust_main_secondary_def)

lemma distinct_split: "distinct (d @ x # r) \<Longrightarrow> d @ x # r = A @ x # B \<Longrightarrow> d = A"
  by (auto simp: append_eq_append_conv2 append_eq_Cons_conv Cons_eq_append_conv)

lemma wait_inited_split:
  assumes "program E t = d @ Wait_eq INITED_CPUS n # r"
  shows "Fetch_add INITED_CPUS \<in> set d" "n = cpus E"
proof -
  have mem: "Wait_eq INITED_CPUS n \<in> set (program E t)" using assms by simp
  show n: "n = cpus E" using mem
    by (cases t) (auto simp: rust_main_split rust_main_early_def start_secondary_pairs boot_pairs_set
        secondary_split virtualization_thread_def split: if_splits)
  have "\<exists>A B. program E t = (A @ [Fetch_add INITED_CPUS]) @ Wait_eq INITED_CPUS (cpus E) # B"
  proof (cases t)
    case (Core i)
    have "rust_main F m p = ((rust_main_early F @ cfg_on (f_smp F) (start_secondary_cpus m p)
      @ cfg_on (f_irq F) [Call Init_interrupt] @ cfg_on (f_tls F \<and> \<not> f_multitask F) [Call Init_tls] @ [Call Call_ctors])
      @ [Fetch_add INITED_CPUS]) @ Wait_eq INITED_CPUS m # kernel_main m
      @ [Call (if f_multitask F then Task_exit else System_off)]" for F m p by (simp add: rust_main_def)
    moreover have "\<exists>A B. rust_main_secondary F m = (A @ [Fetch_add INITED_CPUS]) @ Wait_eq INITED_CPUS m # B" for F m
      by (subst secondary_split) (metis append.assoc append_Cons append_Nil)
    ultimately show ?thesis using Core by (metis program.simps(1))
  next
    case (Thread c)
    then show ?thesis using mem by (simp add: virtualization_thread_def)
  qed
  then obtain A B where AB: "program E t = (A @ [Fetch_add INITED_CPUS]) @ Wait_eq INITED_CPUS n # B" using n by auto
  have "d = A @ [Fetch_add INITED_CPUS]"
    using distinct_split[of d "Wait_eq INITED_CPUS n" r "A @ [Fetch_add INITED_CPUS]" B] program_distinct[of E t] assms AB
    by metis
  then show "Fetch_add INITED_CPUS \<in> set d" by simp
qed

text \<open>Who runs the operations that the counters and the other tasks depend on.\<close>

definition adders :: "boot_env \<Rightarrow> boot_counter \<Rightarrow> boot_task set" where
  "adders E k = (case k of
     ENTERED_CPUS \<Rightarrow> Core ` set (secondaries E)
   | INITED_CPUS \<Rightarrow> insert (Core (be_primary E)) (Core ` set (secondaries E))
   | CORES \<Rightarrow> Thread ` {..<cpus E})"

abbreviation primary :: "boot_env \<Rightarrow> boot_task" where
  "primary E \<equiv> Core (be_primary E)"

lemma secondary_program: "t \<noteq> primary E \<Longrightarrow>
  program E t = (case t of Core i \<Rightarrow> rust_main_secondary (be_features E) (cpus E) | Thread c \<Rightarrow> virtualization_thread)"
  by (cases t) auto

lemma program_Cpu_boot:
  assumes "Cpu_boot i k \<in> set (program E t)"
  shows "t = primary E \<and> k < length (secondaries E) \<and> secondaries E ! k = i"
proof -
  have "t = primary E"
    using assms by (cases t) (auto simp: rust_main_secondary_def virtualization_thread_def split: if_splits)
  then show ?thesis using assms
    by (auto simp: rust_main_def rust_main_early_def kernel_main_def enable_virtualization_def
        start_secondary_pairs boot_pairs_set secondaries_def)
qed

lemma program_Spawn:
  assumes "Spawn c \<in> set (program E t)"
  shows "t = primary E \<and> c < cpus E"
proof -
  have "t = primary E"
    using assms by (cases t) (auto simp: rust_main_secondary_def virtualization_thread_def split: if_splits)
  then show ?thesis using assms
    by (auto simp: rust_main_def rust_main_early_def kernel_main_def enable_virtualization_def
        start_secondary_pairs boot_pairs_set)
qed

lemma primary_Fetch_add: "Fetch_add k \<in> set (program E (primary E)) \<longleftrightarrow> k = INITED_CPUS"
  by (auto simp: rust_main_def rust_main_early_def kernel_main_def enable_virtualization_def
      start_secondary_pairs boot_pairs_set)

lemma secondary_Fetch_add:
  "Fetch_add k \<in> set (rust_main_secondary F n) \<longleftrightarrow> k \<noteq> CORES"
  by (cases k) (auto simp: rust_main_secondary_def)


section \<open>Invariant\<close>

definition completed :: "boot_state \<Rightarrow> boot_task \<Rightarrow> boot_op list" where
  "completed s t = map snd (filter (\<lambda>x. fst x = t) (trace s))"

lemma completed_iff: "op \<in> set (completed s t) \<longleftrightarrow> (t, op) \<in> set (trace s)"
  by (force simp: completed_def)

text \<open>A task has been started if it is the primary core, was booted by it, or was spawned by it.\<close>

fun started :: "boot_env \<Rightarrow> boot_state \<Rightarrow> boot_task \<Rightarrow> bool" where
  "started E s (Core i) =
     (i = be_primary E \<or>
      (\<exists>k < MAX_CPU_NUM - 1. (primary E, Cpu_boot i k) \<in> set (trace s)) \<and> be_boots E i)"
| "started E s (Thread c) = ((primary E, Spawn c) \<in> set (trace s))"

definition added :: "boot_state \<Rightarrow> boot_counter \<Rightarrow> boot_task set" where
  "added s k = {t. (t, Fetch_add k) \<in> set (trace s)}"

definition counter_base :: "boot_counter \<Rightarrow> nat" where
  "counter_base k = (if k = ENTERED_CPUS then 1 else 0)"

definition history_inv :: "boot_env \<Rightarrow> boot_state \<Rightarrow> bool" where
  "history_inv E s \<longleftrightarrow> (\<forall>t.
     if started E s t then completed s t @ progs s t = program E t
     else completed s t = [] \<and> progs s t = [])"

definition counter_inv :: "boot_state \<Rightarrow> bool" where
  "counter_inv s \<longleftrightarrow> (\<forall>k. unat (counters s k) = counter_base k + card (added s k))"

definition wait_inv :: "boot_state \<Rightarrow> bool" where
  "wait_inv s \<longleftrightarrow>
     (\<forall>t k n. (t, Wait_gt k n) \<in> set (trace s) \<longrightarrow> n < unat (counters s k)) \<and>
     (\<forall>t k n. (t, Wait_eq k n) \<in> set (trace s) \<longrightarrow> n \<le> unat (counters s k) \<and> (k = INITED_CPUS \<longrightarrow> 0 < n))"

definition stack_inv :: "boot_state \<Rightarrow> bool" where
  "stack_inv s \<longleftrightarrow>
     (powered_off s \<or> (\<forall>t i k. (t, Cpu_boot i k) \<in> set (trace s) \<longrightarrow> k < MAX_CPU_NUM - 1)) \<and>
     (\<forall>t m. (t, Wait_gt ENTERED_CPUS m) \<in> set (trace s) \<longrightarrow> m < MAX_CPU_NUM)"

definition boot_inv :: "boot_env \<Rightarrow> boot_state \<Rightarrow> bool" where
  "boot_inv E s \<longleftrightarrow> history_inv E s \<and> counter_inv s \<and> wait_inv s \<and> stack_inv s"

lemma history_started: "history_inv E s \<Longrightarrow> (t, op) \<in> set (trace s) \<Longrightarrow> started E s t"
  using completed_iff[of op s t] unfolding history_inv_def by (metis empty_iff empty_set)

lemma history_split:
  assumes "history_inv E s" "progs s t = op # ops"
  shows "started E s t" "program E t = completed s t @ op # ops" "(t, op) \<notin> set (trace s)"
proof -
  show st: "started E s t" using assms unfolding history_inv_def by (metis list.distinct(1))
  then show p: "program E t = completed s t @ op # ops" using assms unfolding history_inv_def by metis
  have "op \<notin> set (completed s t)" using program_distinct[of E t] unfolding p by simp
  then show "(t, op) \<notin> set (trace s)" by (simp add: completed_iff)
qed

lemma history_in_program: "history_inv E s \<Longrightarrow> (t, op) \<in> set (trace s) \<Longrightarrow> op \<in> set (program E t)"
  using history_started[of E s t op] completed_iff[of op s t]
  unfolding history_inv_def by (metis Un_iff set_append)

lemma started_secondary:
  assumes "history_inv E s" "started E s (Core i)" "i \<noteq> be_primary E"
  shows "i \<in> set (secondaries E)"
proof -
  from assms obtain k where "(primary E, Cpu_boot i k) \<in> set (trace s)" by auto
  from program_Cpu_boot[OF history_in_program[OF assms(1) this]] show ?thesis by (auto simp: in_set_conv_nth)
qed

lemma started_thread:
  "history_inv E s \<Longrightarrow> started E s (Thread c) \<Longrightarrow> c < cpus E"
  using history_in_program[of E s "primary E" "Spawn c"] program_Spawn[of c E "primary E"] by simp

lemma started_adder:
  assumes "history_inv E s" "started E s t" "Fetch_add k \<in> set (program E t)"
  shows "t \<in> adders E k"
proof (cases t)
  case (Core i)
  show ?thesis
  proof (cases "i = be_primary E")
    case True
    then show ?thesis using assms(3) Core primary_Fetch_add[of k E] by (simp add: adders_def)
  next
    case False
    then show ?thesis
      using assms Core started_secondary[of E s i] secondary_Fetch_add[of k]
      by (cases k) (auto simp: adders_def)
  qed
next
  case (Thread c)
  then show ?thesis using assms started_thread[of E s c]
    by (auto simp: adders_def virtualization_thread_def)
qed

lemma added_subset: "history_inv E s \<Longrightarrow> added s k \<subseteq> adders E k"
  using started_adder[of E s _ k] history_started[of E s] history_in_program[of E s]
  unfolding added_def by blast

lemma finite_adders [simp]: "finite (adders E k)"
  by (cases k) (auto simp: adders_def)

lemma secondaries_props:
  "distinct (secondaries E)" "be_primary E \<notin> set (secondaries E)" "length (secondaries E) \<le> cpus E - 1"
  "f_smp (be_features E) \<Longrightarrow> length (secondaries E) = cpus E - 1"
  using secondary_order_props[where n = "cpus E" and p = "be_primary E"]
  by (auto simp: secondaries_def cfg_on_def)

lemma card_secondaries: "card (Core ` set (secondaries E)) = length (secondaries E)"
  by (simp add: card_image inj_on_def distinct_card secondaries_props(1))

lemma card_adders:
  "card (adders E ENTERED_CPUS) = length (secondaries E)"
  "card (adders E INITED_CPUS) = Suc (length (secondaries E))"
  "card (adders E CORES) = cpus E"
  using secondaries_props(2)[of E]
  by (auto simp: adders_def card_secondaries card_insert_if card_image inj_on_def image_iff)

lemma cpus_less: "cpus E < 2 ^ 64"
proof -
  have "unat (be_cpus E) < 2 ^ LENGTH(64)" by (rule unsigned_less)
  then show ?thesis by (simp add: cpus_def)
qed


lemma counter_room:
  assumes "history_inv E s" "counter_inv s" "progs s t = Fetch_add k # ops"
  shows "unat (counters s k + 1) = unat (counters s k) + 1"
    "card (insert t (added s k)) = Suc (card (added s k))"
proof -
  note sp = history_split[OF assms(1,3)]
  have t: "t \<in> adders E k" "t \<notin> added s k"
    using started_adder[OF assms(1) sp(1), of k] sp(2,3) by (auto simp: added_def)
  have sub: "added s k \<subseteq> adders E k" by (rule added_subset[OF assms(1)])
  then have fin: "finite (added s k)" by (rule finite_subset) simp
  then show "card (insert t (added s k)) = Suc (card (added s k))" using t(2) by simp
  have "added s k \<subset> adders E k" using t sub by auto
  then have "card (added s k) < card (adders E k)" by (rule psubset_card_mono[rotated]) simp
  then have "unat (counters s k) + 1 < 2 ^ 64"
    using assms(2) secondaries_props(3)[of E] cpus_less[of E]
    by (cases k) (auto simp: counter_inv_def counter_base_def card_adders)
  then show "unat (counters s k + 1) = unat (counters s k) + 1"
    using unat_plus_small[of "counters s k" 1] by simp
qed

lemma started_mono: "set (trace s) \<subseteq> set (trace s') \<Longrightarrow> started E s t \<Longrightarrow> started E s' t"
  by (cases t) auto

lemma completed_snoc:
  "trace s' = trace s @ [(t, op)] \<Longrightarrow> completed s' t' = completed s t' @ (if t' = t then [op] else [])"
  by (simp add: completed_def)

lemma history_step:
  assumes h: "history_inv E s" and pr: "progs s t = op # ops" and tr: "trace s' = trace s @ [(t, op)]"
    and progs: "\<And>t'. progs s' t' = (if started E s' t' \<and> \<not> started E s t' then program E t'
      else if t' = t then ops else progs s t')"
  shows "history_inv E s'"
  unfolding history_inv_def
proof
  fix t'
  note sp = history_split[OF h pr]
  have mono: "started E s t' \<Longrightarrow> started E s' t'" by (rule started_mono) (auto simp: tr)
  have inv: "if started E s t' then completed s t' @ progs s t' = program E t'
    else completed s t' = [] \<and> progs s t' = []" using h by (simp add: history_inv_def)
  show "if started E s' t' then completed s' t' @ progs s' t' = program E t'
    else completed s' t' = [] \<and> progs s' t' = []"
  proof (cases "started E s t'")
    case True
    then show ?thesis using mono inv pr progs[of t'] by (auto simp: completed_snoc[OF tr])
  next
    case False
    then have "t' \<noteq> t" using sp(1) by auto
    then show ?thesis using False inv progs[of t'] by (auto simp: completed_snoc[OF tr])
  qed
qed

lemma boot_advance_simps [simp]:
  "counters (boot_advance t s) = counters s" "powered_off (boot_advance t s) = powered_off s"
  "progs s t = op # ops \<Longrightarrow> progs (boot_advance t s) = (progs s)(t := ops)"
  "progs s t = op # ops \<Longrightarrow> trace (boot_advance t s) = trace s @ [(t, op)]"
  by (auto simp: boot_advance_def)

lemma exec_trace: "boot_exec E t op s = Some s' \<Longrightarrow> trace s' = trace s"
  by (cases op) (auto split: if_splits call_result.splits)

lemma not_yet_booted:
  assumes h: "history_inv E s" and pr: "progs s t = Cpu_boot i k # ops"
  shows "t = primary E" "i \<noteq> be_primary E" "\<not> started E s (Core i)"
proof -
  note sp = history_split[OF h pr]
  have pc: "t = primary E \<and> k < length (secondaries E) \<and> secondaries E ! k = i"
    by (rule program_Cpu_boot) (simp add: sp(2))
  then show "t = primary E" by simp
  show ni: "i \<noteq> be_primary E" using pc secondaries_props(2)[of E] by (auto dest: nth_mem)
  have "(primary E, Cpu_boot i k') \<notin> set (trace s)" for k'
  proof
    assume a: "(primary E, Cpu_boot i k') \<in> set (trace s)"
    from program_Cpu_boot[OF history_in_program[OF h this]] pc have "k' = k"
      using nth_eq_iff_index_eq[OF secondaries_props(1), of k' E k] by simp
    with a sp(3) pc show False by simp
  qed
  then show "\<not> started E s (Core i)" using ni by simp
qed

lemma not_yet_spawned:
  assumes h: "history_inv E s" and pr: "progs s t = Spawn c # ops"
  shows "t = primary E" "\<not> started E s (Thread c)"
proof -
  note sp = history_split[OF h pr]
  show "t = primary E" using program_Spawn[of c E t] sp(2) by simp
  then show "\<not> started E s (Thread c)" using sp(3) by simp
qed

lemma boot_step_history:
  assumes h: "history_inv E s" and pr: "progs s t = op # ops"
    and ex: "boot_exec E t op (boot_advance t s) = Some s'"
  shows "history_inv E s'"
proof (rule history_step[OF h pr])
  show tr: "trace s' = trace s @ [(t, op)]" using exec_trace[OF ex] pr by simp
  fix t'
  show "progs s' t' = (if started E s' t' \<and> \<not> started E s t' then program E t'
      else if t' = t then ops else progs s t')"
  proof (cases op)
    case (Cpu_boot i k)
    note nb = not_yet_booted[OF h pr[unfolded Cpu_boot]]
    show ?thesis using ex pr tr nb Cpu_boot by (cases t') (auto split: if_splits)
  next
    case (Spawn c)
    note ns = not_yet_spawned[OF h pr[unfolded Spawn]]
    show ?thesis using ex pr tr ns Spawn by (cases t') (auto split: if_splits)
  qed (use ex pr tr in \<open>cases t'; auto split: if_splits call_result.splits\<close>)+
qed


lemma boot_step_counter:
  assumes h: "history_inv E s" and c: "counter_inv s" and pr: "progs s t = op # ops"
    and ex: "boot_exec E t op (boot_advance t s) = Some s'"
  shows "counter_inv s'" "\<And>k. unat (counters s k) \<le> unat (counters s' k)"
proof -
  have tr: "trace s' = trace s @ [(t, op)]" using exec_trace[OF ex] pr by simp
  show "counter_inv s'"
  proof (cases "\<exists>k. op = Fetch_add k")
    case True
    then obtain k where k: "op = Fetch_add k" ..
    note room = counter_room[OF h c pr[unfolded k]]
    have "added s' k' = (if k' = k then insert t (added s k) else added s k')" for k'
      using tr k by (auto simp: added_def)
    then show ?thesis using c ex pr k room by (auto simp: counter_inv_def)
  next
    case False
    then have "counters s' = counters s" using ex pr by (cases op) (auto split: if_splits call_result.splits)
    moreover have "added s' k = added s k" for k using tr False by (auto simp: added_def)
    ultimately show ?thesis using c by (simp add: counter_inv_def)
  qed
  show "unat (counters s k) \<le> unat (counters s' k)" for k
  proof (cases "op = Fetch_add k")
    case True
    then show ?thesis using counter_room(1)[OF h c pr[unfolded True]] ex pr by auto
  next
    case False
    then show ?thesis using ex pr by (cases op) (auto split: if_splits call_result.splits)
  qed
qed

lemma inited_positive:
  assumes h: "history_inv E s" and c: "counter_inv s" and pr: "progs s t = Wait_eq INITED_CPUS n # ops"
  shows "0 < unat (counters s INITED_CPUS)"
proof -
  have "Fetch_add INITED_CPUS \<in> set (completed s t)" by (rule wait_inited_split(1)[OF history_split(2)[OF h pr]])
  then have "t \<in> added s INITED_CPUS" by (simp add: added_def completed_iff)
  moreover have "finite (added s INITED_CPUS)" using finite_subset[OF added_subset[OF h]] by simp
  ultimately have "0 < card (added s INITED_CPUS)" by (auto simp: card_gt_0_iff)
  then show ?thesis using c by (simp add: counter_inv_def counter_base_def)
qed

lemma boot_step_wait:
  assumes h: "history_inv E s" and c: "counter_inv s" and w: "wait_inv s" and pr: "progs s t = op # ops"
    and ex: "boot_exec E t op (boot_advance t s) = Some s'"
  shows "wait_inv s'"
proof -
  note mono = boot_step_counter(2)[OF h c pr ex]
  have tr: "trace s' = trace s @ [(t, op)]" using exec_trace[OF ex] pr by simp
  have "op = Wait_gt k n \<Longrightarrow> n < unat (counters s' k)"
    "op = Wait_eq k n \<Longrightarrow> n \<le> unat (counters s' k) \<and> (k = INITED_CPUS \<longrightarrow> 0 < n)" for k n
    using ex pr inited_positive[OF h c, of t n ops] by (auto split: if_splits)
  moreover have "n < unat (counters s' k)" if "(t', Wait_gt k n) \<in> set (trace s)" for t' k n
    using that w mono[of k] unfolding wait_inv_def by (metis less_le_trans)
  moreover have "n \<le> unat (counters s' k) \<and> (k = INITED_CPUS \<longrightarrow> 0 < n)" if "(t', Wait_eq k n) \<in> set (trace s)" for t' k n
    using that w mono[of k] unfolding wait_inv_def by (metis order_trans)
  ultimately show ?thesis unfolding wait_inv_def tr by auto
qed

lemma program_Wait_gt:
  assumes "Wait_gt k m \<in> set (program E t)"
  shows "t = primary E \<and> k = ENTERED_CPUS \<and> (\<exists>j < length (secondaries E). m = j + 1)"
proof -
  have "t = primary E"
    using assms by (cases t) (auto simp: rust_main_secondary_def virtualization_thread_def split: if_splits)
  then show ?thesis using assms
    by (auto simp: rust_main_def rust_main_early_def kernel_main_def enable_virtualization_def
        start_secondary_pairs boot_pairs_set secondaries_def)
qed

lemma before_op:
  assumes h: "history_inv E s" and pr: "progs s t = op # ops" and AB: "program E t = A @ B" and n: "op \<notin> set A"
  shows "\<forall>x \<in> set A. (t, x) \<in> set (trace s)"
proof -
  have "completed s t @ op # ops = A @ B" using history_split(2)[OF h pr] AB by simp
  then have "set A \<subseteq> set (completed s t)"
    using n by (auto simp: append_eq_append_conv2 append_eq_Cons_conv Cons_eq_append_conv)
  then show ?thesis using completed_iff by blast
qed

lemma start_ops: "cfg_on (f_smp (be_features E)) (start_secondary_cpus (cpus E) (be_primary E)) = boot_pairs 0 (secondaries E)"
  by (simp add: start_secondary_pairs secondaries_def cfg_on_def boot_pairs_def)

lemma at_wait_entered:
  assumes h: "history_inv E s" and pr: "progs s (primary E) = Wait_gt ENTERED_CPUS (j + 1) # ops"
    and j: "j < length (secondaries E)" and i: "i \<le> j"
  shows "(primary E, Cpu_boot (secondaries E ! i) i) \<in> set (trace s)"
proof -
  let ?S = "secondaries E" let ?F = "be_features E"
  have "boot_pairs 0 ?S = boot_pairs 0 (take j ?S) @ Cpu_boot (?S ! j) j # Wait_gt ENTERED_CPUS (j + 1)
      # boot_pairs (j + 1) (drop (Suc j) ?S)"
    using boot_pairs_append[of 0 "take j ?S" "drop j ?S"] j
    by (simp add: Cons_nth_drop_Suc[symmetric, of j ?S] boot_pairs_Cons) (metis id_take_nth_drop)
  then have "program E (primary E) = (rust_main_early ?F @ boot_pairs 0 (take j ?S) @ [Cpu_boot (?S ! j) j])
     @ Wait_gt ENTERED_CPUS (j + 1) # boot_pairs (j + 1) (drop (Suc j) ?S) @ cfg_on (f_irq ?F) [Call Init_interrupt]
     @ cfg_on (f_tls ?F \<and> \<not> f_multitask ?F) [Call Init_tls]
     @ [Call Call_ctors, Fetch_add INITED_CPUS, Wait_eq INITED_CPUS (cpus E)] @ kernel_main (cpus E)
     @ [Call (if f_multitask ?F then Task_exit else System_off)]"
    by (simp add: rust_main_def start_ops)
  then have "\<forall>x \<in> set (rust_main_early ?F @ boot_pairs 0 (take j ?S) @ [Cpu_boot (?S ! j) j]). (primary E, x) \<in> set (trace s)"
    by (rule before_op[OF h pr]) (use j in \<open>auto simp: rust_main_early_def boot_pairs_set\<close>)
  then show ?thesis using i j by (cases "i = j") (auto simp: boot_pairs_set)
qed

lemma boot_step_stack:
  assumes h: "history_inv E s" and w: "stack_inv s" "\<not> powered_off s" and pr: "progs s t = op # ops"
    and ex: "boot_exec E t op (boot_advance t s) = Some s'"
  shows "stack_inv s'"
proof -
  have tr: "trace s' = trace s @ [(t, op)]" using exec_trace[OF ex] pr by simp
  have "m < MAX_CPU_NUM" if m: "op = Wait_gt ENTERED_CPUS m" for m
  proof -
    obtain j where j: "t = primary E" "j < length (secondaries E)" "m = j + 1"
      using program_Wait_gt[of ENTERED_CPUS m E t] history_split(2)[OF h pr] m by auto
    have "(t, Cpu_boot (secondaries E ! j) j) \<in> set (trace s)"
      using at_wait_entered[OF h, of j ops j] pr j m by simp
    then have "j < MAX_CPU_NUM - 1" using w unfolding stack_inv_def by blast
    then show ?thesis using j(3) by (simp add: MAX_CPU_NUM_def)
  qed
  moreover have "powered_off s' \<or> (\<forall>i k. op = Cpu_boot i k \<longrightarrow> k < MAX_CPU_NUM - 1)"
    using ex by (cases op) (auto split: if_splits)
  ultimately show ?thesis using w unfolding stack_inv_def tr by auto
qed

lemma boot_step_inv: "boot_step E s s' \<Longrightarrow> boot_inv E s \<Longrightarrow> boot_inv E s'"
  unfolding boot_inv_def
  by (elim boot_step.cases conjE, intro conjI)
    (blast intro: boot_step_history boot_step_counter boot_step_wait boot_step_stack)+

lemma boot_init_inv: "boot_inv E (boot_init E)"
proof -
  have "started E (boot_init E) t \<longleftrightarrow> t = primary E" for t by (cases t) (auto simp: boot_init_def)
  then have "history_inv E (boot_init E)" by (auto simp: history_inv_def completed_def boot_init_def)
  then show ?thesis
    by (simp add: boot_inv_def counter_inv_def wait_inv_def stack_inv_def boot_init_def added_def counter_base_def)
qed

interpretation boot: transition_system "\<lambda>s. s = boot_init E" "boot_step E" "boot_inv E" for E
  by unfold_locales (auto intro: boot_init_inv boot_step_inv)


section \<open>Barriers\<close>

lemma done_before:
  assumes "history_inv E s" "(t, x) \<in> set (trace s)" "program E t = A @ B" "x \<notin> set A"
  shows "\<forall>op \<in> set A. (t, op) \<in> set (trace s)"
proof -
  have "completed s t @ progs s t = A @ B"
    using assms(1,3) history_started[OF assms(1,2)] unfolding history_inv_def by metis
  then consider us where "completed s t = A @ us" | us where "A = completed s t @ us"
    by (auto simp: append_eq_append_conv2)
  then have "set A \<subseteq> set (completed s t)"
  proof cases
    case 2
    then show ?thesis using assms(2,4) completed_iff[of x s t] by simp
  qed simp
  then show ?thesis using completed_iff by blast
qed

lemma all_added:
  assumes "boot_inv E s" "counter_base k = 0" "card (adders E k) \<le> unat (counters s k)"
  shows "added s k = adders E k"
proof -
  have "card (adders E k) \<le> card (added s k)"
    using assms by (simp add: boot_inv_def counter_inv_def)
  then show ?thesis using added_subset[of E s k] assms(1) card_seteq[OF finite_adders[of E k], of "added s k"]
    by (simp add: boot_inv_def)
qed

lemma wait_eqD:
  "boot_inv E s \<Longrightarrow> (t, Wait_eq k n) \<in> set (trace s) \<Longrightarrow>
   n \<le> counter_base k + card (added s k) \<and> (k = INITED_CPUS \<longrightarrow> 0 < n)"
  unfolding boot_inv_def wait_inv_def counter_inv_def by metis

text \<open>Whoever has passed the barrier of \<open>INITED_CPUS\<close> knows that every core has added itself.\<close>

lemma init_barrier:
  assumes inv: "boot_inv E s" and w: "(t, Wait_eq INITED_CPUS (cpus E)) \<in> set (trace s)"
  shows "added s INITED_CPUS = adders E INITED_CPUS" "cpus E = Suc (length (secondaries E))"
proof -
  have le: "cpus E \<le> card (added s INITED_CPUS)" "0 < cpus E"
    using wait_eqD[OF inv w] by (auto simp: counter_base_def)
  have sub: "added s INITED_CPUS \<subseteq> adders E INITED_CPUS" using inv added_subset by (simp add: boot_inv_def)
  then have "cpus E \<le> Suc (length (secondaries E))"
    using le card_mono[OF finite_adders sub] card_adders(2)[of E] by simp
  then show n: "cpus E = Suc (length (secondaries E))" using le(2) secondaries_props(3)[of E] by simp
  show "added s INITED_CPUS = adders E INITED_CPUS"
    using le(1) n card_adders(2)[of E] by (intro card_seteq[OF finite_adders sub]) simp
qed


lemma cores_barrier:
  assumes inv: "boot_inv E s" and w: "(t, Wait_eq CORES (cpus E)) \<in> set (trace s)" and c: "c < cpus E"
  shows "\<forall>op \<in> set virtualization_thread. (Thread c, op) \<in> set (trace s)"
proof -
  have h: "history_inv E s" using inv by (simp add: boot_inv_def)
  have "cpus E \<le> card (added s CORES)" using wait_eqD[OF inv w] by (simp add: counter_base_def)
  then have "added s CORES = adders E CORES"
    using card_adders(3)[of E] by (intro card_seteq[OF finite_adders added_subset[OF h]]) simp
  then have f: "(Thread c, Fetch_add CORES) \<in> set (trace s)" using c by (auto simp: added_def adders_def)
  show ?thesis
    using f done_before[OF h f, of "butlast virtualization_thread" "[Fetch_add CORES]"]
    by (auto simp: virtualization_thread_def)
qed

text \<open>The primary core at the start of the virtual machines has passed both barriers and booted every core.\<close>

lemma vmm_init_passed:
  assumes h: "history_inv E s" and v: "(primary E, Call Vmm_init) \<in> set (trace s)"
  shows "(primary E, Wait_eq INITED_CPUS (cpus E)) \<in> set (trace s)" "(primary E, Wait_eq CORES (cpus E)) \<in> set (trace s)"
    "k < length (secondaries E) \<Longrightarrow> (primary E, Wait_gt ENTERED_CPUS (k + 1)) \<in> set (trace s)"
proof -
  let ?F = "be_features E" let ?n = "cpus E" let ?p = "be_primary E"
  let ?A = "(rust_main_early ?F @ cfg_on (f_smp ?F) (start_secondary_cpus ?n ?p) @ cfg_on (f_irq ?F) [Call Init_interrupt]
     @ cfg_on (f_tls ?F \<and> \<not> f_multitask ?F) [Call Init_tls] @ [Call Call_ctors, Fetch_add INITED_CPUS, Wait_eq INITED_CPUS ?n])
     @ ([Call Print_logo, Call Hardware_check] @ map Spawn [0..<?n] @ [Wait_eq CORES ?n])"
  have "program E (primary E) = ?A @ [Call Vmm_init, Call Vmm_start, Call Console_init,
      Call (if f_multitask ?F then Task_exit else System_off)]"
    by (simp only: program.simps if_True refl rust_main_split append.assoc)
  then have all: "\<forall>op \<in> set ?A. (primary E, op) \<in> set (trace s)"
    by (rule done_before[OF h v]) (auto simp: rust_main_early_def start_secondary_pairs boot_pairs_set)
  then show "(primary E, Wait_eq INITED_CPUS (cpus E)) \<in> set (trace s)" "(primary E, Wait_eq CORES (cpus E)) \<in> set (trace s)"
    by auto
  show "k < length (secondaries E) \<Longrightarrow> (primary E, Wait_gt ENTERED_CPUS (k + 1)) \<in> set (trace s)"
    using all by (auto simp: start_secondary_pairs boot_pairs_set secondaries_def cfg_on_def split: if_splits)
qed

lemma secondary_initialized:
  assumes h: "history_inv E s" and f: "(Core i, Fetch_add INITED_CPUS) \<in> set (trace s)" and i: "i \<noteq> be_primary E"
  shows "(Core i, Call Init_later_secondary) \<in> set (trace s)"
    "f_multitask (be_features E) \<Longrightarrow> (Core i, Call Init_scheduler_secondary) \<in> set (trace s)"
proof -
  let ?F = "be_features E"
  let ?A = "[Call Percpu_init_secondary, Call Init_early_secondary, Fetch_add ENTERED_CPUS]
      @ cfg_on (f_paging ?F) [Call Init_memory_management_secondary] @ [Call Init_later_secondary]
      @ cfg_on (f_multitask ?F) [Call Init_scheduler_secondary] @ cfg_on (f_ipi ?F) [Call Axipi_init]"
  have "\<forall>op \<in> set ?A. (Core i, op) \<in> set (trace s)"
  proof (rule done_before[OF h f])
    show "program E (Core i) = ?A @ [Fetch_add INITED_CPUS, Wait_eq INITED_CPUS (cpus E)] @ cfg_on (f_irq ?F) [Call Enable_irqs]
      @ cfg_on (f_tls ?F \<and> \<not> f_multitask ?F) [Call Init_tls] @ [Call (if f_multitask ?F then Run_idle else Wait_for_irqs)]"
      using i by (simp add: secondary_split)
  qed auto
  then show "(Core i, Call Init_later_secondary) \<in> set (trace s)"
    "f_multitask ?F \<Longrightarrow> (Core i, Call Init_scheduler_secondary) \<in> set (trace s)" by auto
qed

definition boot_reachable :: "boot_env \<Rightarrow> boot_state \<Rightarrow> bool" where
  "boot_reachable E s = (boot_step E)\<^sup>*\<^sup>* (boot_init E) s"

lemma boot_reachable_inv: "boot_reachable E s \<Longrightarrow> boot_inv E s"
  unfolding boot_reachable_def by (rule boot.reachable_inv[OF refl])


text \<open>Running the machine under a given schedule.\<close>

definition boot_do :: "boot_env \<Rightarrow> boot_task \<Rightarrow> boot_state \<Rightarrow> boot_state option" where
  "boot_do E t s = (if powered_off s then None
     else case progs s t of [] \<Rightarrow> None | op # ops \<Rightarrow> boot_exec E t op (boot_advance t s))"

fun boot_run :: "boot_env \<Rightarrow> boot_task list \<Rightarrow> boot_state \<Rightarrow> boot_state option" where
  "boot_run E [] s = Some s"
| "boot_run E (t # ts) s = (case boot_do E t s of None \<Rightarrow> None | Some s' \<Rightarrow> boot_run E ts s')"

lemma boot_run_steps: "boot_run E ts s = Some s' \<Longrightarrow> (boot_step E)\<^sup>*\<^sup>* s s'"
proof (induction E ts s rule: boot_run.induct)
  case (2 E t ts s)
  then obtain y where y: "boot_do E t s = Some y" "boot_run E ts y = Some s'" by (auto split: option.splits)
  then have "boot_step E s y" by (auto simp: boot_do_def split: if_splits list.splits intro: boot_step.intros)
  then show ?case using 2(1)[OF y] by simp
qed simp

definition two_cores :: boot_env where
  "two_cores = \<lparr>be_features = \<lparr>f_alloc = True, f_paging = True, f_driver_dyn = False, f_multitask = True, f_fs = True,
       f_net = False, f_display = False, f_smp = True, f_irq = True, f_tls = False, f_ipi = False\<rparr>,
     be_cpus = 2, be_primary = 0, be_boots = (\<lambda>i. i < 2),
     be_result = (\<lambda>t c. if c \<in> {Vmm_start, Console_init, Task_exit, System_off, Run_idle, Wait_for_irqs}
       then Never_returns else Returns)\<rparr>"

definition two_cores_booted :: boot_state where
  "two_cores_booted = the (boot_run two_cores
     (replicate 12 (Core 0) @ replicate 3 (Core 1) @ replicate 4 (Core 0) @ replicate 5 (Core 1)
      @ replicate 5 (Core 0) @ replicate 5 (Thread 1) @ replicate 5 (Thread 0) @ replicate 2 (Core 0)) (boot_init two_cores))"

lemma two_cores_run:
  "boot_run two_cores
     (replicate 12 (Core 0) @ replicate 3 (Core 1) @ replicate 4 (Core 0) @ replicate 5 (Core 1)
      @ replicate 5 (Core 0) @ replicate 5 (Thread 1) @ replicate 5 (Thread 0) @ replicate 2 (Core 0)) (boot_init two_cores)
   = Some two_cores_booted"
proof -
  have "boot_run two_cores
     (replicate 12 (Core 0) @ replicate 3 (Core 1) @ replicate 4 (Core 0) @ replicate 5 (Core 1)
      @ replicate 5 (Core 0) @ replicate 5 (Thread 1) @ replicate 5 (Thread 0) @ replicate 2 (Core 0)) (boot_init two_cores) \<noteq> None"
    by code_simp
  then show ?thesis unfolding two_cores_booted_def by auto
qed


section \<open>Progress\<close>

text \<open>The calls that come after the setup of the virtual machines, or that a core stays in.\<close>

definition late_calls :: "boot_call set" where
  "late_calls = {Vmm_start, Console_init, Task_exit, System_off, Run_idle, Wait_for_irqs}"

definition calls_return :: "boot_env \<Rightarrow> bool" where
  "calls_return E \<longleftrightarrow> (\<forall>t c. be_result E t c \<noteq> Panics \<and> (c \<notin> late_calls \<longrightarrow> be_result E t c = Returns))"

fun may_block :: "boot_op \<Rightarrow> bool" where
  "may_block (Call c) = (c \<in> late_calls)"
| "may_block (Wait_gt k n) = True"
| "may_block (Wait_eq k n) = True"
| "may_block _ = False"

definition boot_stuck :: "boot_env \<Rightarrow> boot_state \<Rightarrow> bool" where
  "boot_stuck E s \<longleftrightarrow> (\<nexists>s'. boot_step E s s')"

lemma stuck_blocks:
  assumes "boot_stuck E s" "\<not> powered_off s" "calls_return E" "progs s t = op # ops"
  shows "boot_exec E t op (boot_advance t s) = None" "may_block op"
proof -
  show n: "boot_exec E t op (boot_advance t s) = None"
    using assms boot_step.intros[of s t op ops E] unfolding boot_stuck_def by fastforce
  show "may_block op"
  proof (cases op)
    case (Call c)
    then show ?thesis using n assms(3) unfolding calls_return_def by (cases "be_result E t c") (auto, metis call_result.distinct(3))
  qed (use n in \<open>auto split: if_splits\<close>)
qed

text \<open>A stuck task has done everything before its first operation that may block.\<close>

lemma after_all:
  assumes h: "history_inv E s" and pr: "progs s t = []" and st: "started E s t" and x: "x \<in> set (program E t)"
  shows "(t, x) \<in> set (trace s)"
  using assms completed_iff unfolding history_inv_def by (metis append_Nil2)

lemma stuck_did:
  assumes h: "history_inv E s" and st: "boot_stuck E s" "\<not> powered_off s" "calls_return E" "started E s t"
    and pr: "program E t = A @ B" and nb: "\<And>op. op \<in> set A \<Longrightarrow> \<not> may_block op"
  shows "\<forall>op \<in> set A. (t, op) \<in> set (trace s)"
proof (cases "progs s t")
  case Nil
  then show ?thesis using after_all[OF h Nil st(4)] pr by simp
next
  case (Cons op ops)
  then have "op \<notin> set A" using stuck_blocks(2)[OF st(1-3) Cons] nb by auto
  then show ?thesis by (rule before_op[OF h Cons pr])
qed

lemma stuck_secondary:
  assumes h: "history_inv E s" and st: "boot_stuck E s" "\<not> powered_off s" "calls_return E"
    and b: "(primary E, Cpu_boot i k) \<in> set (trace s)" "k < MAX_CPU_NUM - 1" "be_boots E i"
  shows "Core i \<in> added s ENTERED_CPUS" "Core i \<in> added s INITED_CPUS"
proof -
  let ?F = "be_features E"
  have sec: "k < length (secondaries E) \<and> secondaries E ! k = i"
    using program_Cpu_boot[OF history_in_program[OF h b(1)]] by simp
  then have i: "i \<noteq> be_primary E" using secondaries_props(2)[of E] by (auto dest: nth_mem)
  let ?A = "([Call Percpu_init_secondary, Call Init_early_secondary, Fetch_add ENTERED_CPUS]
      @ cfg_on (f_paging ?F) [Call Init_memory_management_secondary] @ [Call Init_later_secondary]
      @ cfg_on (f_multitask ?F) [Call Init_scheduler_secondary] @ cfg_on (f_ipi ?F) [Call Axipi_init]) @ [Fetch_add INITED_CPUS]"
  have "\<forall>op \<in> set ?A. (Core i, op) \<in> set (trace s)"
  proof (rule stuck_did[OF h st])
    show "started E s (Core i)" using b by auto
    show "program E (Core i) = ?A @ [Wait_eq INITED_CPUS (cpus E)] @ cfg_on (f_irq ?F) [Call Enable_irqs]
      @ cfg_on (f_tls ?F \<and> \<not> f_multitask ?F) [Call Init_tls] @ [Call (if f_multitask ?F then Run_idle else Wait_for_irqs)]"
      using i by (simp add: secondary_split)
  qed (auto simp: late_calls_def)
  then show "Core i \<in> added s ENTERED_CPUS" "Core i \<in> added s INITED_CPUS" by (auto simp: added_def)
qed

lemma stuck_thread:
  assumes h: "history_inv E s" and st: "boot_stuck E s" "\<not> powered_off s" "calls_return E"
    and b: "(primary E, Spawn c) \<in> set (trace s)"
  shows "Thread c \<in> added s CORES"
proof -
  have "\<forall>op \<in> set virtualization_thread. (Thread c, op) \<in> set (trace s)"
    by (rule stuck_did[OF h st, of "Thread c" virtualization_thread "[]"])
      (use b in \<open>auto simp: virtualization_thread_def late_calls_def\<close>)
  then show ?thesis by (simp add: added_def virtualization_thread_def)
qed

lemma primary_may_block:
  assumes "op \<in> set (program E (primary E))" "may_block op"
  shows "(\<exists>j < length (secondaries E). op = Wait_gt ENTERED_CPUS (j + 1)) \<or> op = Wait_eq INITED_CPUS (cpus E)
    \<or> op = Wait_eq CORES (cpus E) \<or> (\<exists>c. op = Call c \<and> c \<in> late_calls)"
  using assms by (auto simp: rust_main_split rust_main_early_def start_secondary_pairs boot_pairs_set late_calls_def
      secondaries_def)


lemma at_wait_inited:
  assumes h: "history_inv E s" and pr: "progs s (primary E) = Wait_eq INITED_CPUS n # ops"
  shows "k < length (secondaries E) \<Longrightarrow> (primary E, Cpu_boot (secondaries E ! k) k) \<in> set (trace s)"
    "(primary E, Fetch_add INITED_CPUS) \<in> set (trace s)"
proof -
  let ?F = "be_features E"
  let ?A = "rust_main_early ?F @ boot_pairs 0 (secondaries E) @ cfg_on (f_irq ?F) [Call Init_interrupt]
     @ cfg_on (f_tls ?F \<and> \<not> f_multitask ?F) [Call Init_tls] @ [Call Call_ctors, Fetch_add INITED_CPUS]"
  have "program E (primary E) = ?A @ [Wait_eq INITED_CPUS (cpus E)] @ kernel_main (cpus E)
     @ [Call (if f_multitask ?F then Task_exit else System_off)]"
    by (simp add: rust_main_def start_ops)
  then have "\<forall>x \<in> set ?A. (primary E, x) \<in> set (trace s)"
    by (rule before_op[OF h pr]) (auto simp: rust_main_early_def boot_pairs_set)
  then show "k < length (secondaries E) \<Longrightarrow> (primary E, Cpu_boot (secondaries E ! k) k) \<in> set (trace s)"
    "(primary E, Fetch_add INITED_CPUS) \<in> set (trace s)" by (auto simp: boot_pairs_set)
qed

lemma at_wait_cores:
  assumes h: "history_inv E s" and pr: "progs s (primary E) = Wait_eq CORES n # ops" and c: "c < cpus E"
  shows "(primary E, Spawn c) \<in> set (trace s)"
proof -
  let ?F = "be_features E"
  let ?A = "(rust_main_early ?F @ boot_pairs 0 (secondaries E) @ cfg_on (f_irq ?F) [Call Init_interrupt]
     @ cfg_on (f_tls ?F \<and> \<not> f_multitask ?F) [Call Init_tls] @ [Call Call_ctors, Fetch_add INITED_CPUS, Wait_eq INITED_CPUS (cpus E)])
     @ [Call Print_logo, Call Hardware_check] @ map Spawn [0..<cpus E]"
  have "program E (primary E) = ?A @ [Wait_eq CORES (cpus E)] @ [Call Vmm_init, Call Vmm_start, Call Console_init,
     Call (if f_multitask ?F then Task_exit else System_off)]"
    by (simp add: rust_main_split start_ops)
  then have "\<forall>x \<in> set ?A. (primary E, x) \<in> set (trace s)"
    by (rule before_op[OF h pr]) (auto simp: rust_main_early_def boot_pairs_set)
  then show ?thesis using c by auto
qed

lemma at_late_call:
  assumes h: "history_inv E s" and pr: "progs s (primary E) = Call c # ops" and c: "c \<in> late_calls"
  shows "(primary E, Call Vmm_init) \<in> set (trace s)"
proof -
  let ?F = "be_features E"
  let ?A = "((rust_main_early ?F @ boot_pairs 0 (secondaries E) @ cfg_on (f_irq ?F) [Call Init_interrupt]
     @ cfg_on (f_tls ?F \<and> \<not> f_multitask ?F) [Call Init_tls] @ [Call Call_ctors, Fetch_add INITED_CPUS, Wait_eq INITED_CPUS (cpus E)])
     @ ([Call Print_logo, Call Hardware_check] @ map Spawn [0..<cpus E] @ [Wait_eq CORES (cpus E)])) @ [Call Vmm_init]"
  have "program E (primary E) = ?A @ [Call Vmm_start, Call Console_init, Call (if f_multitask ?F then Task_exit else System_off)]"
    by (simp add: rust_main_split start_ops)
  then have "\<forall>x \<in> set ?A. (primary E, x) \<in> set (trace s)"
    by (rule before_op[OF h pr]) (use c in \<open>auto simp: rust_main_early_def boot_pairs_set late_calls_def\<close>)
  then show ?thesis by simp
qed

text \<open>What the machine needs to boot: between one and eight cores, all of which respond.\<close>

definition bootable :: "boot_env \<Rightarrow> bool" where
  "bootable E \<longleftrightarrow> f_smp (be_features E) \<and> 0 < cpus E \<and> cpus E \<le> MAX_CPU_NUM \<and> (\<forall>i < cpus E. be_boots E i)"

lemma bootable_secondaries:
  assumes "bootable E"
  shows "length (secondaries E) = cpus E - 1" "k < length (secondaries E) \<Longrightarrow> k < MAX_CPU_NUM - 1"
    "i \<in> set (secondaries E) \<Longrightarrow> be_boots E i"
proof -
  show l: "length (secondaries E) = cpus E - 1" using assms secondaries_props(4) by (simp add: bootable_def)
  show "k < length (secondaries E) \<Longrightarrow> k < MAX_CPU_NUM - 1" using l assms by (auto simp: bootable_def MAX_CPU_NUM_def)
  show "i \<in> set (secondaries E) \<Longrightarrow> be_boots E i"
    using assms by (auto simp: bootable_def secondaries_def secondary_order_def dest: in_set_takeD)
qed

lemma stuck_primary:
  assumes inv: "boot_inv E s" and st: "boot_stuck E s" "\<not> powered_off s" "calls_return E" and b: "bootable E"
  shows "(primary E, Call Vmm_init) \<in> set (trace s)"
proof (cases "progs s (primary E)")
  case Nil
  have "Call Vmm_init \<in> set (program E (primary E))" by (simp add: rust_main_split)
  then show ?thesis using after_all[of E s "primary E"] Nil inv by (simp add: boot_inv_def)
next
  case (Cons op ops)
  have h: "history_inv E s" and cnt: "\<And>k. unat (counters s k) = counter_base k + card (added s k)"
    using inv by (auto simp: boot_inv_def counter_inv_def)
  have fin: "finite (added s k)" for k using finite_subset[OF added_subset[OF h]] by simp
  note none = stuck_blocks(1)[OF st Cons]
  have booted: "Core (secondaries E ! k) \<in> added s ENTERED_CPUS \<and> Core (secondaries E ! k) \<in> added s INITED_CPUS"
    if "(primary E, Cpu_boot (secondaries E ! k) k) \<in> set (trace s)" "k < length (secondaries E)" for k
    using stuck_secondary[OF h st that(1)] bootable_secondaries[OF b] that(2) by (auto dest: nth_mem)
  have "op \<in> set (program E (primary E))" using history_split(2)[OF h Cons] by simp
  from primary_may_block[OF this stuck_blocks(2)[OF st Cons]]
  consider j where "j < length (secondaries E)" "op = Wait_gt ENTERED_CPUS (j + 1)" | "op = Wait_eq INITED_CPUS (cpus E)"
    | "op = Wait_eq CORES (cpus E)" | c where "op = Call c" "c \<in> late_calls" by blast
  then show ?thesis
  proof cases
    case 1
    have "(\<lambda>i. Core (secondaries E ! i)) ` {..j} \<subseteq> added s ENTERED_CPUS"
      using at_wait_entered[OF h Cons[unfolded 1(2)] 1(1)] booted 1(1) by auto
    moreover have "inj_on (\<lambda>i. Core (secondaries E ! i)) {..j}"
      using secondaries_props(1)[of E] 1(1) by (auto simp: inj_on_def nth_eq_iff_index_eq)
    ultimately have "j + 1 \<le> card (added s ENTERED_CPUS)"
      using card_mono[OF fin] card_image by (metis card_atMost Suc_eq_plus1)
    then show ?thesis using none 1(2) cnt[of ENTERED_CPUS] by (simp add: counter_base_def)
  next
    case 2
    have "adders E INITED_CPUS \<subseteq> added s INITED_CPUS"
      using at_wait_inited[OF h Cons[unfolded 2]] booted by (auto simp: adders_def in_set_conv_nth added_def)
    then have "added s INITED_CPUS = adders E INITED_CPUS" using added_subset[OF h] by blast
    then show ?thesis using none 2 cnt[of INITED_CPUS] card_adders(2)[of E] bootable_secondaries(1)[OF b] b
      by (simp add: counter_base_def bootable_def)
  next
    case 3
    have "adders E CORES \<subseteq> added s CORES"
      using at_wait_cores[OF h Cons[unfolded 3]] stuck_thread[OF h st] by (auto simp: adders_def)
    then have "added s CORES = adders E CORES" using added_subset[OF h] by blast
    then show ?thesis using none 3 cnt[of CORES] card_adders(3)[of E] by (simp add: counter_base_def)
  next
    case 4
    then show ?thesis using at_late_call[OF h] Cons by simp
  qed
qed


lemma bootable_stays_on:
  assumes "boot_reachable E s" "calls_return E" "bootable E"
  shows "\<not> powered_off s"
  using assms(1) unfolding boot_reachable_def
proof (induction rule: rtranclp_induct)
  case (step y z)
  then have h: "history_inv E y" using boot_reachable_inv[of E y] by (simp add: boot_reachable_def boot_inv_def)
  from step(2) show ?case
  proof cases
    case (1 t op ops)
    show ?thesis
    proof (cases op)
      case (Cpu_boot i k)
      have "k < length (secondaries E)"
        using program_Cpu_boot[of i k E t] history_split(2)[OF h 1(2)] Cpu_boot by simp
      then show ?thesis using 1 Cpu_boot bootable_secondaries(2)[OF assms(3)] by (auto split: if_splits)
    qed (use 1 assms(2) in \<open>auto simp: calls_return_def split: if_splits call_result.splits\<close>)
  qed
qed (simp add: boot_init_def)

text \<open>The trace is at most as long as all programs together.\<close>

definition boot_tasks :: "boot_env \<Rightarrow> boot_task set" where
  "boot_tasks E = adders E INITED_CPUS \<union> adders E CORES"

lemma length_by_task:
  "finite T \<Longrightarrow> fst ` set xs \<subseteq> T \<Longrightarrow> length xs = (\<Sum>t \<in> T. length (filter (\<lambda>x. fst x = t) xs))"
proof (induction xs)
  case (Cons x xs)
  have "(\<Sum>t \<in> T. length (filter (\<lambda>y. fst y = t) (x # xs)))
      = (\<Sum>t \<in> T. (if t = fst x then 1 else 0) + length (filter (\<lambda>y. fst y = t) xs))"
    by (rule sum.cong) auto
  then show ?case using Cons by (simp add: sum.distrib sum.delta)
qed simp

lemma trace_bound:
  assumes "boot_inv E s"
  shows "length (trace s) \<le> (\<Sum>t \<in> boot_tasks E. length (program E t))"
proof -
  have h: "history_inv E s" using assms by (simp add: boot_inv_def)
  have "t \<in> boot_tasks E" if "(t, op) \<in> set (trace s)" for t op
    using history_started[OF h that] started_secondary[OF h] started_thread[OF h]
    by (cases t) (auto simp: boot_tasks_def adders_def simp del: started.simps)
  then have sub: "fst ` set (trace s) \<subseteq> boot_tasks E" by auto
  have "length (completed s t) \<le> length (program E t)" for t
    using h unfolding history_inv_def by (metis le_add1 length_append list.size(3) zero_le)
  then show ?thesis
    using length_by_task[OF _ sub] by (simp add: boot_tasks_def completed_def sum_mono)
qed

lemma steps_trace: "(boot_step E ^^ k) s s' \<Longrightarrow> length (trace s') = length (trace s) + k"
proof (induction k arbitrary: s')
  case (Suc k)
  then obtain y where y: "(boot_step E ^^ k) s y" "boot_step E y s'" by auto
  from y(2) have "length (trace s') = Suc (length (trace y))"
    by cases (auto dest: exec_trace)
  then show ?case using Suc.IH[OF y(1)] by simp
qed simp

text \<open>
  \<^bold>\<open>C7\<close>: when the calls return and the machine has between one and eight cores that respond, the boot completes. No
  schedule of the cores and their threads has more steps than all their programs together, and the boot cannot stop
  before the virtual machines are set up: in whatever state nothing can run any more, they have been.
\<close>

theorem boot_completes:
  assumes "calls_return E" and "bootable E"
  shows "(\<forall>k s. (boot_step E ^^ k) (boot_init E) s \<longrightarrow> k \<le> (\<Sum>t \<in> boot_tasks E. length (program E t)))
    \<and> (\<forall>s. boot_reachable E s \<and> boot_stuck E s \<longrightarrow> (primary E, Call Vmm_init) \<in> set (trace s))"
proof (intro conjI allI impI)
  fix k s assume r: "(boot_step E ^^ k) (boot_init E) s"
  then have "boot_inv E s" by (intro boot_reachable_inv) (auto simp: boot_reachable_def dest: relpowp_imp_rtranclp)
  then show "k \<le> (\<Sum>t \<in> boot_tasks E. length (program E t))"
    using trace_bound[of E s] steps_trace[OF r] by (simp add: boot_init_def)
next
  fix s assume "boot_reachable E s \<and> boot_stuck E s"
  then show "(primary E, Call Vmm_init) \<in> set (trace s)"
    using stuck_primary[of E s] boot_reachable_inv[of E s] bootable_stays_on[of E s] assms by blast
qed


lemma boot_stops: "\<exists>s. boot_reachable E s \<and> boot_stuck E s"
proof -
  let ?B = "\<Sum>t \<in> boot_tasks E. length (program E t)"
  let ?run = "\<lambda>k. \<exists>s. (boot_step E ^^ k) (boot_init E) s"
  have reach: "boot_reachable E s" if "(boot_step E ^^ k) (boot_init E) s" for k s
    using that by (auto simp: boot_reachable_def dest: relpowp_imp_rtranclp)
  have "\<forall>k. ?run k \<longrightarrow> k \<le> ?B"
    using trace_bound boot_reachable_inv reach steps_trace by (fastforce simp: boot_init_def)
  moreover have "?run 0" by auto
  ultimately obtain k where k: "?run k" "\<forall>j. ?run j \<longrightarrow> j \<le> k" using Nat.ex_has_greatest_nat[of ?run 0 ?B] by blast
  then obtain s where s: "(boot_step E ^^ k) (boot_init E) s" by blast
  have "\<not> boot_step E s s'" for s' using k(2) relpowp_Suc_I[OF s, of s'] by (metis Suc_n_not_le_n)
  then show ?thesis using reach[OF s] by (auto simp: boot_stuck_def)
qed

theorem boot_completes_witness:
  "calls_return two_cores \<and> bootable two_cores \<and>
   (\<exists>s. boot_reachable two_cores s \<and> boot_stuck two_cores s \<and> (Core 0, Call Vmm_init) \<in> set (trace s))"
proof -
  have "calls_return two_cores" by (simp add: calls_return_def two_cores_def late_calls_def)
  moreover have "bootable two_cores" by (simp add: bootable_def two_cores_def cpus_def MAX_CPU_NUM_def)
  moreover have "primary two_cores = Core 0" by (simp add: two_cores_def)
  moreover obtain s where "boot_reachable two_cores s" "boot_stuck two_cores s" using boot_stops by blast
  ultimately show ?thesis using boot_completes[of two_cores] by metis
qed

end
