(* ===== verification/Platform_X86.thy ===== *)
theory Platform_X86
  imports Axv_BTreeMap
begin

text \<open>
  The platform code for QEMU's q35 machine, \<^verbatim>\<open>platform/x86-qemu-q35/src\<close>: physical memory (\<open>mem.rs\<close>),
  time (\<open>time.rs\<close>), interrupt controllers (\<open>apic.rs\<close>), the start of the other cores (\<open>mp.rs\<close>), the serial
  console (\<open>console.rs\<close>), power (\<open>power.rs\<close>) and the order of initialization (\<open>init.rs\<close>, \<open>lib.rs\<close>).

  What the code does to the hardware is recorded as a list of commands. The table of interrupt handlers
  (crate \<^verbatim>\<open>handler_table\<close>) and the ratio of \<^verbatim>\<open>int_ratio\<close> are parameters. Arithmetic wraps around, as in a
  release build.
\<close>

unbundle bit_operations_syntax

section \<open>Hardware commands and the state of the platform\<close>

datatype hw_cmd =
    Port_write nat nat
  | Lapic_enable
  | Lapic_timer_oneshot
  | Lapic_timer_div1
  | Lapic_timer_enable
  | Lapic_timer_initial u32
  | Lapic_eoi
  | Lapic_init_ipi u32
  | Lapic_sipi u8 u32
  | Lapic_ipi_self u8
  | Lapic_ipi u8 u32
  | Lapic_ipi_all_other u8
  | Ioapic_enable u8
  | Ioapic_disable u8
  | Busy_wait nat
  | Serial_send u8

record x86_state =
  hw_log :: "hw_cmd list"
  RAM_REGIONS :: "(usize \<times> usize) list option"
  LOCAL_APIC :: bool
  IS_X2APIC :: bool
  IO_APIC :: bool
  INIT_TICK :: u64
  CPU_FREQ_MHZ :: u64
  RTC_EPOCHOFFSET_NANOS :: u64
  lapic_ratio :: "nat \<times> nat"

definition hw :: "hw_cmd \<Rightarrow> x86_state \<Rightarrow> x86_state" where
  "hw c s = s\<lparr>hw_log := hw_log s @ [c]\<rparr>"

section \<open>Physical memory\<close>

definition PHYS_VIRT_OFFSET :: usize where "PHYS_VIRT_OFFSET = 0xffff800000000000"

definition MAX_REGIONS :: nat where "MAX_REGIONS = 16"

definition MMIO_RANGES :: "(usize \<times> usize) list" where
  "MMIO_RANGES = [(0xb0000000, 0x10000000), (0xfe000000, 0xc00000), (0xfec00000, 0x1000), (0xfed00000, 0x1000),
     (0xfee00000, 0x1000), (0x7000000000, 0x4000), (0x380000000000, 0x4000)]"

datatype memory_type = Available | Unavailable

fun push_regions :: "(usize \<times> usize) list \<Rightarrow> (memory_type \<times> u64 \<times> u64) list \<Rightarrow> (usize \<times> usize) list outcome" where
  "push_regions regions [] = Done regions"
| "push_regions regions ((ty, base, len) # rs) =
     (if ty = Available
      then if length regions < MAX_REGIONS then push_regions (regions @ [(base, len)]) rs else Panic ''Vec is full''
      else push_regions regions rs)"

text \<open>\<open>info\<close> is what \<^verbatim>\<open>Multiboot::from_ptr\<close> finds: \<open>None\<close> if there is no header, or no memory map in it.\<close>

definition mem_init :: "(memory_type \<times> u64 \<times> u64) list option option \<Rightarrow> x86_state \<Rightarrow> x86_state outcome" where
  "mem_init info s =
     (case info of
        None \<Rightarrow> Panic ''no multiboot information''
      | Some None \<Rightarrow> Panic ''no memory regions''
      | Some (Some rs) \<Rightarrow> outcome_bind (push_regions [] rs)
          (\<lambda>regions. if RAM_REGIONS s = None then Done (s\<lparr>RAM_REGIONS := Some regions\<rparr>)
                     else Panic ''already initialized''))"

definition phys_ram_ranges :: "x86_state \<Rightarrow> (usize \<times> usize) list outcome" where
  "phys_ram_ranges s = (case RAM_REGIONS s of None \<Rightarrow> Panic ''not initialized'' | Some r \<Rightarrow> Done r)"

definition reserved_phys_ram_ranges :: "(usize \<times> usize) list" where
  "reserved_phys_ram_ranges = [(0, 0x200000)]"

definition mmio_ranges :: "(usize \<times> usize) list" where
  "mmio_ranges = MMIO_RANGES"

definition phys_to_virt :: "usize \<Rightarrow> usize" where
  "phys_to_virt paddr = paddr + PHYS_VIRT_OFFSET"

definition virt_to_phys :: "usize \<Rightarrow> usize" where
  "virt_to_phys vaddr = vaddr - PHYS_VIRT_OFFSET"

definition kernel_aspace :: "usize \<times> usize" where
  "kernel_aspace = (0xffff800000000000, 0x00007ffffffff000)"

section \<open>Time\<close>

definition LAPIC_TICKS_PER_SEC :: nat where "LAPIC_TICKS_PER_SEC = 1000000000"
definition NANOS_PER_SEC :: nat where "NANOS_PER_SEC = 1000000000"
definition TIMER_FREQUENCY :: usize where "TIMER_FREQUENCY = 4000000000"

definition ticks_to_nanos :: "x86_state \<Rightarrow> u64 \<Rightarrow> u64" where
  "ticks_to_nanos s ticks = ticks * 1000 div CPU_FREQ_MHZ s"

definition nanos_to_ticks :: "x86_state \<Rightarrow> u64 \<Rightarrow> u64" where
  "nanos_to_ticks s nanos = nanos * CPU_FREQ_MHZ s div 1000"

text \<open>\<open>freq\<close> is the base frequency that CPUID reports, \<open>tsc\<close> the counter, \<open>rtc\<close> the clock if the feature is on.\<close>

definition time_init_early :: "u16 option \<Rightarrow> u64 \<Rightarrow> u64 option \<Rightarrow> x86_state \<Rightarrow> x86_state" where
  "time_init_early freq tsc rtc s =
     (let s1 = (case freq of Some f \<Rightarrow> if 0 < f then s\<lparr>CPU_FREQ_MHZ := ucast f\<rparr> else s | None \<Rightarrow> s);
          s2 = s1\<lparr>INIT_TICK := tsc\<rparr>
      in case rtc of
           Some t \<Rightarrow> s2\<lparr>RTC_EPOCHOFFSET_NANOS := t * 1000000000 - ticks_to_nanos s2 (INIT_TICK s2)\<rparr>
         | None \<Rightarrow> s2)"

definition time_init_primary :: "x86_state \<Rightarrow> x86_state" where
  "time_init_primary s =
     (hw Lapic_timer_enable (hw Lapic_timer_div1 (hw Lapic_timer_oneshot s)))
       \<lparr>lapic_ratio := (LAPIC_TICKS_PER_SEC, NANOS_PER_SEC)\<rparr>"

definition time_init_secondary :: "x86_state \<Rightarrow> x86_state" where
  "time_init_secondary s = hw Lapic_timer_enable s"

definition current_ticks :: "u64 \<Rightarrow> x86_state \<Rightarrow> u64" where
  "current_ticks tsc s = tsc - INIT_TICK s"

definition epochoffset_nanos :: "x86_state \<Rightarrow> u64" where
  "epochoffset_nanos s = RTC_EPOCHOFFSET_NANOS s"

definition timer_irq_num :: nat where "timer_irq_num = 0xf0"

definition set_oneshot_timer ::
  "(nat \<times> nat \<Rightarrow> u64 \<Rightarrow> u64) \<Rightarrow> u64 \<Rightarrow> u64 \<Rightarrow> x86_state \<Rightarrow> x86_state outcome" where
  "set_oneshot_timer mul_trunc tsc deadline_ns s =
     (let now_ns = ticks_to_nanos s (current_ticks tsc s)
      in if now_ns < deadline_ns
         then let apic_ticks = mul_trunc (lapic_ratio s) (deadline_ns - now_ns)
              in if apic_ticks \<le> 0xffffffff then Done (hw (Lapic_timer_initial (ucast (max apic_ticks 1))) s)
                 else Panic ''assertion failed: apic_ticks <= u32::MAX''
         else Done (hw (Lapic_timer_initial 1) s))"

section \<open>Interrupt controllers\<close>

definition APIC_TIMER_VECTOR :: u8 where "APIC_TIMER_VECTOR = 0xf0"
definition APIC_SPURIOUS_VECTOR :: u8 where "APIC_SPURIOUS_VECTOR = 0xf1"
definition APIC_ERROR_VECTOR :: u8 where "APIC_ERROR_VECTOR = 0xf2"

definition set_enable :: "nat \<Rightarrow> bool \<Rightarrow> x86_state \<Rightarrow> x86_state" where
  "set_enable vector enabled s =
     (if vector < unat APIC_TIMER_VECTOR
      then hw (if enabled then Ioapic_enable (of_nat vector) else Ioapic_disable (of_nat vector)) s
      else s)"

definition raw_apic_id :: "x86_state \<Rightarrow> u8 \<Rightarrow> u32" where
  "raw_apic_id s id_u8 = (if IS_X2APIC s then ucast id_u8 else push_bit 24 (ucast id_u8))"

definition cpu_has_x2apic :: "bool option \<Rightarrow> bool" where
  "cpu_has_x2apic finfo = (case finfo of Some b \<Rightarrow> b | None \<Rightarrow> False)"

definition apic_init_primary :: "bool option \<Rightarrow> x86_state \<Rightarrow> x86_state outcome" where
  "apic_init_primary finfo s =
     (let s1 = hw (Port_write 0xA1 0xff) (hw (Port_write 0x21 0xff) s);
          s2 = (if cpu_has_x2apic finfo then s1\<lparr>IS_X2APIC := True\<rparr> else s1);
          s3 = (hw Lapic_enable s2)\<lparr>LOCAL_APIC := True\<rparr>
      in if IO_APIC s3 then Panic ''already initialized'' else Done (s3\<lparr>IO_APIC := True\<rparr>))"

definition apic_init_secondary :: "x86_state \<Rightarrow> x86_state" where
  "apic_init_secondary s = hw Lapic_enable s"

text \<open>The table of handlers is a parameter; \<open>'t\<close> are its states and \<open>'h\<close> the handlers.\<close>

record ('t, 'h) irq_table =
  register_handler :: "nat \<Rightarrow> 'h \<Rightarrow> 't \<Rightarrow> bool \<times> 't"
  unregister_handler :: "nat \<Rightarrow> 't \<Rightarrow> 'h option \<times> 't"
  find_handler :: "nat \<Rightarrow> 't \<Rightarrow> 'h option"

definition irq_register ::
  "('t, 'h) irq_table \<Rightarrow> nat \<Rightarrow> 'h \<Rightarrow> 't \<times> x86_state \<Rightarrow> bool \<times> 't \<times> x86_state" where
  "irq_register T vector handler st =
     (let (ok, t) = register_handler T vector handler (fst st)
      in if ok then (True, t, set_enable vector True (snd st)) else (False, t, snd st))"

definition irq_unregister ::
  "('t, 'h) irq_table \<Rightarrow> nat \<Rightarrow> 't \<times> x86_state \<Rightarrow> 'h option \<times> 't \<times> x86_state" where
  "irq_unregister T vector st =
     (let s = set_enable vector False (snd st); (h, t) = unregister_handler T vector (fst st)
      in (h, t, s))"

text \<open>\<open>handle\<close> runs the handler, if there is one, and always acknowledges the interrupt.\<close>

definition irq_handle ::
  "('t, 'h) irq_table \<Rightarrow> ('h \<Rightarrow> x86_state \<Rightarrow> x86_state) \<Rightarrow> nat \<Rightarrow> 't \<times> x86_state \<Rightarrow> nat option \<times> x86_state" where
  "irq_handle T run vector st =
     (let s = (case find_handler T vector (fst st) of Some h \<Rightarrow> run h (snd st) | None \<Rightarrow> snd st)
      in (Some vector, hw Lapic_eoi s))"

datatype IpiTarget = Current nat | Other nat | AllExceptCurrent nat nat

definition send_ipi :: "nat \<Rightarrow> IpiTarget \<Rightarrow> x86_state \<Rightarrow> x86_state" where
  "send_ipi irq_num target s =
     (case target of
        Current cpu_id \<Rightarrow> hw (Lapic_ipi_self (of_nat cpu_id)) s
      | Other cpu_id \<Rightarrow> hw (Lapic_ipi (of_nat irq_num) (of_nat cpu_id)) s
      | AllExceptCurrent cpu_id cpu_num \<Rightarrow> hw (Lapic_ipi_all_other (of_nat irq_num)) s)"

section \<open>Starting the other cores\<close>

definition START_PAGE_IDX :: u8 where "START_PAGE_IDX = 6"
definition U64_PER_PAGE :: nat where "U64_PER_PAGE = 512"

text \<open>The page the other core starts from: \<open>code\<close> are the words from \<^verbatim>\<open>ap_start\<close> to \<^verbatim>\<open>ap_end\<close>.\<close>

definition setup_startup_page :: "u64 list \<Rightarrow> u64 \<Rightarrow> u64 \<Rightarrow> u64 list \<Rightarrow> u64 list" where
  "setup_startup_page code entry stack_top page =
     (code @ drop (length code) page)[U64_PER_PAGE - 2 := stack_top, U64_PER_PAGE - 1 := entry]"

definition start_secondary_cpu ::
  "u64 list \<Rightarrow> u64 \<Rightarrow> usize \<Rightarrow> usize \<Rightarrow> u64 list \<times> x86_state \<Rightarrow> u64 list \<times> x86_state" where
  "start_secondary_cpu code entry apic_id stack_top ps =
     (let page = setup_startup_page code entry stack_top (fst ps);
          raw = raw_apic_id (snd ps) (ucast apic_id);
          s1 = hw (Lapic_init_ipi raw) (snd ps);
          s2 = hw (Busy_wait 10000000) s1;
          s3 = hw (Lapic_sipi START_PAGE_IDX raw) s2;
          s4 = hw (Busy_wait 200000) s3;
          s5 = hw (Lapic_sipi START_PAGE_IDX raw) s4
      in (page, s5))"

definition cpu_boot ::
  "u64 list \<Rightarrow> u64 \<Rightarrow> usize \<Rightarrow> usize \<Rightarrow> u64 list \<times> x86_state \<Rightarrow> u64 list \<times> x86_state" where
  "cpu_boot code entry cpu_id stack_top_paddr ps = start_secondary_cpu code entry cpu_id stack_top_paddr ps"

section \<open>Console\<close>

definition putchar :: "u8 \<Rightarrow> x86_state \<Rightarrow> x86_state" where
  "putchar c s = hw (Serial_send c) s"

text \<open>The bytes that have arrived at the serial port are a list.\<close>

definition getchar :: "u8 list \<Rightarrow> u8 option \<times> u8 list" where
  "getchar port = (case port of [] \<Rightarrow> (None, []) | c # cs \<Rightarrow> (Some c, cs))"

fun console_write_bytes :: "u8 list \<Rightarrow> x86_state \<Rightarrow> x86_state" where
  "console_write_bytes [] s = s"
| "console_write_bytes (c # cs) s = console_write_bytes cs (putchar c s)"

function read_bytes_loop :: "nat \<Rightarrow> u8 list \<Rightarrow> u8 list \<Rightarrow> nat \<times> u8 list \<times> u8 list" where
  "read_bytes_loop read_len bytes port =
     (if read_len < length bytes
      then case getchar port of
             (Some c, port') \<Rightarrow> read_bytes_loop (read_len + 1) (bytes[read_len := c]) port'
           | (None, port') \<Rightarrow> (read_len, bytes, port')
      else (read_len, bytes, port))"
  by pat_completeness auto
termination
  by (relation "measure (\<lambda>(n, bs, _). length bs - n)") auto

declare read_bytes_loop.simps [simp del]

definition read_bytes :: "u8 list \<Rightarrow> u8 list \<Rightarrow> nat \<times> u8 list \<times> u8 list" where
  "read_bytes bytes port = read_bytes_loop 0 bytes port"

section \<open>Order of initialization and power\<close>

definition current_cpu_id :: "u8 option \<Rightarrow> nat" where
  "current_cpu_id finfo = (case finfo of Some apic_id \<Rightarrow> unat apic_id | None \<Rightarrow> 0)"

definition MULTIBOOT_BOOTLOADER_MAGIC :: usize where "MULTIBOOT_BOOTLOADER_MAGIC = 0x2BADB002"

text \<open>The entries call into the runtime only with the right magic number; otherwise they return.\<close>

definition rust_entry :: "u8 option \<Rightarrow> usize \<Rightarrow> usize \<Rightarrow> (nat \<times> usize) option" where
  "rust_entry finfo magic mbi =
     (if magic = MULTIBOOT_BOOTLOADER_MAGIC then Some (current_cpu_id finfo, mbi) else None)"

definition rust_entry_secondary :: "u8 option \<Rightarrow> usize \<Rightarrow> nat option" where
  "rust_entry_secondary finfo magic =
     (if magic = MULTIBOOT_BOOTLOADER_MAGIC then Some (current_cpu_id finfo) else None)"

definition plat_init_early ::
  "(memory_type \<times> u64 \<times> u64) list option option \<Rightarrow> u16 option \<Rightarrow> u64 \<Rightarrow> u64 option \<Rightarrow> x86_state \<Rightarrow> x86_state outcome" where
  "plat_init_early info freq tsc rtc s = mem_init info (time_init_early freq tsc rtc s)"

definition plat_init_later :: "bool option \<Rightarrow> x86_state \<Rightarrow> x86_state outcome" where
  "plat_init_later finfo s = outcome_bind (apic_init_primary finfo s) (\<lambda>s1. Done (time_init_primary s1))"

definition plat_init_later_secondary :: "x86_state \<Rightarrow> x86_state" where
  "plat_init_later_secondary s = time_init_secondary (apic_init_secondary s)"

text \<open>With the reboot feature, \<open>system_off\<close> spins until a key arrives (\<open>None\<close>: it never does).\<close>

definition system_off :: "bool \<Rightarrow> u8 list \<Rightarrow> x86_state \<Rightarrow> x86_state option" where
  "system_off reboot port s =
     (if reboot then if fst (getchar port) = None then None else Some (hw (Port_write 0x64 0xfe) s)
      else Some (hw (Port_write 0x604 0x2000) s))"

definition x86_boot_state :: x86_state where
  "x86_boot_state = \<lparr>hw_log = [], RAM_REGIONS = None, LOCAL_APIC = False, IS_X2APIC = False, IO_APIC = False,
     INIT_TICK = 0, CPU_FREQ_MHZ = TIMER_FREQUENCY div 1000000, RTC_EPOCHOFFSET_NANOS = 0, lapic_ratio = (0, 1)\<rparr>"


section \<open>Properties\<close>

lemma phys_virt_inverse: "virt_to_phys (phys_to_virt p) = p" "phys_to_virt (virt_to_phys v) = v"
  by (simp_all add: phys_to_virt_def virt_to_phys_def)

text \<open>Physical memory below the size of the kernel's address space is mapped inside of it.\<close>

lemma phys_in_kernel_aspace:
  assumes "p < snd kernel_aspace"
  shows "fst kernel_aspace \<le> phys_to_virt p \<and> phys_to_virt p - fst kernel_aspace < snd kernel_aspace"
proof -
  have p: "unat p < 0x00007ffffffff000" using assms by (simp add: kernel_aspace_def word_less_nat_alt)
  have o: "unat PHYS_VIRT_OFFSET = 0xffff800000000000" by (simp add: PHYS_VIRT_OFFSET_def)
  have "unat (p + PHYS_VIRT_OFFSET) = unat p + 0xffff800000000000"
    using unat_plus_small[of p PHYS_VIRT_OFFSET] p o by simp
  then have "PHYS_VIRT_OFFSET \<le> p + PHYS_VIRT_OFFSET" using o by (simp add: word_le_nat_alt)
  then show ?thesis using assms
    by (simp add: kernel_aspace_def phys_to_virt_def PHYS_VIRT_OFFSET_def)
qed

definition available :: "(memory_type \<times> u64 \<times> u64) list \<Rightarrow> (usize \<times> usize) list" where
  "available rs = map snd (filter (\<lambda>r. fst r = Available) rs)"

lemma push_regions_eq:
  "length regions \<le> MAX_REGIONS \<Longrightarrow> push_regions regions rs =
     (if length regions + length (available rs) \<le> MAX_REGIONS then Done (regions @ available rs) else Panic ''Vec is full'')"
  by (induction regions rs rule: push_regions.induct) (auto simp: available_def)

text \<open>The memory map is what the boot loader calls available, in its order; a 17th region is a panic.\<close>

lemma mem_init_regions:
  "RAM_REGIONS s = None \<Longrightarrow> mem_init (Some (Some rs)) s =
     (if length (available rs) \<le> MAX_REGIONS then Done (s\<lparr>RAM_REGIONS := Some (available rs)\<rparr>) else Panic ''Vec is full'')"
  by (simp add: mem_init_def push_regions_eq)

subsection \<open>Time\<close>

lemma unat_const_1000 [simp]: "unat (1000 :: u64) = 1000" by simp

lemma ticks_to_nanos_exact:
  "unat t * 1000 < 2 ^ 64 \<Longrightarrow> unat (ticks_to_nanos s t) = unat t * 1000 div unat (CPU_FREQ_MHZ s)"
  using unat_times_small[of t 1000] by (simp add: ticks_to_nanos_def unat_div)

lemma nanos_to_ticks_exact:
  "unat n * unat (CPU_FREQ_MHZ s) < 2 ^ 64 \<Longrightarrow> unat (nanos_to_ticks s n) = unat n * unat (CPU_FREQ_MHZ s) div 1000"
  using unat_times_small[of n "CPU_FREQ_MHZ s"] by (simp add: nanos_to_ticks_def unat_div)

lemma div_mult_bounds:
  fixes t f :: nat
  assumes "0 < f"
  shows "(t * 1000 div f) * f div 1000 \<le> t" "t \<le> (t * 1000 div f) * f div 1000 + f div 1000 + 1"
proof -
  let ?n = "t * 1000 div f"
  have "?n * f \<le> t * 1000" by (rule div_times_less_eq_dividend)
  then have "?n * f div 1000 \<le> t * 1000 div 1000" by (rule div_le_mono)
  then show "?n * f div 1000 \<le> t" by simp
  have "t * 1000 < ?n * f + f" using assms mod_less_divisor[of f "t * 1000"] div_mult_mod_eq[of "t * 1000" f] by linarith
  moreover have "t \<le> x div 1000 + f div 1000 + 1" if "t * 1000 < x + f" for x :: nat
    using that div_mult_mod_eq[of x 1000] mod_less_divisor[of 1000 x] div_mult_mod_eq[of f 1000] mod_less_divisor[of 1000 f]
    by linarith
  ultimately show "t \<le> ?n * f div 1000 + f div 1000 + 1" by blast
qed

text \<open>
  Converting ticks to nanoseconds and back. As long as the product with 1000 fits in 64 bits the
  conversion is exact up to the rounding of one division; there and back it loses at most a thousandth of
  the frequency plus one tick, and never gains. The bound on the ticks is sharp: at the first count beyond
  it the clock jumps back to the time of less than one tick (after 53 days at the built-in 4 GHz).
\<close>

theorem tick_conversion_bounds:
  assumes "0 < CPU_FREQ_MHZ s" and "unat t * 1000 < 2 ^ 64"
  shows "unat (ticks_to_nanos s t) = unat t * 1000 div unat (CPU_FREQ_MHZ s)
    \<and> nanos_to_ticks s (ticks_to_nanos s t) \<le> t
    \<and> unat t \<le> unat (nanos_to_ticks s (ticks_to_nanos s t)) + unat (CPU_FREQ_MHZ s) div 1000 + 1
    \<and> ticks_to_nanos s 18446744073709552 = 384 div CPU_FREQ_MHZ s"
proof -
  have f: "0 < unat (CPU_FREQ_MHZ s)" using assms(1) by (simp add: word_less_nat_alt)
  note n = ticks_to_nanos_exact[OF assms(2), of s]
  have "unat t * 1000 div unat (CPU_FREQ_MHZ s) * unat (CPU_FREQ_MHZ s) \<le> unat t * 1000"
    by (rule div_times_less_eq_dividend)
  then have "unat t * 1000 div unat (CPU_FREQ_MHZ s) * unat (CPU_FREQ_MHZ s) < 2 ^ 64"
    using assms(2) by (rule le_less_trans)
  then have "unat (nanos_to_ticks s (ticks_to_nanos s t)) =
      unat t * 1000 div unat (CPU_FREQ_MHZ s) * unat (CPU_FREQ_MHZ s) div 1000"
    using nanos_to_ticks_exact[of "ticks_to_nanos s t" s] unfolding n by blast
  moreover have "(18446744073709552 :: u64) * 1000 = 384" by simp
  then have "ticks_to_nanos s 18446744073709552 = 384 div CPU_FREQ_MHZ s" unfolding ticks_to_nanos_def by (rule arg_cong)
  ultimately show ?thesis using n div_mult_bounds[OF f, of "unat t"] by (simp add: word_le_nat_alt)
qed


theorem tick_conversion_bounds_witness:
  "0 < CPU_FREQ_MHZ x86_boot_state \<and> unat (123456789 :: u64) * 1000 < 2 ^ 64 \<and>
   unat (ticks_to_nanos x86_boot_state 123456789) = 30864197 \<and>
   nanos_to_ticks x86_boot_state (ticks_to_nanos x86_boot_state 123456789) \<le> 123456789"
proof -
  have f: "CPU_FREQ_MHZ x86_boot_state = 4000" by (simp add: x86_boot_state_def TIMER_FREQUENCY_def)
  then show ?thesis using tick_conversion_bounds[of x86_boot_state 123456789] by simp
qed

text \<open>The clock's frequency is never zero, so that the conversions do not divide by zero.\<close>

lemma freq_positive:
  "0 < CPU_FREQ_MHZ x86_boot_state" "0 < CPU_FREQ_MHZ s \<Longrightarrow> 0 < CPU_FREQ_MHZ (time_init_early freq tsc rtc s)"
proof -
  show "0 < CPU_FREQ_MHZ x86_boot_state" by (simp add: x86_boot_state_def TIMER_FREQUENCY_def)
  have "0 < (ucast f :: u64)" if "0 < f" for f :: u16
    using that by (simp add: word_less_nat_alt unat_ucast_up)
  then show "0 < CPU_FREQ_MHZ s \<Longrightarrow> 0 < CPU_FREQ_MHZ (time_init_early freq tsc rtc s)"
    by (auto simp: time_init_early_def Let_def split: option.splits)
qed

text \<open>
  The wall clock is the monotonic clock plus the epoch offset. At the very moment of the initialization the
  monotonic clock is zero, but the offset already has the ticks since power-on subtracted: the wall clock is
  behind the real-time clock by that time.
\<close>

definition wall_time_nanos :: "u64 \<Rightarrow> x86_state \<Rightarrow> u64" where
  "wall_time_nanos tsc s = ticks_to_nanos s (current_ticks tsc s) + epochoffset_nanos s"

lemma wall_time_behind:
  "wall_time_nanos tsc (time_init_early freq tsc (Some t) s) =
     t * 1000000000 - ticks_to_nanos (time_init_early freq tsc (Some t) s) tsc"
  by (auto simp: wall_time_nanos_def time_init_early_def current_ticks_def epochoffset_nanos_def ticks_to_nanos_def
      Let_def split: option.splits)

text \<open>The law of \<^verbatim>\<open>Ratio::mul_trunc\<close>: multiply by the numerator, divide by the denominator, drop the rest.\<close>

definition ratio_law :: "(nat \<times> nat \<Rightarrow> u64 \<Rightarrow> u64) \<Rightarrow> bool" where
  "ratio_law mul_trunc \<longleftrightarrow> (\<forall>n d v. 0 < d \<and> unat v * n div d < 2 ^ 64 \<longrightarrow> unat (mul_trunc (n, d) v) = unat v * n div d)"

lemma ratio_one:
  assumes "ratio_law mt" "lapic_ratio s = (LAPIC_TICKS_PER_SEC, NANOS_PER_SEC)"
  shows "mt (lapic_ratio s) v = v"
proof -
  have "unat v < 2 ^ LENGTH(64)" by (rule unsigned_less)
  then have "unat (mt (lapic_ratio s) v) = unat v"
    using assms unfolding ratio_law_def
    by (auto simp: LAPIC_TICKS_PER_SEC_def NANOS_PER_SEC_def dest!: spec[of _ "1000000000 :: nat"])
  then show ?thesis by (simp add: word_unat_eq_iff)
qed

text \<open>A one-shot timer is armed iff it is due within \<open>2 ^ 32 - 1\<close> nanoseconds; the count is never zero.\<close>

lemma set_oneshot_timer_eq:
  fixes s defines "now \<equiv> \<lambda>tsc. ticks_to_nanos s (current_ticks tsc s)"
  assumes "ratio_law mt" "lapic_ratio s = (LAPIC_TICKS_PER_SEC, NANOS_PER_SEC)"
  shows "set_oneshot_timer mt tsc d s =
    (if d \<le> now tsc then Done (hw (Lapic_timer_initial 1) s)
     else if unat d - unat (now tsc) < 2 ^ 32 then Done (hw (Lapic_timer_initial (ucast (d - now tsc))) s)
     else Panic ''assertion failed: apic_ticks <= u32::MAX'')"
proof (cases "d \<le> now tsc")
  case True
  then show ?thesis by (simp add: set_oneshot_timer_def Let_def now_def not_less[symmetric])
next
  case False
  then have lt: "now tsc < d" by simp
  then have u: "unat (d - now tsc) = unat d - unat (now tsc)" by (intro unat_minus_le) simp
  have "d - now tsc \<noteq> 0" using lt by auto
  then have "1 \<le> d - now tsc" by (simp add: word_le_nat_alt Suc_le_eq unat_gt_0)
  then have "max (d - now tsc) 1 = d - now tsc" by (rule max_absorb1)
  moreover have "d - now tsc \<le> 0xffffffff \<longleftrightarrow> unat d - unat (now tsc) < 2 ^ 32"
    by (auto simp: word_le_nat_alt u)
  ultimately show ?thesis using lt ratio_one[OF assms(2,3)]
    by (simp add: set_oneshot_timer_def Let_def now_def)
qed


subsection \<open>Interrupts\<close>

text \<open>The lines of the I/O APIC that are enabled after a list of commands.\<close>

fun line_step :: "hw_cmd \<Rightarrow> nat set \<Rightarrow> nat set" where
  "line_step (Ioapic_enable v) L = insert (unat v) L"
| "line_step (Ioapic_disable v) L = L - {unat v}"
| "line_step _ L = L"

definition irq_lines :: "hw_cmd list \<Rightarrow> nat set" where
  "irq_lines l = fold line_step l {}"

text \<open>The documented behaviour of the handler table: 256 slots, and a slot in use is not overwritten.\<close>

definition irq_table_laws :: "('t, 'h) irq_table \<Rightarrow> bool" where
  "irq_table_laws T \<longleftrightarrow>
     (\<forall>v h t ok t'. register_handler T v h t = (ok, t') \<longrightarrow>
        ok = (v < 256 \<and> find_handler T v t = None) \<and>
        (\<forall>u. find_handler T u t' = (if ok \<and> u = v then Some h else find_handler T u t))) \<and>
     (\<forall>v t r t'. unregister_handler T v t = (r, t') \<longrightarrow>
        r = find_handler T v t \<and> (\<forall>u. find_handler T u t' = (if u = v then None else find_handler T u t)))"

lemma irq_registerE:
  assumes "irq_table_laws T" "register_handler T v h t = (ok, t')"
  shows "ok = (v < 256 \<and> find_handler T v t = None)"
    "find_handler T u t' = (if ok \<and> u = v then Some h else find_handler T u t)"
  using assms unfolding irq_table_laws_def by blast+

lemma irq_unregisterE:
  assumes "irq_table_laws T" "unregister_handler T v t = (r, t')"
  shows "r = find_handler T v t" "find_handler T u t' = (if u = v then None else find_handler T u t)"
  using assms unfolding irq_table_laws_def by blast+

lemma irq_lines_hw: "irq_lines (hw_log (hw c s)) = line_step c (irq_lines (hw_log s))"
  by (simp add: irq_lines_def hw_def)

lemma unat_vector: "v < 240 \<Longrightarrow> unat (of_nat v :: u8) = v"
  by (simp add: unat_of_nat take_bit_nat_eq_self)

lemma irq_lines_set_enable:
  "irq_lines (hw_log (set_enable v b s)) =
     (if v < 240 then if b then insert v (irq_lines (hw_log s)) else irq_lines (hw_log s) - {v} else irq_lines (hw_log s))"
  by (simp add: set_enable_def APIC_TIMER_VECTOR_def irq_lines_hw unat_vector)

inductive irq_step :: "('t, 'h) irq_table \<Rightarrow> 't \<times> x86_state \<Rightarrow> 't \<times> x86_state \<Rightarrow> bool" for T where
  irq_step_register: "irq_register T v h st = (ok, st') \<Longrightarrow> irq_step T st st'"
| irq_step_unregister: "irq_unregister T v st = (r, st') \<Longrightarrow> irq_step T st st'"

definition irq_init :: "('t, 'h) irq_table \<Rightarrow> 't \<times> x86_state \<Rightarrow> bool" where
  "irq_init T st \<longleftrightarrow> (\<forall>v. find_handler T v (fst st) = None) \<and> irq_lines (hw_log (snd st)) = {}"

definition irq_inv :: "('t, 'h) irq_table \<Rightarrow> 't \<times> x86_state \<Rightarrow> bool" where
  "irq_inv T st \<longleftrightarrow> irq_table_laws T \<longrightarrow>
     irq_lines (hw_log (snd st)) = {v. v < 240 \<and> find_handler T v (fst st) \<noteq> None}"

lemma irq_step_inv: "irq_step T st st' \<Longrightarrow> irq_inv T st \<Longrightarrow> irq_inv T st'"
proof (induction rule: irq_step.induct)
  case (irq_step_register v h st ok st')
  obtain ok' t where r: "register_handler T v h (fst st) = (ok', t)" by (rule prod.exhaust)
  show ?case unfolding irq_inv_def
  proof
    assume L: "irq_table_laws T"
    show "irq_lines (hw_log (snd st')) = {v. v < 240 \<and> find_handler T v (fst st') \<noteq> None}"
      using irq_step_register L irq_registerE[OF L r]
      by (auto simp: irq_register_def r irq_inv_def irq_lines_set_enable split: if_splits)
  qed
next
  case (irq_step_unregister v st r st')
  obtain r' t where u: "unregister_handler T v (fst st) = (r', t)" by (rule prod.exhaust)
  show ?case unfolding irq_inv_def
  proof
    assume L: "irq_table_laws T"
    show "irq_lines (hw_log (snd st')) = {v. v < 240 \<and> find_handler T v (fst st') \<noteq> None}"
      using irq_step_unregister L irq_unregisterE[OF L u]
      by (auto simp: irq_unregister_def u irq_inv_def irq_lines_set_enable split: if_splits)
  qed
qed

interpretation irqs: transition_system "irq_init T" "irq_step T" "irq_inv T" for T
  by unfold_locales (simp add: irq_init_def irq_inv_def, rule irq_step_inv)

text \<open>
  \<^bold>\<open>C19\<close>: however handlers are registered and unregistered, the lines of the I/O APIC that are enabled are
  exactly the vectors below the local ones (\<open>0xf0\<close>) that have a handler: no device can interrupt without
  a handler, and none with a handler is masked.
\<close>

theorem irq_lines_match_handlers:
  assumes "irq_table_laws T" and "irq_init T st" and "(irq_step T)\<^sup>*\<^sup>* st st'"
  shows "irq_lines (hw_log (snd st')) = {v. v < 240 \<and> find_handler T v (fst st') \<noteq> None}"
  using irqs.reachable_inv[OF assms(2,3)] assms(1) by (simp add: irq_inv_def)

definition map_irq_table :: "(nat \<rightharpoonup> nat, nat) irq_table" where
  "map_irq_table = \<lparr>
     register_handler = (\<lambda>v h t. if v < 256 \<and> t v = None then (True, t(v \<mapsto> h)) else (False, t)),
     unregister_handler = (\<lambda>v t. (t v, t(v := None))),
     find_handler = (\<lambda>v t. t v)\<rparr>"

lemma map_irq_table_laws: "irq_table_laws map_irq_table"
  by (auto simp: irq_table_laws_def map_irq_table_def split: if_splits)

theorem irq_lines_match_handlers_witness:
  "irq_lines (hw_log (snd (snd (irq_register map_irq_table 33 7 (Map.empty, x86_boot_state)))))
     = {v. v < 240 \<and> find_handler map_irq_table v (fst (snd (irq_register map_irq_table 33 7 (Map.empty, x86_boot_state)))) \<noteq> None}
   \<and> fst (irq_register map_irq_table 33 7 (Map.empty, x86_boot_state))"
proof -
  have i: "irq_init map_irq_table (Map.empty, x86_boot_state)"
    by (simp add: irq_init_def map_irq_table_def irq_lines_def x86_boot_state_def)
  have st: "irq_step map_irq_table (Map.empty, x86_boot_state) (snd (irq_register map_irq_table 33 7 (Map.empty, x86_boot_state)))"
    by (rule irq_step_register) (rule surjective_pairing)
  have "fst (irq_register map_irq_table 33 7 (Map.empty, x86_boot_state))"
    by (simp add: irq_register_def map_irq_table_def)
  then show ?thesis
    using irq_lines_match_handlers[OF map_irq_table_laws i r_into_rtranclp[of "irq_step map_irq_table", OF st]] by blast
qed

text \<open>An interrupt that the sender sends to itself arrives with its own core number as the vector.\<close>

lemma ipi_self_wrong_vector: "hw_log (send_ipi irq_num (Current cpu_id) s) = hw_log s @ [Lapic_ipi_self (of_nat cpu_id)]"
  by (simp add: send_ipi_def hw_def)

subsection \<open>Other cores and the console\<close>

text \<open>The started core finds its stack and its entry in the last two words, and the code before them.\<close>

lemma startup_page:
  assumes "length page = U64_PER_PAGE" "length code \<le> U64_PER_PAGE - 2"
  shows "setup_startup_page code entry stack page ! (U64_PER_PAGE - 2) = stack"
    "setup_startup_page code entry stack page ! (U64_PER_PAGE - 1) = entry"
    "take (length code) (setup_startup_page code entry stack page) = code"
    "length (setup_startup_page code entry stack page) = U64_PER_PAGE"
proof -
  have n: "2 < U64_PER_PAGE" by (simp add: U64_PER_PAGE_def)
  have l: "length (code @ drop (length code) page) = U64_PER_PAGE" using assms by simp
  show "setup_startup_page code entry stack page ! (U64_PER_PAGE - 2) = stack"
    "setup_startup_page code entry stack page ! (U64_PER_PAGE - 1) = entry"
    "length (setup_startup_page code entry stack page) = U64_PER_PAGE"
    using n l by (simp_all add: setup_startup_page_def nth_list_update)
  show "take (length code) (setup_startup_page code entry stack page) = code"
    using assms(2) by (simp add: setup_startup_page_def take_update_cancel)
qed

text \<open>Cores are told apart by the low eight bits of their number only.\<close>

lemma raw_apic_id_inj: "raw_apic_id s a = raw_apic_id s b \<longleftrightarrow> a = b"
proof (cases "IS_X2APIC s")
  case True
  have "(ucast a :: u32) = ucast b \<longleftrightarrow> unat a = unat b"
    using unat_ucast_up[of a, where 'b = 32] unat_ucast_up[of b, where 'b = 32] by (simp add: word_unat_eq_iff)
  then show ?thesis using True by (simp add: raw_apic_id_def word_unat_eq_iff)
next
  case False
  have "push_bit 24 (ucast a :: u32) = push_bit 24 (ucast b) \<longleftrightarrow> a = b"
  proof
    assume h: "push_bit 24 (ucast a :: u32) = push_bit 24 (ucast b)"
    have "bit a n = bit b n" if "n < 8" for n
      using arg_cong[OF h, of "\<lambda>w. bit w (n + 24)"] that by (simp add: bit_simps)
    then show "a = b" by (intro bit_word_eqI) simp
  qed simp
  then show ?thesis using False by (simp add: raw_apic_id_def)
qed

lemma write_bytes_log: "hw_log (console_write_bytes cs s) = hw_log s @ map Serial_send cs"
  by (induction cs s rule: console_write_bytes.induct) (auto simp: putchar_def hw_def)

lemma read_bytes_loop_eq:
  "k \<le> length bytes \<Longrightarrow> read_bytes_loop k bytes port =
     (let n = min (length bytes - k) (length port) in (k + n, take k bytes @ take n port @ drop (k + n) bytes, drop n port))"
proof (induction k bytes port rule: read_bytes_loop.induct)
  case (1 k bytes port)
  show ?case
  proof (cases "k < length bytes \<and> port \<noteq> []")
    case True
    then obtain c cs where p: "port = c # cs" by (cases port) auto
    have tk: "take (Suc k) (bytes[k := c]) = take k bytes @ [c]" using True by (simp add: take_Suc_conv_app_nth)
    have "length bytes - k = Suc (length bytes - Suc k)" using True by arith
    then show ?thesis using True p 1 tk
      by (subst read_bytes_loop.simps) (simp add: getchar_def Let_def drop_update_swap)
  next
    case False
    then show ?thesis using 1(2)
      by (subst read_bytes_loop.simps) (auto simp: getchar_def Let_def)
  qed
qed

lemma read_bytes_eq:
  "read_bytes bytes port =
     (let n = min (length bytes) (length port) in (n, take n port @ drop n bytes, drop n port))"
  unfolding read_bytes_def by (subst read_bytes_loop_eq) simp_all

end
