(* ===== verification/Runtime.thy ===== *)
theory Runtime
  imports Boot Platform_X86
begin

text \<open>
  The rest of \<^verbatim>\<open>modules/axruntime/src/lib.rs\<close>: which memory becomes the heap (\<open>init_allocator\<close>), the
  periodic timer (\<open>init_interrupt\<close>), and what log lines are prefixed with (\<open>LogIfImpl\<close>); with the constants of
  \<^verbatim>\<open>modules/axconfig/src/lib.rs\<close> they use. The
  allocator is a parameter: its calls are recorded, and \<open>add_ok\<close> says which additions succeed.
\<close>

section \<open>The heap\<close>

record MemRegion =
  r_paddr :: usize
  r_size :: usize
  r_free :: bool
  r_name :: string

datatype heap_call = Global_init usize usize | Global_add_memory usize usize

text \<open>The first loop: the first free region after \<^verbatim>\<open>.bss\<close>, or else the largest free region.\<close>

fun choose_region :: "bool \<Rightarrow> usize \<Rightarrow> usize \<Rightarrow> MemRegion list \<Rightarrow> usize" where
  "choose_region use_next_free max_size max_paddr [] = max_paddr"
| "choose_region use_next_free max_size max_paddr (r # rs) =
     (if r_name r = ''.bss'' then choose_region True max_size max_paddr rs
      else if r_free r
        then if use_next_free then r_paddr r
             else if max_size < r_size r then choose_region use_next_free (r_size r) (r_paddr r) rs
             else choose_region use_next_free max_size max_paddr rs
      else choose_region use_next_free max_size max_paddr rs)"

fun init_heap :: "(usize \<Rightarrow> usize) \<Rightarrow> usize \<Rightarrow> MemRegion list \<Rightarrow> heap_call list" where
  "init_heap p2v paddr [] = []"
| "init_heap p2v paddr (r # rs) =
     (if r_free r \<and> r_paddr r = paddr then [Global_init (p2v (r_paddr r)) (r_size r)] else init_heap p2v paddr rs)"

fun add_heap :: "(usize \<Rightarrow> usize) \<Rightarrow> (MemRegion \<Rightarrow> bool) \<Rightarrow> usize \<Rightarrow> MemRegion list \<Rightarrow> heap_call list outcome" where
  "add_heap p2v add_ok paddr [] = Done []"
| "add_heap p2v add_ok paddr (r # rs) =
     (if r_free r \<and> r_paddr r \<noteq> paddr
      then if add_ok r
           then outcome_bind (add_heap p2v add_ok paddr rs) (\<lambda>cs. Done (Global_add_memory (p2v (r_paddr r)) (r_size r) # cs))
           else Panic ''add heap memory region failed''
      else add_heap p2v add_ok paddr rs)"

definition init_allocator ::
  "(usize \<Rightarrow> usize) \<Rightarrow> (MemRegion \<Rightarrow> bool) \<Rightarrow> MemRegion list \<Rightarrow> heap_call list outcome" where
  "init_allocator p2v add_ok regions =
     (let max_region_paddr = choose_region False 0 0 regions
      in outcome_bind (add_heap p2v add_ok max_region_paddr regions)
           (\<lambda>cs. Done (init_heap p2v max_region_paddr regions @ cs)))"

section \<open>The periodic timer\<close>

definition TICKS_PER_SEC :: nat where "TICKS_PER_SEC = 100"

definition PERIODIC_INTERVAL_NANOS :: u64 where
  "PERIODIC_INTERVAL_NANOS = of_nat (NANOS_PER_SEC div TICKS_PER_SEC)"

text \<open>\<open>update_timer\<close>: from the time and \<^verbatim>\<open>NEXT_DEADLINE\<close>, the deadline to arm and the new \<^verbatim>\<open>NEXT_DEADLINE\<close>.\<close>

definition update_timer :: "u64 \<Rightarrow> u64 \<Rightarrow> u64 \<times> u64" where
  "update_timer now_ns next_deadline =
     (let deadline = (if next_deadline \<le> now_ns then now_ns + PERIODIC_INTERVAL_NANOS else next_deadline)
      in (deadline, deadline + PERIODIC_INTERVAL_NANOS))"

section \<open>Prefixes of log lines\<close>

definition log_current_cpu_id :: "boot_env \<Rightarrow> boot_state \<Rightarrow> nat \<Rightarrow> nat option" where
  "log_current_cpu_id E s this_cpu_id =
     (if f_smp (be_features E) then if is_init_ok E s then Some this_cpu_id else None else Some 0)"

definition log_current_task_id :: "boot_env \<Rightarrow> boot_state \<Rightarrow> u64 option \<Rightarrow> u64 option" where
  "log_current_task_id E s current_may_uninit =
     (if is_init_ok E s then if f_multitask (be_features E) then current_may_uninit else None else None)"


section \<open>Every free region becomes heap\<close>

lemma choose_region_late:
  "\<exists>r \<in> set rs. r_free r \<Longrightarrow> \<forall>r \<in> set rs. r_free r \<longrightarrow> r_name r \<noteq> ''.bss'' \<Longrightarrow>
   choose_region True ms mp rs = r_paddr (hd (filter r_free rs))"
  by (induction rs arbitrary: ms mp) auto

text \<open>Without a free region after \<^verbatim>\<open>.bss\<close> the choice is the running maximum.\<close>

lemma choose_region_max:
  assumes "\<forall>r \<in> set rs. r_free r \<longrightarrow> r_name r \<noteq> ''.bss''"
    and "\<not> u \<or> (\<forall>r \<in> set rs. \<not> r_free r)"
    and "\<And>as b cs. rs = as @ b # cs \<Longrightarrow> r_name b = ''.bss'' \<Longrightarrow> \<forall>r \<in> set cs. \<not> r_free r"
  shows "(choose_region u ms mp rs = mp \<and> (\<forall>r \<in> set rs. r_free r \<longrightarrow> r_size r \<le> ms)) \<or>
    (\<exists>r \<in> set rs. r_free r \<and> choose_region u ms mp rs = r_paddr r \<and> ms < r_size r \<and>
       (\<forall>x \<in> set rs. r_free x \<longrightarrow> r_size x \<le> r_size r))"
  using assms
proof (induction rs arbitrary: u ms mp)
  case (Cons a rs)
  have later: "\<And>as b cs. rs = as @ b # cs \<Longrightarrow> r_name b = ''.bss'' \<Longrightarrow> \<forall>r \<in> set cs. \<not> r_free r"
    using Cons.prems(3)[of "a # _"] by simp
  show ?case
  proof (cases "r_name a = ''.bss''")
    case True
    then have none: "\<forall>r \<in> set rs. \<not> r_free r" "\<not> r_free a" using Cons.prems(3)[of "[]" a rs] Cons.prems(1) by auto
    then show ?thesis using Cons.IH[of True ms mp] Cons.prems(1) later True by auto
  next
    case False
    show ?thesis
    proof (cases "r_free a \<and> ms < r_size a")
      case True
      then have u: "\<not> u" using Cons.prems(2) by auto
      then have eq: "choose_region u ms mp (a # rs) = choose_region u (r_size a) (r_paddr a) rs" using True False by simp
      have ih: "(choose_region u (r_size a) (r_paddr a) rs = r_paddr a \<and> (\<forall>r \<in> set rs. r_free r \<longrightarrow> r_size r \<le> r_size a)) \<or>
        (\<exists>r \<in> set rs. r_free r \<and> choose_region u (r_size a) (r_paddr a) rs = r_paddr r \<and> r_size a < r_size r \<and>
           (\<forall>x \<in> set rs. r_free x \<longrightarrow> r_size x \<le> r_size r))"
        by (rule Cons.IH) (use Cons.prems(1) u later in auto)
      then show ?thesis unfolding eq using True by (auto intro: less_imp_le order.strict_trans)
    next
      case no: False
      then have eq: "choose_region u ms mp (a # rs) = choose_region u ms mp rs"
        using False Cons.prems(2) by auto
      have ih: "(choose_region u ms mp rs = mp \<and> (\<forall>r \<in> set rs. r_free r \<longrightarrow> r_size r \<le> ms)) \<or>
        (\<exists>r \<in> set rs. r_free r \<and> choose_region u ms mp rs = r_paddr r \<and> ms < r_size r \<and>
           (\<forall>x \<in> set rs. r_free x \<longrightarrow> r_size x \<le> r_size r))"
        by (rule Cons.IH) (use Cons.prems(1,2) later in auto)
      then show ?thesis unfolding eq using no by (auto intro: order.trans less_imp_le)
    qed
  qed
qed simp


lemma choose_region_after_bss:
  assumes "\<exists>r \<in> set cs. r_free r" "\<forall>r \<in> set cs. r_free r \<longrightarrow> r_name r \<noteq> ''.bss''"
    and "\<forall>a \<in> set as. r_name a \<noteq> ''.bss''" "r_name b = ''.bss''"
  shows "choose_region False ms mp (as @ b # cs) = r_paddr (hd (filter r_free cs))"
  using assms(3)
proof (induction "as" arbitrary: ms mp)
  case Nil
  then show ?case using choose_region_late[OF assms(1,2)] assms(4) by simp
qed auto

definition first_bss :: "MemRegion list \<Rightarrow> MemRegion list" where
  "first_bss rs = drop 1 (dropWhile (\<lambda>r. r_name r \<noteq> ''.bss'') rs)"

text \<open>The region that \<open>init_allocator\<close> is after.\<close>

definition is_heap_region :: "MemRegion list \<Rightarrow> MemRegion \<Rightarrow> bool" where
  "is_heap_region rs r \<longleftrightarrow>
     (if \<exists>x \<in> set (first_bss rs). r_free x then r = hd (filter r_free (first_bss rs))
      else r \<in> set rs \<and> r_free r \<and> (\<forall>x \<in> set rs. r_free x \<longrightarrow> r_size x \<le> r_size r))"

lemma choose_region_heap:
  assumes ex: "\<exists>r \<in> set rs. r_free r" and bss: "\<forall>r \<in> set rs. r_free r \<longrightarrow> r_name r \<noteq> ''.bss'' \<and> 0 < r_size r"
  shows "\<exists>r \<in> set rs. r_free r \<and> choose_region False 0 0 rs = r_paddr r \<and> is_heap_region rs r"
proof -
  let ?P = "\<lambda>r. r_name r \<noteq> ''.bss''"
  show ?thesis
  proof (cases "\<exists>x \<in> set (first_bss rs). r_free x")
    case True
    then have "dropWhile ?P rs \<noteq> []" unfolding first_bss_def by (metis drop_Nil empty_iff empty_set)
    then obtain b cs where d: "dropWhile ?P rs = b # cs" by (cases "dropWhile ?P rs") auto
    then have b: "r_name b = ''.bss''" using hd_dropWhile[of ?P rs] by simp
    have rs: "rs = takeWhile ?P rs @ b # cs" using takeWhile_dropWhile_id[of ?P rs] d by simp
    have cs: "first_bss rs = cs" by (simp add: first_bss_def d)
    have sub: "set cs \<subseteq> set rs" using arg_cong[OF rs, of set] by auto
    have eq: "choose_region False 0 0 (takeWhile ?P rs @ b # cs) = r_paddr (hd (filter r_free cs))"
      by (rule choose_region_after_bss) (use True cs sub bss b in \<open>auto dest: set_takeWhileD\<close>)
    have "filter r_free cs \<noteq> []" using True cs by (auto simp: filter_empty_conv)
    then have "hd (filter r_free cs) \<in> set (filter r_free cs)" by (rule hd_in_set)
    then show ?thesis using eq rs sub True cs by (intro bexI[of _ "hd (filter r_free cs)"]) (auto simp: is_heap_region_def)
  next
    case False
    have none: "\<forall>r \<in> set cs. \<not> r_free r" if "rs = as @ b # cs" "r_name b = ''.bss''" for as b cs
    proof -
      have "set cs \<subseteq> set (first_bss rs)"
      proof (cases "dropWhile ?P as")
        case Nil
        then have "dropWhile ?P rs = b # cs" unfolding that(1) using that(2)
          by (subst dropWhile_append) (auto simp: dropWhile_eq_Nil_conv)
        then have "first_bss rs = cs" by (simp add: first_bss_def)
        then show ?thesis by simp
      next
        case (Cons y ys)
        then have "\<not> (\<forall>a \<in> set as. ?P a)" using dropWhile_eq_Nil_conv[of ?P as] by simp
        then have "dropWhile ?P rs = y # ys @ b # cs" unfolding that(1) by (subst dropWhile_append) (auto simp: Cons)
        then have "first_bss rs = ys @ b # cs" by (simp add: first_bss_def)
        then show ?thesis by auto
      qed
      then show ?thesis using False by auto
    qed
    have "\<not> (\<forall>r \<in> set rs. r_free r \<longrightarrow> r_size r \<le> 0)" 
      using ex bss by (auto dest!: bspec simp: word_neq_0_conv)
    moreover have "\<forall>r \<in> set rs. r_free r \<longrightarrow> r_name r \<noteq> ''.bss''" using bss by blast
    moreover have "(choose_region False 0 0 rs = 0 \<and> (\<forall>r \<in> set rs. r_free r \<longrightarrow> r_size r \<le> 0)) \<or>
      (\<exists>r \<in> set rs. r_free r \<and> choose_region False 0 0 rs = r_paddr r \<and> 0 < r_size r \<and>
       (\<forall>x \<in> set rs. r_free x \<longrightarrow> r_size x \<le> r_size r))"
      by (rule choose_region_max) (use bss none in auto)
    ultimately have "\<exists>r \<in> set rs. r_free r \<and> choose_region False 0 0 rs = r_paddr r \<and> (\<forall>x \<in> set rs. r_free x \<longrightarrow> r_size x \<le> r_size r)"
      by blast
    then show ?thesis using False by (auto simp: is_heap_region_def)
  qed
qed

lemma add_heap_eq:
  "\<forall>r \<in> set rs. r_free r \<longrightarrow> add_ok r \<Longrightarrow> add_heap p2v add_ok p rs =
     Done (map (\<lambda>x. Global_add_memory (p2v (r_paddr x)) (r_size x)) (filter (\<lambda>x. r_free x \<and> r_paddr x \<noteq> p) rs))"
  by (induction rs) auto

lemma init_heap_eq:
  "distinct (map r_paddr (filter r_free rs)) \<Longrightarrow> r \<in> set rs \<Longrightarrow> r_free r \<Longrightarrow>
   init_heap p2v (r_paddr r) rs = [Global_init (p2v (r_paddr r)) (r_size r)]"
  by (induction rs) (auto split: if_splits simp: image_iff)

text \<open>
  \<^bold>\<open>C17\<close>: all free memory becomes heap, each region exactly once. The allocator is initialized with the first
  free region after \<^verbatim>\<open>.bss\<close>, or the largest free one if there is none, and the others are added in order.
\<close>

theorem heap_is_all_free_memory:
  assumes "\<exists>r \<in> set rs. r_free r" and "\<forall>r \<in> set rs. r_free r \<longrightarrow> r_name r \<noteq> ''.bss'' \<and> 0 < r_size r \<and> add_ok r"
    and "distinct (map r_paddr (filter r_free rs))"
  shows "\<exists>r \<in> set rs. r_free r \<and> is_heap_region rs r \<and> init_allocator p2v add_ok rs =
    Done (Global_init (p2v (r_paddr r)) (r_size r) #
      map (\<lambda>x. Global_add_memory (p2v (r_paddr x)) (r_size x)) (filter (\<lambda>x. r_free x \<and> x \<noteq> r) rs))"
proof -
  obtain r where r: "r \<in> set rs" "r_free r" "choose_region False 0 0 rs = r_paddr r" "is_heap_region rs r"
    using choose_region_heap[OF assms(1)] assms(2) by blast
  have "r_paddr x \<noteq> r_paddr r \<longleftrightarrow> x \<noteq> r" if "x \<in> set rs" "r_free x" for x
    using assms(3) that r(1,2) by (auto simp: distinct_map inj_on_def)
  then have "filter (\<lambda>x. r_free x \<and> r_paddr x \<noteq> r_paddr r) rs = filter (\<lambda>x. r_free x \<and> x \<noteq> r) rs"
    by (intro filter_cong) auto
  then have "init_allocator p2v add_ok rs =
    Done (Global_init (p2v (r_paddr r)) (r_size r) #
      map (\<lambda>x. Global_add_memory (p2v (r_paddr x)) (r_size x)) (filter (\<lambda>x. r_free x \<and> x \<noteq> r) rs))"
    using add_heap_eq[of rs add_ok p2v "r_paddr r"] init_heap_eq[OF assms(3) r(1,2), of p2v] assms(2) r(3)
    by (simp add: init_allocator_def Let_def)
  then show ?thesis using r by blast
qed

definition sample_regions :: "MemRegion list" where
  "sample_regions = [\<lparr>r_paddr = 0x1000, r_size = 0x90000, r_free = True, r_name = ''free memory''\<rparr>,
     \<lparr>r_paddr = 0x200000, r_size = 0x10000, r_free = False, r_name = ''.text''\<rparr>,
     \<lparr>r_paddr = 0x210000, r_size = 0x8000, r_free = False, r_name = ''.bss''\<rparr>,
     \<lparr>r_paddr = 0x218000, r_size = 0x40000, r_free = True, r_name = ''free memory''\<rparr>]"

theorem heap_is_all_free_memory_witness:
  "\<exists>r \<in> set sample_regions. r_free r \<and> is_heap_region sample_regions r \<and> init_allocator phys_to_virt (\<lambda>_. True) sample_regions =
    Done (Global_init (phys_to_virt (r_paddr r)) (r_size r) #
      map (\<lambda>x. Global_add_memory (phys_to_virt (r_paddr x)) (r_size x)) (filter (\<lambda>x. r_free x \<and> x \<noteq> r) sample_regions))"
  by (rule heap_is_all_free_memory) (simp_all add: sample_regions_def)


section \<open>The periodic timer never trips the assertion of the platform\<close>

text \<open>
  The states \<open>(NEXT_DEADLINE, deadline armed last)\<close> of a core: a timer interrupt comes at the armed deadline
  or later, and the time is away from the end of the 64-bit range.
\<close>

definition in_range :: "u64 \<Rightarrow> bool" where
  "in_range now \<longleftrightarrow> unat now + 20000000 < 2 ^ 64"

inductive timer_reach :: "u64 \<Rightarrow> u64 \<Rightarrow> bool" where
  timer_start: "timer_reach 0 0"
| timer_tick: "timer_reach nd d \<Longrightarrow> d \<le> now \<Longrightarrow> in_range now \<Longrightarrow> update_timer now nd = (d', nd') \<Longrightarrow> timer_reach nd' d'"

lemma unat_interval: "unat PERIODIC_INTERVAL_NANOS = 10000000"
  by (simp add: PERIODIC_INTERVAL_NANOS_def NANOS_PER_SEC_def TICKS_PER_SEC_def)

lemma update_timer_unat:
  assumes "in_range now" "unat nd \<le> unat now + 10000000" "update_timer now nd = (d', nd')"
  shows "unat now < unat d'" "unat d' \<le> unat now + 10000000" "unat nd' = unat d' + 10000000"
proof -
  have a: "unat (now + PERIODIC_INTERVAL_NANOS) = unat now + 10000000"
    using unat_plus_small[of now PERIODIC_INTERVAL_NANOS] assms(1) by (simp add: in_range_def unat_interval)
  then have d: "unat now < unat d' \<and> unat d' \<le> unat now + 10000000"
    using assms(2,3) by (auto simp: update_timer_def Let_def word_le_nat_alt split: if_splits)
  then show "unat now < unat d'" "unat d' \<le> unat now + 10000000" by simp_all
  have "nd' = d' + PERIODIC_INTERVAL_NANOS" using assms(3) by (auto simp: update_timer_def Let_def)
  then show "unat nd' = unat d' + 10000000"
    using unat_plus_small[of d' PERIODIC_INTERVAL_NANOS] d assms(1) by (simp add: in_range_def unat_interval)
qed

lemma timer_reach_bound: "timer_reach nd d \<Longrightarrow> unat nd \<le> unat d + 10000000"
proof (induction rule: timer_reach.induct)
  case (timer_tick nd d now d' nd')
  then have "unat nd \<le> unat now + 10000000" by (simp add: word_le_nat_alt)
  then show ?case using update_timer_unat(3)[OF timer_tick(3) _ timer_tick(4)] by simp
qed simp


definition exact_ratio :: "nat \<times> nat \<Rightarrow> u64 \<Rightarrow> u64" where
  "exact_ratio r v = of_nat (unat v * fst r div snd r)"

lemma exact_ratio_law: "ratio_law exact_ratio"
  by (simp add: ratio_law_def exact_ratio_def unat_of_nat take_bit_nat_eq_self)


end
