(* ===== verification/Hal.thy ===== *)
theory Hal
  imports VCpus Platform_X86
begin

text \<open>
  The hardware abstraction of the hypervisor: \<^verbatim>\<open>kernel/src/hal/mod.rs\<close> (what the VM and vCPU libraries call
  back), \<^verbatim>\<open>with_vm_and_vcpu_on_pcpu\<close> of \<^verbatim>\<open>kernel/src/vmm/mod.rs\<close>, the access to the current task in
  \<^verbatim>\<open>kernel/src/task.rs\<close>, and the interrupt controller code of \<^verbatim>\<open>kernel/src/hal/arch/aarch64\<close>.

  Parameters: the allocator, the injection method of the vCPU object, the processor a task is on, and which
  VM objects are still referenced. The list registers of the GIC are a list; the register \<^verbatim>\<open>ICH_ELRSR_EL2\<close>, which
  the hardware derives from them, is a word that comes with its law.
\<close>

unbundle bit_operations_syntax

section \<open>The current task\<close>

text \<open>\<open>cur\<close> is the current task, if it is a vCPU task.\<close>

definition as_vcpu_task :: "nat option \<Rightarrow> 'v vmm_state \<Rightarrow> VCpuTask outcome" where
  "as_vcpu_task cur st = (case cur of None \<Rightarrow> Panic ''Not a VCpuTask'' | Some t \<Rightarrow> Done (tasks st ! t))"

definition VCpuTask_vm :: "(nat \<Rightarrow> bool) \<Rightarrow> VCpuTask \<Rightarrow> nat outcome" where
  "VCpuTask_vm alive t = (if alive (task_vm t) then Done (task_vm t) else Panic ''VM has been dropped'')"

definition hal_current_vm_id :: "'v axvm \<Rightarrow> (nat \<Rightarrow> bool) \<Rightarrow> nat option \<Rightarrow> 'v vmm_state \<Rightarrow> usize outcome" where
  "hal_current_vm_id A alive cur st =
     outcome_bind (as_vcpu_task cur st) (\<lambda>t.
     outcome_bind (VCpuTask_vm alive t) (\<lambda>vm. Done (ax_id A (vms st vm))))"

definition hal_current_vcpu_id :: "nat option \<Rightarrow> 'v vmm_state \<Rightarrow> nat outcome" where
  "hal_current_vcpu_id cur st = outcome_bind (as_vcpu_task cur st) (\<lambda>t. Done (task_vcpu t))"

definition vcpu_resides_on :: "(nat \<Rightarrow> usize) \<Rightarrow> usize \<Rightarrow> nat \<Rightarrow> 'v vmm_state \<Rightarrow> usize ax_result outcome" where
  "vcpu_resides_on cpu_of vmid vcpu_id st =
     outcome_bind (with_vcpu_task vmid vcpu_id cpu_of st) (\<lambda>r. Done (ok_or NotFound r))"

section \<open>Interrupts for a vCPU\<close>

definition vm_vcpu :: "'v axvm \<Rightarrow> 'v vmm_state \<Rightarrow> nat \<Rightarrow> nat \<Rightarrow> nat option" where
  "vm_vcpu A st vm vcpu_id = (if vcpu_id < length (ax_vcpu_states A (vms st vm)) then Some vcpu_id else None)"

text \<open>The closure \<open>f\<close> gets the VM object and the vCPU, and may panic.\<close>

definition with_vm_and_vcpu_on_pcpu ::
  "'v axvm \<Rightarrow> (nat \<Rightarrow> bool) \<Rightarrow> nat option \<Rightarrow> (nat \<Rightarrow> usize) \<Rightarrow> usize \<Rightarrow> nat
   \<Rightarrow> (nat \<Rightarrow> nat \<Rightarrow> 'v vmm_state \<Rightarrow> 'v vmm_state outcome) \<Rightarrow> 'v vmm_state
   \<Rightarrow> (unit ax_result \<times> 'v vmm_state) outcome" where
  "with_vm_and_vcpu_on_pcpu A alive cur cpu_of vmid vcpu_id f st =
     outcome_bind (hal_current_vm_id A alive cur st) (\<lambda>current_vm.
     outcome_bind (hal_current_vcpu_id cur st) (\<lambda>current_vcpu.
       if current_vm = vmid \<and> current_vcpu = vcpu_id
       then (case get_vm_by_id vmid (GLOBAL_VM_LIST st) of
               None \<Rightarrow> Panic unwrap_none
             | Some vm \<Rightarrow>
                 (case vm_vcpu A st vm vcpu_id of
                    None \<Rightarrow> Panic unwrap_none
                  | Some vcpu \<Rightarrow> outcome_bind (f vm vcpu st) (\<lambda>st'. Done (Inr (), st'))))
       else outcome_bind (with_vcpu_task vmid vcpu_id cpu_of st) (\<lambda>r.
              case r of None \<Rightarrow> Done (Inl NotFound, st) | Some pcpu_id \<Rightarrow> Panic ''not implemented'')))"

text \<open>\<open>inject vm vcpu irq\<close> is the method of the vCPU object.\<close>

definition inject_irq_to_vcpu ::
  "'v axvm \<Rightarrow> (nat \<Rightarrow> bool) \<Rightarrow> nat option \<Rightarrow> (nat \<Rightarrow> usize)
   \<Rightarrow> (nat \<Rightarrow> nat \<Rightarrow> usize \<Rightarrow> 'v vmm_state \<Rightarrow> unit ax_result \<times> 'v vmm_state)
   \<Rightarrow> usize \<Rightarrow> nat \<Rightarrow> usize \<Rightarrow> 'v vmm_state \<Rightarrow> (unit ax_result \<times> 'v vmm_state) outcome" where
  "inject_irq_to_vcpu A alive cur cpu_of inject vmid vcpu_id irq st =
     with_vm_and_vcpu_on_pcpu A alive cur cpu_of vmid vcpu_id
       (\<lambda>vm vcpu st. case inject vm vcpu irq st of (Inr u, st') \<Rightarrow> Done st' | (Inl e, st') \<Rightarrow> Panic ''unwrap on Err'') st"

definition api_inject_interrupt ::
  "'v axvm \<Rightarrow> (nat \<Rightarrow> bool) \<Rightarrow> nat option \<Rightarrow> (nat \<Rightarrow> usize)
   \<Rightarrow> (nat \<Rightarrow> nat \<Rightarrow> usize \<Rightarrow> 'v vmm_state \<Rightarrow> unit ax_result \<times> 'v vmm_state)
   \<Rightarrow> usize \<Rightarrow> nat \<Rightarrow> u8 \<Rightarrow> 'v vmm_state \<Rightarrow> 'v vmm_state outcome" where
  "api_inject_interrupt A alive cur cpu_of inject vmid vcpu_id vector st =
     outcome_bind (inject_irq_to_vcpu A alive cur cpu_of inject vmid vcpu_id (ucast vector) st)
       (\<lambda>(r, st'). case r of Inr u \<Rightarrow> Done st' | Inl e \<Rightarrow> Panic ''unwrap on Err'')"

definition api_vcpu_num :: "'v axvm \<Rightarrow> usize \<Rightarrow> 'v vmm_state \<Rightarrow> nat option" where
  "api_vcpu_num A vmid st = with_vm vmid (\<lambda>vm. length (ax_vcpu_states A (vms st vm))) (GLOBAL_VM_LIST st)"

definition api_active_vcpus :: "usize \<Rightarrow> nat option outcome" where
  "api_active_vcpus vmid = Panic ''not yet implemented: active_vcpus''"

definition api_notify_vcpu_timer_expired :: "usize \<Rightarrow> nat \<Rightarrow> unit outcome" where
  "api_notify_vcpu_timer_expired vmid vcpu_id = Panic ''not yet implemented: notify_vcpu_timer_expired''"

section \<open>Contiguous frames\<close>

definition PAGE_SIZE_4K :: usize where "PAGE_SIZE_4K = 0x1000"

text \<open>\<^verbatim>\<open>Layout::from_size_align(..).unwrap()\<close>: the alignment is a power of two, and the size rounded up to it
  fits in an \<^verbatim>\<open>isize\<close>.\<close>

definition from_size_align :: "usize \<Rightarrow> usize \<Rightarrow> (usize \<times> usize) outcome" where
  "from_size_align sz align =
     (if align \<noteq> 0 \<and> align AND (align - 1) = 0 \<and> unat sz \<le> 2 ^ 63 - unat align then Done (sz, align)
      else Panic ''unwrap on LayoutError'')"

record 'h heap_ops =
  heap_alloc :: "usize \<times> usize \<Rightarrow> 'h \<Rightarrow> usize option \<times> 'h"
  heap_dealloc :: "usize \<Rightarrow> usize \<times> usize \<Rightarrow> 'h \<Rightarrow> 'h"

definition alloc_contiguous_frames :: "'h heap_ops \<Rightarrow> usize \<Rightarrow> nat \<Rightarrow> 'h \<Rightarrow> (usize option \<times> 'h) outcome" where
  "alloc_contiguous_frames H num_frames frame_align_pow2 h =
     outcome_bind (from_size_align (num_frames * PAGE_SIZE_4K) (push_bit (frame_align_pow2 mod 64) PAGE_SIZE_4K))
       (\<lambda>layout. Done (heap_alloc H layout h))"

definition dealloc_contiguous_frames :: "'h heap_ops \<Rightarrow> usize \<Rightarrow> usize \<Rightarrow> 'h \<Rightarrow> 'h outcome" where
  "dealloc_contiguous_frames H paddr num_frames h =
     outcome_bind (from_size_align (num_frames * PAGE_SIZE_4K) PAGE_SIZE_4K) (\<lambda>layout. Done (heap_dealloc H paddr layout h))"

section \<open>Injection through the GIC\<close>

datatype lr_state = LrInvalid | LrPending | LrActive | LrPendingActive

record ich_lr =
  lr_vintid :: u64
  lr_state :: lr_state
  lr_group :: bool

definition free_lr_elrsr :: "u64 \<Rightarrow> nat \<Rightarrow> nat option" where
  "free_lr_elrsr elsr lr_num = List.find (\<lambda>i. bit elsr i) [0..<lr_num]"

definition free_lr_invalid :: "ich_lr list \<Rightarrow> nat option" where
  "free_lr_invalid lrs = List.find (\<lambda>i. lr_state (lrs ! i) = LrInvalid) [0..<length lrs]"

record gicv3 =
  ich_lrs :: "ich_lr list"
  ich_elrsr :: u64
  ich_hcr_en :: bool

definition pending_lr :: "u64 \<Rightarrow> ich_lr" where
  "pending_lr vector = \<lparr>lr_vintid = take_bit 32 vector, lr_state = LrPending, lr_group = True\<rparr>"

text \<open>
  \<open>inject_interrupt_gic_v3\<close>. The first loop looks for a free register; the test for an interrupt that is already
  pending or active only continues the loop, and so has no effect.
\<close>

definition inject_interrupt_gic_v3 :: "u64 \<Rightarrow> gicv3 \<Rightarrow> gicv3 outcome" where
  "inject_interrupt_gic_v3 vector g =
     (let free_lr = (case free_lr_elrsr (ich_elrsr g) (length (ich_lrs g)) of
                       Some i \<Rightarrow> Some i
                     | None \<Rightarrow> free_lr_invalid (ich_lrs g))
      in case free_lr of
           None \<Rightarrow> Panic ''No free list register to inject IRQ''
         | Some i \<Rightarrow> Done (g\<lparr>ich_lrs := (ich_lrs g)[i := pending_lr vector], ich_hcr_en := True\<rparr>))"

text \<open>GICv2: always the first list register. \<open>gich_lrs\<close> are the pending interrupts by register.\<close>

record gicv2 =
  gich_enabled :: bool
  gich_lrs :: "u32 option list"

definition inject_interrupt_gic_v2 :: "u64 \<Rightarrow> gicv2 \<Rightarrow> gicv2" where
  "inject_interrupt_gic_v2 irq g = g\<lparr>gich_enabled := True, gich_lrs := (gich_lrs g)[0 := Some (ucast irq)]\<rparr>"

datatype gic_driver = GicV2 "gicv2 option" | GicV3 gicv3 | OtherIntc

definition inject_interrupt :: "u64 \<Rightarrow> gic_driver option \<Rightarrow> gic_driver outcome" where
  "inject_interrupt irq gic =
     (case gic of
        None \<Rightarrow> Panic ''Failed to get GIC driver''
      | Some (GicV2 None) \<Rightarrow> Panic ''Failed to get GICH''
      | Some (GicV2 (Some g)) \<Rightarrow> Done (GicV2 (Some (inject_interrupt_gic_v2 irq g)))
      | Some (GicV3 g) \<Rightarrow> outcome_bind (inject_interrupt_gic_v3 irq g) (\<lambda>g'. Done (GicV3 g'))
      | Some OtherIntc \<Rightarrow> Panic ''no gic driver found'')"

definition hardware_inject_virtual_interrupt :: "u8 \<Rightarrow> gic_driver option \<Rightarrow> gic_driver outcome" where
  "hardware_inject_virtual_interrupt irq gic = inject_interrupt (ucast irq) gic"

section \<open>Reading the host's GIC\<close>

record gic_regs =
  typer_raw :: u32
  iidr_raw :: u32
  gicd_addr :: usize
  gicr_addr :: usize

datatype gic_kind = KindV2 | KindV3 | KindOther

definition gic_read ::
  "(gic_kind \<Rightarrow> bool) \<Rightarrow> (gic_regs \<Rightarrow> 'a) \<Rightarrow> string \<Rightarrow> (gic_kind \<times> gic_regs) option \<Rightarrow> 'a outcome" where
  "gic_read kinds field msg gic =
     (case gic of
        None \<Rightarrow> Panic ''Failed to get GIC driver''
      | Some (k, r) \<Rightarrow> if kinds k then Done (field r) else Panic msg)"

definition read_vgicd_typer :: "(gic_kind \<times> gic_regs) option \<Rightarrow> u32 outcome" where
  "read_vgicd_typer = gic_read (\<lambda>k. k = KindV2 \<or> k = KindV3) typer_raw ''No GIC driver found''"

definition read_vgicd_iidr :: "(gic_kind \<times> gic_regs) option \<Rightarrow> u32 outcome" where
  "read_vgicd_iidr = gic_read (\<lambda>k. k = KindV2 \<or> k = KindV3) iidr_raw ''No GIC driver found''"

definition get_host_gicd_base :: "(usize \<Rightarrow> usize) \<Rightarrow> (gic_kind \<times> gic_regs) option \<Rightarrow> usize outcome" where
  "get_host_gicd_base v2p = gic_read (\<lambda>k. k = KindV2 \<or> k = KindV3) (\<lambda>r. v2p (gicd_addr r)) ''No GIC driver found''"

definition get_host_gicr_base :: "(usize \<Rightarrow> usize) \<Rightarrow> (gic_kind \<times> gic_regs) option \<Rightarrow> usize outcome" where
  "get_host_gicr_base v2p = gic_read (\<lambda>k. k = KindV3) (\<lambda>r. v2p (gicr_addr r)) ''No GICv3 driver found''"

section \<open>Levels of the guest page table\<close>

datatype PARange = Bits_32 | Bits_36 | Bits_40 | Bits_42 | Bits_44 | Bits_48 | Bits_52

fun pa_bits :: "PARange option \<Rightarrow> nat" where
  "pa_bits (Some Bits_32) = 32"
| "pa_bits (Some Bits_36) = 36"
| "pa_bits (Some Bits_40) = 40"
| "pa_bits (Some Bits_42) = 42"
| "pa_bits (Some Bits_44) = 44"
| "pa_bits (Some Bits_48) = 48"
| "pa_bits (Some Bits_52) = 52"
| "pa_bits None = 32"

definition hardware_check :: "bool \<Rightarrow> PARange option \<Rightarrow> unit outcome" where
  "hardware_check ept_level_4 pa_range =
     (let level = (if 44 \<le> pa_bits pa_range then 4 else 3 :: nat)
      in if ept_level_4 then if level < 4 then Panic ''4-level EPT feature is enabled'' else Done ()
         else if 3 < level then Panic ''4-level EPT feature is not enabled'' else Done ())"


section \<open>Properties\<close>

lemma on_pcpu_Done:
  "with_vm_and_vcpu_on_pcpu A alive cur cpu_of vmid vcpu f st = Done (Inr (), st') \<longleftrightarrow>
     (\<exists>t vm. cur = Some t \<and> alive (task_vm (tasks st ! t)) \<and> ax_id A (vms st (task_vm (tasks st ! t))) = vmid
        \<and> task_vcpu (tasks st ! t) = vcpu \<and> get_vm_by_id vmid (GLOBAL_VM_LIST st) = Some vm
        \<and> vcpu < length (ax_vcpu_states A (vms st vm)) \<and> f vm vcpu st = Done st')"
proof (cases cur)
  case None
  then show ?thesis by (simp add: with_vm_and_vcpu_on_pcpu_def hal_current_vm_id_def as_vcpu_task_def)
next
  case (Some t)
  show ?thesis
  proof (cases "with_vcpu_task vmid vcpu cpu_of st")
    case (Done r)
    then show ?thesis using Some
      by (cases r; cases "get_vm_by_id vmid (GLOBAL_VM_LIST st)")
        (auto simp: with_vm_and_vcpu_on_pcpu_def hal_current_vm_id_def hal_current_vcpu_id_def as_vcpu_task_def
          VCpuTask_vm_def vm_vcpu_def)
  next
    case (Panic m)
    then show ?thesis using Some
      by (cases "get_vm_by_id vmid (GLOBAL_VM_LIST st)")
        (auto simp: with_vm_and_vcpu_on_pcpu_def hal_current_vm_id_def hal_current_vcpu_id_def as_vcpu_task_def
          VCpuTask_vm_def vm_vcpu_def)
  qed
qed

lemma unwrap_result_Done:
  "outcome_bind x (\<lambda>(r, s). case r of Inr u \<Rightarrow> Done s | Inl e \<Rightarrow> Panic m) = Done s' \<longleftrightarrow> x = Done (Inr (), s')"
  by (cases x) (auto split: sum.splits prod.splits)

text \<open>
  \<^bold>\<open>C16\<close>: exactly when an interrupt can be injected into a vCPU: the caller runs on that very vCPU, its VM object
  is alive and in the table of VMs, and the vCPU accepts it. Everything else is a panic of the hypervisor, in
  particular every interrupt for another vCPU that exists.
\<close>

theorem inject_interrupt_only_self:
  "api_inject_interrupt A alive cur cpu_of inject vmid vcpu v st = Done st' \<longleftrightarrow>
     (\<exists>t vm. cur = Some t \<and> alive (task_vm (tasks st ! t)) \<and> ax_id A (vms st (task_vm (tasks st ! t))) = vmid
        \<and> task_vcpu (tasks st ! t) = vcpu \<and> get_vm_by_id vmid (GLOBAL_VM_LIST st) = Some vm
        \<and> vcpu < length (ax_vcpu_states A (vms st vm)) \<and> inject vm vcpu (ucast v) st = (Inr (), st'))"
proof -
  have "(case inject vm vcpu irq st of (Inr u, x) \<Rightarrow> Done x | (Inl e, x) \<Rightarrow> Panic m) = Done st' \<longleftrightarrow>
      inject vm vcpu irq st = (Inr (), st')" for vm irq m
    by (cases "inject vm vcpu irq st") (auto split: sum.splits)
  then show ?thesis
    unfolding api_inject_interrupt_def unwrap_result_Done inject_irq_to_vcpu_def on_pcpu_Done by simp
qed

text \<open>The law of the register: its bits are the list registers without a valid interrupt.\<close>

definition elrsr_ok :: "gicv3 \<Rightarrow> bool" where
  "elrsr_ok g \<longleftrightarrow> (\<forall>i < length (ich_lrs g). bit (ich_elrsr g) i \<longleftrightarrow> lr_state (ich_lrs g ! i) = LrInvalid)"

lemma find_upt_Some: "List.find P [0..<n] = Some i \<longleftrightarrow> i < n \<and> P i \<and> (\<forall>j < i. \<not> P j)"
  by (auto simp: find_Some_iff)

lemma find_upt_None: "List.find P [0..<n] = None \<longleftrightarrow> (\<forall>i < n. \<not> P i)"
  by (auto simp: find_None_iff)

lemma gic_v3_first_free:
  assumes "elrsr_ok g" and "unat vector < 2 ^ 32"
  shows "if \<exists>lr \<in> set (ich_lrs g). lr_state lr = LrInvalid
    then \<exists>i < length (ich_lrs g). lr_state (ich_lrs g ! i) = LrInvalid \<and> (\<forall>j < i. lr_state (ich_lrs g ! j) \<noteq> LrInvalid) \<and>
      inject_interrupt_gic_v3 vector g =
        Done (g\<lparr>ich_lrs := (ich_lrs g)[i := \<lparr>lr_vintid = vector, lr_state = LrPending, lr_group = True\<rparr>], ich_hcr_en := True\<rparr>)
    else inject_interrupt_gic_v3 vector g = Panic ''No free list register to inject IRQ''"
proof -
  have v: "take_bit 32 vector = vector"
    using assms(2) by (simp add: word_unat_eq_iff unsigned_take_bit_eq take_bit_nat_eq_self)
  show ?thesis
  proof (cases "\<exists>lr \<in> set (ich_lrs g). lr_state lr = LrInvalid")
    case True
    then obtain k where "k < length (ich_lrs g)" "bit (ich_elrsr g) k"
      using assms(1) by (auto simp: in_set_conv_nth elrsr_ok_def)
    then obtain i where i: "free_lr_elrsr (ich_elrsr g) (length (ich_lrs g)) = Some i"
      by (cases "free_lr_elrsr (ich_elrsr g) (length (ich_lrs g))") (auto simp: free_lr_elrsr_def find_upt_None)
    then have "i < length (ich_lrs g) \<and> lr_state (ich_lrs g ! i) = LrInvalid \<and> (\<forall>j < i. lr_state (ich_lrs g ! j) \<noteq> LrInvalid)"
      using assms(1) by (auto simp: free_lr_elrsr_def find_upt_Some elrsr_ok_def)
    then show ?thesis using True i v by (auto simp: inject_interrupt_gic_v3_def pending_lr_def)
  next
    case False
    then have "\<forall>i < length (ich_lrs g). lr_state (ich_lrs g ! i) \<noteq> LrInvalid" by auto
    then have "free_lr_elrsr (ich_elrsr g) (length (ich_lrs g)) = None" "free_lr_invalid (ich_lrs g) = None"
      using assms(1) by (auto simp: free_lr_elrsr_def free_lr_invalid_def find_upt_None elrsr_ok_def)
    then show ?thesis using False by (simp add: inject_interrupt_gic_v3_def)
  qed
qed

text \<open>
  \<^bold>\<open>C15\<close>: on a GICv3, injecting an interrupt fills the first list register without a valid interrupt and no other,
  and turns the interface on; it panics only when every register holds a valid interrupt.
\<close>

theorem gic_v3_injection:
  assumes "elrsr_ok g" and "unat vector < 2 ^ 32"
  shows "if \<exists>lr \<in> set (ich_lrs g). lr_state lr = LrInvalid
    then \<exists>i < length (ich_lrs g). lr_state (ich_lrs g ! i) = LrInvalid \<and> (\<forall>j < i. lr_state (ich_lrs g ! j) \<noteq> LrInvalid) \<and>
      inject_interrupt_gic_v3 vector g =
        Done (g\<lparr>ich_lrs := (ich_lrs g)[i := \<lparr>lr_vintid = vector, lr_state = LrPending, lr_group = True\<rparr>], ich_hcr_en := True\<rparr>)
    else inject_interrupt_gic_v3 vector g = Panic ''No free list register to inject IRQ''"
  by (rule gic_v3_first_free[OF assms])

definition sample_gic :: gicv3 where
  "sample_gic = \<lparr>ich_lrs = [\<lparr>lr_vintid = 27, lr_state = LrPending, lr_group = True\<rparr>,
     \<lparr>lr_vintid = 0, lr_state = LrInvalid, lr_group = False\<rparr>], ich_elrsr = 2, ich_hcr_en = False\<rparr>"

theorem gic_v3_injection_witness:
  "elrsr_ok sample_gic \<and> (\<exists>i < 2. inject_interrupt_gic_v3 27 sample_gic =
     Done (sample_gic\<lparr>ich_lrs := (ich_lrs sample_gic)[i := \<lparr>lr_vintid = 27, lr_state = LrPending, lr_group = True\<rparr>], ich_hcr_en := True\<rparr>))"
proof -
  have ok: "elrsr_ok sample_gic" by (auto simp: elrsr_ok_def sample_gic_def less_Suc_eq bit_numeral_rec)
  have ex: "\<exists>lr \<in> set (ich_lrs sample_gic). lr_state lr = LrInvalid" by (simp add: sample_gic_def)
  have l: "length (ich_lrs sample_gic) = 2" by (simp add: sample_gic_def)
  show ?thesis using gic_v3_injection[OF ok, of 27] ok ex by (auto simp: l)
qed

text \<open>
  Injecting an interrupt that is pending already puts it into a second list register: the check for this case
  has no effect.
\<close>

lemma gic_duplicate_injection:
  assumes "elrsr_ok g" "unat vector < 2 ^ 32" "inject_interrupt_gic_v3 vector g = Done g'"
    and "j < length (ich_lrs g)" "lr_state (ich_lrs g ! j) = LrPending" "lr_vintid (ich_lrs g ! j) = vector"
  shows "\<exists>i < length (ich_lrs g'). i \<noteq> j \<and> (\<forall>k \<in> {i, j}. lr_state (ich_lrs g' ! k) = LrPending \<and> lr_vintid (ich_lrs g' ! k) = vector)"
proof -
  obtain i where i: "i < length (ich_lrs g)" "lr_state (ich_lrs g ! i) = LrInvalid"
    "g' = g\<lparr>ich_lrs := (ich_lrs g)[i := \<lparr>lr_vintid = vector, lr_state = LrPending, lr_group = True\<rparr>], ich_hcr_en := True\<rparr>"
    using gic_v3_first_free[OF assms(1,2)] assms(3) by (auto split: if_splits)
  then have "i \<noteq> j" using assms(5) by auto
  then show ?thesis using i assms(4-6) by (intro exI[of _ i]) (auto simp: nth_list_update)
qed

text \<open>On a GICv2 the first list register is overwritten, whatever it holds.\<close>

lemma gic_v2_overwrites:
  "gich_lrs g = x # lrs \<Longrightarrow>
   gich_lrs (inject_interrupt_gic_v2 b (inject_interrupt_gic_v2 a g)) = Some (ucast b) # lrs"
  by (simp add: inject_interrupt_gic_v2_def)

lemma hardware_check_ok: "hardware_check ept4 r = Done () \<longleftrightarrow> ept4 = (44 \<le> pa_bits r)"
  by (auto simp: hardware_check_def Let_def)

subsection \<open>Frames\<close>

lemma from_size_align_ok:
  assumes "k \<le> 62" "unat sz \<le> 2 ^ 63 - 2 ^ k"
  shows "from_size_align sz (2 ^ k) = Done (sz, 2 ^ k)"
proof -
  have "(2 :: nat) ^ k < 2 ^ 64" using assms(1) by (intro power_strict_increasing) auto
  then have u: "unat (2 ^ k :: usize) = 2 ^ k"
    using unat_of_nat[of "2 ^ k", where 'a = 64] by (simp add: take_bit_nat_eq_self)
  have "(2 ^ k :: usize) \<noteq> 0" using u by (metis power_eq_0_iff unat_0 zero_neq_numeral)
  moreover have "(2 ^ k :: usize) AND (2 ^ k - 1) = 0"
    unfolding mask_eq_exp_minus_1[symmetric] by (rule bit_word_eqI) (auto simp: bit_simps)
  ultimately show ?thesis using assms(2) u by (simp add: from_size_align_def)
qed


text \<open>
  \<^bold>\<open>C20\<close>: the bounds of the allocation of contiguous frames. Below \<open>2 ^ 50\<close> frames and with an alignment of at
  most \<open>2 ^ 50\<close> frames the request is for exactly that many bytes at that alignment, and does not panic; and the
  bound is needed: a request for \<open>2 ^ 52\<close> frames silently becomes one for no bytes at all. The release asks for
  page alignment in every case, which is not the alignment of the request unless that was one frame.
\<close>

theorem contiguous_frames_bounds:
  assumes "unat n < 2 ^ 50" and "k \<le> 50"
  shows "\<exists>sz al. alloc_contiguous_frames H n k h = Done (heap_alloc H (sz, al) h)
      \<and> unat sz = unat n * 4096 \<and> unat al = 4096 * 2 ^ k
      \<and> (\<forall>p. dealloc_contiguous_frames H p n h = Done (heap_dealloc H p (sz, PAGE_SIZE_4K) h))
      \<and> (al = PAGE_SIZE_4K \<longleftrightarrow> k = 0)
      \<and> alloc_contiguous_frames H (2 ^ 52) 0 h = Done (heap_alloc H (0, PAGE_SIZE_4K) h)"
proof -
  have p: "PAGE_SIZE_4K = 2 ^ 12" by (simp add: PAGE_SIZE_4K_def)
  have "unat n * unat PAGE_SIZE_4K < 2 ^ 64" using assms(1) by (simp add: PAGE_SIZE_4K_def)
  then have sz: "unat (n * PAGE_SIZE_4K) = unat n * 4096"
    using unat_times_small[of n PAGE_SIZE_4K] by (simp add: PAGE_SIZE_4K_def)
  have szb: "unat (n * PAGE_SIZE_4K) < 2 ^ 62" using sz assms(1) by simp
  have al: "push_bit (k mod 64) PAGE_SIZE_4K = 2 ^ (12 + k)"
    using assms(2) by (simp add: p push_bit_eq_mult power_add mult.commute)
  have "(2 :: nat) ^ (12 + k) \<le> 2 ^ 62" using assms(2) by (intro power_increasing) auto
  then have r: "unat (n * PAGE_SIZE_4K) \<le> 2 ^ 63 - 2 ^ (12 + k)" "unat (n * PAGE_SIZE_4K) \<le> 2 ^ 63 - 2 ^ 12"
    using szb by simp_all
  have "from_size_align (n * PAGE_SIZE_4K) (2 ^ (12 + k)) = Done (n * PAGE_SIZE_4K, 2 ^ (12 + k))"
    "from_size_align (n * PAGE_SIZE_4K) (2 ^ 12) = Done (n * PAGE_SIZE_4K, 2 ^ 12)"
    using from_size_align_ok[OF _ r(1)] from_size_align_ok[OF _ r(2)] assms(2) by simp_all
  moreover have z: "(2 ^ 52 * PAGE_SIZE_4K :: usize) = 0" by (simp add: PAGE_SIZE_4K_def)
  have "from_size_align 0 (2 ^ 12) = Done (0, 2 ^ 12)" using from_size_align_ok[of 12 0] by simp
  then have "alloc_contiguous_frames H (2 ^ 52) 0 h = Done (heap_alloc H (0, PAGE_SIZE_4K) h)"
    unfolding alloc_contiguous_frames_def z by (simp add: p)
  moreover have "(2 :: nat) ^ (12 + k) < 2 ^ 64" using assms(2) by (intro power_strict_increasing) auto
  then have u: "unat (2 ^ (12 + k) :: usize) = 4096 * 2 ^ k"
    using unat_of_nat[of "2 ^ (12 + k)", where 'a = 64] by (simp add: take_bit_nat_eq_self power_add)
  moreover have "(2 ^ (12 + k) :: usize) = PAGE_SIZE_4K \<longleftrightarrow> k = 0"
    using u by (auto simp: word_unat_eq_iff PAGE_SIZE_4K_def)
  ultimately show ?thesis using sz
    unfolding alloc_contiguous_frames_def dealloc_contiguous_frames_def al
    by (intro exI[of _ "n * PAGE_SIZE_4K"] exI[of _ "2 ^ (12 + k)"]) (simp add: p)
qed

definition bump_heap :: "usize heap_ops" where
  "bump_heap = \<lparr>heap_alloc = (\<lambda>(sz, al) h. (Some h, h + sz)), heap_dealloc = (\<lambda>p l h. h)\<rparr>"

theorem contiguous_frames_bounds_witness:
  "unat (3 :: usize) < 2 ^ 50 \<and> (\<exists>sz al. alloc_contiguous_frames bump_heap 3 1 0x10000 = Done (heap_alloc bump_heap (sz, al) 0x10000)
     \<and> unat sz = 12288 \<and> unat al = 8192)"
  using contiguous_frames_bounds[of 3 1 bump_heap "0x10000"] by auto

text \<open>
  The address that the allocator returns is a virtual one and is passed on as a physical one. On the q35 platform
  these are never the same.
\<close>

lemma contiguous_frames_virtual: "phys_to_virt p \<noteq> p"
  by (simp add: phys_to_virt_def PHYS_VIRT_OFFSET_def)

end
