(* ===== verification/Drivers.thy ===== *)
theory Drivers
  imports Axv_Prelude
begin

unbundle bit_operations_syntax

text \<open>
  The device drivers of \<^verbatim>\<open>modules/driver\<close>: the SD card of the Phytium boards, the eMMC of the Rockchip boards with the clock
  it runs from, the clock and power controllers, and the probing of each from its node in the device tree. The register
  level (\<^verbatim>\<open>phytium_mci\<close>, \<^verbatim>\<open>sdmmc\<close>, \<^verbatim>\<open>rk3568_clk\<close>, \<^verbatim>\<open>rk3588_clk\<close>, \<^verbatim>\<open>rockchip_pm\<close>) is a parameter of the definitions.
\<close>

section \<open>Errors\<close>

datatype mci_error =
    Mci_Timeout | Mci_OutOfRange | Mci_InvalidArgument | Mci_CardDetectFailed | Mci_CardInitFailed | Mci_InvalidVoltage
  | Mci_SwitchVoltageFail | Mci_SwitchVoltage18VFail33VSuccess | Mci_TransferFailed | Mci_StopTransmissionFailed
  | Mci_WaitWriteCompleteFailed | Mci_Else nat

datatype buffer_error = InvalidSize nat nat | InvalidAlignment

datatype blk_cause = CauseBuffer buffer_error | CauseMci mci_error | CauseText string

datatype blk_error = Blk_Retry | Blk_NotSupported | Blk_NoMemory | Blk_Other blk_cause

definition buffer_error_text :: "buffer_error \<Rightarrow> string" where
  "buffer_error_text e =
     (case e of
        InvalidSize expected actual \<Rightarrow>
          ''Invalid buffer size: expected at least '' @ show_nat expected @ '', got '' @ show_nat actual
      | InvalidAlignment \<Rightarrow> ''Buffer is not properly aligned for u32 access'')"

definition mci_error_text :: "(mci_error \<Rightarrow> string) \<Rightarrow> mci_error \<Rightarrow> string" where
  "mci_error_text debug e = ''MCI Host Error: '' @ debug e"

definition map_mci_error_to_blk_error :: "mci_error \<Rightarrow> blk_error" where
  "map_mci_error_to_blk_error err =
     (case err of
        Mci_Timeout \<Rightarrow> Blk_Retry
      | Mci_OutOfRange \<Rightarrow> Blk_Other (CauseMci err) | Mci_InvalidArgument \<Rightarrow> Blk_Other (CauseMci err)
      | Mci_CardDetectFailed \<Rightarrow> Blk_NotSupported | Mci_CardInitFailed \<Rightarrow> Blk_NotSupported
      | Mci_InvalidVoltage \<Rightarrow> Blk_NotSupported | Mci_SwitchVoltageFail \<Rightarrow> Blk_NotSupported
      | Mci_SwitchVoltage18VFail33VSuccess \<Rightarrow> Blk_NotSupported
      | Mci_TransferFailed \<Rightarrow> Blk_Retry | Mci_StopTransmissionFailed \<Rightarrow> Blk_Retry
      | Mci_WaitWriteCompleteFailed \<Rightarrow> Blk_Retry
      | Mci_Else k \<Rightarrow> Blk_Other (CauseMci err))"

datatype sd_error =
    Sd_Timeout | Sd_DataTimeout | Sd_Crc | Sd_DataCrc | Sd_EndBit | Sd_Index | Sd_DataEndBit | Sd_BadMessage | Sd_InvalidResponse
  | Sd_InvalidResponseType | Sd_CommandError | Sd_TransferError | Sd_DataError | Sd_CardError nat | Sd_IoError | Sd_NoCard
  | Sd_UnsupportedCard | Sd_BusPower | Sd_Acmd12Error | Sd_AdmaError | Sd_CurrentLimit | Sd_TuningFailed
  | Sd_VoltageSwitchFailed | Sd_BusWidth | Sd_InvalidArgument | Sd_BufferOverflow | Sd_MemoryError

fun maping_dev_err_to_blk_err :: "sd_error \<Rightarrow> blk_error" where
  "maping_dev_err_to_blk_err Sd_Timeout = Blk_Retry"
| "maping_dev_err_to_blk_err Sd_DataTimeout = Blk_Retry"
| "maping_dev_err_to_blk_err Sd_IoError = Blk_Other (CauseText ''I/O error'')"
| "maping_dev_err_to_blk_err Sd_NoCard = Blk_NotSupported"
| "maping_dev_err_to_blk_err Sd_UnsupportedCard = Blk_NotSupported"
| "maping_dev_err_to_blk_err Sd_BusPower = Blk_Other (CauseText ''SD/MMC controller error'')"
| "maping_dev_err_to_blk_err Sd_Acmd12Error = Blk_Other (CauseText ''SD/MMC controller error'')"
| "maping_dev_err_to_blk_err Sd_AdmaError = Blk_Other (CauseText ''SD/MMC controller error'')"
| "maping_dev_err_to_blk_err Sd_CurrentLimit = Blk_Other (CauseText ''SD/MMC controller error'')"
| "maping_dev_err_to_blk_err Sd_TuningFailed = Blk_Other (CauseText ''SD/MMC controller error'')"
| "maping_dev_err_to_blk_err Sd_VoltageSwitchFailed = Blk_Other (CauseText ''SD/MMC controller error'')"
| "maping_dev_err_to_blk_err Sd_BusWidth = Blk_Other (CauseText ''SD/MMC controller error'')"
| "maping_dev_err_to_blk_err Sd_InvalidArgument = Blk_Other (CauseText ''Invalid argument'')"
| "maping_dev_err_to_blk_err Sd_BufferOverflow = Blk_NoMemory"
| "maping_dev_err_to_blk_err Sd_MemoryError = Blk_NoMemory"
| "maping_dev_err_to_blk_err _ = Blk_Other (CauseText ''SD/MMC I/O error'')"

section \<open>The SD card of the Phytium boards\<close>

record 'c sd_ops =
  sd_new :: "usize \<Rightarrow> usize \<Rightarrow> 'c"
  sd_block_count :: "'c \<Rightarrow> u32"
  sd_block_size :: "'c \<Rightarrow> u32"
  sd_read_blocks :: "u32 list \<Rightarrow> u32 \<Rightarrow> u32 \<Rightarrow> 'c \<Rightarrow> (mci_error + u32 list) \<times> 'c"
  sd_write_blocks :: "u32 list \<Rightarrow> u32 \<Rightarrow> u32 \<Rightarrow> 'c \<Rightarrow> (mci_error + unit) \<times> 'c"

definition OFFSET :: usize where "OFFSET = 0x4000000"

definition BLOCK_SIZE :: nat where "BLOCK_SIZE = 512"

text \<open>A buffer has an address, since its alignment is checked.\<close>

datatype request_kind = ReadRequest usize "u8 list" | WriteRequest usize "u8 list"

text \<open>The words of an aligned buffer, in the byte order of the processor, and back.\<close>

fun le_words :: "u8 list \<Rightarrow> u32 list" where
  "le_words (a # b # c # d # bs) = le_u32 [a, b, c, d] # le_words bs"
| "le_words bs = []"

definition word_bytes :: "u32 \<Rightarrow> u8 list" where
  "word_bytes w = map (\<lambda>k. ucast (drop_bit (8 * k) w)) [0, 1, 2, 3]"

definition words_bytes :: "u32 list \<Rightarrow> u8 list" where
  "words_bytes ws = concat (map word_bytes ws)"

text \<open>The lengths of the parts before and after the aligned words (\<^verbatim>\<open>align_to\<close>).\<close>

definition align_prefix :: "usize \<Rightarrow> nat \<Rightarrow> nat" where
  "align_prefix addr len = min len ((4 - unat addr mod 4) mod 4)"

definition align_suffix :: "usize \<Rightarrow> nat \<Rightarrow> nat" where
  "align_suffix addr len = (len - align_prefix addr len) mod 4"

definition validate_buffer :: "usize \<Rightarrow> u8 list \<Rightarrow> blk_error + unit" where
  "validate_buffer addr buffer =
     (if length buffer < BLOCK_SIZE then Inl (Blk_Other (CauseBuffer (InvalidSize BLOCK_SIZE (length buffer))))
      else if align_prefix addr (length buffer) \<noteq> 0 \<or> align_suffix addr (length buffer) \<noteq> 0
      then Inl (Blk_Other (CauseBuffer InvalidAlignment))
      else Inr ())"

definition actual_block_id :: "usize \<Rightarrow> usize" where
  "actual_block_id block_id = block_id + OFFSET div 512"

text \<open>The result is the answer, the buffer afterwards and the card.\<close>

definition phytium_submit_request ::
  "'c sd_ops \<Rightarrow> usize \<Rightarrow> request_kind \<Rightarrow> 'c \<Rightarrow> (blk_error + unit) \<times> u8 list \<times> 'c" where
  "phytium_submit_request C block_id kind c =
     (case kind of
        ReadRequest addr buffer \<Rightarrow>
          (case validate_buffer addr buffer of
             Inl e \<Rightarrow> (Inl e, buffer, c)
           | Inr u \<Rightarrow>
               (case sd_read_blocks C [] (ucast (actual_block_id block_id)) 1 c of
                  (Inl err, c') \<Rightarrow> (Inl (map_mci_error_to_blk_error err), buffer, c')
                | (Inr temp_buf, c') \<Rightarrow>
                    (let aligned = le_words buffer; copy_len = min (length temp_buf) (length aligned)
                     in (Inr (), words_bytes (take copy_len temp_buf @ drop copy_len aligned), c'))))
      | WriteRequest addr buffer \<Rightarrow>
          (case validate_buffer addr buffer of
             Inl e \<Rightarrow> (Inl e, buffer, c)
           | Inr u \<Rightarrow>
               (case sd_write_blocks C (le_words buffer) (ucast (actual_block_id block_id)) 1 c of
                  (Inl err, c') \<Rightarrow> (Inl (map_mci_error_to_blk_error err), buffer, c')
                | (Inr v, c') \<Rightarrow> (Inr (), buffer, c'))))"

definition phytium_num_blocks :: "'c sd_ops \<Rightarrow> 'c \<Rightarrow> usize" where
  "phytium_num_blocks C c = ucast (sd_block_count C c)"

definition phytium_block_size :: "'c sd_ops \<Rightarrow> 'c \<Rightarrow> usize" where
  "phytium_block_size C c = ucast (sd_block_size C c)"

record BuffConfig =
  dma_mask :: u64
  bc_align :: usize
  bc_size :: usize

definition phytium_buff_config :: "'c sd_ops \<Rightarrow> 'c \<Rightarrow> BuffConfig" where
  "phytium_buff_config C c = \<lparr>dma_mask = - 1, bc_align = 0x1000, bc_size = phytium_block_size C c\<rparr>"

section \<open>The eMMC of the Rockchip boards\<close>

text \<open>The widths of the block number and of the count in the calls of the library are parameters too: a cast keeps so many bits.\<close>

record 'c emmc_ops =
  emmc_id_bits :: nat
  emmc_count_bits :: nat
  emmc_new :: "usize \<Rightarrow> 'c"
  emmc_init :: "'c \<Rightarrow> sd_error + 'c"
  emmc_card_info :: "'c \<Rightarrow> sd_error + unit"
  emmc_block_num :: "'c \<Rightarrow> u64"
  emmc_block_size :: "'c \<Rightarrow> usize"
  emmc_read_blocks :: "nat \<Rightarrow> nat \<Rightarrow> u8 list \<Rightarrow> 'c \<Rightarrow> (sd_error + unit) \<times> u8 list \<times> 'c"
  emmc_write_blocks :: "nat \<Rightarrow> nat \<Rightarrow> u8 list \<Rightarrow> 'c \<Rightarrow> (sd_error + unit) \<times> 'c"

text \<open>The device gives its host away with the first queue.\<close>

record 'c BlockDivce =
  bd_dev :: "'c option"

definition create_queue :: "'c BlockDivce \<Rightarrow> 'c option \<times> 'c BlockDivce" where
  "create_queue d = (bd_dev d, d\<lparr>bd_dev := None\<rparr>)"

definition cast_bits :: "nat \<Rightarrow> usize \<Rightarrow> nat" where
  "cast_bits n w = unat (take_bit n w)"

definition rockchip_submit_request ::
  "'c emmc_ops \<Rightarrow> usize \<Rightarrow> request_kind \<Rightarrow> 'c \<Rightarrow> ((blk_error + unit) \<times> u8 list \<times> 'c) outcome" where
  "rockchip_submit_request C block_id kind c =
     (case kind of
        ReadRequest addr buffer \<Rightarrow>
          (if emmc_block_size C c = 0 then Panic ''attempt to divide by zero''
           else (case emmc_read_blocks C (cast_bits (emmc_id_bits C) block_id)
                   (cast_bits (emmc_count_bits C) (of_nat (length buffer) div emmc_block_size C c)) buffer c of
                   (Inl err, buf', c') \<Rightarrow> Done (Inl (maping_dev_err_to_blk_err err), buf', c')
                 | (Inr u, buf', c') \<Rightarrow> Done (Inr (), buf', c')))
      | WriteRequest addr items \<Rightarrow>
          (if emmc_block_size C c = 0 then Panic ''attempt to divide by zero''
           else (case emmc_write_blocks C (cast_bits (emmc_id_bits C) block_id)
                   (cast_bits (emmc_count_bits C) (of_nat (length items) div emmc_block_size C c)) items c of
                   (Inl err, c') \<Rightarrow> Done (Inl (maping_dev_err_to_blk_err err), items, c')
                 | (Inr u, c') \<Rightarrow> Done (Inr (), items, c'))))"

definition rockchip_buff_config :: "'c emmc_ops \<Rightarrow> 'c \<Rightarrow> BuffConfig" where
  "rockchip_buff_config C c = \<lparr>dma_mask = - 1, bc_align = 0x1000, bc_size = emmc_block_size C c\<rparr>"

text \<open>The parts of both drivers that do nothing or are missing.\<close>

definition enable_irq :: "unit outcome" where "enable_irq = Panic ''not yet implemented''"
definition disable_irq :: "unit outcome" where "disable_irq = Panic ''not yet implemented''"
definition is_irq_enabled :: bool where "is_irq_enabled = False"

section \<open>Clocks\<close>

datatype kerror = InvalidArg string

record 'k clk_ops =
  clk_get_rate :: "usize \<Rightarrow> 'k \<Rightarrow> kerror + u64"
  clk_set_rate :: "usize \<Rightarrow> u64 \<Rightarrow> 'k \<Rightarrow> ((kerror + unit) \<times> 'k) outcome"

text \<open>The registers of the RK3568 and the names of its sources.\<close>

record 'k rk3568_cru =
  cru_get_emmc :: "'k \<Rightarrow> u32"
  cru_set_emmc :: "u32 \<Rightarrow> 'k \<Rightarrow> 'k"
  CCLK_EMMC_POS :: nat
  XIN_SOC0_MUX :: u32
  CPL_DIV_50M :: u32
  CPL_DIV_100M :: u32
  GPL_DIV_150M :: u32
  GPL_DIV_200M :: u32
  SOC0_375K :: u32

definition EMMC_CLK_ID :: usize where "EMMC_CLK_ID = 0x7c"
definition MHZ :: u32 where "MHZ = 1000000"
definition KHZ :: u32 where "KHZ = 1000"

definition rk3568_get_rate :: "'k rk3568_cru \<Rightarrow> usize \<Rightarrow> 'k \<Rightarrow> kerror + u64" where
  "rk3568_get_rate R i k =
     (if i = EMMC_CLK_ID then Inr (ucast (drop_bit (CCLK_EMMC_POS R) (cru_get_emmc R k)))
      else Inl (InvalidArg ''clock_id''))"

definition rk3568_source :: "'k rk3568_cru \<Rightarrow> u32 \<Rightarrow> u32 option" where
  "rk3568_source R r =
     (if r = 24 * MHZ then Some (XIN_SOC0_MUX R)
      else if r = 52 * MHZ \<or> r = 50 * MHZ then Some (CPL_DIV_50M R)
      else if r = 100 * MHZ then Some (CPL_DIV_100M R)
      else if r = 150 * MHZ then Some (GPL_DIV_150M R)
      else if r = 200 * MHZ then Some (GPL_DIV_200M R)
      else if r = 400 * KHZ \<or> r = 375 * KHZ then Some (SOC0_375K R)
      else None)"

definition rk3568_set_rate :: "'k rk3568_cru \<Rightarrow> usize \<Rightarrow> u64 \<Rightarrow> 'k \<Rightarrow> ((kerror + unit) \<times> 'k) outcome" where
  "rk3568_set_rate R i rate k =
     (if i = EMMC_CLK_ID then
        (case rk3568_source R (ucast rate) of
           None \<Rightarrow> Panic (''Unsupported eMMC clock rate: '' @ show_nat (unat rate) @ '' Hz'')
         | Some src \<Rightarrow> Done (Inr (), cru_set_emmc R src k))
      else Done (Inl (InvalidArg ''clock_id''), k))"

definition rk3568_clk :: "'k rk3568_cru \<Rightarrow> 'k clk_ops" where
  "rk3568_clk R = \<lparr>clk_get_rate = rk3568_get_rate R, clk_set_rate = rk3568_set_rate R\<rparr>"

text \<open>The RK3588 forwards to its library, with the widths of the calls as parameters again.\<close>

record 'k rk3588_cru =
  mmc_id_bits :: nat
  mmc_rate_bits :: nat
  cru_init :: "'k \<Rightarrow> 'k"
  mmc_get_clk :: "nat \<Rightarrow> 'k \<Rightarrow> unit + nat"
  mmc_set_clk :: "nat \<Rightarrow> nat \<Rightarrow> 'k \<Rightarrow> (unit + unit) \<times> 'k"

definition rk3588_get_rate :: "'k rk3588_cru \<Rightarrow> usize \<Rightarrow> 'k \<Rightarrow> kerror + u64" where
  "rk3588_get_rate R i k = (case mmc_get_clk R (cast_bits (mmc_id_bits R) i) k of Inl u \<Rightarrow> Inl (InvalidArg ''id'') | Inr rate \<Rightarrow> Inr (of_nat rate))"

definition rk3588_set_rate :: "'k rk3588_cru \<Rightarrow> usize \<Rightarrow> u64 \<Rightarrow> 'k \<Rightarrow> ((kerror + unit) \<times> 'k) outcome" where
  "rk3588_set_rate R i rate k =
     (case mmc_set_clk R (cast_bits (mmc_id_bits R) i) (cast_bits (mmc_rate_bits R) rate) k of
        (Inl u, k') \<Rightarrow> Done (Inl (InvalidArg ''id''), k')
      | (Inr u, k') \<Rightarrow> Done (Inr (), k'))"

definition rk3588_open :: "'k rk3588_cru \<Rightarrow> 'k \<Rightarrow> (kerror + unit) \<times> 'k" where
  "rk3588_open R k = (Inr (), cru_init R k)"

definition rk3588_clk :: "'k rk3588_cru \<Rightarrow> 'k clk_ops" where
  "rk3588_clk R = \<lparr>clk_get_rate = rk3588_get_rate R, clk_set_rate = rk3588_set_rate R\<rparr>"

text \<open>What the eMMC library calls: the clock device with the number of its clock.\<close>

datatype clk_error = InvalidPeripheralId

definition emmc_get_clk :: "'k clk_ops \<Rightarrow> usize \<Rightarrow> 'k \<Rightarrow> clk_error + u64" where
  "emmc_get_clk K i k = (case clk_get_rate K i k of Inl e \<Rightarrow> Inl InvalidPeripheralId | Inr r \<Rightarrow> Inr r)"

definition emmc_set_clk :: "'k clk_ops \<Rightarrow> usize \<Rightarrow> u64 \<Rightarrow> 'k \<Rightarrow> ((clk_error + u64) \<times> 'k) outcome" where
  "emmc_set_clk K i rate k =
     outcome_bind (clk_set_rate K i rate k) (\<lambda>(r, k').
       case r of
         Inl e \<Rightarrow> Done (Inl InvalidPeripheralId, k')
       | Inr u \<Rightarrow> Done (case clk_get_rate K i k' of Inl e \<Rightarrow> Inl InvalidPeripheralId | Inr rate' \<Rightarrow> Inr rate', k'))"


section \<open>Probing\<close>

record reg_entry =
  reg_address :: u64
  reg_size :: "usize option"

record clock_ref =
  ck_name :: "string option"
  ck_select :: usize
  ck_phandle :: "u32 option"

record node_info =
  ni_name :: string
  ni_reg :: "reg_entry list option"
  ni_clocks :: "clock_ref list"
  ni_clock_frequency :: "u32 option"
  ni_compatibles :: "string list"

text \<open>The first range of the node, or the error that it has none.\<close>

definition first_reg :: "node_info \<Rightarrow> string + reg_entry" where
  "first_reg node =
     (case ni_reg node of
        Some (r # rs) \<Rightarrow> Inr r
      | _ \<Rightarrow> Inl (''['' @ ni_name node @ ''] has no reg''))"

definition reg_size_or :: "usize \<Rightarrow> reg_entry \<Rightarrow> usize" where
  "reg_size_or d r = (case reg_size r of None \<Rightarrow> d | Some n \<Rightarrow> n)"

text \<open>Mapping of device memory is a parameter; the drivers that use the helper of \<^verbatim>\<open>lib.rs\<close> return its error as a text.\<close>

type_synonym io_map = "usize \<Rightarrow> usize \<Rightarrow> string + usize"

definition iomap :: "io_map \<Rightarrow> u64 \<Rightarrow> usize \<Rightarrow> string + usize" where
  "iomap M base n = (case M base n of Inl e \<Rightarrow> Inl (e @ '':?'') | Inr p \<Rightarrow> Inr p)"

text \<open>A probe ends in an error, a panic, or the device that it registers.\<close>

definition probe_sdcard :: "'c sd_ops \<Rightarrow> io_map \<Rightarrow> usize \<Rightarrow> node_info \<Rightarrow> (string + 'c) outcome" where
  "probe_sdcard C M PAD_ADDRESS node =
     (case first_reg node of
        Inl e \<Rightarrow> Done (Inl e)
      | Inr r \<Rightarrow>
          (case M (reg_address r) (reg_size_or 0x10000 r) of
             Inl e \<Rightarrow> Panic ''Failed to iomap mci reg''
           | Inr mci \<Rightarrow>
               (case M PAD_ADDRESS 0x2000 of
                  Inl e \<Rightarrow> Panic ''Failed to iomap iopad reg''
                | Inr pad \<Rightarrow>
                    (if mci = 0 then Panic ''Failed to create NonNull pointer''
                     else if pad = 0 then Panic ''Failed to create NonNull pointer for iopad''
                     else Done (Inr (sd_new C mci pad))))))"

definition probe_rk3568_cru :: "(usize \<Rightarrow> 'k) \<Rightarrow> io_map \<Rightarrow> node_info \<Rightarrow> (string + 'k) outcome" where
  "probe_rk3568_cru new_cru M node =
     (case first_reg node of
        Inl e \<Rightarrow> Done (Inl e)
      | Inr r \<Rightarrow>
          (case M (reg_address r) (reg_size_or 0x1000 r) of
             Inl e \<Rightarrow> Panic ''Failed to iomap CRU''
           | Inr base \<Rightarrow> Done (Inr (new_cru base))))"

text \<open>The shape that the clock of the RK3588 and the power manager share.\<close>

definition probe_mapped :: "(usize \<Rightarrow> 'k) \<Rightarrow> io_map \<Rightarrow> node_info \<Rightarrow> string + 'k" where
  "probe_mapped new_dev M node =
     try_bind (first_reg node) (\<lambda>r. try_bind (iomap M (reg_address r) (reg_size_or 0x1000 r)) (\<lambda>base. Inr (new_dev base)))"

definition probe_rk3588_cru :: "(usize \<Rightarrow> 'k) \<Rightarrow> io_map \<Rightarrow> node_info \<Rightarrow> string + 'k" where
  "probe_rk3588_cru new_cru M node = probe_mapped new_cru M node"

definition probe_pm :: "(usize \<Rightarrow> 'k) \<Rightarrow> io_map \<Rightarrow> node_info \<Rightarrow> string + 'k" where
  "probe_pm new_pm M node = probe_mapped new_pm M node"

text \<open>The serial ports: the first compatible string that is known decides the kind.\<close>

datatype serial_port = Pl011 usize u32 | Ns16550 usize u32

fun serial_of :: "usize \<Rightarrow> u32 \<Rightarrow> string list \<Rightarrow> serial_port option" where
  "serial_of base freq [] = None"
| "serial_of base freq (c # cs) =
     (if c = ''arm,pl011'' then Some (Pl011 base freq)
      else if c = ''snps,dw-apb-uart'' then Some (Ns16550 base freq)
      else serial_of base freq cs)"

definition probe_serial :: "io_map \<Rightarrow> node_info \<Rightarrow> string + serial_port option" where
  "probe_serial M node =
     try_bind (first_reg node) (\<lambda>r. try_bind (iomap M (reg_address r) (reg_size_or 0x1000 r)) (\<lambda>base.
       Inr (serial_of base (case ni_clock_frequency node of None \<Rightarrow> 24000000 | Some f \<Rightarrow> f) (ni_compatibles node))))"

text \<open>
  The eMMC takes the clock named \<^verbatim>\<open>core\<close>. The static \<^verbatim>\<open>CLK_DEV\<close> is set once and is threaded through;
  \<open>device_id\<close> and \<open>get_clk\<close> find the device of a phandle.
\<close>

record 'd clock_table =
  device_id :: "u32 \<Rightarrow> nat option"
  get_clk :: "nat \<Rightarrow> 'd option"

type_synonym 'd clk_dev = "('d \<times> usize) option"

fun use_core_clocks :: "'d clock_table \<Rightarrow> clock_ref list \<Rightarrow> 'd clk_dev \<Rightarrow> 'd clk_dev outcome" where
  "use_core_clocks T [] dev = Done dev"
| "use_core_clocks T (ck # cks) dev =
     (if ck_name ck = Some ''core'' then
        (case ck_phandle ck of
           None \<Rightarrow> Panic ''clk no phandle''
         | Some ph \<Rightarrow>
             (case device_id T ph of
                None \<Rightarrow> Panic ''no device id''
              | Some i \<Rightarrow>
                  (case get_clk T i of
                     None \<Rightarrow> Panic ''clk not found''
                   | Some d \<Rightarrow> use_core_clocks T cks (case dev of None \<Rightarrow> Some (d, ck_select ck) | Some x \<Rightarrow> Some x))))
      else use_core_clocks T cks dev)"

definition emmc_failure :: "string \<Rightarrow> (sd_error \<Rightarrow> string) \<Rightarrow> string \<Rightarrow> sd_error \<Rightarrow> string" where
  "emmc_failure what debug place e = ''failed to '' @ what @ '' at '' @ place @ '': '' @ debug e"

definition probe_emmc ::
  "'c emmc_ops \<Rightarrow> (sd_error \<Rightarrow> string) \<Rightarrow> (u64 \<Rightarrow> usize \<Rightarrow> string) \<Rightarrow> io_map \<Rightarrow> 'd clock_table \<Rightarrow> node_info \<Rightarrow> 'd clk_dev
   \<Rightarrow> ((string + 'c BlockDivce) \<times> 'd clk_dev) outcome" where
  "probe_emmc C debug place M T node dev =
     (case first_reg node of
        Inl e \<Rightarrow> Done (Inl e, dev)
      | Inr r \<Rightarrow>
          (let mmio_size = reg_size_or 0x1000 r; at = place (reg_address r) mmio_size
           in case iomap M (reg_address r) mmio_size of
                Inl e \<Rightarrow> Done (Inl e, dev)
              | Inr base \<Rightarrow>
                  outcome_bind (use_core_clocks T (ni_clocks node) dev) (\<lambda>dev'.
                    case emmc_init C (emmc_new C base) of
                      Inl e \<Rightarrow> Done (Inl (emmc_failure ''initialize eMMC device'' debug at e), dev')
                    | Inr c \<Rightarrow>
                        (case emmc_card_info C c of
                           Inl e \<Rightarrow> Done (Inl (emmc_failure ''get eMMC card info'' debug at e), dev')
                         | Inr u \<Rightarrow> Done (Inr \<lparr>bd_dev = Some c\<rparr>, dev')))))"

section \<open>Words and bytes\<close>

lemma unat_le_u32:
  "unat (le_u32 [a, b, c, d]) = unat a + 256 * (unat b + 256 * (unat c + 256 * unat d))"
proof -
  let ?n = "le_bytes_nat [a, b, c, d]"
  have "?n < 2 ^ 32" using le_bytes_nat_bound[of "[a, b, c, d]"] by simp
  then have "unat (of_nat ?n :: u32) = ?n" by (simp only: unat_of_nat take_bit_nat_eq_self len_num1 len_bit0) simp
  then show ?thesis by (simp add: le_u32_def)
qed

lemma low_byte: "a < 256 \<Longrightarrow> (a + 256 * x) mod 256 = (a :: nat)" "a < 256 \<Longrightarrow> (a + 256 * x) div 256 = (x :: nat)"
  by auto

lemma word_bytes_le_u32: "word_bytes (le_u32 [a, b, c, d]) = [a, b, c, d]"
proof -
  have lt: "unat a < 256" "unat b < 256" "unat c < 256" "unat d < 256"
    using unsigned_less[of a] unsigned_less[of b] unsigned_less[of c] unsigned_less[of d] by auto
  have pow: "(2 :: nat) ^ 8 = 256" "(2 :: nat) ^ 16 = 256 * 256" "(2 :: nat) ^ 24 = 256 * 256 * 256" by simp_all
  have w: "unat (le_u32 [a, b, c, d]) mod 4294967296 = unat (le_u32 [a, b, c, d])"
    using unsigned_less[of "le_u32 [a, b, c, d]", where 'a = nat] by simp
  have byte: "(ucast (drop_bit k (le_u32 [a, b, c, d])) :: u8) = x"
    if "unat (le_u32 [a, b, c, d]) div 2 ^ k mod 256 = unat x" for k x
    using that
    by (intro word_unat_eq_iff[THEN iffD2], subst unsigned_ucast_eq, subst unsigned_drop_bit_eq)
       (simp add: drop_bit_eq_div take_bit_eq_mod w)
  have "(ucast (drop_bit 0 (le_u32 [a, b, c, d])) :: u8) = a" "(ucast (drop_bit 8 (le_u32 [a, b, c, d])) :: u8) = b"
    "(ucast (drop_bit 16 (le_u32 [a, b, c, d])) :: u8) = c" "(ucast (drop_bit 24 (le_u32 [a, b, c, d])) :: u8) = d"
    by (rule byte, simp only: pow power_0 div_by_1 div_mult2_eq unat_le_u32 low_byte[OF lt(1)] low_byte[OF lt(2)] low_byte[OF lt(3)] mod_less[OF lt(4)])+
  then show ?thesis by (simp add: word_bytes_def)
qed

lemma words_bytes_le_words: "length bs mod 4 = 0 \<Longrightarrow> words_bytes (le_words bs) = bs"
  by (induction bs rule: le_words.induct) (auto simp: words_bytes_def word_bytes_le_u32)

lemma length_le_words: "length (le_words bs) = length bs div 4"
  by (induction bs rule: le_words.induct) auto

section \<open>Blocks of the card\<close>

text \<open>
  The laws of the card: \<open>n\<close> sectors of 128 words that reading appends to an empty vector and writing replaces; outside
  the card both fail.
\<close>

definition sd_laws :: "'c sd_ops \<Rightarrow> ('c \<Rightarrow> u32 \<Rightarrow> u32 list) \<Rightarrow> nat \<Rightarrow> bool" where
  "sd_laws C secs n \<longleftrightarrow>
     (\<forall>c b. length (secs c b) = 128) \<and>
     (\<forall>c. unat (sd_block_count C c) = n) \<and>
     (\<forall>c b. unat b < n \<longrightarrow> (\<exists>c'. sd_read_blocks C [] b 1 c = (Inr (secs c b), c') \<and> secs c' = secs c)) \<and>
     (\<forall>c b ws. unat b < n \<and> length ws = 128 \<longrightarrow>
        (\<exists>c'. sd_write_blocks C ws b 1 c = (Inr (), c') \<and> secs c' = (secs c)(b := ws))) \<and>
     (\<forall>c b ws. \<not> unat b < n \<longrightarrow>
        sd_read_blocks C [] b 1 c = (Inl Mci_OutOfRange, c) \<and> sd_write_blocks C ws b 1 c = (Inl Mci_OutOfRange, c))"

definition sector :: "usize \<Rightarrow> u32" where
  "sector b = ucast (actual_block_id b)"

lemma unat_sector: "unat b + 131072 < 2 ^ 32 \<Longrightarrow> unat (sector b) = unat b + 131072"
proof -
  assume *: "unat b + 131072 < 2 ^ 32"
  have k: "OFFSET div 512 = (131072 :: usize)" by (simp add: OFFSET_def)
  have "unat (b + 131072) = unat b + 131072" using unat_plus_small[of b 131072] * by simp
  then show ?thesis using * by (simp add: sector_def actual_block_id_def k unat_ucast_small)
qed

lemma validate_block:
  "length data = 512 \<Longrightarrow> 4 dvd unat addr \<Longrightarrow> validate_buffer addr data = Inr ()"
  by (simp add: validate_buffer_def BLOCK_SIZE_def align_prefix_def align_suffix_def)

lemma phytium_write_block:
  assumes "sd_laws C secs n" "unat (sector b) < n" "length data = 512" "4 dvd unat addr"
  obtains c' where "phytium_submit_request C b (WriteRequest addr data) c = (Inr (), data, c')"
    "secs c' = (secs c)(sector b := le_words data)"
proof -
  have "length (le_words data) = 128" using assms(3) by (simp add: length_le_words)
  then obtain c' where "sd_write_blocks C (le_words data) (sector b) 1 c = (Inr (), c')"
    "secs c' = (secs c)(sector b := le_words data)"
    using assms(1,2) unfolding sd_laws_def by blast
  then show ?thesis using that assms(3,4) by (simp add: phytium_submit_request_def validate_block flip: sector_def)
qed

lemma phytium_read_block:
  assumes "sd_laws C secs n" "unat (sector b) < n" "length buf = 512" "4 dvd unat addr"
  obtains c' where "phytium_submit_request C b (ReadRequest addr buf) c = (Inr (), words_bytes (secs c (sector b)), c')"
    "secs c' = secs c"
proof -
  obtain c' where "sd_read_blocks C [] (sector b) 1 c = (Inr (secs c (sector b)), c')" "secs c' = secs c"
    using assms(1,2) unfolding sd_laws_def by blast
  moreover have "length (secs c (sector b)) = 128" using assms(1) by (simp add: sd_laws_def)
  ultimately show ?thesis using that assms(3,4)
    by (simp add: phytium_submit_request_def validate_block length_le_words flip: sector_def)
qed

text \<open>
  The driver reports all sectors of the card as blocks, but block \<open>b\<close> is sector \<open>b + 131072\<close>: the last 131072 blocks
  that it reports are outside the card.
\<close>

lemma phytium_last_blocks:
  assumes "sd_laws C secs n" "n \<le> unat b + 131072" "unat b + 131072 < 2 ^ 32" "length data = 512" "4 dvd unat addr"
  shows "phytium_submit_request C b (WriteRequest addr data) c = (Inl (Blk_Other (CauseMci Mci_OutOfRange)), data, c)"
    "unat (phytium_num_blocks C c) = n"
proof -
  have "\<not> unat (sector b) < n" using assms(2,3) by (simp add: unat_sector)
  then have "sd_write_blocks C (le_words data) (sector b) 1 c = (Inl Mci_OutOfRange, c)"
    using assms(1) unfolding sd_laws_def by blast
  then show "phytium_submit_request C b (WriteRequest addr data) c = (Inl (Blk_Other (CauseMci Mci_OutOfRange)), data, c)"
    using assms(4,5) by (simp add: phytium_submit_request_def validate_block map_mci_error_to_blk_error_def flip: sector_def)
  show "unat (phytium_num_blocks C c) = n"
    using assms(1) by (simp add: phytium_num_blocks_def sd_laws_def unat_ucast_up)
qed

text \<open>
  \<^bold>\<open>C23\<close>: a block written to the SD card is read back as it was written, whatever buffer it is read into; no other sector
  changes, and in particular none of the first 64 MiB.
\<close>

theorem phytium_block_roundtrip:
  assumes "sd_laws C secs n" "unat b + 131072 < n" "n \<le> 2 ^ 32"
    "length data = 512" "4 dvd unat addr" "length buf = 512" "4 dvd unat addr2"
  shows "\<exists>c1 c2. phytium_submit_request C b (WriteRequest addr data) c = (Inr (), data, c1) \<and>
           phytium_submit_request C b (ReadRequest addr2 buf) c1 = (Inr (), data, c2) \<and>
           (\<forall>s. unat s \<noteq> unat b + 131072 \<longrightarrow> secs c2 s = secs c s) \<and>
           (\<forall>s. unat s < 131072 \<longrightarrow> secs c2 s = secs c s)"
proof -
  have u: "unat (sector b) = unat b + 131072" by (rule unat_sector) (use assms(2,3) in simp)
  then have n: "unat (sector b) < n" using assms(2) by simp
  obtain c1 where c1: "phytium_submit_request C b (WriteRequest addr data) c = (Inr (), data, c1)"
    "secs c1 = (secs c)(sector b := le_words data)"
    by (rule phytium_write_block[OF assms(1) n assms(4,5)])
  obtain c2 where c2: "phytium_submit_request C b (ReadRequest addr2 buf) c1 = (Inr (), words_bytes (secs c1 (sector b)), c2)"
    "secs c2 = secs c1"
    by (rule phytium_read_block[OF assms(1) n assms(6,7)])
  have "words_bytes (secs c1 (sector b)) = data" using assms(4) by (simp add: c1(2) words_bytes_le_words)
  then show ?thesis using c1 c2 u by (intro exI[of _ c1] exI[of _ c2]) auto
qed

text \<open>A card in memory, for which the laws hold.\<close>

definition mem_card :: "(u32 \<Rightarrow> u32 list) sd_ops" where
  "mem_card = \<lparr>sd_new = (\<lambda>a p b. replicate 128 0), sd_block_count = (\<lambda>c. 262144), sd_block_size = (\<lambda>c. 512),
     sd_read_blocks = (\<lambda>buf b k c. if unat b < 262144 then (Inr (buf @ take 128 (c b @ replicate 128 0)), c) else (Inl Mci_OutOfRange, c)),
     sd_write_blocks = (\<lambda>ws b k c. if unat b < 262144 then (Inr (), c(b := take 128 ws)) else (Inl Mci_OutOfRange, c))\<rparr>"

lemma mem_card_laws: "sd_laws mem_card (\<lambda>c b. take 128 (c b @ replicate 128 0)) 262144"
proof -
  have "\<exists>c'. (if unat b < 262144 then (Inr (), c(b := take 128 ws)) else (Inl Mci_OutOfRange, c)) = (Inr () :: mci_error + unit, c') \<and>
      (\<lambda>b. take 128 (c' b @ replicate 128 0)) = (\<lambda>b. take 128 (c b @ replicate 128 0))(b := ws)"
    if "unat b < 262144" "length ws = 128" for b :: u32 and ws :: "u32 list" and c
    using that by (intro exI[of _ "c(b := ws)"]) (auto simp: fun_eq_iff)
  moreover have "length (take 128 (c b @ replicate 128 0)) = 128" for c :: "u32 \<Rightarrow> u32 list" and b by simp
  ultimately show ?thesis by (simp add: sd_laws_def mem_card_def del: take_append length_append)
qed

theorem phytium_block_roundtrip_witness:
  "\<exists>c1 c2. phytium_submit_request mem_card 7 (WriteRequest 0x1000 (replicate 512 0xA5)) (\<lambda>b. []) = (Inr (), replicate 512 0xA5, c1) \<and>
     phytium_submit_request mem_card 7 (ReadRequest 0x2000 (replicate 512 0)) c1 = (Inr (), replicate 512 0xA5, c2)"
  using phytium_block_roundtrip[OF mem_card_laws, of 7 "replicate 512 0xA5" "0x1000" "replicate 512 0" "0x2000" "\<lambda>b. []"]
  by auto

section \<open>The clock of the eMMC\<close>

text \<open>
  On the RK3568 the rate that setting the clock returns is the number of the selected source, not a frequency.
\<close>

lemma rk3568_set_clk_result:
  assumes "rk3568_source R (ucast rate) = Some src" "\<And>s k. cru_get_emmc R (cru_set_emmc R s k) = s"
  shows "emmc_set_clk (rk3568_clk R) EMMC_CLK_ID rate k = Done (Inr (ucast (drop_bit (CCLK_EMMC_POS R) src)), cru_set_emmc R src k)"
  using assms by (simp add: emmc_set_clk_def rk3568_clk_def rk3568_set_rate_def rk3568_get_rate_def)

text \<open>Only the low 32 bits of the rate are looked at, and a rate that is not in the table stops the hypervisor.\<close>

lemma rk3568_rate_panics:
  assumes "rk3568_source R (ucast rate) = None"
  shows "\<exists>m. emmc_set_clk (rk3568_clk R) EMMC_CLK_ID rate k = Panic m"
  using assms by (simp add: emmc_set_clk_def rk3568_clk_def rk3568_set_rate_def)

text \<open>The clock of the first eMMC that was probed stays the one of every later one.\<close>

lemma clk_dev_first: "use_core_clocks T cks (Some d) = Done dev \<Longrightarrow> dev = Some d"
  by (induction cks) (auto split: if_splits option.splits)

text \<open>The eMMC gives out one queue.\<close>

lemma create_queue_once: "fst (create_queue (snd (create_queue d))) = None"
  by (simp add: create_queue_def)

end
