(* ===== verification/Xtask_Base.thy ===== *)
theory Xtask_Base
  imports Axv_BTreeMap
begin

text \<open>
  What the commands of the build tool (\<^verbatim>\<open>xtask/src\<close>) and the build script of the kernel share: steps that may fail on the
  state of the build machine, the operations of the machine that they call, and paths.
\<close>

section \<open>Steps that may fail\<close>

text \<open>An error is its outermost message.\<close>

type_synonym ('w, 'a) step = "'w \<Rightarrow> (string + 'a) \<times> 'w"

definition step_return :: "'a \<Rightarrow> ('w, 'a) step" where
  "step_return a w = (Inr a, w)"

definition step_fail :: "string \<Rightarrow> ('w, 'a) step" where
  "step_fail e w = (Inl e, w)"

definition step_bind :: "('w, 'a) step \<Rightarrow> ('a \<Rightarrow> ('w, 'b) step) \<Rightarrow> ('w, 'b) step" where
  "step_bind m f w = (case m w of (Inl e, w') \<Rightarrow> (Inl e, w') | (Inr a, w') \<Rightarrow> f a w')"

definition step_result :: "string + 'a \<Rightarrow> ('w, 'a) step" where
  "step_result r w = (r, w)"

definition step_context :: "string \<Rightarrow> ('w, 'a) step \<Rightarrow> ('w, 'a) step" where
  "step_context msg m w = (case m w of (Inl e, w') \<Rightarrow> (Inl msg, w') | (Inr a, w') \<Rightarrow> (Inr a, w'))"

definition step_map_err :: "(string \<Rightarrow> string) \<Rightarrow> ('w, 'a) step \<Rightarrow> ('w, 'a) step" where
  "step_map_err f m w = (case m w of (Inl e, w') \<Rightarrow> (Inl (f e), w') | (Inr a, w') \<Rightarrow> (Inr a, w'))"

definition step_ignore :: "('w, 'a) step \<Rightarrow> ('w, unit) step" where
  "step_ignore m w = (Inr (), snd (m w))"

fun step_each :: "('a \<Rightarrow> ('w, unit) step) \<Rightarrow> 'a list \<Rightarrow> ('w, unit) step" where
  "step_each f [] = step_return ()"
| "step_each f (x # xs) = step_bind (f x) (\<lambda>u. step_each f xs)"

lemmas step_defs = step_return_def step_fail_def step_bind_def step_result_def step_context_def step_map_err_def step_ignore_def

lemma step_bind_Inr:
  "step_bind m f w = (Inr b, w') \<longleftrightarrow> (\<exists>a w1. m w = (Inr a, w1) \<and> f a w1 = (Inr b, w'))"
  by (auto simp: step_bind_def split: prod.splits sum.splits)

named_theorems step_elims "what a step did that succeeded"

lemma step_bindE [step_elims]:
  assumes "step_bind m f w = (Inr b, w')"
  obtains a w1 where "m w = (Inr a, w1)" "f a w1 = (Inr b, w')"
  using assms by (auto simp: step_bind_Inr)

lemma step_returnE [step_elims]:
  assumes "step_return a w = (Inr b, w')"
  obtains "b = a" "w' = w"
  using assms by (simp add: step_return_def)

lemma step_resultE [step_elims]:
  assumes "step_result r w = (Inr b, w')"
  obtains "r = Inr b" "w' = w"
  using assms by (simp add: step_result_def)

section \<open>The build machine\<close>

record 'w host_ops =
  h_exists :: "string \<Rightarrow> 'w \<Rightarrow> bool"
  h_read :: "string \<Rightarrow> ('w, string) step"
  h_write :: "string \<Rightarrow> string \<Rightarrow> ('w, unit) step"
  h_copy :: "string \<Rightarrow> string \<Rightarrow> ('w, unit) step"
  h_create_dir_all :: "string \<Rightarrow> ('w, unit) step"
  h_remove_dir_all :: "string \<Rightarrow> ('w, unit) step"
  h_remove_file :: "string \<Rightarrow> ('w, unit) step"
  h_println :: "string \<Rightarrow> 'w \<Rightarrow> 'w"
  h_current_dir :: "string + string"

definition say :: "'w host_ops \<Rightarrow> string \<Rightarrow> ('w, unit) step" where
  "say H s w = (Inr (), h_println H s w)"

lemma sayE [step_elims]:
  assumes "say H s w = (Inr b, w')"
  obtains "w' = h_println H s w"
  using assms by (simp add: say_def)

text \<open>
  The laws of its files, on the contents of the regular files by path: printing and making directories leave them alone,
  a file that exists is read as it is, and writing and copying replace one file.
\<close>

definition host_laws :: "'w host_ops \<Rightarrow> ('w \<Rightarrow> string \<Rightarrow> string option) \<Rightarrow> bool" where
  "host_laws H files \<longleftrightarrow>
     (\<forall>s w. files (h_println H s w) = files w) \<and>
     (\<forall>p w. h_exists H p w \<longleftrightarrow> files w p \<noteq> None) \<and>
     (\<forall>p w c. files w p = Some c \<longrightarrow> h_read H p w = (Inr c, w)) \<and>
     (\<forall>p c w. \<exists>w'. h_write H p c w = (Inr (), w') \<and> files w' = (files w)(p \<mapsto> c)) \<and>
     (\<forall>p q c w. files w p = Some c \<longrightarrow> (\<exists>w'. h_copy H p q w = (Inr (), w') \<and> files w' = (files w)(q \<mapsto> c))) \<and>
     (\<forall>p q w. files w p = None \<longrightarrow> (\<exists>e. h_copy H p q w = (Inl e, w)))"

lemma host_lawsD:
  assumes "host_laws H files"
  shows "files (h_println H s w) = files w" "h_exists H p w \<longleftrightarrow> files w p \<noteq> None"
    "files w p = Some c \<Longrightarrow> h_read H p w = (Inr c, w)"
  using assms by (simp_all add: host_laws_def)

lemma host_writeE:
  assumes "host_laws H files"
  obtains w' where "h_write H p c w = (Inr (), w')" "files w' = (files w)(p \<mapsto> c)"
  using assms unfolding host_laws_def by blast

lemma host_copyE:
  assumes "host_laws H files" "files w p = Some c"
  obtains w' where "h_copy H p q w = (Inr (), w')" "files w' = (files w)(q \<mapsto> c)"
  using assms unfolding host_laws_def by blast

text \<open>A machine whose state is its files and what was printed.\<close>

definition map_host :: "((string \<Rightarrow> string option) \<times> string list) host_ops" where
  "map_host =
     \<lparr>h_exists = (\<lambda>p (fs, pr). fs p \<noteq> None),
      h_read = (\<lambda>p (fs, pr). (case fs p of None \<Rightarrow> Inl ''No such file'' | Some c \<Rightarrow> Inr c, (fs, pr))),
      h_write = (\<lambda>p c (fs, pr). (Inr (), (fs(p \<mapsto> c), pr))),
      h_copy = (\<lambda>p q (fs, pr). case fs p of None \<Rightarrow> (Inl ''No such file'', (fs, pr)) | Some c \<Rightarrow> (Inr (), (fs(q \<mapsto> c), pr))),
      h_create_dir_all = (\<lambda>p w. (Inr (), w)),
      h_remove_dir_all = (\<lambda>p w. (Inr (), w)),
      h_remove_file = (\<lambda>p (fs, pr). (Inr (), (fs(p := None), pr))),
      h_println = (\<lambda>s (fs, pr). (fs, pr @ [s])),
      h_current_dir = Inr ''/work''\<rparr>"

lemma map_host_laws: "host_laws map_host fst"
  by (auto simp: host_laws_def map_host_def)

section \<open>Paths\<close>

definition is_absolute :: "string \<Rightarrow> bool" where
  "is_absolute p \<longleftrightarrow> starts_with p ''/''"

text \<open>Joining replaces by an absolute path, and otherwise puts one separator between.\<close>

definition path_join :: "string \<Rightarrow> string \<Rightarrow> string" where
  "path_join p q =
     (if is_absolute q then q else if p = [] \<or> ends_with p ''/'' then p @ q else p @ ''/'' @ q)"

fun split_char :: "char \<Rightarrow> string \<Rightarrow> string list" where
  "split_char c [] = [[]]"
| "split_char c (x # xs) =
     (if x = c then [] # split_char c xs
      else (case split_char c xs of [] \<Rightarrow> [[x]] | y # ys \<Rightarrow> (x # y) # ys))"

text \<open>The components of a path: the root, then the names without empty ones and dots.\<close>

definition path_components :: "string \<Rightarrow> string list" where
  "path_components p =
     (if is_absolute p then [''/''] else []) @
     (case filter (\<lambda>x. x \<noteq> []) (split_char CHR ''/'' p) of
        [] \<Rightarrow> []
      | c # cs \<Rightarrow> (if c = ''.'' \<and> is_absolute p then [] else [c]) @ filter (\<lambda>x. x \<noteq> ''.'') cs)"

text \<open>The directory of a path that does not end in a separator.\<close>

definition path_parent :: "string \<Rightarrow> string option" where
  "path_parent p =
     (let r = dropWhile (\<lambda>c. c \<noteq> CHR ''/'') (rev p)
      in if p = [] \<or> set p \<subseteq> {CHR ''/''} then None
         else if r \<noteq> [] \<and> set r \<subseteq> {CHR ''/''} then Some ''/''
         else Some (rev (dropWhile (\<lambda>c. c = CHR ''/'') r)))"

lemma split_char_no: "c \<notin> set s \<Longrightarrow> split_char c s = [s]"
  by (induction s) auto

lemma split_char_append: "c \<notin> set s \<Longrightarrow> split_char c (s @ c # t) = s # split_char c t"
  by (induction s) auto

end
