(* ===== verification/Xtask_Devspace.thy ===== *)
theory Xtask_Devspace
  imports Xtask_Base
begin

text \<open>
  The command \<^verbatim>\<open>cargo xtask devspace\<close> (\<^verbatim>\<open>xtask/src/devspace.rs\<close>): it puts the repositories of some crates into the tree as
  submodules and points cargo to them through a marked section of \<^verbatim>\<open>.cargo/config.toml\<close>, and undoes both. The metadata of
  cargo, git, the files and the JSON form of the state are parameters.
\<close>

section \<open>Data\<close>

definition STATE_DIR :: string where "STATE_DIR = ''.devspace''"
definition STATE_FILE :: string where "STATE_FILE = ''.devspace/state.json''"
definition PATCH_BEGIN_MARKER :: string where "PATCH_BEGIN_MARKER = ''# >>> devspace patches >>>''"
definition PATCH_END_MARKER :: string where "PATCH_END_MARKER = ''# <<< devspace patches <<<''"
definition CRATES_IO_SOURCE_KEY :: string where "CRATES_IO_SOURCE_KEY = ''crates-io''"
definition CRATES_IO_REGISTRY :: string where "CRATES_IO_REGISTRY = ''registry+https://github.com/rust-lang/crates.io-index''"

definition DEVSPACE_REPOS :: "string list" where
  "DEVSPACE_REPOS = [''arm_vcpu'', ''arm_vgic'', ''axaddrspace'', ''axdevice_base'', ''x86_vcpu'', ''x86_vlapic'']"

definition DEVSPACE_REPO_OVERRIDES :: "(string \<times> string) list" where
  "DEVSPACE_REPO_OVERRIDES = [(''axdevice_base'', ''https://github.com/arceos-hypervisor/axdevice_base.git'')]"

definition nl :: string where "nl = [CHR 0x0A]"

record ManagedModule =
  mm_name :: string
  mm_path :: string

record PatchRecord =
  pr_source :: string
  pr_crate_name :: string

text \<open>The modules in the order in which the hash map gives them.\<close>

record DevspaceState =
  modules :: "(string \<times> ManagedModule) list"
  patches :: "PatchRecord list"

record PatchSpec =
  ps_source :: string
  ps_crate_name :: string
  ps_path :: string

record DevRepo =
  repo_name :: string
  repo_git_url :: string
  repo_source :: string
  repo_dest :: string

record Package =
  pkg_name :: string
  pkg_source :: "string option"
  pkg_repository :: "string option"
  pkg_manifest_path :: string

text \<open>Git and the JSON form of the state.\<close>

record 'w dev_ops =
  git_status :: "string list \<Rightarrow> ('w, bool) step"
  to_json :: "DevspaceState \<Rightarrow> string"
  from_json :: "string \<Rightarrow> DevspaceState option"

section \<open>Sources\<close>

text \<open>\<^verbatim>\<open>split(c).next()\<close>.\<close>

definition before_char :: "char \<Rightarrow> string \<Rightarrow> string" where
  "before_char c s = takeWhile (\<lambda>x. x \<noteq> c) s"

function trim_end_str :: "string \<Rightarrow> string \<Rightarrow> string" where
  "trim_end_str p s =
     (if p \<noteq> [] \<and> ends_with s p then trim_end_str p (take (length s - length p) s) else s)"
  by pat_completeness auto
termination
  by (relation "measure (\<lambda>(p, s). length s)") (auto simp: ends_with_suffix suffix_def)

definition normalize_source :: "string \<Rightarrow> string option" where
  "normalize_source raw =
     (case strip_prefix_of ''git+'' raw of
        Some trimmed \<Rightarrow>
          Some (trim_end_matches (\<lambda>c. c = CHR ''/'')
             (trim_end_str ''.git'' (before_char CHR ''?'' (before_char CHR ''#'' trimmed))))
      | None \<Rightarrow> if raw = CRATES_IO_REGISTRY then Some CRATES_IO_SOURCE_KEY else None)"

definition extract_git_url :: "string \<Rightarrow> string option" where
  "extract_git_url raw =
     (if \<not> starts_with raw ''git+'' then None
      else Some (before_char CHR ''#'' (before_char CHR ''?'' (drop 4 raw))))"

definition repo_lookup_key :: "string \<Rightarrow> string \<Rightarrow> string" where
  "repo_lookup_key source crate_name = source @ ''::'' @ crate_name"

definition resolve_dev_repo :: "Package list \<Rightarrow> string \<Rightarrow> string + DevRepo" where
  "resolve_dev_repo packages crate_name =
     (case filter (\<lambda>p. pkg_name p = crate_name) packages of
        [] \<Rightarrow> Inl (''crate '' @ crate_name @ '' not found in workspace metadata'')
      | p # ps \<Rightarrow>
          (let is_git = (\<lambda>p. case pkg_source p of None \<Rightarrow> False | Some src \<Rightarrow> starts_with src ''git+'');
               pkg = (case find is_git (p # ps) of Some q \<Rightarrow> q | None \<Rightarrow> p)
           in case pkg_source pkg of
                None \<Rightarrow> Inl (''crate '' @ crate_name @ '' has no source information'')
              | Some source_raw \<Rightarrow>
                  try_bind
                    (if starts_with source_raw ''git+'' then
                       (let unsupported = ''crate '' @ crate_name @ '' has unsupported source '' @ source_raw
                        in try_bind (ok_or unsupported (normalize_source source_raw)) (\<lambda>normalized.
                             try_bind (ok_or unsupported (extract_git_url source_raw)) (\<lambda>git_url. Inr (normalized, git_url))))
                     else if source_raw = CRATES_IO_REGISTRY then
                       (case pkg_repository pkg of
                          Some url \<Rightarrow> Inr (CRATES_IO_SOURCE_KEY, url)
                        | None \<Rightarrow>
                            (case map_of DEVSPACE_REPO_OVERRIDES crate_name of
                               Some url \<Rightarrow> Inr (CRATES_IO_SOURCE_KEY, url)
                             | None \<Rightarrow> Inl (''crate '' @ crate_name @ '' is from crates.io but missing repository metadata'')))
                     else Inl (''crate '' @ crate_name @ '' uses unsupported source '' @ source_raw))
                    (\<lambda>(patch_source, git_url).
                       Inr \<lparr>repo_name = crate_name, repo_git_url = git_url, repo_source = patch_source,
                            repo_dest = ''modules/'' @ crate_name\<rparr>)))"

fun collect_results :: "('a \<Rightarrow> 'e + 'b) \<Rightarrow> 'a list \<Rightarrow> 'e + 'b list" where
  "collect_results f [] = Inr []"
| "collect_results f (x # xs) = try_bind (f x) (\<lambda>y. try_bind (collect_results f xs) (\<lambda>ys. Inr (y # ys)))"

definition resolve_dev_repos :: "Package list \<Rightarrow> string + DevRepo list" where
  "resolve_dev_repos packages = collect_results (resolve_dev_repo packages) DEVSPACE_REPOS"

section \<open>Patches\<close>

fun component_position :: "('a \<Rightarrow> bool) \<Rightarrow> 'a list \<Rightarrow> nat option" where
  "component_position P [] = None"
| "component_position P (x # xs) = (if P x then Some 0 else map_option Suc (component_position P xs))"

definition manifest_relative_path :: "string \<Rightarrow> string list option" where
  "manifest_relative_path path =
     (let components = path_components path
      in case component_position (\<lambda>c. c = ''checkouts'') components of
           None \<Rightarrow> None
         | Some idx \<Rightarrow> if idx + 3 \<ge> length components then None else Some (drop (idx + 3) components))"

definition manifest_relative_dir :: "string \<Rightarrow> string list option" where
  "manifest_relative_dir path = map_option butlast (manifest_relative_path path)"

definition to_unix_path :: "string \<Rightarrow> string" where
  "to_unix_path p = map (\<lambda>c. if c = CHR 0x5C then CHR ''/'' else c) p"

definition build_repo_lookup :: "DevRepo list \<Rightarrow> string \<Rightarrow> DevRepo option" where
  "build_repo_lookup repos = map_of (rev (map (\<lambda>r. (repo_lookup_key (repo_source r) (repo_name r), r)) repos))"

definition package_patch_spec :: "Package \<Rightarrow> (string \<Rightarrow> DevRepo option) \<Rightarrow> PatchSpec option" where
  "package_patch_spec pkg repo_map =
     Option.bind (pkg_source pkg) (\<lambda>source_raw.
     Option.bind (normalize_source source_raw) (\<lambda>normalized.
     Option.bind (repo_map (repo_lookup_key normalized (pkg_name pkg))) (\<lambda>repo.
       Some \<lparr>ps_source = repo_source repo, ps_crate_name = pkg_name pkg,
             ps_path = to_unix_path
               (case manifest_relative_dir (pkg_manifest_path pkg) of
                  None \<Rightarrow> repo_dest repo
                | Some subdir \<Rightarrow> path_join (repo_dest repo) (str_join ''/'' subdir))\<rparr>)))"

definition add_spec :: "PatchSpec \<Rightarrow> (string \<times> string, PatchSpec) btree \<Rightarrow> (string \<times> string, PatchSpec) btree" where
  "add_spec s m =
     (let key = (ps_source s, ps_crate_name s) in if bt_contains_key key m then m else bt_insert key s m)"

definition compute_patch_specs :: "Package list \<Rightarrow> DevRepo list \<Rightarrow> string + PatchSpec list" where
  "compute_patch_specs packages repos =
     (let repo_map = build_repo_lookup repos;
          specs = foldl (\<lambda>m pkg. case package_patch_spec pkg repo_map of None \<Rightarrow> m | Some s \<Rightarrow> add_spec s m) [] packages
      in case find (\<lambda>r. \<not> bt_contains_key (repo_source r, repo_name r) specs) repos of
           Some r \<Rightarrow> Inl (''Failed to prepare patch for crate '' @ repo_name r @ '' (source: '' @ repo_source r @ '')'')
         | None \<Rightarrow> Inr (map snd specs))"

section \<open>The section of the configuration file\<close>

text \<open>The first position of a text in another (\<^verbatim>\<open>str::find\<close>).\<close>

fun find_str :: "string \<Rightarrow> string \<Rightarrow> nat option" where
  "find_str p [] = (if p = [] then Some 0 else None)"
| "find_str p (c # s) = (if strip_prefix_of p (c # s) \<noteq> None then Some 0 else map_option Suc (find_str p s))"

definition group_spec :: "(string, (string, string) btree) btree \<Rightarrow> PatchSpec \<Rightarrow> (string, (string, string) btree) btree" where
  "group_spec g s =
     bt_insert (ps_source s)
       (bt_insert (ps_crate_name s) (ps_path s) (case bt_get (ps_source s) g of None \<Rightarrow> [] | Some m \<Rightarrow> m)) g"

definition quote :: string where "quote = [CHR 0x22]"

definition render_group :: "string \<times> (string, string) btree \<Rightarrow> string" where
  "render_group g =
     ''[patch.'' @ quote @ fst g @ quote @ '']'' @ nl @
     concat (map (\<lambda>(crate_name, path). crate_name @ '' = { path = '' @ quote @ path @ quote @ '' }'' @ nl) (snd g))"

definition managed_by :: string where
  "managed_by = ''# Managed by '' @ [CHR 0x60] @ ''cargo xtask devspace'' @ [CHR 0x60]"

definition render_devspace_section :: "PatchSpec list \<Rightarrow> string" where
  "render_devspace_section specs =
     PATCH_BEGIN_MARKER @ nl @ managed_by @ nl @
     str_join nl (map render_group (foldl group_spec [] specs)) @
     nl @ PATCH_END_MARKER @ nl"

definition strip_devspace_section :: "string \<Rightarrow> string \<times> bool" where
  "strip_devspace_section contents =
     (case find_str PATCH_BEGIN_MARKER contents of
        None \<Rightarrow> (contents, False)
      | Some start_idx \<Rightarrow>
          (case find_str PATCH_END_MARKER (drop start_idx contents) of
             None \<Rightarrow> (contents, False)
           | Some end_rel \<Rightarrow>
               (let end_idx = start_idx + end_rel + length PATCH_END_MARKER;
                    tail = drop end_idx contents;
                    removal_end = (if starts_with tail [CHR 0x0D, CHR 0x0A] then end_idx + 2
                                   else if starts_with tail nl then end_idx + 1 else end_idx)
                in (take start_idx contents @ drop removal_end contents, True))))"

definition config_path :: string where "config_path = ''.cargo/config.toml''"

text \<open>The contents get an empty line at the end, unless there are none.\<close>

definition end_with_blank :: "string \<Rightarrow> string" where
  "end_with_blank contents =
     (let c1 = (if contents \<noteq> [] \<and> \<not> ends_with contents nl then contents @ nl else contents)
      in if c1 \<noteq> [] \<and> \<not> ends_with c1 (nl @ nl) then c1 @ nl else c1)"

definition patched_contents :: "PatchSpec list \<Rightarrow> string \<Rightarrow> string" where
  "patched_contents specs contents =
     (let c = end_with_blank (fst (strip_devspace_section contents)) @ render_devspace_section specs
      in if \<not> ends_with c nl then c @ nl else c)"

definition failed :: "string \<Rightarrow> string \<Rightarrow> string" where
  "failed what path = ''Failed to '' @ what @ '' '' @ quote @ path @ quote"

definition apply_patches :: "'w host_ops \<Rightarrow> PatchSpec list \<Rightarrow> ('w, unit) step" where
  "apply_patches H specs =
     (if specs = [] then say H ''No git dependencies matched managed repos; skipping patch stage''
      else (\<lambda>w. step_bind
        (if h_exists H config_path w then step_context (failed ''read'' config_path) (h_read H config_path) else step_return [])
        (\<lambda>contents. step_context (failed ''write'' config_path) (h_write H config_path (patched_contents specs contents))) w))"

definition remove_patches :: "'w host_ops \<Rightarrow> PatchRecord list \<Rightarrow> ('w, unit) step" where
  "remove_patches H recs w =
     (if \<not> h_exists H config_path w then (Inr (), w)
      else step_bind (step_context (failed ''read'' config_path) (h_read H config_path)) (\<lambda>original.
             let (cleaned, removed) = strip_devspace_section original
             in if removed then step_context (failed ''write'' config_path) (h_write H config_path cleaned) else step_return ()) w)"

section \<open>Submodules\<close>

definition run_git :: "'w host_ops \<Rightarrow> 'w dev_ops \<Rightarrow> string list \<Rightarrow> ('w, unit) step" where
  "run_git H D args =
     step_bind (step_context ''Failed to resolve workspace root'' (step_result (h_current_dir H))) (\<lambda>root.
     step_bind (step_context (''Failed to run git '' @ str_join '' '' args) (git_status D args)) (\<lambda>ok.
       if ok then step_return () else step_fail (''git command failed: git '' @ str_join '' '' args)))"

definition set_module :: "DevRepo \<Rightarrow> (string \<times> ManagedModule) list \<Rightarrow> (string \<times> ManagedModule) list" where
  "set_module r ms =
     (if map_of ms (repo_name r) \<noteq> None
      then map (\<lambda>(k, m). if k = repo_name r then (k, m\<lparr>mm_path := repo_dest r\<rparr>) else (k, m)) ms
      else ms @ [(repo_name r, \<lparr>mm_name = repo_name r, mm_path = repo_dest r\<rparr>)])"

text \<open>The state is changed in place, so that it is returned also when a command fails.\<close>

fun ensure_submodules ::
  "'w host_ops \<Rightarrow> 'w dev_ops \<Rightarrow> DevRepo list \<Rightarrow> DevspaceState \<Rightarrow> 'w \<Rightarrow> (string + unit) \<times> DevspaceState \<times> 'w" where
  "ensure_submodules H D [] st w = (Inr (), st, w)"
| "ensure_submodules H D (r # rs) st w =
     (if h_exists H (repo_dest r) w then ensure_submodules H D rs st w
      else
        (case step_bind (say H (''Adding submodule '' @ repo_git_url r @ '' -> '' @ repo_dest r)) (\<lambda>u.
                step_bind (run_git H D [''submodule'', ''add'', ''--force'', repo_git_url r, repo_dest r]) (\<lambda>u.
                  run_git H D [''submodule'', ''update'', ''--init'', ''--recursive'', repo_dest r])) w of
           (Inl e, w') \<Rightarrow> (Inl e, st, w')
         | (Inr u, w') \<Rightarrow> ensure_submodules H D rs (st\<lparr>modules := set_module r (modules st)\<rparr>) w'))"

definition remove_submodule :: "'w host_ops \<Rightarrow> 'w dev_ops \<Rightarrow> ManagedModule \<Rightarrow> ('w, unit) step" where
  "remove_submodule H D m =
     (let path = mm_path m; git_modules_dir = path_join ''.git/modules'' path
      in step_bind (say H (''Removing submodule '' @ path)) (\<lambda>u.
         step_bind (step_ignore (run_git H D [''submodule'', ''deinit'', ''-f'', ''--'', path])) (\<lambda>u.
         step_bind (\<lambda>w. if h_exists H git_modules_dir w
                        then step_context (failed ''remove'' git_modules_dir) (h_remove_dir_all H git_modules_dir) w
                        else (Inr (), w)) (\<lambda>u w.
           if h_exists H path w then
             step_bind (step_ignore (run_git H D [''rm'', ''-f'', ''--'', path])) (\<lambda>u w.
               if h_exists H path w then step_context (''Failed to remove '' @ path) (h_remove_dir_all H path) w
               else (Inr (), w)) w
           else (Inr (), w)))))"

definition remove_submodules :: "'w host_ops \<Rightarrow> 'w dev_ops \<Rightarrow> (string \<times> ManagedModule) list \<Rightarrow> ('w, unit) step" where
  "remove_submodules H D ms = step_each (\<lambda>(k, m). remove_submodule H D m) ms"

section \<open>Start and stop\<close>

definition devspace_load_state :: "'w host_ops \<Rightarrow> 'w dev_ops \<Rightarrow> ('w, DevspaceState) step" where
  "devspace_load_state H D w =
     (if \<not> h_exists H STATE_FILE w then (Inr \<lparr>modules = [], patches = []\<rparr>, w)
      else step_bind (step_context (failed ''read'' STATE_FILE) (h_read H STATE_FILE)) (\<lambda>contents.
             step_result (ok_or (failed ''parse'' STATE_FILE) (from_json D contents))) w)"

definition save_state :: "'w host_ops \<Rightarrow> 'w dev_ops \<Rightarrow> DevspaceState \<Rightarrow> ('w, unit) step" where
  "save_state H D st =
     step_bind (step_context ''Failed to create devspace state dir'' (h_create_dir_all H STATE_DIR)) (\<lambda>u.
       step_context ''Failed to write devspace state'' (h_write H STATE_FILE (to_json D st)))"

definition devspace_start :: "'w host_ops \<Rightarrow> 'w dev_ops \<Rightarrow> string + Package list \<Rightarrow> ('w, unit) step" where
  "devspace_start H D metadata =
     step_bind (step_context ''Failed to run cargo metadata'' (step_result metadata)) (\<lambda>packages.
     step_bind (step_result (resolve_dev_repos packages)) (\<lambda>repos.
     step_bind (devspace_load_state H D) (\<lambda>state w.
       case ensure_submodules H D repos state w of
         (Inl e, state1, w1) \<Rightarrow> (Inl e, w1)
       | (Inr u, state1, w1) \<Rightarrow>
           step_bind (save_state H D state1) (\<lambda>u.
           step_bind (step_result (compute_patch_specs packages repos)) (\<lambda>specs.
           step_bind (apply_patches H specs) (\<lambda>u.
           step_bind (save_state H D
               (state1\<lparr>patches := map (\<lambda>s. \<lparr>pr_source = ps_source s, pr_crate_name = ps_crate_name s\<rparr>) specs\<rparr>)) (\<lambda>u.
             say H ''devspace start completed'')))) w1)))"

definition devspace_stop :: "'w host_ops \<Rightarrow> 'w dev_ops \<Rightarrow> ('w, unit) step" where
  "devspace_stop H D =
     step_bind (devspace_load_state H D) (\<lambda>state.
     step_bind (if patches state \<noteq> [] then remove_patches H (patches state) else step_return ()) (\<lambda>u.
     step_bind (if modules state \<noteq> [] then remove_submodules H D (modules state) else step_return ()) (\<lambda>u.
     step_bind (save_state H D \<lparr>modules = [], patches = []\<rparr>) (\<lambda>u.
       say H ''devspace stop completed''))))"


section \<open>Removing the section restores the file\<close>

lemma find_str_None: "p \<noteq> [] \<Longrightarrow> find_str p s = None \<longleftrightarrow> \<not> sublist p s"
  by (induction s) (auto simp: strip_prefix_of_eq_None sublist_Cons_right)

lemma find_str_miss:
  "p \<noteq> [] \<Longrightarrow> hd p \<notin> set u \<Longrightarrow> find_str p (u @ s) = map_option ((+) (length u)) (find_str p s)"
proof (induction u)
  case Nil
  then show ?case by (simp add: option.map_ident map_option.identity)
next
  case (Cons x u)
  then have "strip_prefix_of p (x # u @ s) = None" by (cases p) (auto simp: strip_prefix_of_eq_None)
  then show ?case using Cons by (simp add: option.map_comp comp_def)
qed

lemma find_str_first:
  "p \<noteq> [] \<Longrightarrow> \<not> sublist p u \<Longrightarrow> u = [] \<or> last u \<notin> set p \<Longrightarrow> find_str p (u @ p @ s) = Some (length u)"
proof (induction u)
  case Nil
  then show ?case by (cases p) (auto simp: strip_prefix_of_eq_None)
next
  case (Cons x u)
  have "\<not> prefix p (x # u @ p @ s)"
  proof
    assume "prefix p (x # u @ p @ s)"
    then have "prefix p ((x # u) @ p @ s)" by simp
    then consider "prefix p (x # u)" | "prefix (x # u) p" by (metis prefixI prefix_same_cases)
    then show False
    proof cases
      case 1
      then show ?thesis using Cons.prems(2) by (auto dest: prefix_imp_sublist)
    next
      case 2
      then have "set (x # u) \<subseteq> set p" using set_mono_prefix by blast
      then have "last (x # u) \<in> set p" using last_in_set[of "x # u"] by blast
      then show ?thesis using Cons.prems(3) by simp
    qed
  qed
  moreover have "\<not> sublist p u" using Cons.prems(2) by (auto simp: sublist_Cons_right)
  moreover have "u = [] \<or> last u \<notin> set p" using Cons.prems(3) by (auto split: if_splits)
  ultimately show ?case using Cons.IH Cons.prems(1) by (simp add: strip_prefix_of_eq_None)
qed

lemma find_end_in_heading:
  "find_str PATCH_END_MARKER (PATCH_BEGIN_MARKER @ nl @ managed_by @ nl @ s) =
     map_option ((+) (length (PATCH_BEGIN_MARKER @ nl @ managed_by @ nl))) (find_str PATCH_END_MARKER s)"
  by (cases "find_str PATCH_END_MARKER s")
     (simp_all add: PATCH_END_MARKER_def PATCH_BEGIN_MARKER_def nl_def managed_by_def)

text \<open>The texts of the patches have no number sign, as the normalised sources of cargo have none.\<close>

definition plain_spec :: "PatchSpec \<Rightarrow> bool" where
  "plain_spec s \<longleftrightarrow> CHR ''#'' \<notin> set (ps_source s @ ps_crate_name s @ ps_path s)"

definition plain_group :: "string \<times> (string, string) btree \<Rightarrow> bool" where
  "plain_group g \<longleftrightarrow> CHR ''#'' \<notin> set (fst g) \<and> (\<forall>(n, p)\<in>set (snd g). CHR ''#'' \<notin> set (n @ p))"

lemma set_bt_insert: "set (bt_insert k v m) \<subseteq> insert (k, v) (set m)"
  by (induction k v m rule: bt_insert.induct) auto

lemma plain_group_insert:
  "plain_group (src, m) \<Longrightarrow> CHR ''#'' \<notin> set n \<Longrightarrow> CHR ''#'' \<notin> set p \<Longrightarrow> plain_group (src, bt_insert n p m)"
  using set_bt_insert[of n p m] by (auto simp: plain_group_def)

lemma group_spec_plain:
  assumes "\<forall>x\<in>set g. plain_group x" "plain_spec s"
  shows "\<forall>x\<in>set (group_spec g s). plain_group x"
proof -
  define m where "m = (case bt_get (ps_source s) g of None \<Rightarrow> [] | Some m \<Rightarrow> m)"
  define m2 where "m2 = bt_insert (ps_crate_name s) (ps_path s) m"
  have s: "CHR ''#'' \<notin> set (ps_source s)" "CHR ''#'' \<notin> set (ps_crate_name s)" "CHR ''#'' \<notin> set (ps_path s)"
    using assms(2) by (simp_all add: plain_spec_def)
  have "plain_group (ps_source s, m)"
  proof (cases "bt_get (ps_source s) g")
    case None
    then show ?thesis using s(1) by (simp add: m_def plain_group_def)
  next
    case (Some m')
    then have "(ps_source s, m') \<in> set g" by (simp add: bt_get_def map_of_SomeD)
    then show ?thesis using Some assms(1) by (simp add: m_def)
  qed
  then have "plain_group (ps_source s, m2)" unfolding m2_def by (rule plain_group_insert[OF _ s(2,3)])
  then have "\<forall>x\<in>insert (ps_source s, m2) (set g). plain_group x" using assms(1) by simp
  moreover have "group_spec g s = bt_insert (ps_source s) m2 g" by (simp only: group_spec_def m_def m2_def)
  ultimately show ?thesis by (simp only:) (rule ballI, erule bspec, erule subsetD[OF set_bt_insert])
qed

lemma groups_plain:
  "\<forall>s\<in>set specs. plain_spec s \<Longrightarrow> \<forall>x\<in>set g. plain_group x \<Longrightarrow> \<forall>x\<in>set (foldl group_spec g specs). plain_group x"
proof (induction specs arbitrary: g)
  case (Cons s specs)
  have a: "\<forall>x\<in>set (group_spec g s). plain_group x" by (rule group_spec_plain) (use Cons.prems in simp_all)
  show ?case unfolding foldl.simps by (rule Cons.IH[OF _ a]) (use Cons.prems in simp)
qed simp

lemma render_group_plain: "plain_group g \<Longrightarrow> CHR ''#'' \<notin> set (render_group g)"
  by (auto simp: render_group_def plain_group_def nl_def quote_def)

lemma set_str_join: "set (str_join sep xs) \<subseteq> set sep \<union> \<Union> (set ` set xs)"
  by (induction sep xs rule: str_join.induct) auto

lemma body_plain:
  assumes "\<forall>s\<in>set specs. plain_spec s"
  shows "CHR ''#'' \<notin> set (str_join nl (map render_group (foldl group_spec [] specs)) @ nl)"
proof -
  have "CHR ''#'' \<notin> set (render_group g)" if "g \<in> set (foldl group_spec [] specs)" for g
    using groups_plain[OF assms, of "[]"] that by (simp add: render_group_plain)
  then show ?thesis
    using set_str_join[of nl "map render_group (foldl group_spec [] specs)"] by (auto simp: nl_def)
qed

definition section_end :: "PatchSpec list \<Rightarrow> nat" where
  "section_end specs =
     length (PATCH_BEGIN_MARKER @ nl @ managed_by @ nl) + length (str_join nl (map render_group (foldl group_spec [] specs)) @ nl)"

lemma find_end_of_section:
  assumes "\<forall>s\<in>set specs. plain_spec s"
  shows "find_str PATCH_END_MARKER (render_devspace_section specs) = Some (section_end specs)"
proof -
  let ?body = "str_join nl (map render_group (foldl group_spec [] specs)) @ nl"
  have "hd PATCH_END_MARKER \<notin> set ?body" using body_plain[OF assms] by (simp add: PATCH_END_MARKER_def)
  moreover have "PATCH_END_MARKER \<noteq> []" by (simp add: PATCH_END_MARKER_def)
  moreover have "find_str PATCH_END_MARKER (PATCH_END_MARKER @ nl) = Some 0"
    by (simp add: PATCH_END_MARKER_def nl_def)
  ultimately have "find_str PATCH_END_MARKER (?body @ PATCH_END_MARKER @ nl) = Some (length ?body)"
    using find_str_miss[of PATCH_END_MARKER ?body "PATCH_END_MARKER @ nl"] by simp
  moreover have "render_devspace_section specs = PATCH_BEGIN_MARKER @ nl @ managed_by @ nl @ (?body @ PATCH_END_MARKER @ nl)"
    by (simp add: render_devspace_section_def)
  ultimately show ?thesis by (simp only: find_end_in_heading section_end_def option.map)
qed

lemma length_section: "length (render_devspace_section specs) = section_end specs + length PATCH_END_MARKER + 1"
  by (simp add: render_devspace_section_def section_end_def nl_def)

lemma section_tail: "drop (section_end specs + length PATCH_END_MARKER) (render_devspace_section specs) = nl"
proof -
  let ?pre = "PATCH_BEGIN_MARKER @ nl @ managed_by @ nl @ str_join nl (map render_group (foldl group_spec [] specs)) @ nl @ PATCH_END_MARKER"
  have "render_devspace_section specs = ?pre @ nl" by (simp add: render_devspace_section_def)
  moreover have "length ?pre = section_end specs + length PATCH_END_MARKER" by (simp add: section_end_def)
  ultimately show ?thesis by (metis append_eq_conv_conj)
qed

lemma strip_section:
  assumes "\<forall>s\<in>set specs. plain_spec s" "\<not> sublist PATCH_BEGIN_MARKER u" "u = [] \<or> last u = CHR 0x0A"
  shows "strip_devspace_section (u @ render_devspace_section specs) = (u, True)"
proof -
  have "PATCH_BEGIN_MARKER \<noteq> []" "CHR 0x0A \<notin> set PATCH_BEGIN_MARKER" by (simp_all add: PATCH_BEGIN_MARKER_def)
  then have "find_str PATCH_BEGIN_MARKER (u @ render_devspace_section specs) = Some (length u)"
    using find_str_first[of PATCH_BEGIN_MARKER u] assms(2,3) by (auto simp: render_devspace_section_def)
  then show ?thesis
    by (simp add: strip_devspace_section_def find_end_of_section[OF assms(1)] section_tail length_section add.assoc
        nl_def starts_with_prefix Let_def)
qed

lemma strip_none: "\<not> sublist PATCH_BEGIN_MARKER c \<Longrightarrow> strip_devspace_section c = (c, False)"
  using find_str_None[of PATCH_BEGIN_MARKER c] by (simp add: strip_devspace_section_def PATCH_BEGIN_MARKER_def)

lemma sublist_snoc_other:
  assumes "x \<notin> set p" "p \<noteq> []" "sublist p (u @ [x])"
  shows "sublist p u"
proof -
  obtain a b where "u @ [x] = a @ p @ b" using assms(3) by (auto simp: sublist_def)
  then show ?thesis
  proof (cases b rule: rev_cases)
    case Nil
    then have "last p = x" using \<open>u @ [x] = a @ p @ b\<close> assms(2) by (metis append_Nil2 last_appendR last_snoc)
    then show ?thesis using assms(1,2) last_in_set by blast
  next
    case (snoc b' y)
    then have "u = a @ p @ b'" using \<open>u @ [x] = a @ p @ b\<close> by simp
    then show ?thesis by (auto simp: sublist_def)
  qed
qed

lemma end_with_blank_ends: "end_with_blank c = [] \<or> ends_with (end_with_blank c) (nl @ nl)"
proof (cases "ends_with c nl")
  case True
  then obtain d where "c = d @ nl" by (auto simp: ends_with_suffix suffix_def)
  then show ?thesis by (auto simp: end_with_blank_def Let_def ends_with_suffix suffix_def)
next
  case False
  have "ends_with (c @ nl @ nl) (nl @ nl)" by (simp add: ends_with_suffix suffix_def)
  then show ?thesis using False by (auto simp: end_with_blank_def Let_def)
qed

lemma end_with_blank_same: "ends_with c (nl @ nl) \<Longrightarrow> end_with_blank c = c"
  by (auto simp: end_with_blank_def Let_def ends_with_suffix suffix_def)

lemma end_with_blank_idem: "end_with_blank (end_with_blank c) = end_with_blank c"
proof (cases "end_with_blank c = []")
  case True
  then show ?thesis by (simp add: end_with_blank_def)
qed (use end_with_blank_ends[of c] end_with_blank_same in blast)

lemma end_with_blank_last: "end_with_blank c = [] \<or> last (end_with_blank c) = CHR 0x0A"
  using end_with_blank_ends[of c] by (auto simp: ends_with_suffix suffix_def nl_def)

lemma end_with_blank_no_begin:
  assumes "\<not> sublist PATCH_BEGIN_MARKER c"
  shows "\<not> sublist PATCH_BEGIN_MARKER (end_with_blank c)"
proof -
  have B: "CHR 0x0A \<notin> set PATCH_BEGIN_MARKER" "PATCH_BEGIN_MARKER \<noteq> []" by (simp_all add: PATCH_BEGIN_MARKER_def)
  have "\<not> sublist PATCH_BEGIN_MARKER (u @ nl)" if "\<not> sublist PATCH_BEGIN_MARKER u" for u
    using that sublist_snoc_other[OF B] by (auto simp: nl_def)
  then have step: "\<not> sublist PATCH_BEGIN_MARKER (if b then u @ nl else u)" if "\<not> sublist PATCH_BEGIN_MARKER u" for b u
    using that by (cases b) simp_all
  show ?thesis unfolding end_with_blank_def Let_def by (intro step assms)
qed

lemma ends_render: "ends_with (u @ render_devspace_section specs) nl"
  by (simp add: render_devspace_section_def ends_with_suffix suffix_def)

lemma patched_contents_eq:
  "\<not> sublist PATCH_BEGIN_MARKER c \<Longrightarrow> patched_contents specs c = end_with_blank c @ render_devspace_section specs"
  by (simp add: patched_contents_def strip_none ends_render Let_def)

lemma strip_patched:
  assumes "\<forall>s\<in>set specs. plain_spec s" "\<not> sublist PATCH_BEGIN_MARKER c"
  shows "strip_devspace_section (patched_contents specs c) = (end_with_blank c, True)"
  using strip_section[OF assms(1)] end_with_blank_no_begin[OF assms(2)] end_with_blank_last[of c] by (simp add: patched_contents_eq[OF assms(2)])

lemma patch_again:
  assumes "\<forall>s\<in>set specs. plain_spec s" "\<not> sublist PATCH_BEGIN_MARKER c"
  shows "patched_contents specs' (patched_contents specs c) = patched_contents specs' c"
proof -
  have "patched_contents specs' x = end_with_blank (fst (strip_devspace_section x)) @ render_devspace_section specs'" for x
    by (simp add: patched_contents_def ends_render Let_def)
  from this[of "patched_contents specs c"] this[of c] show ?thesis
    unfolding strip_patched[OF assms] strip_none[OF assms(2)] by (simp only: fst_conv end_with_blank_idem)
qed

lemma apply_patchesE:
  assumes "host_laws H files" "specs \<noteq> []"
  obtains w' where "apply_patches H specs w = (Inr (), w')"
    "files w' = (files w)(config_path \<mapsto> patched_contents specs (case files w config_path of None \<Rightarrow> [] | Some c \<Rightarrow> c))"
proof -
  define c where "c = (case files w config_path of None \<Rightarrow> [] | Some c \<Rightarrow> c)"
  obtain w' where w': "h_write H config_path (patched_contents specs c) w = (Inr (), w')"
    "files w' = (files w)(config_path \<mapsto> patched_contents specs c)" by (rule host_writeE[OF assms(1)])
  have "apply_patches H specs w = (Inr (), w')"
    using w'(1) assms(2) host_lawsD(2)[OF assms(1), of config_path w] host_lawsD(3)[OF assms(1), of w config_path]
    by (cases "files w config_path") (simp_all add: apply_patches_def step_defs c_def)
  then show ?thesis using that w'(2) by (simp add: c_def)
qed

lemma remove_patchesE:
  assumes "host_laws H files" "files w config_path = Some c" "strip_devspace_section c = (c', True)"
  obtains w' where "remove_patches H recs w = (Inr (), w')" "files w' = (files w)(config_path \<mapsto> c')"
proof -
  obtain w' where w': "h_write H config_path c' w = (Inr (), w')" "files w' = (files w)(config_path \<mapsto> c')"
    by (rule host_writeE[OF assms(1)])
  have "remove_patches H recs w = (Inr (), w')"
    using w'(1) assms(2,3) host_lawsD(2)[OF assms(1), of config_path w] host_lawsD(3)[OF assms(1,2)]
    by (simp add: remove_patches_def step_defs)
  then show ?thesis using that w'(2) by simp
qed

text \<open>
  \<^bold>\<open>C36\<close>: patching the configuration of cargo and removing the patches again leaves the file as it was, up to the empty
  line at its end, and no other file changes; patching twice is the same as patching once.
\<close>

theorem devspace_patches_undone:
  assumes "host_laws H files" "specs \<noteq> []" "\<forall>s\<in>set specs. plain_spec s"
    "c = (case files w config_path of None \<Rightarrow> [] | Some c \<Rightarrow> c)" "\<not> sublist PATCH_BEGIN_MARKER c"
  shows "\<exists>w1 w2. apply_patches H specs w = (Inr (), w1) \<and>
           files w1 = (files w)(config_path \<mapsto> end_with_blank c @ render_devspace_section specs) \<and>
           remove_patches H recs w1 = (Inr (), w2) \<and> files w2 = (files w)(config_path \<mapsto> end_with_blank c) \<and>
           (\<exists>w3. apply_patches H specs w1 = (Inr (), w3) \<and> files w3 = files w1)"
proof -
  obtain w1 where w1: "apply_patches H specs w = (Inr (), w1)" "files w1 = (files w)(config_path \<mapsto> patched_contents specs c)"
    using apply_patchesE[OF assms(1,2), of w] assms(4) by metis
  obtain w2 where w2: "remove_patches H recs w1 = (Inr (), w2)" "files w2 = (files w1)(config_path \<mapsto> end_with_blank c)"
    by (rule remove_patchesE[OF assms(1), of w1]) (use w1(2) strip_patched[OF assms(3,5)] in auto)
  obtain w3 where w3: "apply_patches H specs w1 = (Inr (), w3)"
    "files w3 = (files w1)(config_path \<mapsto> patched_contents specs (patched_contents specs c))"
    using apply_patchesE[OF assms(1,2), of w1] w1(2) by (metis fun_upd_same option.simps(5))
  have "files w3 = files w1" using w3(2) w1(2) by (simp add: patch_again[OF assms(3,5)])
  then show ?thesis using w1 w2 w3(1) by (simp add: patched_contents_eq[OF assms(5)])
qed

definition sample_specs :: "PatchSpec list" where
  "sample_specs = [\<lparr>ps_source = ''crates-io'', ps_crate_name = ''arm_vcpu'', ps_path = ''modules/arm_vcpu''\<rparr>]"

theorem devspace_patches_undone_witness:
  "\<exists>w1 w2. apply_patches map_host sample_specs ([config_path \<mapsto> ''[build]''], []) = (Inr (), w1) \<and>
     remove_patches map_host [] w1 = (Inr (), w2) \<and> fst w2 = [config_path \<mapsto> ''[build]'' @ nl @ nl]"
proof -
  have "find_str PATCH_BEGIN_MARKER ''[build]'' = None" by (simp add: PATCH_BEGIN_MARKER_def)
  then have "\<not> sublist PATCH_BEGIN_MARKER ''[build]''"
    using find_str_None[of PATCH_BEGIN_MARKER "''[build]''"] by (simp add: PATCH_BEGIN_MARKER_def)
  moreover have "end_with_blank ''[build]'' = ''[build]'' @ nl @ nl"
    by (simp add: end_with_blank_def nl_def ends_with_suffix suffix_def)
  moreover have "\<forall>s\<in>set sample_specs. plain_spec s" "sample_specs \<noteq> []" by (simp_all add: sample_specs_def plain_spec_def)
  ultimately show ?thesis
    using devspace_patches_undone[OF map_host_laws, of sample_specs "''[build]''" "([config_path \<mapsto> ''[build]''], [])" "[]"]
    by (simp del: split_paired_Ex) blast
qed

end
