(* ===== verification/Xtask_Image.thy ===== *)
theory Xtask_Image
  imports Xtask_Base
begin

text \<open>
  The command \<^verbatim>\<open>cargo xtask image\<close> (\<^verbatim>\<open>xtask/src/image.rs\<close>): the table of guest images, downloading one with the check of its
  SHA-256 sum and unpacking, and removing it. The network, the hash function, tar and the files are parameters; the
  progress display of the download is left out.
\<close>

section \<open>The table of images\<close>

definition IMAGE_URL_BASE :: string where
  "IMAGE_URL_BASE = ''https://github.com/arceos-hypervisor/axvisor-guest/releases/download/v0.0.20/''"

record Image =
  img_name :: string
  img_description :: string
  img_sha256 :: string
  img_arch :: string

definition mk_image :: "string \<Rightarrow> string \<Rightarrow> string \<Rightarrow> string \<Rightarrow> Image" where
  "mk_image n d s a = \<lparr>img_name = n, img_description = d, img_sha256 = s, img_arch = a\<rparr>"

definition image_all :: "Image list" where
  "image_all =
     [mk_image ''evm3588_arceos'' ''ArceOS for EVM3588 development board''
        ''c9f197408f14f2cd9d3b9d2e077a9e91d233479713cb24d5280f7dc5562ae800'' ''aarch64'',
      mk_image ''evm3588_linux'' ''Linux for EVM3588 development board''
        ''cc12be121e75b0eb6588a774106582ee7c7b279895d73558f31ce34712a8fea3'' ''aarch64'',
      mk_image ''orangepi_arceos'' ''ArceOS for Orange Pi development board''
        ''2a95477e1e18d9ca95f666de93cd8ba53ffafb3f285fbdf4fde1e0cdfb0d8f1d'' ''aarch64'',
      mk_image ''orangepi_linux'' ''Linux for Orange Pi development board''
        ''7a1fd69f10dd223988c436ea461bed15ddae4351fc7a47fb7b3fee9792afac86'' ''aarch64'',
      mk_image ''phytiumpi_arceos'' ''ArceOS for Phytium Pi development board''
        ''c774824e36319f2f20575e488861a61c6ef7a5d2e5f219edd03a2c3c29ca3d05'' ''aarch64'',
      mk_image ''phytiumpi_linux'' ''Linux for Phytium Pi development board''
        ''78a27021b76b6d20a5420938473cf92ac59dc4674d528295b75ecfabdf9bea69'' ''aarch64'',
      mk_image ''qemu_aarch64_arceos'' ''ArceOS for QEMU aarch64 virtualization''
        ''56c1f517444dcd6668f0d4bc280543d6f236728c4ec5b81e7e5b5a06cf012690'' ''aarch64'',
      mk_image ''qemu_riscv64_arceos'' ''ArceOS for QEMU riscv64 virtualization''
        ''19248561c242a06a893a6a4debfc05ba5ca3e438347814c10351eecef88e54be'' ''riscv64'',
      mk_image ''qemu_x86_64_arceos'' ''ArceOS for QEMU x86_64 virtualization''
        ''ee9bdd4f6ae3ef2ee807ac712b82318329eeb6d1cffdf737f98a393ad730b5d9'' ''x86_64'',
      mk_image ''qemu_aarch64_linux'' ''Linux for QEMU aarch64 virtualization''
        ''ffccd4f89ee84def89ab66e23249d30723fd4a9af7896d7ef4d6f6d75d34225b'' ''aarch64'',
      mk_image ''qemu_riscv64_linux'' ''Linux for QEMU riscv64 virtualization''
        ''34a355907bf3b05ea3949207fd98aad05d91c21d3b724d345f54576ef6e12eba'' ''riscv64'',
      mk_image ''qemu_x86_64_linux'' ''Linux for QEMU x86_64 virtualization''
        ''1a27da24b02f836b259462d5c73dc550553ea708d24af299378137beedc46c51'' ''x86_64'',
      mk_image ''qemu_aarch64_nimbos'' ''NIMBOS for QEMU aarch64 virtualization''
        ''283681356af35e141bcf050dd56aa698966477289c21ac49941bb68d9a9ad1b8'' ''aarch64'',
      mk_image ''qemu_riscv64_nimbos'' ''NIMBOS for QEMU riscv64 virtualization''
        ''064f75df290905687221b2554dd4e4efc077a6a95cafcbf7f98e2181441c24e3'' ''riscv64'',
      mk_image ''qemu_x86_64_nimbos'' ''NIMBOS for QEMU x86_64 virtualization''
        ''55d73898f9f98fca80e15387b1e5149ba6bbf74d3631281ea1ece75de3529078'' ''x86_64'',
      mk_image ''roc-rk3568-pc_arceos'' ''ArceOS for ROC-RK3568-PC development board''
        ''4dd2f727c2a46ff1e64632616c308c9504ef5ddb4b519acf3f69c928e4475ca7'' ''aarch64'',
      mk_image ''roc-rk3568-pc_linux'' ''Linux for ROC-RK3568-PC development board''
        ''73feb8b84473603252dbadc4c81446f9a68098bd899fd524ec26f68761a35cf8'' ''aarch64'',
      mk_image ''tac-e400-plc_arceos'' ''ArceOS for TAC-E400-PLC industrial control board''
        ''a2504506c81871c84ba421a94f77028f067c5589886f37c0c389a545d7e57aeb'' ''aarch64'',
      mk_image ''tac-e400-plc_linux'' ''Linux for TAC-E400-PLC industrial control board''
        ''920743161a73da228e714d71f55d8ba77b91ed37092d4f80e774f4e809b34403'' ''aarch64'']"

definition find_by_name :: "string \<Rightarrow> Image option" where
  "find_by_name name = find (\<lambda>i. img_name i = name) image_all"

section \<open>Files, network and archives\<close>

record http_response =
  r_success :: bool
  r_status :: string
  r_chunks :: "(string + string) list"

text \<open>Reading a file gives a sequence of results of \<^verbatim>\<open>read\<close>, of which an empty one is the end.\<close>

record 'w download_env =
  temp_dir :: string
  sha256_hex :: "string \<Rightarrow> string"
  open_reads :: "string \<Rightarrow> 'w \<Rightarrow> string + (string + string) list"
  http_get :: "string \<Rightarrow> ('w, http_response) step"
  create_truncated :: "string \<Rightarrow> ('w, unit) step"
  write_chunk :: "string \<Rightarrow> string \<Rightarrow> ('w, unit) step"
  flush_writer :: "string \<Rightarrow> ('w, unit) step"
  unpack_tar_gz :: "string \<Rightarrow> string \<Rightarrow> ('w, unit) step"

fun hash_loop :: "(string + string) list \<Rightarrow> string \<Rightarrow> string + string" where
  "hash_loop [] hashed = Inr hashed"
| "hash_loop (Inl e # rs) hashed = Inl e"
| "hash_loop (Inr bytes # rs) hashed = (if bytes = [] then Inr hashed else hash_loop rs (hashed @ bytes))"

definition image_verify_sha256 :: "'w download_env \<Rightarrow> string \<Rightarrow> string \<Rightarrow> 'w \<Rightarrow> string + bool" where
  "image_verify_sha256 E path expected w =
     try_bind (open_reads E path w) (\<lambda>reads. try_bind (hash_loop reads []) (\<lambda>data. Inr (sha256_hex E data = expected)))"

section \<open>Commands\<close>

definition image_list :: "string list" where
  "image_list =
     (pad_right 25 ''Name'' @ '' '' @ pad_right 30 ''Architecture'' @ '' '' @ pad_right 50 ''Description'') #
     replicate 90 CHR ''-'' #
     map (\<lambda>i. pad_right 25 (img_name i) @ '' '' @ pad_right 15 (img_arch i) @ '' '' @ pad_right 50 (img_description i)) image_all"

definition not_found :: "string \<Rightarrow> string" where
  "not_found name = ''Image not found: '' @ name @ ''. Use 'xtask image ls' to view available images''"

definition tar_name :: "string \<Rightarrow> string" where
  "tar_name name = name @ ''.tar.gz''"

definition image_output_path :: "'w host_ops \<Rightarrow> 'w download_env \<Rightarrow> string \<Rightarrow> string option \<Rightarrow> string + string" where
  "image_output_path H E name output_dir =
     (case output_dir of
        Some dir \<Rightarrow>
          (if is_absolute dir then Inr (path_join dir (tar_name name))
           else try_bind (h_current_dir H) (\<lambda>cwd. Inr (path_join (path_join cwd dir) (tar_name name))))
      | None \<Rightarrow> Inr (path_join (path_join (temp_dir E) ''axvisor'') (tar_name name)))"

text \<open>Whether the image is there already; a file that is not the image is removed.\<close>

definition check_existing :: "'w host_ops \<Rightarrow> 'w download_env \<Rightarrow> string \<Rightarrow> string \<Rightarrow> ('w, bool) step" where
  "check_existing H E path sha w =
     (if \<not> h_exists H path w then (Inr False, w)
      else (case image_verify_sha256 E path sha w of
              Inr True \<Rightarrow> step_bind (say H ''Image already exists and verified'') (\<lambda>u. step_return True) w
            | Inr False \<Rightarrow>
                step_bind (say H ''Existing image verification failed, re-downloading'') (\<lambda>u.
                step_bind (step_ignore (h_remove_file H path)) (\<lambda>u. step_return False)) w
            | Inl e \<Rightarrow>
                step_bind (say H ''Error verifying existing image, re-downloading'') (\<lambda>u.
                step_bind (step_ignore (h_remove_file H path)) (\<lambda>u. step_return False)) w))"

fun write_chunks :: "'w download_env \<Rightarrow> string \<Rightarrow> (string + string) list \<Rightarrow> ('w, unit) step" where
  "write_chunks E path [] = step_return ()"
| "write_chunks E path (Inl e # cs) = step_fail e"
| "write_chunks E path (Inr chunk # cs) =
     step_bind (step_map_err (\<lambda>e. ''Error writing to file: '' @ e) (write_chunk E path chunk)) (\<lambda>u. write_chunks E path cs)"

definition fetch_image :: "'w host_ops \<Rightarrow> 'w download_env \<Rightarrow> string \<Rightarrow> string \<Rightarrow> ('w, unit) step" where
  "fetch_image H E name path =
     step_bind (case path_parent path of None \<Rightarrow> step_return () | Some dir \<Rightarrow> h_create_dir_all H dir) (\<lambda>u.
     let url = IMAGE_URL_BASE @ name @ ''.tar.gz'' in
     step_bind (say H (''Downloading: '' @ url)) (\<lambda>u.
     step_bind (http_get E url) (\<lambda>response.
       if \<not> r_success response then step_fail (''Failed to download file: HTTP '' @ r_status response)
       else step_bind (create_truncated E path) (\<lambda>u.
            step_bind (write_chunks E path (r_chunks response)) (\<lambda>u.
              step_map_err (\<lambda>e. ''Error flushing file: '' @ e) (flush_writer E path))))))"

definition verify_download :: "'w host_ops \<Rightarrow> 'w download_env \<Rightarrow> string \<Rightarrow> string \<Rightarrow> ('w, unit) step" where
  "verify_download H E path sha w =
     (case image_verify_sha256 E path sha w of
        Inr True \<Rightarrow> say H ''Download completed and verified successfully'' w
      | Inr False \<Rightarrow>
          step_bind (step_ignore (h_remove_file H path)) (\<lambda>u.
            step_fail ''Download completed but file SHA256 verification failed'') w
      | Inl e \<Rightarrow>
          step_bind (step_ignore (h_remove_file H path)) (\<lambda>u.
            step_fail (''Download completed but error verifying downloaded file: '' @ e)) w)"

definition extract_image :: "'w host_ops \<Rightarrow> 'w download_env \<Rightarrow> string \<Rightarrow> string \<Rightarrow> ('w, unit) step" where
  "extract_image H E name path =
     step_bind (say H ''Extracting image...'') (\<lambda>u.
     step_bind (step_result (ok_or ''Unable to determine parent directory of downloaded file'' (path_parent path))) (\<lambda>dir.
     let extract_dir = path_join dir name in
     step_bind (h_create_dir_all H extract_dir) (\<lambda>u.
     step_bind (unpack_tar_gz E path extract_dir) (\<lambda>u.
       say H (''Image extracted to: '' @ extract_dir)))))"

definition image_download :: "'w host_ops \<Rightarrow> 'w download_env \<Rightarrow> string \<Rightarrow> string option \<Rightarrow> bool \<Rightarrow> ('w, unit) step" where
  "image_download H E name output_dir extract =
     step_bind (step_result (ok_or (not_found name) (find_by_name name))) (\<lambda>image.
     step_bind (step_result (image_output_path H E name output_dir)) (\<lambda>path.
     step_bind (check_existing H E path (img_sha256 image)) (\<lambda>present.
       if present then step_return ()
       else step_bind (fetch_image H E (img_name image) path) (\<lambda>u.
            step_bind (verify_download H E path (img_sha256 image)) (\<lambda>u.
              if extract then extract_image H E name path else step_return ())))))"

definition image_remove :: "'w host_ops \<Rightarrow> 'w download_env \<Rightarrow> string \<Rightarrow> ('w, unit) step" where
  "image_remove H E name =
     step_bind (step_result (ok_or (not_found name) (find_by_name name))) (\<lambda>image.
     let dir = path_join (temp_dir E) ''axvisor''; tar_file = path_join dir (tar_name name); extract_dir = path_join dir name in
     step_bind (\<lambda>w. if h_exists H tar_file w then step_bind (h_remove_file H tar_file) (\<lambda>u. step_return True) w else (Inr False, w)) (\<lambda>removed1.
     step_bind (\<lambda>w. if h_exists H extract_dir w then step_bind (h_remove_dir_all H extract_dir) (\<lambda>u. step_return True) w else (Inr False, w)) (\<lambda>removed2.
       if removed1 \<or> removed2 then say H ''Image removed successfully'' else say H (''No files found for image: '' @ name))))"

datatype ImageCommands = Image_Ls | Image_Download string "string option" bool | Image_Rm string

definition run_image :: "'w host_ops \<Rightarrow> 'w download_env \<Rightarrow> ImageCommands \<Rightarrow> ('w, unit) step" where
  "run_image H E command =
     (case command of
        Image_Ls \<Rightarrow> step_each (say H) image_list
      | Image_Download name output_dir no_extract \<Rightarrow> image_download H E name output_dir (\<not> no_extract)
      | Image_Rm name \<Rightarrow> image_remove H E name)"

section \<open>What is downloaded is verified\<close>

text \<open>
  The laws: reading a file gives its bytes and then the end; removing a file removes it; making directories leaves the
  files alone, and unpacking changes only what is below its directory.
\<close>

definition image_laws :: "'w host_ops \<Rightarrow> 'w download_env \<Rightarrow> ('w \<Rightarrow> string \<Rightarrow> string option) \<Rightarrow> bool" where
  "image_laws H E files \<longleftrightarrow>
     host_laws H files \<and>
     (\<forall>p w. case files w p of
        None \<Rightarrow> (\<exists>e. open_reads E p w = Inl e)
      | Some c \<Rightarrow> (\<exists>rs. open_reads E p w = Inr (map Inr rs @ [Inr []]) \<and> [] \<notin> set rs \<and> concat rs = c)) \<and>
     (\<forall>p w. files (snd (h_remove_file H p w)) = (files w)(p := None)) \<and>
     (\<forall>p w. files (snd (h_create_dir_all H p w)) = files w) \<and>
     (\<forall>p d q w. \<not> prefix (d @ ''/'') q \<longrightarrow> files (snd (unpack_tar_gz E p d w)) q = files w q)"

lemma hash_loop_ok: "[] \<notin> set rs \<Longrightarrow> hash_loop (map Inr rs @ [Inr []]) acc = Inr (acc @ concat rs)"
  by (induction rs arbitrary: acc) auto

lemma image_laws_reads:
  assumes "image_laws H E files"
  shows "case files w p of
      None \<Rightarrow> (\<exists>e. open_reads E p w = Inl e)
    | Some c \<Rightarrow> (\<exists>rs. open_reads E p w = Inr (map Inr rs @ [Inr []]) \<and> [] \<notin> set rs \<and> concat rs = c)"
  using assms by (simp only: image_laws_def)

lemma verify_true:
  assumes "image_laws H E files" "image_verify_sha256 E path sha w = Inr True"
  shows "\<exists>c. files w path = Some c \<and> sha256_hex E c = sha"
proof (cases "files w path")
  case None
  then obtain e where "open_reads E path w = Inl e" using image_laws_reads[OF assms(1), where w = w and p = path] by auto
  then show ?thesis using assms(2) by (simp add: image_verify_sha256_def)
next
  case (Some c)
  then obtain rs where "open_reads E path w = Inr (map Inr rs @ [Inr []])" "[] \<notin> set rs" "concat rs = c"
    using image_laws_reads[OF assms(1), where w = w and p = path] by auto
  then show ?thesis using assms(2) Some by (simp add: image_verify_sha256_def hash_loop_ok)
qed

lemma files_println: "image_laws H E files \<Longrightarrow> files (h_println H s w) = files w"
  by (simp add: image_laws_def host_laws_def)

text \<open>A download that is not the image is removed.\<close>

lemma bad_download_removed:
  assumes "image_laws H E files" "verify_download H E path sha w = (Inl m, w')"
  shows "files w' path = None"
  using assms by (auto simp: verify_download_def say_def step_defs image_laws_def split: sum.splits bool.splits)


lemma image_names: "\<forall>i\<in>set image_all. img_name i \<noteq> [] \<and> CHR ''/'' \<notin> set (img_name i) \<and> length (img_sha256 i) = 64"
  by (simp add: image_all_def mk_image_def)

lemma find_by_name_Some: "find_by_name name = Some i \<Longrightarrow> img_name i = name \<and> name \<noteq> [] \<and> CHR ''/'' \<notin> set name"
  using image_names by (auto simp: find_by_name_def find_Some_iff)

lemma join_plain:
  "q \<noteq> [] \<Longrightarrow> CHR ''/'' \<notin> set q \<Longrightarrow> \<exists>D. path_join p q = D @ q \<and> (D = [] \<or> last D = CHR ''/'')"
proof -
  assume q: "q \<noteq> []" "CHR ''/'' \<notin> set q"
  then have "\<not> is_absolute q" by (cases q) (auto simp: is_absolute_def starts_with_prefix)
  then show ?thesis
    by (cases "p = [] \<or> ends_with p ''/''") (auto simp: path_join_def ends_with_suffix suffix_def intro: exI[of _ "p @ ''/''"])
qed

lemma slashes_end:
  assumes "D \<noteq> []" "last D = CHR ''/''"
  obtains B n where "D = B @ replicate (Suc n) CHR ''/''" "rev (dropWhile (\<lambda>c. c = CHR ''/'') (rev D)) = B"
proof -
  let ?r = "rev D"
  have "?r = takeWhile (\<lambda>c. c = CHR ''/'') ?r @ dropWhile (\<lambda>c. c = CHR ''/'') ?r" by simp
  moreover have tw: "takeWhile (\<lambda>c. c = CHR ''/'') ?r = replicate (length (takeWhile (\<lambda>c. c = CHR ''/'') ?r)) CHR ''/''"
    by (rule replicate_eqI[symmetric, THEN sym]) (auto dest: set_takeWhileD)
  moreover have "takeWhile (\<lambda>c. c = CHR ''/'') ?r \<noteq> []" using assms by (cases D rule: rev_cases) auto
  ultimately obtain n where "?r = replicate (Suc n) CHR ''/'' @ dropWhile (\<lambda>c. c = CHR ''/'') ?r"
    by (metis length_greater_0_conv Suc_pred)
  then have "D = rev (dropWhile (\<lambda>c. c = CHR ''/'') ?r) @ replicate (Suc n) CHR ''/''"
    by (metis rev_append rev_replicate rev_rev_ident)
  then show ?thesis using that by blast
qed

text \<open>The archive is not below the directory that it is unpacked into.\<close>

lemma archive_outside:
  assumes "name \<noteq> []" "CHR ''/'' \<notin> set name" "path_join p (tar_name name) = path" "path_parent path = Some dir"
  shows "\<not> prefix (path_join dir name @ ''/'') path"
proof -
  have t: "CHR ''/'' \<notin> set (tar_name name)" "tar_name name \<noteq> []" using assms(2) by (simp_all add: tar_name_def)
  have na: "\<not> is_absolute name" using assms(1,2) by (cases name) (auto simp: is_absolute_def starts_with_prefix)
  obtain D where D: "path = D @ tar_name name" "D = [] \<or> last D = CHR ''/''" using join_plain[OF t(2,1), of p] assms(3) by auto
  have "dropWhile (\<lambda>c. c \<noteq> CHR ''/'') (rev (tar_name name) @ rev D) = dropWhile (\<lambda>c. c \<noteq> CHR ''/'') (rev D)"
    by (rule dropWhile_append2) (use t(1) in auto)
  then have r: "dropWhile (\<lambda>c. c \<noteq> CHR ''/'') (rev path) = rev D" using D by (cases D rule: rev_cases) simp_all
  have "hd (tar_name name) \<in> set path" "hd (tar_name name) \<noteq> CHR ''/''"
    using t D(1) by (metis UnCI hd_in_set set_append, metis hd_in_set)
  then have np: "\<not> (path = [] \<or> set path \<subseteq> {CHR ''/''})" by auto
  show ?thesis
  proof (cases "D = []")
    case True
    then have "dir = []" using assms(4) np r by (simp add: path_parent_def)
    then show ?thesis using na D(1) True by (simp add: path_join_def tar_name_def)
  next
    case False
    then have l: "last D = CHR ''/''" using D(2) by simp
    obtain B n where B: "D = B @ replicate (Suc n) CHR ''/''" "rev (dropWhile (\<lambda>c. c = CHR ''/'') (rev D)) = B"
      by (rule slashes_end[OF False l])
    have "path_join dir name = B @ ''/'' @ name"
    proof (cases "set D \<subseteq> {CHR ''/''}")
      case True
      then have "B = []" using B(2) by auto
      moreover have "dir = ''/''" using assms(4) np r True False by (simp add: path_parent_def)
      ultimately show ?thesis using na by (simp add: path_join_def ends_with_suffix)
    next
      case ns: False
      then have "dir = B" using assms(4) np r B(2) by (simp add: path_parent_def)
      moreover have "B \<noteq> []" using ns B(1) by auto
      moreover have "\<not> ends_with B ''/''"
      proof
        assume "ends_with B ''/''"
        then have "hd (rev B) = CHR ''/''" by (auto simp: ends_with_suffix suffix_def)
        moreover have rB: "rev B = dropWhile (\<lambda>c. c = CHR ''/'') (rev D)" using B(2) by auto
        moreover have "dropWhile (\<lambda>c. c = CHR ''/'') (rev D) \<noteq> []" using \<open>B \<noteq> []\<close> unfolding rB[symmetric] by simp
        ultimately show False using hd_dropWhile[of "\<lambda>c. c = CHR ''/''" "rev D"] by metis
      qed
      ultimately show ?thesis using na by (simp add: path_join_def)
    qed
    moreover have "\<not> prefix (''/'' @ name @ ''/'') (replicate (Suc n) CHR ''/'' @ tar_name name)"
    proof (cases n)
      case 0
      then show ?thesis by (simp add: tar_name_def)
    next
      case (Suc k)
      obtain a s where "name = a # s" "a \<noteq> CHR ''/''" using assms(1,2) by (cases name) auto
      then show ?thesis using Suc by simp
    qed
    ultimately show ?thesis using B(1) D(1) by simp
  qed
qed

lemma check_existing_True:
  assumes "image_laws H E files" "check_existing H E path sha w = (Inr True, w')"
  shows "\<exists>c. files w' path = Some c \<and> sha256_hex E c = sha"
proof -
  have "image_verify_sha256 E path sha w = Inr True \<and> w' = h_println H ''Image already exists and verified'' w"
    using assms(2) by (auto simp: check_existing_def step_defs say_def split: if_splits sum.splits bool.splits)
  then show ?thesis using verify_true[OF assms(1)] by (simp add: files_println[OF assms(1)])
qed

lemma verify_download_ok:
  assumes "image_laws H E files" "verify_download H E path sha w = (Inr u, w')"
  shows "\<exists>c. files w' path = Some c \<and> sha256_hex E c = sha"
proof -
  have "image_verify_sha256 E path sha w = Inr True \<and> w' = h_println H ''Download completed and verified successfully'' w"
    using assms(2) by (auto simp: verify_download_def step_defs say_def split: sum.splits bool.splits)
  then show ?thesis using verify_true[OF assms(1)] by (simp add: files_println[OF assms(1)])
qed

lemma image_lawsD:
  assumes "image_laws H E files"
  shows "files (snd (h_remove_file H p w)) = (files w)(p := None)" "files (snd (h_create_dir_all H p w)) = files w"
    "\<not> prefix (d @ ''/'') q \<Longrightarrow> files (snd (unpack_tar_gz E p d w)) q = files w q"
  using assms by (simp_all add: image_laws_def)

lemma extract_keeps_archive:
  assumes "image_laws H E files" "extract_image H E name path w = (Inr u, w')"
    "name \<noteq> []" "CHR ''/'' \<notin> set name" "path_join p (tar_name name) = path"
  shows "files w' path = files w path"
proof -
  obtain dir w1 w2 x where dir: "path_parent path = Some dir"
    and w1: "h_create_dir_all H (path_join dir name) (h_println H ''Extracting image...'' w) = (Inr (), w1)"
    and w2: "unpack_tar_gz E path (path_join dir name) w1 = (Inr x, w2)"
    and w': "w' = h_println H (''Image extracted to: '' @ path_join dir name) w2"
    using assms(2) by (auto simp: extract_image_def step_bind_Inr say_def step_result_def Let_def)
  have "files w1 = files w"
    using image_lawsD(2)[OF assms(1), of "path_join dir name"] w1 files_println[OF assms(1)] by (metis snd_conv)
  moreover have "files w2 path = files w1 path"
    using image_lawsD(3)[OF assms(1) archive_outside[OF assms(3,4,5) dir], of path w1] w2 by simp
  ultimately show ?thesis using w' by (simp add: files_println[OF assms(1)])
qed

lemma output_path_join:
  "image_output_path H E name output_dir = Inr path \<Longrightarrow> \<exists>p. path_join p (tar_name name) = path"
  by (auto simp: image_output_path_def split: option.splits if_splits)

text \<open>
  \<^bold>\<open>C26\<close>: when the download of an image succeeds, whether the image was there already or not and whether it is unpacked
  or not, the archive that is left in the place asked for has the SHA-256 sum of the table; when the archive that
  arrived has another sum it is removed.
\<close>

theorem image_download_verified:
  assumes "image_laws H E files" "image_download H E name output_dir extract w = (Inr u, w')"
  shows "(\<exists>img path c. find_by_name name = Some img \<and> image_output_path H E name output_dir = Inr path \<and>
            files w' path = Some c \<and> sha256_hex E c = img_sha256 img) \<and>
         (\<forall>path sha w1 m w2. verify_download H E path sha w1 = (Inl m, w2) \<longrightarrow> files w2 path = None)"
proof -
  obtain img path present w1 where i: "find_by_name name = Some img"
    and p: "image_output_path H E name output_dir = Inr path"
    and e: "check_existing H E path (img_sha256 img) w = (Inr present, w1)"
    and rest: "(if present then step_return ()
       else step_bind (fetch_image H E (img_name img) path) (\<lambda>u.
            step_bind (verify_download H E path (img_sha256 img)) (\<lambda>u.
              if extract then extract_image H E name path else step_return ()))) w1 = (Inr u, w')"
    using assms(2) unfolding image_download_def by (elim step_elims) (simp add: ok_or_def split: option.splits)
  have "\<exists>c. files w' path = Some c \<and> sha256_hex E c = img_sha256 img"
  proof (cases present)
    case True
    then show ?thesis using check_existing_True[OF assms(1)] e rest by (simp add: step_return_def)
  next
    case False
    then obtain w2 w3 where v: "verify_download H E path (img_sha256 img) w2 = (Inr (), w3)"
      and x: "(if extract then extract_image H E name path else step_return ()) w3 = (Inr u, w')"
      using rest by (auto elim!: step_bindE)
    obtain q where "path_join q (tar_name name) = path" using output_path_join[OF p] by blast
    then have "files w' path = files w3 path"
      using x find_by_name_Some[OF i] extract_keeps_archive[OF assms(1)] by (cases "extract") (auto simp: step_return_def)
    then show ?thesis using verify_download_ok[OF assms(1) v] by simp
  qed
  then show ?thesis using i p bad_download_removed[OF assms(1)] by blast
qed

text \<open>A build machine with a server that has one image, which the hash function below maps to its sum.\<close>

definition demo_env :: "((string \<Rightarrow> string option) \<times> string list) download_env" where
  "demo_env =
     \<lparr>temp_dir = ''/tmp'', sha256_hex = (\<lambda>s. if s = ''kernel'' then img_sha256 (hd image_all) else ''0''),
      open_reads = (\<lambda>p (fs, pr). case fs p of None \<Rightarrow> Inl ''No such file'' | Some c \<Rightarrow> Inr (map (\<lambda>x. Inr [x]) c @ [Inr []])),
      http_get = (\<lambda>url w. (Inr \<lparr>r_success = True, r_status = ''200 OK'', r_chunks = [Inr ''ker'', Inr ''nel'']\<rparr>, w)),
      create_truncated = (\<lambda>p (fs, pr). (Inr (), (fs(p \<mapsto> []), pr))),
      write_chunk = (\<lambda>p c (fs, pr). (Inr (), (fs(p \<mapsto> (case fs p of None \<Rightarrow> c | Some b \<Rightarrow> b @ c)), pr))),
      flush_writer = (\<lambda>p w. (Inr (), w)),
      unpack_tar_gz = (\<lambda>p d (fs, pr). (Inr (), (fs((d @ ''/image'') \<mapsto> []), pr)))\<rparr>"

lemma concat_singletons: "concat (map (\<lambda>x. [x]) c) = c"
  by (induction c) auto

lemma demo_laws: "image_laws map_host demo_env fst"
proof -
  have "case fst w p of None \<Rightarrow> \<exists>e. open_reads demo_env p w = Inl e
    | Some c \<Rightarrow> \<exists>rs. open_reads demo_env p w = Inr (map Inr rs @ [Inr []]) \<and> [] \<notin> set rs \<and> concat rs = c" for w p
  proof (cases "fst w p")
    case (Some c)
    then show ?thesis
      by (cases w) (auto simp: demo_env_def concat_singletons intro!: exI[of _ "map (\<lambda>x. [x]) c"])
  qed (cases w, simp add: demo_env_def)
  then show ?thesis unfolding image_laws_def
    by (intro conjI allI impI map_host_laws) (auto simp: map_host_def demo_env_def)
qed

theorem image_download_verified_witness:
  "\<exists>w' c. image_download map_host demo_env ''evm3588_arceos'' (Some ''/images'') True (Map.empty, []) = (Inr (), w') \<and>
     fst w' ''/images/evm3588_arceos.tar.gz'' = Some c \<and> sha256_hex demo_env c = img_sha256 (hd image_all)"
proof -
  have i: "find_by_name ''evm3588_arceos'' = Some (hd image_all)" "img_name (hd image_all) = ''evm3588_arceos''"
    by (simp_all add: find_by_name_def image_all_def mk_image_def)
  have p: "image_output_path map_host demo_env ''evm3588_arceos'' (Some ''/images'') = Inr ''/images/evm3588_arceos.tar.gz''"
    by (simp add: image_output_path_def is_absolute_def starts_with_prefix path_join_def tar_name_def ends_with_suffix suffix_def)
  have "\<exists>w'. image_download map_host demo_env ''evm3588_arceos'' (Some ''/images'') True (Map.empty, []) = (Inr (), w')"
    by (simp only: image_download_def i p step_defs ok_or_simps sum.case prod.case)
       (simp add: step_defs check_existing_def fetch_image_def verify_download_def extract_image_def
        image_verify_sha256_def path_parent_def say_def map_host_def demo_env_def Let_def)
  then obtain w' where w': "image_download map_host demo_env ''evm3588_arceos'' (Some ''/images'') True (Map.empty, []) = (Inr (), w')"
    by blast
  show ?thesis using image_download_verified[OF demo_laws w'] i p w' by auto
qed

text \<open>An archive that is there and verified is not unpacked, even when unpacking is asked for.\<close>

lemma present_not_unpacked:
  assumes "find_by_name name = Some img" "image_output_path H E name output_dir = Inr path" "h_exists H path w"
    "image_verify_sha256 E path (img_sha256 img) w = Inr True"
  shows "image_download H E name output_dir True w = (Inr (), h_println H ''Image already exists and verified'' w)"
  using assms by (simp add: image_download_def check_existing_def step_defs say_def)

end
