(* ===== verification/Spec2Isabelle.thy ===== *)
theory Spec2Isabelle
  imports VM_List IVC Hypercall VCpus Shell_Parser Shell_Commands Shell_Line Shell_VmShow Shell_Vm
    Axfs_Dev Axfs_Partition Axfs_Root Axfs_Boot Axfs_Fops
    Fdt_Device Fdt_Create Fdt_Parser VM_Images VM_Config Shell_Base Timer
    Axfs_Ext4 Axfs_Fat Axfs_Api Boot Platform_X86 Runtime Hal Drivers
    Xtask_Base Xtask_Devspace Xtask_Image
begin

text \<open>
  Verification of the AxVisor hypervisor (\<^verbatim>\<open>src/\<close>). The definitions translate the Rust sources function by function; the
  theorems marked \<^bold>\<open>C\<close> with a number are the properties that the development is kept for, and the other lemmas carry
  their proofs or record behaviour that is easy to get wrong.

  \<^bold>\<open>The program.\<close> AxVisor is a type-1 hypervisor. The platform layer brings up the processors, the runtime starts the
  kernel, the kernel enables virtualization on every processor and then creates virtual machines from configuration
  files: it derives a device tree for each guest, loads the guest's images, and runs one task per virtual processor.
  Guests talk to each other through shared-memory channels, which they ask for by hypercalls. A shell on the console
  manages the machines and the files. The files are on FAT or ext4 partitions behind a mount table. The build tool
  \<^verbatim>\<open>xtask\<close> prepares the source tree and the guest images.

  \<^bold>\<open>Conventions.\<close> Machine integers are words (\<^verbatim>\<open>usize\<close> and \<^verbatim>\<open>u64\<close> are 64 bits) and their arithmetic wraps around as in a
  release build; lengths and indices of vectors are natural numbers. Strings are ASCII. A \<^verbatim>\<open>Result\<close> is a sum with the
  error on the left (\<open>ax_result\<close>), a possible panic is an \<open>outcome\<close>, a loop that may not end is a partial function with
  result \<open>None\<close> for not returning. A \<^verbatim>\<open>BTreeMap\<close> is a sorted association list. Code outside \<^verbatim>\<open>src/\<close> is an argument: a
  record of operations, with what the proofs need of it as a named predicate (names ending in \<open>laws\<close>), which each
  witness discharges for a concrete instance. Messages of the \<^verbatim>\<open>log\<close> macros are left out; what the shell prints is modelled.

  \<^bold>\<open>Shared theories.\<close>
  \<^item> \<open>Axv_Prelude\<close>: types of integers and results, strings, parsing and printing of numbers, bytes and words.
  \<^item> \<open>Axv_BTreeMap\<close>: ordered maps, with the contract \<open>ordered_map\<close>, and the contract \<open>transition_system\<close> for invariants of
    reachable states; both are interpreted on the definitions of the components.
  \<^item> \<open>Xtask_Base\<close>: steps of the build tool that may fail, the build machine, paths.

  \<^bold>\<open>Virtual machines\<close> (\<^verbatim>\<open>kernel/src/vmm\<close>).
  \<^item> \<open>VM_List\<close> (\<^verbatim>\<open>vm_list.rs\<close>, \<^verbatim>\<open>mod.rs\<close>): the table of machines; it refines a partial map in which the first machine pushed
    under an identifier stays.
  \<^item> \<open>IVC\<close> and \<open>Hypercall\<close> (\<^verbatim>\<open>ivc.rs\<close>, \<^verbatim>\<open>hvc.rs\<close>): channels, their frames and subscribers, and the four hypercalls, with drops
    written out. The frames in use are exactly those of the existing channels in every interleaving and on every path of
    a hypercall; which operations free a frame is stated exactly.
  \<^item> \<open>VCpus\<close> (\<^verbatim>\<open>vcpus.rs\<close>, \<^verbatim>\<open>task.rs\<close>): the tasks of virtual processors as a step relation over wait queues and counters. The count
    of running tasks is exact; a blocked task stays blocked until its machine is notified.
  \<^item> \<open>Timer\<close> (\<^verbatim>\<open>timer.rs\<close>): timers per processor; one pass over them ends and fires exactly the due ones.
  \<^item> \<open>VM_Images\<close> and \<open>VM_Config\<close> (\<^verbatim>\<open>images/\<close>, \<^verbatim>\<open>config.rs\<close>): kernel headers, loading of images from memory and files, and the
    creation of a machine as a whole, with what ends up in the guest's memory byte by byte.
  \<^item> \<open>Fdt_Device\<close>, \<open>Fdt_Create\<close>, \<open>Fdt_Parser\<close> (\<^verbatim>\<open>fdt/\<close>): which devices are passed through (a closure under dependencies), the
    pruned tree of the guest, processor masks, and the address ranges taken from the guest's tree.
  \<^item> \<open>Hal\<close> (\<^verbatim>\<open>kernel/src/hal\<close>, \<^verbatim>\<open>arch/aarch64\<close>): injection of interrupts, list registers of the interrupt controllers, contiguous
    frames, with the cases that panic and the sizes that wrap around.

  \<^bold>\<open>Boot\<close> (\<^verbatim>\<open>modules/axruntime\<close>, \<^verbatim>\<open>platform/x86-qemu-q35\<close>, \<^verbatim>\<open>kernel/src/main.rs\<close>).
  \<^item> \<open>Boot\<close>: the programs of the primary and secondary processors and of the threads that enable virtualization, interleaved by
    a step relation with the counters they wait on. Machines are set up only when every processor is ready, and the boot
    completes under the stated conditions; the number of steps is bounded by the length of the programs.
  \<^item> \<open>Platform_X86\<close>: memory map, clock and timer, interrupt lines, start page of the processors, console, power. Commands to
    the hardware are a log.
  \<^item> \<open>Runtime\<close>: the heap and the periodic timer, with the bounds within which its deadlines are right.

  \<^bold>\<open>Shell\<close> (\<^verbatim>\<open>kernel/src/shell\<close>): \<open>Shell_Parser\<close> and \<open>Shell_Commands\<close> (words, options and flags, the tree of commands),
  \<open>Shell_Line\<close> (the line editor with history, which refines a plain line), \<open>Shell_Vm\<close> and \<open>Shell_VmShow\<close> (the commands on
  machines; the wait of a restart has fuel 50, as the code counts, and is shown to end), \<open>Shell_Base\<close> (the commands on files).

  \<^bold>\<open>Files\<close> (\<^verbatim>\<open>modules/axfs\<close>): \<open>Axfs_Dev\<close> (disks and partitions as streams of bytes over blocks, with the contracts
  \<open>block_stream\<close> and \<open>block_rw\<close>), \<open>Axfs_Partition\<close> (the partition table), \<open>Axfs_Root\<close> (mount table, paths, current directory),
  \<open>Axfs_Boot\<close> (the root argument and partition), \<open>Axfs_Fops\<close> and \<open>Axfs_Api\<close> (handles with rights, directory iteration, the
  API, the contents of \<^verbatim>\<open>/proc\<close> and \<^verbatim>\<open>/sys\<close>), \<open>Axfs_Ext4\<close> and \<open>Axfs_Fat\<close> (the adapters of the two file systems).

  \<^bold>\<open>Drivers\<close> (\<^verbatim>\<open>modules/driver\<close>): \<open>Drivers\<close> has block requests, clocks and probing; a block written is read back and nothing
  else on the card changes.

  \<^bold>\<open>Build tool\<close> (\<^verbatim>\<open>xtask/src\<close>): \<open>Xtask_Devspace\<close> (patching the configuration of cargo can be undone), \<open>Xtask_Image\<close> (what is
  downloaded is verified).

  \<^bold>\<open>Parameters.\<close> The VM object and its configuration, the TOML and JSON formats, the blob format of device trees, the timer
  list, the frame and heap allocators, the interrupt handler table, the ext4, FAT and in-memory file systems, the file
  system of \<^verbatim>\<open>axstd\<close> that the shell calls, \<^verbatim>\<open>cargo\<close>, \<^verbatim>\<open>git\<close>, the network, hashing and unpacking. Lists that hash maps give are in
  the order of their iteration.

  \<^bold>\<open>Not modelled.\<close> The assembly entry code (\<^verbatim>\<open>platform/x86-qemu-q35/src/boot.rs\<close> and its assembly files), the cache maintenance
  instructions (\<^verbatim>\<open>arch/*/cache.rs\<close>) and the panic handler (\<^verbatim>\<open>lang_items.rs\<close>) have no content beyond machine instructions. Raw
  pointers into shared memory (\<^verbatim>\<open>IVCChannel::data_region\<close>) and reference-count debug output are left out. The statistics
  over a device tree in \<^verbatim>\<open>fdt/print.rs\<close> and the banner (\<^verbatim>\<open>logo.rs\<close>) only log. Of the build tool, the commands that only call
  \<^verbatim>\<open>ostool\<close>, \<^verbatim>\<open>jkconfig\<close> or \<^verbatim>\<open>schemars\<close> (\<^verbatim>\<open>cargo.rs\<close>, \<^verbatim>\<open>menuconfig.rs\<close>, \<^verbatim>\<open>vmconfig.rs\<close>, \<^verbatim>\<open>ctx.rs\<close>) have no logic of their own;
  \<^verbatim>\<open>clippy.rs\<close>, \<^verbatim>\<open>tbuld.rs\<close>, the command line in \<^verbatim>\<open>main.rs\<close> and the kernel's build script are not translated yet.
\<close>

end
